(* ===== verification/Prelude.thy ===== *)
theory Prelude
  imports Main "HOL-Library.AList" "HOL-Library.Word"
begin

text \<open>
  Shared vocabulary of the development: how the values of the TypeScript sources are
  represented, and the generic facts on lists, maps and strings that the component
  theories use.

  \<^item> A JavaScript \<open>string\<close> is a HOL \<open>string\<close>, one \<open>char\<close> per UTF-16 code unit; the text
    handled by the modelled functions stays below code unit 256.  Case mapping is the
    ASCII one.
  \<^item> A \<open>number\<close> that the sources use as an integer (revision, epoch milliseconds,
    generation, length) is an \<open>int\<close> or a \<open>nat\<close>; where the width matters (bit
    operators, typed arrays) it is a machine word.
  \<^item> A \<open>Map\<close> is an association list in insertion order: \<open>AList.update\<close> keeps the position
    of a key that is present and appends a new one, which is the iteration order of
    \<open>Map.prototype.set\<close>; \<open>AList.delete\<close> is \<open>Map.prototype.delete\<close>, \<open>map_of\<close> is
    \<open>Map.prototype.get\<close>.
  \<^item> A \<open>Uint8Array\<close> is a list of 8-bit words.
  \<^item> A thrown value is the left side of a sum; a function that writes state before it
    throws returns the state next to the sum.
\<close>

type_synonym id = string
type_synonym epoch_ms = int
type_synonym uint8 = "8 word"
type_synonym bytes = "uint8 list"
type_synonym ('k, 'v) js_map = "('k \<times> 'v) list"

named_theorems frame_simps \<open>what an operation leaves unchanged\<close>
named_theorems invar_intros \<open>operations that keep a well-formedness invariant\<close>


section \<open>JavaScript maps\<close>

definition map_wf :: "('k, 'v) js_map \<Rightarrow> bool" where
  "map_wf m \<longleftrightarrow> distinct (map fst m)"

abbreviation map_values :: "('k, 'v) js_map \<Rightarrow> 'v list" where
  "map_values m \<equiv> map snd m"

lemma map_wf_empty [simp]: "map_wf []"
  by (simp add: map_wf_def)

lemma map_wf_update [simp, intro]: "map_wf m \<Longrightarrow> map_wf (AList.update k v m)"
  by (simp add: map_wf_def distinct_update)

lemma map_wf_delete [simp, intro]: "map_wf m \<Longrightarrow> map_wf (AList.delete k m)"
  by (simp add: map_wf_def distinct_delete)

lemma map_of_update [simp]: "map_of (AList.update k v m) = (map_of m)(k \<mapsto> v)"
  by (rule update_conv')

lemma map_of_delete [simp]: "map_of (AList.delete k m) = (map_of m)(k := None)"
  by (rule delete_conv')

lemma map_wf_mem: "map_wf m \<Longrightarrow> (k, v) \<in> set m \<longleftrightarrow> map_of m k = Some v"
  by (simp add: map_wf_def)

lemma map_values_ran: "map_wf m \<Longrightarrow> set (map_values m) = ran (map_of m)"
  by (simp add: map_wf_def ran_distinct)

lemma keys_update_present:
  "k \<in> fst ` set m \<Longrightarrow> map fst (AList.update k v m) = map fst m"
  by (simp add: update_keys)

lemma keys_update_absent:
  "k \<notin> fst ` set m \<Longrightarrow> AList.update k v m = m @ [(k, v)]"
  by (induction m) auto

lemma update_present_split:
  "map_wf (xs @ (k, u) # ys) \<Longrightarrow> AList.update k v (xs @ (k, u) # ys) = xs @ (k, v) # ys"
  by (induction xs) (auto simp: map_wf_def)


text \<open>A map whose keys are a function of the stored value (an object store with a key path).\<close>

definition keyed :: "('v \<Rightarrow> 'k) \<Rightarrow> ('k, 'v) js_map \<Rightarrow> bool" where
  "keyed f m \<longleftrightarrow> map_wf m \<and> (\<forall>k x. map_of m k = Some x \<longrightarrow> f x = k)"

lemma keyed_empty [simp]: "keyed f []"
  by (simp add: keyed_def)

lemma keyed_update [simp, intro]: "keyed f m \<Longrightarrow> keyed f (AList.update (f x) x m)"
  by (auto simp: keyed_def)

lemma keyed_delete [simp, intro]: "keyed f m \<Longrightarrow> keyed f (AList.delete k m)"
  by (auto simp: keyed_def)

lemma keyed_get: "keyed f m \<Longrightarrow> map_of m k = Some x \<Longrightarrow> f x = k"
  by (simp add: keyed_def)

lemma keyed_values: "keyed f m \<Longrightarrow> x \<in> set (map_values m) \<longleftrightarrow> map_of m (f x) = Some x"
  by (auto simp: keyed_def map_values_ran ran_def simp del: set_map)

lemma keyed_distinct:
  assumes "keyed f m"
  shows "distinct (map f (map_values m))"
proof -
  have "map f (map_values m) = map fst m"
    using assms by (auto simp: keyed_def map_wf_mem [symmetric])
  with assms show ?thesis by (simp only: keyed_def map_wf_def)
qed


section \<open>Strings\<close>

text \<open>Decimal rendering of integers, as template literals and \<open>Number.prototype.toString\<close> do.\<close>

definition digit_char :: "nat \<Rightarrow> char" where
  "digit_char d = char_of (48 + d)"

fun string_of_nat :: "nat \<Rightarrow> string" where
  "string_of_nat n =
     (if n < 10 then [digit_char n] else string_of_nat (n div 10) @ [digit_char (n mod 10)])"

declare string_of_nat.simps [simp del]

lemma string_of_nat_nonempty: "string_of_nat n \<noteq> []"
  by (subst string_of_nat.simps) simp

definition string_of_int :: "int \<Rightarrow> string" where
  "string_of_int i = (if i < 0 then ''-'' @ string_of_nat (nat (- i)) else string_of_nat (nat i))"

text \<open>The value of a decimal numeral, the left inverse of the rendering.\<close>

definition char_digit :: "char \<Rightarrow> nat" where
  "char_digit c = of_char c - 48"

definition nat_of_string :: "string \<Rightarrow> nat" where
  "nat_of_string s = foldl (\<lambda>acc c. 10 * acc + char_digit c) 0 s"

lemma char_digit_digit_char [simp]: "d < 10 \<Longrightarrow> char_digit (digit_char d) = d"
  by (simp add: char_digit_def digit_char_def)

lemma nat_of_string_of_nat [simp]: "nat_of_string (string_of_nat n) = n"
proof (induction n rule: string_of_nat.induct)
  case (1 n)
  show ?case
  proof (cases "n < 10")
    case True
    then show ?thesis by (simp add: string_of_nat.simps nat_of_string_def)
  next
    case False
    with "1" have "nat_of_string (string_of_nat (n div 10)) = n div 10" by simp
    with False show ?thesis
      by (subst string_of_nat.simps) (simp add: nat_of_string_def)
  qed
qed

lemma string_of_nat_inj: "string_of_nat m = string_of_nat n \<Longrightarrow> m = n"
  by (metis nat_of_string_of_nat)

lemma string_of_nat_length: "10 ^ (length (string_of_nat n) - 1) \<le> n \<or> length (string_of_nat n) = 1"
proof (induction n rule: string_of_nat.induct)
  case (1 n)
  show ?case
  proof (cases "n < 10")
    case True
    then show ?thesis by (simp add: string_of_nat.simps)
  next
    case False
    let ?q = "string_of_nat (n div 10)"
    from False have len: "length (string_of_nat n) = Suc (length ?q)"
      by (subst string_of_nat.simps) simp
    have ne: "length ?q \<noteq> 0" by (subst string_of_nat.simps) simp
    from False "1" consider "10 ^ (length ?q - 1) \<le> n div 10" | "length ?q = 1" by auto
    then show ?thesis
    proof cases
      case 1
      then have "10 ^ (length ?q - 1) * 10 \<le> n" by linarith
      moreover have "10 ^ length ?q = (10::nat) ^ (length ?q - 1) * 10"
        using ne by (cases "length ?q") auto
      ultimately show ?thesis by (simp add: len)
    next
      case 2
      with False show ?thesis by (simp add: len)
    qed
  qed
qed

lemma string_of_nat_bound: "n < 10 ^ d \<Longrightarrow> 0 < d \<Longrightarrow> length (string_of_nat n) \<le> d"
proof (rule ccontr)
  assume lt: "n < 10 ^ d" and d: "0 < d" and long: "\<not> length (string_of_nat n) \<le> d"
  with string_of_nat_length [of n] have "10 ^ (length (string_of_nat n) - 1) \<le> n" by auto
  moreover have "(10::nat) ^ d \<le> 10 ^ (length (string_of_nat n) - 1)"
    using long by (intro power_increasing) auto
  ultimately show False using lt by linarith
qed

lemma string_of_nat_digits: "set (string_of_nat n) \<subseteq> set ''0123456789''"
proof (induction n rule: string_of_nat.induct)
  case (1 n)
  have dig: "digit_char d \<in> set ''0123456789''" if "d < 10" for d
  proof -
    have "list_all (\<lambda>d. digit_char d \<in> set ''0123456789'') [0..<10]" by code_simp
    with that show ?thesis by (simp add: list_all_iff)
  qed
  show ?case
  proof (cases "n < 10")
    case True
    then show ?thesis using dig by (simp add: string_of_nat.simps)
  next
    case False
    then have "set (string_of_nat n) = insert (digit_char (n mod 10)) (set (string_of_nat (n div 10)))"
      by (subst string_of_nat.simps) simp
    with False "1" dig [of "n mod 10"] show ?thesis by simp
  qed
qed

text \<open>\<open>String.prototype.padStart\<close> with a one-character filler.\<close>

definition padStart :: "string \<Rightarrow> nat \<Rightarrow> char \<Rightarrow> string" where
  "padStart s n c = replicate (n - length s) c @ s"

lemma length_padStart [simp]: "length (padStart s n c) = max n (length s)"
  by (simp add: padStart_def)

lemma set_padStart: "set (padStart s n c) \<subseteq> insert c (set s)"
  by (auto simp: padStart_def)

lemma nat_of_string_padStart [simp]:
  "nat_of_string (padStart s n CHR ''0'') = nat_of_string s"
proof -
  have "foldl (\<lambda>acc c. 10 * acc + char_digit c) 0 (replicate k CHR ''0'') = 0" for k
    by (induction k) (simp_all add: char_digit_def)
  then show ?thesis by (simp add: padStart_def nat_of_string_def)
qed

text \<open>ASCII letters: \<open>toLowerCase\<close>, \<open>toUpperCase\<close>; white space: \<open>\s\<close> and \<open>trim\<close>.\<close>

definition char_lower :: "char \<Rightarrow> char" where
  "char_lower c = (if 65 \<le> (of_char c :: nat) \<and> (of_char c :: nat) \<le> 90 then char_of ((of_char c :: nat) + 32) else c)"

definition char_upper :: "char \<Rightarrow> char" where
  "char_upper c = (if 97 \<le> (of_char c :: nat) \<and> (of_char c :: nat) \<le> 122 then char_of ((of_char c :: nat) - 32) else c)"

definition toLowerCase :: "string \<Rightarrow> string" where
  "toLowerCase s = map char_lower s"

definition toUpperCase :: "string \<Rightarrow> string" where
  "toUpperCase s = map char_upper s"

definition is_space :: "char \<Rightarrow> bool" where
  "is_space c \<longleftrightarrow> (let n = (of_char c :: nat) in n = 32 \<or> (9 \<le> n \<and> n \<le> 13) \<or> n = 160)"

definition trim :: "string \<Rightarrow> string" where
  "trim s = rev (dropWhile is_space (rev (dropWhile is_space s)))"

text \<open>\<open>String.prototype.includes\<close>: substring search.\<close>

fun is_prefix :: "string \<Rightarrow> string \<Rightarrow> bool" where
  "is_prefix [] s = True"
| "is_prefix (p # ps) [] = False"
| "is_prefix (p # ps) (c # cs) = (p = c \<and> is_prefix ps cs)"

fun str_includes :: "string \<Rightarrow> string \<Rightarrow> bool" where
  "str_includes [] q = (q = [])"
| "str_includes (c # cs) q = (is_prefix q (c # cs) \<or> str_includes cs q)"

lemma is_prefix_iff: "is_prefix p s \<longleftrightarrow> (\<exists>t. s = p @ t)"
  by (induction p s rule: is_prefix.induct) auto

lemma str_includes_iff: "str_includes s q \<longleftrightarrow> (\<exists>a b. s = a @ q @ b)"
proof (induction s)
  case Nil
  then show ?case by auto
next
  case (Cons c cs)
  have "(\<exists>a b. c # cs = a @ q @ b) \<longleftrightarrow> (\<exists>b. c # cs = q @ b) \<or> (\<exists>a b. cs = a @ q @ b)"
    by (metis append_Cons append_Nil append_eq_Cons_conv list.inject)
  with Cons show ?case by (simp add: is_prefix_iff)
qed

end
