(* ===== verification/Contracts.thy ===== *)
theory Contracts
  imports Prelude
begin

text \<open>
  The wire types of \<open>packages/contracts/src/index.ts\<close> that the clients exchange with the
  server, and the error classes of the SDK (\<open>packages/sdk/src/http-client.ts\<close>,
  \<open>packages/sdk/src/repository.ts\<close>).  Ciphertexts and cursors are opaque strings: no
  modelled component of the SDK looks inside them.
\<close>

record item_record =
  itemId :: id
  vaultId :: id
  ciphertext :: string
  envelopeVersion :: string
  revision :: int
  deleted :: bool
  createdAt :: string
  updatedAt :: string

record mutation =
  mut_mutationId :: id
  mut_itemId :: id
  mut_vaultId :: id
  mut_baseRevision :: int
  mut_ciphertext :: string
  mut_envelopeVersion :: string
  mut_deleted :: bool

record change_page =
  changes :: "item_record list"
  nextCursor :: "string option"

record conflict =
  cf_mutationId :: id
  cf_current :: item_record
  cf_attempted :: mutation

datatype conflict_reason = Revision_regression | Revision_mismatch

text \<open>
  The errors the SDK throws: a definite HTTP answer, a failed \<open>fetch\<close>, a record that the
  repository refuses, and any other \<open>Error\<close> (a storage failure, a rejected page), which the
  code only reads the message of.
\<close>

datatype sdk_error =
    HttpError int
  | NetworkError
  | RecordConflictError conflict_reason string
  | JsError string

fun error_message :: "sdk_error \<Rightarrow> string" where
  "error_message (HttpError status) = ''HTTP '' @ string_of_int status"
| "error_message NetworkError = ''network request failed''"
| "error_message (RecordConflictError _ msg) = msg"
| "error_message (JsError msg) = msg"

end
