(* ===== verification/Repository.thy ===== *)
theory Repository
  imports Contracts
begin

text \<open>
  The encrypted local repository: the guard \<open>assertMonotonicPut\<close>, the queue entries and the
  interface \<open>LocalRepository\<close> of \<open>packages/sdk/src/repository.ts\<close>, with the in-memory
  implementation of the same file; the IndexedDB one is in the theory \<open>Indexed_Db\<close>.

  The interface is the record \<open>local_repository\<close> of operations over a state type, which the
  clients of a repository take as an argument, as the TypeScript classes take a
  \<open>LocalRepository\<close>.  Its contract is the locale \<open>repository_laws\<close>; both implementations
  satisfy it.  A write can fail (a refused record, an aborted IndexedDB
  transaction); a failed write leaves the stored data as it was.
\<close>


section \<open>Queue entries\<close>

datatype sync_state = LOCAL_DIRTY | SYNCING | RETRYABLE | CONFLICT | LOCAL_CLEAN

record queued_mutation =
  q_mutation :: mutation
  q_state :: sync_state
  q_attempts :: nat
  q_nextRetryAt :: "epoch_ms option"
  q_lastError :: "string option"

abbreviation q_id :: "queued_mutation \<Rightarrow> id" where
  "q_id q \<equiv> mut_mutationId (q_mutation q)"


section \<open>The monotonicity guard\<close>

definition sameRecordBytes :: "item_record \<Rightarrow> item_record \<Rightarrow> bool" where
  "sameRecordBytes a b \<longleftrightarrow>
     ciphertext a = ciphertext b \<and> envelopeVersion a = envelopeVersion b \<and>
     deleted a = deleted b \<and> createdAt a = createdAt b \<and> updatedAt a = updatedAt b"

definition assertMonotonicPut :: "item_record option \<Rightarrow> item_record \<Rightarrow> sdk_error option" where
  "assertMonotonicPut existing incoming =
     (case existing of
        None \<Rightarrow> None
      | Some ex \<Rightarrow>
          if revision incoming < revision ex then
            Some (RecordConflictError Revision_regression
              (''putItem rejected: revision '' @ string_of_int (revision incoming) @
               '' regresses stored revision '' @ string_of_int (revision ex) @ '' for '' @
               vaultId incoming @ ''/'' @ itemId incoming))
          else if revision incoming = revision ex \<and> \<not> sameRecordBytes ex incoming then
            Some (RecordConflictError Revision_mismatch
              (''putItem rejected: revision '' @ string_of_int (revision incoming) @ '' for '' @
               vaultId incoming @ ''/'' @ itemId incoming @
               '' is already stored with different content''))
          else None)"

text \<open>
  The order the guard enforces on the versions of one record: a strictly higher revision, or
  the same revision with the same bytes.
\<close>

definition supersedes :: "item_record \<Rightarrow> item_record \<Rightarrow> bool" where
  "supersedes new old \<longleftrightarrow>
     revision old < revision new \<or> (revision old = revision new \<and> sameRecordBytes old new)"

lemma sameRecordBytes_refl [simp]: "sameRecordBytes a a"
  by (simp add: sameRecordBytes_def)

lemma sameRecordBytes_trans: "sameRecordBytes a b \<Longrightarrow> sameRecordBytes b c \<Longrightarrow> sameRecordBytes a c"
  by (simp add: sameRecordBytes_def)

lemma supersedes_refl [simp]: "supersedes a a"
  by (simp add: supersedes_def)

lemma supersedes_trans: "supersedes c b \<Longrightarrow> supersedes b a \<Longrightarrow> supersedes c a"
  by (auto simp: supersedes_def dest: sameRecordBytes_trans)

lemma assertMonotonicPut_None_iff:
  "assertMonotonicPut existing incoming = None \<longleftrightarrow>
     (\<forall>ex. existing = Some ex \<longrightarrow> supersedes incoming ex)"
  by (auto simp: assertMonotonicPut_def supersedes_def split: option.splits)

lemma assertMonotonicPut_error:
  "assertMonotonicPut existing incoming = Some e \<Longrightarrow> \<exists>r msg. e = RecordConflictError r msg"
  by (auto simp: assertMonotonicPut_def split: option.splits if_splits)


section \<open>The interface\<close>

record 's local_repository =
  getItem :: "'s \<Rightarrow> id \<Rightarrow> id \<Rightarrow> item_record option"
  putItem :: "'s \<Rightarrow> item_record \<Rightarrow> sdk_error + 's"
  listItems :: "'s \<Rightarrow> id \<Rightarrow> item_record list"
  getCursor :: "'s \<Rightarrow> id \<Rightarrow> string option"
  setCursor :: "'s \<Rightarrow> id \<Rightarrow> string \<Rightarrow> sdk_error + 's"
  enqueueMutation :: "'s \<Rightarrow> queued_mutation \<Rightarrow> sdk_error + 's"
  getQueuedMutation :: "'s \<Rightarrow> id \<Rightarrow> queued_mutation option"
  listQueuedMutations :: "'s \<Rightarrow> queued_mutation list"
  dequeueMutation :: "'s \<Rightarrow> id \<Rightarrow> sdk_error + 's"

text \<open>
  What a conforming repository promises about the vaults whose identifier satisfies \<open>ok\<close>: a record is
  stored exactly when the guard lets it, each write changes one entry of one of the three
  stores, and the queue holds one entry per mutation identifier.
\<close>

locale repository_laws =
  fixes repo :: "'s local_repository"
    and invar :: "'s \<Rightarrow> bool"
    and ok :: "id \<Rightarrow> bool"
  assumes put_ok:
      "invar s \<Longrightarrow> putItem repo s r = Inr s' \<Longrightarrow>
         invar s' \<and> assertMonotonicPut (getItem repo s (vaultId r) (itemId r)) r = None"
    and put_get:
      "invar s \<Longrightarrow> ok (vaultId r) \<Longrightarrow> ok v \<Longrightarrow> putItem repo s r = Inr s' \<Longrightarrow>
         getItem repo s' v i =
           (if v = vaultId r \<and> i = itemId r then Some r else getItem repo s v i)"
    and put_frame:
      "putItem repo s r = Inr s' \<Longrightarrow>
         getCursor repo s' = getCursor repo s \<and> listQueuedMutations repo s' = listQueuedMutations repo s"
    and put_refused:
      "invar s \<Longrightarrow> assertMonotonicPut (getItem repo s (vaultId r) (itemId r)) r = Some e \<Longrightarrow>
         putItem repo s r = Inl e"
    and cursor_set:
      "invar s \<Longrightarrow> setCursor repo s v c = Inr s' \<Longrightarrow>
         invar s' \<and> getCursor repo s' = (getCursor repo s)(v \<mapsto> c) \<and>
         getItem repo s' = getItem repo s \<and> listQueuedMutations repo s' = listQueuedMutations repo s"
    and enqueue_set:
      "invar s \<Longrightarrow> enqueueMutation repo s q = Inr s' \<Longrightarrow>
         invar s' \<and> getQueuedMutation repo s' = (getQueuedMutation repo s)(q_id q \<mapsto> q) \<and>
         getItem repo s' = getItem repo s \<and> getCursor repo s' = getCursor repo s"
    and dequeue_del:
      "invar s \<Longrightarrow> dequeueMutation repo s m = Inr s' \<Longrightarrow>
         invar s' \<and> getQueuedMutation repo s' = (getQueuedMutation repo s)(m := None) \<and>
         getItem repo s' = getItem repo s \<and> getCursor repo s' = getCursor repo s"
    and queue_list:
      "invar s \<Longrightarrow> q \<in> set (listQueuedMutations repo s) \<longleftrightarrow> getQueuedMutation repo s (q_id q) = Some q"
    and queue_distinct: "invar s \<Longrightarrow> distinct (map q_id (listQueuedMutations repo s))"
    and queue_key: "invar s \<Longrightarrow> getQueuedMutation repo s m = Some q \<Longrightarrow> q_id q = m"
    and items_list:
      "invar s \<Longrightarrow> r \<in> set (listItems repo s v) \<longleftrightarrow>
         vaultId r = v \<and> getItem repo s v (itemId r) = Some r"
    and put_queue: "putItem repo s r = Inr s' \<Longrightarrow> getQueuedMutation repo s' = getQueuedMutation repo s"
    and cursor_queue: "setCursor repo s v c = Inr s' \<Longrightarrow> getQueuedMutation repo s' = getQueuedMutation repo s"
begin

lemma put_supersedes:
  assumes "invar s" "ok (vaultId r)" "ok v"
    and "putItem repo s r = Inr s'" "getItem repo s v i = Some old"
  shows "\<exists>new. getItem repo s' v i = Some new \<and> supersedes new old"
proof (cases "v = vaultId r \<and> i = itemId r")
  case True
  with assms put_ok [of s r s'] put_get [of s r v s' i] show ?thesis
    by (auto simp: assertMonotonicPut_None_iff)
next
  case False
  with assms put_get [of s r v s' i] show ?thesis by auto
qed

lemma enqueue_replaces:
  assumes "invar s" "enqueueMutation repo s q = Inr s'"
  shows "set (listQueuedMutations repo s') =
    insert q {q' \<in> set (listQueuedMutations repo s). q_id q' \<noteq> q_id q}"
  using assms enqueue_set [OF assms]
  by (auto simp: queue_list split: if_splits)

lemma dequeue_removes:
  assumes "invar s" "dequeueMutation repo s m = Inr s'"
  shows "set (listQueuedMutations repo s') = {q \<in> set (listQueuedMutations repo s). q_id q \<noteq> m}"
  using assms dequeue_del [OF assms]
  by (auto simp: queue_list split: if_splits)

end


section \<open>The in-memory implementation\<close>

record in_memory_repo =
  mem_items :: "(string, item_record) js_map"
  mem_cursors :: "(id, string) js_map"
  mem_queue :: "(id, queued_mutation) js_map"

definition mem_empty :: in_memory_repo where
  "mem_empty = \<lparr>mem_items = [], mem_cursors = [], mem_queue = []\<rparr>"

text \<open>The key of a record joins the two identifiers with a NUL character.\<close>

definition mem_key :: "id \<Rightarrow> id \<Rightarrow> string" where
  "mem_key v i = v @ CHR 0x00 # i"

definition mem_getItem :: "in_memory_repo \<Rightarrow> id \<Rightarrow> id \<Rightarrow> item_record option" where
  "mem_getItem s v i = map_of (mem_items s) (mem_key v i)"

definition mem_putItem :: "in_memory_repo \<Rightarrow> item_record \<Rightarrow> sdk_error + in_memory_repo" where
  "mem_putItem s r =
     (let existing = map_of (mem_items s) (mem_key (vaultId r) (itemId r))
      in case assertMonotonicPut existing r of
           Some e \<Rightarrow> Inl e
         | None \<Rightarrow> Inr (s\<lparr>mem_items := AList.update (mem_key (vaultId r) (itemId r)) r (mem_items s)\<rparr>))"

definition mem_listItems :: "in_memory_repo \<Rightarrow> id \<Rightarrow> item_record list" where
  "mem_listItems s v = filter (\<lambda>i. vaultId i = v) (map_values (mem_items s))"

definition mem_getCursor :: "in_memory_repo \<Rightarrow> id \<Rightarrow> string option" where
  "mem_getCursor s v = map_of (mem_cursors s) v"

definition mem_setCursor :: "in_memory_repo \<Rightarrow> id \<Rightarrow> string \<Rightarrow> sdk_error + in_memory_repo" where
  "mem_setCursor s v c = Inr (s\<lparr>mem_cursors := AList.update v c (mem_cursors s)\<rparr>)"

definition mem_enqueueMutation :: "in_memory_repo \<Rightarrow> queued_mutation \<Rightarrow> sdk_error + in_memory_repo" where
  "mem_enqueueMutation s q = Inr (s\<lparr>mem_queue := AList.update (q_id q) q (mem_queue s)\<rparr>)"

definition mem_getQueuedMutation :: "in_memory_repo \<Rightarrow> id \<Rightarrow> queued_mutation option" where
  "mem_getQueuedMutation s m = map_of (mem_queue s) m"

definition mem_listQueuedMutations :: "in_memory_repo \<Rightarrow> queued_mutation list" where
  "mem_listQueuedMutations s = map_values (mem_queue s)"

definition mem_dequeueMutation :: "in_memory_repo \<Rightarrow> id \<Rightarrow> sdk_error + in_memory_repo" where
  "mem_dequeueMutation s m = Inr (s\<lparr>mem_queue := AList.delete m (mem_queue s)\<rparr>)"

definition InMemoryLocalRepository :: "in_memory_repo local_repository" where
  "InMemoryLocalRepository =
     \<lparr>getItem = mem_getItem, putItem = mem_putItem, listItems = mem_listItems,
      getCursor = mem_getCursor, setCursor = mem_setCursor,
      enqueueMutation = mem_enqueueMutation, getQueuedMutation = mem_getQueuedMutation,
      listQueuedMutations = mem_listQueuedMutations, dequeueMutation = mem_dequeueMutation\<rparr>"

definition mem_invar :: "in_memory_repo \<Rightarrow> bool" where
  "mem_invar s \<longleftrightarrow>
     keyed (\<lambda>r. mem_key (vaultId r) (itemId r)) (mem_items s) \<and> keyed q_id (mem_queue s)"

text \<open>Identifiers without a NUL character (all that the server accepts) have distinct keys.\<close>

definition nul_free :: "id \<Rightarrow> bool" where
  "nul_free v \<longleftrightarrow> CHR 0x00 \<notin> set v"

lemma mem_key_inj:
  assumes "mem_key v i = mem_key w j" "nul_free v" "nul_free w"
  shows "v = w \<and> i = j"
  using assms
proof (induction v arbitrary: w)
  case Nil
  then show ?case by (cases w) (auto simp: mem_key_def nul_free_def)
next
  case (Cons c v)
  then show ?case by (cases w) (auto simp: mem_key_def nul_free_def)
qed

lemma mem_empty_invar: "mem_invar mem_empty"
  by (simp add: mem_invar_def mem_empty_def)

lemmas mem_defs =
  InMemoryLocalRepository_def mem_getItem_def mem_putItem_def mem_listItems_def mem_getCursor_def
  mem_setCursor_def mem_enqueueMutation_def mem_getQueuedMutation_def mem_listQueuedMutations_def
  mem_dequeueMutation_def

lemma mem_put_invar: "mem_invar s \<Longrightarrow> mem_putItem s r = Inr s' \<Longrightarrow> mem_invar s'"
  by (auto simp: mem_putItem_def mem_invar_def Let_def split: option.splits
      intro: keyed_update [where f = "\<lambda>r. mem_key (vaultId r) (itemId r)"])

lemma mem_put_get:
  assumes "nul_free (vaultId r)" "nul_free v" "mem_putItem s r = Inr s'"
  shows "mem_getItem s' v i = (if v = vaultId r \<and> i = itemId r then Some r else mem_getItem s v i)"
  using assms mem_key_inj [of v i "vaultId r" "itemId r"]
  by (auto simp: mem_putItem_def mem_getItem_def Let_def split: option.splits)

lemma mem_items_list:
  assumes "mem_invar s"
  shows "r \<in> set (mem_listItems s v) \<longleftrightarrow> vaultId r = v \<and> mem_getItem s v (itemId r) = Some r"
proof -
  from assms have "r \<in> set (map_values (mem_items s)) \<longleftrightarrow>
      map_of (mem_items s) (mem_key (vaultId r) (itemId r)) = Some r"
    unfolding mem_invar_def by (blast dest: keyed_values)
  then show ?thesis by (auto simp: mem_listItems_def mem_getItem_def)
qed

interpretation mem: repository_laws InMemoryLocalRepository mem_invar nul_free
proof (unfold_locales, goal_cases)
  case (1 s r s')
  then have "mem_putItem s r = Inr s'" by (simp add: InMemoryLocalRepository_def)
  with 1 mem_put_invar [of s r s'] show ?case
    by (simp add: mem_defs Let_def split: option.splits)
next
  case (2 s r v s' i)
  then show ?case by (simp add: InMemoryLocalRepository_def mem_put_get)
next
  case (3 s r s')
  then show ?case by (auto simp: mem_defs Let_def fun_eq_iff split: option.splits)
next
  case (4 s r e)
  then show ?case by (simp add: mem_defs Let_def)
next
  case (5 s v c s')
  then show ?case by (auto simp: mem_defs mem_invar_def fun_eq_iff)
next
  case (6 s q s')
  then show ?case by (auto simp: mem_defs mem_invar_def fun_eq_iff)
next
  case (7 s m s')
  then show ?case by (auto simp: mem_defs mem_invar_def fun_eq_iff)
next
  case (8 s q)
  then show ?case by (simp add: mem_defs mem_invar_def keyed_values [where f = q_id] del: set_map)
next
  case (9 s)
  then show ?case by (simp add: mem_defs mem_invar_def keyed_distinct [where f = q_id] del: map_map)
next
  case (10 s m q)
  then show ?case by (auto simp: mem_defs mem_invar_def dest: keyed_get)
next
  case (11 s r v)
  then show ?case by (simp add: InMemoryLocalRepository_def mem_items_list)
next
  case (12 s r s')
  then show ?case by (auto simp: mem_defs Let_def fun_eq_iff split: option.splits)
next
  case (13 s v c s')
  then show ?case by (auto simp: mem_defs fun_eq_iff)
qed

end
