(* ===== verification/Indexed_Db.thy ===== *)
theory Indexed_Db
  imports Repository "HOL-Library.Char_ord" "HOL-Library.List_Lexorder" "HOL-Library.Product_Lexorder"
begin

text \<open>
  \<open>IndexedDBLocalRepository\<close> of \<open>apps/web/src/db/indexeddb-repository.ts\<close>: three object
  stores with key paths, read and written in transactions.  An object store is an association
  list sorted by its key, which is the order \<open>getAll\<close> returns its values in.  The field
  \<open>idb_fate\<close> is the environment's choice for the next read-write transactions: \<open>None\<close> when one
  commits, \<open>Some e\<close> when the request or the transaction fails with \<open>e\<close>, in which case
  \<open>txDone\<close> rejects and nothing of the transaction is kept; all further ones commit.  The
  environment step \<open>idb_env\<close> may change the choice at any time.
\<close>


section \<open>Object stores\<close>

definition store_put :: "'k::linorder \<Rightarrow> 'v \<Rightarrow> ('k, 'v) js_map \<Rightarrow> ('k, 'v) js_map" where
  "store_put k v m = insort_key fst (k, v) (AList.delete k m)"

definition store_wf :: "('k::linorder, 'v) js_map \<Rightarrow> bool" where
  "store_wf m \<longleftrightarrow> map_wf m \<and> sorted (map fst m)"

lemma map_of_insort_absent:
  "k \<notin> fst ` set m \<Longrightarrow> map_of (insort_key fst (k, v) m) = (map_of m)(k \<mapsto> v)"
  by (induction m) (auto simp: fun_eq_iff)

lemma map_of_store_put [simp]: "map_of (store_put k v m) = (map_of m)(k \<mapsto> v)"
  by (simp add: store_put_def map_of_insort_absent delete_notin_dom)

lemma store_delete_wf [simp, intro]: "store_wf m \<Longrightarrow> store_wf (AList.delete k m)"
  by (simp add: store_wf_def AList.delete_eq sorted_filter map_wf_delete [unfolded AList.delete_eq])

lemma store_put_wf [simp, intro]: "store_wf m \<Longrightarrow> store_wf (store_put k v m)"
  using store_delete_wf [of m k]
  by (simp add: store_wf_def store_put_def map_wf_def distinct_insort_key sorted_insort_key
      delete_notin_dom)

lemma store_wf_empty [simp]: "store_wf []"
  by (simp add: store_wf_def)

definition store_keyed :: "('v \<Rightarrow> 'k::linorder) \<Rightarrow> ('k, 'v) js_map \<Rightarrow> bool" where
  "store_keyed f m \<longleftrightarrow> store_wf m \<and> keyed f m"

lemma store_keyed_put [intro]: "store_keyed f m \<Longrightarrow> store_keyed f (store_put (f x) x m)"
  using store_put_wf [of m "f x" x] by (auto simp: store_keyed_def keyed_def store_wf_def)

lemma store_keyed_delete [intro]: "store_keyed f m \<Longrightarrow> store_keyed f (AList.delete k m)"
  by (auto simp: store_keyed_def)


section \<open>The repository\<close>

record indexed_db =
  idb_items :: "(id \<times> id, item_record) js_map"
  idb_cursors :: "(id, string) js_map"
  idb_queue :: "(id, queued_mutation) js_map"
  idb_fate :: "sdk_error option list"

text \<open>A read-write transaction: the callback's writes are kept only when it commits.\<close>

definition idb_write :: "indexed_db \<Rightarrow> indexed_db \<Rightarrow> sdk_error + indexed_db" where
  "idb_write s s' =
     (case idb_fate s of
        [] \<Rightarrow> Inr s'
      | None # fate \<Rightarrow> Inr (s'\<lparr>idb_fate := fate\<rparr>)
      | Some e # _ \<Rightarrow> Inl e)"

definition idb_getItem :: "indexed_db \<Rightarrow> id \<Rightarrow> id \<Rightarrow> item_record option" where
  "idb_getItem s v i = map_of (idb_items s) (v, i)"

definition idb_putItem :: "indexed_db \<Rightarrow> item_record \<Rightarrow> sdk_error + indexed_db" where
  "idb_putItem s r =
     (let existing = map_of (idb_items s) (vaultId r, itemId r)
      in case assertMonotonicPut existing r of
           Some e \<Rightarrow> Inl e
         | None \<Rightarrow> idb_write s (s\<lparr>idb_items := store_put (vaultId r, itemId r) r (idb_items s)\<rparr>))"

definition idb_listItems :: "indexed_db \<Rightarrow> id \<Rightarrow> item_record list" where
  "idb_listItems s v = filter (\<lambda>r. vaultId r = v) (map_values (idb_items s))"

definition idb_getCursor :: "indexed_db \<Rightarrow> id \<Rightarrow> string option" where
  "idb_getCursor s v = map_of (idb_cursors s) v"

definition idb_setCursor :: "indexed_db \<Rightarrow> id \<Rightarrow> string \<Rightarrow> sdk_error + indexed_db" where
  "idb_setCursor s v c = idb_write s (s\<lparr>idb_cursors := store_put v c (idb_cursors s)\<rparr>)"

definition idb_enqueueMutation :: "indexed_db \<Rightarrow> queued_mutation \<Rightarrow> sdk_error + indexed_db" where
  "idb_enqueueMutation s q = idb_write s (s\<lparr>idb_queue := store_put (q_id q) q (idb_queue s)\<rparr>)"

definition idb_getQueuedMutation :: "indexed_db \<Rightarrow> id \<Rightarrow> queued_mutation option" where
  "idb_getQueuedMutation s m = map_of (idb_queue s) m"

definition idb_listQueuedMutations :: "indexed_db \<Rightarrow> queued_mutation list" where
  "idb_listQueuedMutations s = map_values (idb_queue s)"

definition idb_dequeueMutation :: "indexed_db \<Rightarrow> id \<Rightarrow> sdk_error + indexed_db" where
  "idb_dequeueMutation s m = idb_write s (s\<lparr>idb_queue := AList.delete m (idb_queue s)\<rparr>)"

definition IndexedDBLocalRepository :: "indexed_db local_repository" where
  "IndexedDBLocalRepository =
     \<lparr>getItem = idb_getItem, putItem = idb_putItem, listItems = idb_listItems,
      getCursor = idb_getCursor, setCursor = idb_setCursor,
      enqueueMutation = idb_enqueueMutation, getQueuedMutation = idb_getQueuedMutation,
      listQueuedMutations = idb_listQueuedMutations, dequeueMutation = idb_dequeueMutation\<rparr>"

definition idb_empty :: indexed_db where
  "idb_empty = \<lparr>idb_items = [], idb_cursors = [], idb_queue = [], idb_fate = []\<rparr>"

definition item_path :: "item_record \<Rightarrow> id \<times> id" where
  "item_path r = (vaultId r, itemId r)"

definition idb_invar :: "indexed_db \<Rightarrow> bool" where
  "idb_invar s \<longleftrightarrow> store_keyed item_path (idb_items s) \<and> store_keyed q_id (idb_queue s)"

definition idb_env :: "indexed_db \<Rightarrow> indexed_db \<Rightarrow> bool" where
  "idb_env s s' \<longleftrightarrow> s' = s\<lparr>idb_fate := idb_fate s'\<rparr>"

lemmas idb_defs =
  IndexedDBLocalRepository_def idb_getItem_def idb_putItem_def idb_listItems_def idb_getCursor_def
  idb_setCursor_def idb_enqueueMutation_def idb_getQueuedMutation_def idb_listQueuedMutations_def
  idb_dequeueMutation_def idb_write_def

lemma idb_put_invar: "idb_invar s \<Longrightarrow> idb_putItem s r = Inr s' \<Longrightarrow> idb_invar s'"
  using store_keyed_put [of item_path "idb_items s" r]
  by (auto simp: idb_putItem_def idb_write_def idb_invar_def item_path_def Let_def split: option.splits list.splits)

lemma idb_queue_invar:
  "idb_invar s \<Longrightarrow> idb_enqueueMutation s q = Inr s' \<Longrightarrow> idb_invar s'"
  "idb_invar s \<Longrightarrow> idb_dequeueMutation s m = Inr s' \<Longrightarrow> idb_invar s'"
  using store_keyed_put [of q_id "idb_queue s" q]
  by (auto simp: idb_enqueueMutation_def idb_dequeueMutation_def idb_write_def idb_invar_def
      split: option.splits list.splits)

lemma idb_items_list:
  assumes "idb_invar s"
  shows "r \<in> set (idb_listItems s v) \<longleftrightarrow> vaultId r = v \<and> idb_getItem s v (itemId r) = Some r"
proof -
  from assms have "r \<in> set (map_values (idb_items s)) \<longleftrightarrow> map_of (idb_items s) (item_path r) = Some r"
    unfolding idb_invar_def store_keyed_def by (blast dest: keyed_values)
  then show ?thesis by (auto simp: idb_listItems_def idb_getItem_def item_path_def)
qed

interpretation idb: repository_laws IndexedDBLocalRepository idb_invar "\<lambda>_. True"
proof (unfold_locales, goal_cases)
  case (1 s r s')
  then have "idb_putItem s r = Inr s'" by (simp add: IndexedDBLocalRepository_def)
  with 1 idb_put_invar [of s r s'] show ?case
    by (simp add: idb_defs Let_def split: option.splits list.splits)
next
  case (2 s r v s' i)
  then show ?case by (auto simp: idb_defs Let_def split: option.splits list.splits)
next
  case (3 s r s')
  then show ?case by (auto simp: idb_defs Let_def fun_eq_iff split: option.splits list.splits)
next
  case (4 s r e)
  then show ?case by (simp add: idb_defs Let_def)
next
  case (5 s v c s')
  then show ?case by (auto simp: idb_defs idb_invar_def fun_eq_iff split: option.splits list.splits)
next
  case (6 s q s')
  then show ?case using idb_queue_invar(1) [of s q s']
    by (auto simp: idb_defs fun_eq_iff split: option.splits list.splits)
next
  case (7 s m s')
  then show ?case using idb_queue_invar(2) [of s m s']
    by (auto simp: idb_defs fun_eq_iff split: option.splits list.splits)
next
  case (8 s q)
  then show ?case
    by (simp add: idb_defs idb_invar_def store_keyed_def keyed_values [where f = q_id] del: set_map)
next
  case (9 s)
  then show ?case
    by (simp add: idb_defs idb_invar_def store_keyed_def keyed_distinct [where f = q_id] del: map_map)
next
  case (10 s m q)
  then show ?case by (auto simp: idb_defs idb_invar_def store_keyed_def dest: keyed_get)
next
  case (11 s r v)
  then show ?case by (simp add: IndexedDBLocalRepository_def idb_items_list)
next
  case (12 s r s')
  then show ?case by (auto simp: idb_defs Let_def fun_eq_iff split: option.splits list.splits)
next
  case (13 s v c s')
  then show ?case by (auto simp: idb_defs fun_eq_iff split: option.splits list.splits)
qed

end
