(* ===== verification/Sync_Engine.thy ===== *)
theory Sync_Engine
  imports Indexed_Db
begin

text \<open>
  \<open>SyncEngine\<close> of \<open>packages/sdk/src/sync-state-machine.ts\<close>: the push side (offline queue and
  idempotent mutation) and the pull side (cursor-driven change feed) over a repository and an
  \<open>ApiClient\<close>.

  The network is a record \<open>sync_api\<close> of operations on a world state, so the server may answer
  anything at any time, and \<open>clock\<close> reads \<open>Date.now()\<close> from that world.  A method that throws
  returns \<open>Inl\<close> next to the world and the repository as they are when the exception leaves it.
  One method runs at a time on a repository.
\<close>


section \<open>Backoff\<close>

record backoff_options =
  baseMs :: int
  maxMs :: int

definition DEFAULT_BACKOFF :: backoff_options where
  "DEFAULT_BACKOFF = \<lparr>baseMs = 500, maxMs = 30000\<rparr>"

definition retryDelayMs :: "int \<Rightarrow> backoff_options \<Rightarrow> int" where
  "retryDelayMs attempts options =
     (let raw = baseMs options * 2 ^ nat (max 0 (attempts - 1)) in min raw (maxMs options))"


section \<open>The network interface and the outcomes\<close>

datatype mutate_outcome = Mutated item_record | Mutate_conflict conflict

record 'w sync_api =
  mutateItem :: "'w \<Rightarrow> id \<Rightarrow> mutation \<Rightarrow> 'w \<times> (sdk_error + mutate_outcome)"
  listChanges :: "'w \<Rightarrow> id \<Rightarrow> string option \<Rightarrow> 'w \<times> (sdk_error + change_page)"

datatype push_outcome =
    Push_applied item_record
  | Push_conflict conflict
  | Push_retryable epoch_ms string

datatype pull_outcome =
    Pull_applied nat nat "string option"
  | Pull_error string nat


section \<open>Push\<close>

definition enqueueEdit :: "'s local_repository \<Rightarrow> 's \<Rightarrow> mutation \<Rightarrow> sdk_error + 's" where
  "enqueueEdit repo s m =
     enqueueMutation repo s
       \<lparr>q_mutation = m, q_state = LOCAL_DIRTY, q_attempts = 0, q_nextRetryAt = None, q_lastError = None\<rparr>"

text \<open>
  The \<open>catch\<close> block of \<open>pushOne\<close>: an \<open>HttpError\<close> puts the entry back as \<open>LOCAL_DIRTY\<close> and is
  rethrown, a \<open>NetworkError\<close> schedules a retry, anything else is rethrown as it is.  A write
  that fails inside the block replaces the exception.
\<close>

definition pushOne_catch ::
  "'s local_repository \<Rightarrow> backoff_options \<Rightarrow> ('w \<Rightarrow> epoch_ms) \<Rightarrow> queued_mutation \<Rightarrow> sdk_error \<Rightarrow>
   'w \<Rightarrow> 's \<Rightarrow> 'w \<times> 's \<times> (sdk_error + push_outcome)" where
  "pushOne_catch repo backoff clock entry e w s =
     (case e of
        HttpError _ \<Rightarrow>
          (case enqueueMutation repo s (entry\<lparr>q_state := LOCAL_DIRTY\<rparr>) of
             Inl e' \<Rightarrow> (w, s, Inl e')
           | Inr s' \<Rightarrow> (w, s', Inl e))
      | NetworkError \<Rightarrow>
          (let attempts = q_attempts entry + 1;
               nextRetryAt = clock w + retryDelayMs (int attempts) backoff
           in case enqueueMutation repo s
                (entry\<lparr>q_state := RETRYABLE, q_attempts := attempts,
                       q_nextRetryAt := Some nextRetryAt, q_lastError := Some (error_message e)\<rparr>) of
                Inl e' \<Rightarrow> (w, s, Inl e')
              | Inr s' \<Rightarrow> (w, s', Inr (Push_retryable nextRetryAt (error_message e))))
      | _ \<Rightarrow> (w, s, Inl e))"

definition pushOne ::
  "'w sync_api \<Rightarrow> 's local_repository \<Rightarrow> backoff_options \<Rightarrow> ('w \<Rightarrow> epoch_ms) \<Rightarrow> queued_mutation \<Rightarrow>
   'w \<Rightarrow> 's \<Rightarrow> 'w \<times> 's \<times> (sdk_error + push_outcome)" where
  "pushOne api repo backoff clock entry w s =
     (let m = q_mutation entry
      in case enqueueMutation repo s (entry\<lparr>q_state := SYNCING\<rparr>) of
           Inl e \<Rightarrow> (w, s, Inl e)
         | Inr s1 \<Rightarrow>
             (case mutateItem api w (mut_vaultId m) m of
                (w1, Inl e) \<Rightarrow> pushOne_catch repo backoff clock entry e w1 s1
              | (w1, Inr (Mutated item)) \<Rightarrow>
                  (case putItem repo s1 item of
                     Inl e \<Rightarrow> pushOne_catch repo backoff clock entry e w1 s1
                   | Inr s2 \<Rightarrow>
                       (case dequeueMutation repo s2 (mut_mutationId m) of
                          Inl e \<Rightarrow> pushOne_catch repo backoff clock entry e w1 s2
                        | Inr s3 \<Rightarrow> (w1, s3, Inr (Push_applied item))))
              | (w1, Inr (Mutate_conflict c)) \<Rightarrow>
                  (case enqueueMutation repo s1
                     (entry\<lparr>q_state := CONFLICT, q_attempts := q_attempts entry\<rparr>) of
                     Inl e \<Rightarrow> pushOne_catch repo backoff clock entry e w1 s1
                   | Inr s2 \<Rightarrow> (w1, s2, Inr (Push_conflict c)))))"

text \<open>
  The guard of the \<open>pushAll\<close> loop: a conflict waits for its resolution, a retryable entry for
  the end of its backoff window.
\<close>

definition push_due :: "epoch_ms \<Rightarrow> queued_mutation \<Rightarrow> bool" where
  "push_due now entry \<longleftrightarrow>
     q_state entry \<noteq> CONFLICT \<and>
     \<not> (q_state entry = RETRYABLE \<and>
        (case q_nextRetryAt entry of None \<Rightarrow> False | Some t \<Rightarrow> t > now))"

fun pushAll_loop ::
  "'w sync_api \<Rightarrow> 's local_repository \<Rightarrow> backoff_options \<Rightarrow> ('w \<Rightarrow> epoch_ms) \<Rightarrow> epoch_ms \<Rightarrow>
   queued_mutation list \<Rightarrow> (id, push_outcome) js_map \<Rightarrow>
   'w \<Rightarrow> 's \<Rightarrow> 'w \<times> 's \<times> (sdk_error + (id, push_outcome) js_map)" where
  "pushAll_loop api repo backoff clock now [] results w s = (w, s, Inr results)"
| "pushAll_loop api repo backoff clock now (entry # entries) results w s =
     (if push_due now entry then
        (case pushOne api repo backoff clock entry w s of
           (w', s', Inl e) \<Rightarrow> (w', s', Inl e)
         | (w', s', Inr out) \<Rightarrow>
             pushAll_loop api repo backoff clock now entries
               (AList.update (q_id entry) out results) w' s')
      else pushAll_loop api repo backoff clock now entries results w s)"

definition pushAll ::
  "'w sync_api \<Rightarrow> 's local_repository \<Rightarrow> backoff_options \<Rightarrow> ('w \<Rightarrow> epoch_ms) \<Rightarrow> epoch_ms \<Rightarrow>
   'w \<Rightarrow> 's \<Rightarrow> 'w \<times> 's \<times> (sdk_error + (id, push_outcome) js_map)" where
  "pushAll api repo backoff clock now w s =
     pushAll_loop api repo backoff clock now (listQueuedMutations repo s) [] w s"

definition resolveConflict ::
  "'s local_repository \<Rightarrow> 's \<Rightarrow> id \<Rightarrow> mutation \<Rightarrow> 's \<times> (sdk_error + unit)" where
  "resolveConflict repo s oldMutationId resolution =
     (case dequeueMutation repo s oldMutationId of
        Inl e \<Rightarrow> (s, Inl e)
      | Inr s1 \<Rightarrow>
          (case enqueueEdit repo s1 resolution of
             Inl e \<Rightarrow> (s1, Inl e)
           | Inr s2 \<Rightarrow> (s2, Inr ())))"


section \<open>Pull\<close>

text \<open>
  The inner loop: the records of one page, stored one by one.  It stops at the first record
  that belongs to another vault or that the repository refuses; the counter and the records
  stored before it stay.
\<close>

fun apply_changes ::
  "'s local_repository \<Rightarrow> id \<Rightarrow> item_record list \<Rightarrow> nat \<Rightarrow> 's \<Rightarrow> 's \<times> nat \<times> sdk_error option" where
  "apply_changes repo v [] n s = (s, n, None)"
| "apply_changes repo v (change # rest) n s =
     (if vaultId change \<noteq> v then
        (s, n, Some (JsError
          (''pull rejected: server returned item '' @ itemId change @ '' for vault '' @ vaultId change @
           '' while pulling vault '' @ v)))
      else (case putItem repo s change of
              Inl e \<Rightarrow> (s, n, Some e)
            | Inr s' \<Rightarrow> apply_changes repo v rest (n + 1) s'))"

lemma apply_changes_foreign:
  assumes "c \<in> set cs" "vaultId c \<noteq> v"
  shows "\<exists>s' n' e. apply_changes repo v cs n s = (s', n', Some e)"
  using assms
proof (induction cs arbitrary: n s)
  case (Cons d cs)
  then show ?case by (cases "vaultId d = v") (auto split: sum.splits)
qed simp

text \<open>\<open>result.nextCursor ?? cursor\<close>\<close>

definition cursor_or :: "string option \<Rightarrow> string option \<Rightarrow> string option" where
  "cursor_or a b = (case a of None \<Rightarrow> b | Some c \<Rightarrow> Some c)"

text \<open>
  The page loop.  \<open>fuel\<close> is the number of pages still allowed (\<open>maxPages\<close> at the start), so
  the bound of the source's \<open>for\<close> loop is the recursion.  \<open>setCursor\<close> is outside the
  \<open>try\<close> blocks: when it fails, the exception leaves \<open>pull\<close>.  A missing local cursor is
  \<open>undefined\<close> and a missing next cursor is \<open>null\<close>, which \<open>!==\<close> tells apart, so an absent
  \<open>nextCursor\<close> always counts as different.
\<close>

fun pull_loop ::
  "'w sync_api \<Rightarrow> 's local_repository \<Rightarrow> id \<Rightarrow> nat \<Rightarrow> string option \<Rightarrow> nat \<Rightarrow> nat \<Rightarrow>
   'w \<Rightarrow> 's \<Rightarrow> 'w \<times> 's \<times> (sdk_error + pull_outcome)" where
  "pull_loop api repo v 0 cursor pages items w s = (w, s, Inr (Pull_applied pages items cursor))"
| "pull_loop api repo v (Suc fuel) cursor pages items w s =
     (case listChanges api w v cursor of
        (w1, Inl e) \<Rightarrow> (w1, s, Inr (Pull_error (error_message e) items))
      | (w1, Inr page) \<Rightarrow>
          (case apply_changes repo v (changes page) items s of
             (s1, items1, Some e) \<Rightarrow> (w1, s1, Inr (Pull_error (error_message e) items1))
           | (s1, items1, None) \<Rightarrow>
               (case setCursor repo s1 v
                  (case cursor_or (nextCursor page) cursor of None \<Rightarrow> [] | Some c \<Rightarrow> c) of
                  Inl e \<Rightarrow> (w1, s1, Inl e)
                | Inr s2 \<Rightarrow>
                    (let madeProgress =
                           changes page \<noteq> [] \<and> (nextCursor page = None \<or> nextCursor page \<noteq> cursor);
                         cursor' = cursor_or (nextCursor page) cursor
                     in if madeProgress
                        then pull_loop api repo v fuel cursor' (pages + 1) items1 w1 s2
                        else (w1, s2, Inr (Pull_applied (pages + 1) items1 cursor'))))))"

definition pull ::
  "'w sync_api \<Rightarrow> 's local_repository \<Rightarrow> id \<Rightarrow> nat \<Rightarrow> 'w \<Rightarrow> 's \<Rightarrow>
   'w \<times> 's \<times> (sdk_error + pull_outcome)" where
  "pull api repo v maxPages w s = pull_loop api repo v maxPages (getCursor repo s v) 0 0 w s"


section \<open>What the engine keeps, for every conforming repository\<close>

text \<open>No stored version of a record is replaced by an older or altered one.\<close>

definition items_advance :: "'s local_repository \<Rightarrow> (id \<Rightarrow> bool) \<Rightarrow> 's \<Rightarrow> 's \<Rightarrow> bool" where
  "items_advance repo ok s s' \<longleftrightarrow>
     (\<forall>v i old. ok v \<longrightarrow> getItem repo s v i = Some old \<longrightarrow>
        (\<exists>new. getItem repo s' v i = Some new \<and> supersedes new old))"

lemma items_advance_refl [simp]: "getItem repo s' = getItem repo s \<Longrightarrow> items_advance repo ok s s'"
  by (auto simp: items_advance_def intro: supersedes_refl)

lemma items_advance_trans:
  "items_advance repo ok s t \<Longrightarrow> items_advance repo ok t u \<Longrightarrow> items_advance repo ok s u"
  unfolding items_advance_def by (meson supersedes_trans)

text \<open>A page is stored when each of its records is, or has been superseded since.\<close>

definition page_stored :: "'s local_repository \<Rightarrow> id \<Rightarrow> item_record list \<Rightarrow> 's \<Rightarrow> bool" where
  "page_stored repo v cs s \<longleftrightarrow>
     (\<forall>c \<in> set cs. vaultId c = v \<and>
        (\<exists>new. getItem repo s v (itemId c) = Some new \<and> supersedes new c))"

lemma page_stored_advance:
  "page_stored repo v cs s \<Longrightarrow> items_advance repo ok s s' \<Longrightarrow> ok v \<Longrightarrow> page_stored repo v cs s'"
  unfolding page_stored_def items_advance_def by (meson supersedes_trans)

text \<open>
  A cursor that some page of the feed has set, after all of its records were stored.
\<close>

definition cursor_earned :: "'w sync_api \<Rightarrow> 's local_repository \<Rightarrow> id \<Rightarrow> 's \<Rightarrow> bool" where
  "cursor_earned api repo v s \<longleftrightarrow>
     (\<exists>w cur w' page.
        listChanges api w v cur = (w', Inr page) \<and> page_stored repo v (changes page) s \<and>
        getCursor repo s v =
          Some (case cursor_or (nextCursor page) cur of None \<Rightarrow> [] | Some c \<Rightarrow> c))"

text \<open>What \<open>pull\<close> may change: records and the cursor of the pulled vault only.\<close>

definition pull_frame :: "'s local_repository \<Rightarrow> (id \<Rightarrow> bool) \<Rightarrow> id \<Rightarrow> 's \<Rightarrow> 's \<Rightarrow> bool" where
  "pull_frame repo ok v s s' \<longleftrightarrow>
     items_advance repo ok s s' \<and>
     (\<forall>u i. ok u \<longrightarrow> u \<noteq> v \<longrightarrow> getItem repo s' u i = getItem repo s u i) \<and>
     (\<forall>u. u \<noteq> v \<longrightarrow> getCursor repo s' u = getCursor repo s u) \<and>
     getQueuedMutation repo s' = getQueuedMutation repo s"

lemma pull_frame_refl [simp]: "pull_frame repo ok v s s"
  by (simp add: pull_frame_def)

lemma pull_frame_trans:
  "pull_frame repo ok v s t \<Longrightarrow> pull_frame repo ok v t u \<Longrightarrow> pull_frame repo ok v s u"
  unfolding pull_frame_def by (metis items_advance_trans)

lemma cursor_earned_frame:
  assumes "cursor_earned api repo v s" "pull_frame repo ok v s s'" "ok v"
    and "getCursor repo s' v = getCursor repo s v"
  shows "cursor_earned api repo v s'"
  using assms page_stored_advance [where ok = ok]
  unfolding cursor_earned_def pull_frame_def by metis

context repository_laws
begin

lemma put_advance:
  assumes "invar s" "ok (vaultId r)" "putItem repo s r = Inr s'"
  shows "items_advance repo ok s s'"
  using assms put_supersedes by (fastforce simp: items_advance_def)

lemma put_frame_vault:
  assumes "invar s" "ok (vaultId r)" "putItem repo s r = Inr s'"
  shows "pull_frame repo ok (vaultId r) s s'"
  using assms put_advance [OF assms] put_frame [OF assms(3)] put_queue [OF assms(3)]
  by (auto simp: pull_frame_def put_get)

lemma cursor_frame:
  assumes "invar s" "setCursor repo s v c = Inr s'"
  shows "pull_frame repo ok v s s'"
  using cursor_set [OF assms] cursor_queue [OF assms(2)]
  by (auto simp: pull_frame_def)

lemma apply_changes_keeps:
  assumes "invar s" "ok v" "apply_changes repo v cs n s = (s', n', e)"
  shows "invar s' \<and> pull_frame repo ok v s s' \<and> getCursor repo s' = getCursor repo s"
  using assms
proof (induction cs arbitrary: n s)
  case Nil
  then show ?case by simp
next
  case (Cons c cs)
  show ?case
  proof (cases "vaultId c = v \<and> (\<exists>t. putItem repo s c = Inr t)")
    case False
    with Cons.prems show ?thesis by (auto split: if_splits sum.splits)
  next
    case True
    then obtain t where v: "vaultId c = v" and t: "putItem repo s c = Inr t" by blast
    from v t Cons.prems have step: "apply_changes repo v cs (n + 1) t = (s', n', e)" by simp
    from Cons.prems v t have "invar t" "pull_frame repo ok v s t" "getCursor repo t = getCursor repo s"
      using put_ok put_frame_vault put_frame by blast+
    with Cons.IH [OF _ Cons.prems(2) step] show ?thesis
      by (metis pull_frame_trans)
  qed
qed

lemma apply_changes_stores:
  assumes "invar s" "ok v" "apply_changes repo v cs n s = (s', n', None)"
  shows "n' = n + length cs \<and> page_stored repo v cs s'"
  using assms
proof (induction cs arbitrary: n s)
  case Nil
  then show ?case by (simp add: page_stored_def)
next
  case (Cons c cs)
  from Cons.prems obtain t where v: "vaultId c = v" and t: "putItem repo s c = Inr t"
    and rest: "apply_changes repo v cs (n + 1) t = (s', n', None)"
    by (auto split: if_splits sum.splits)
  from Cons.prems t have "invar t" using put_ok by blast
  with Cons.prems rest have keep: "pull_frame repo ok v t s'" using apply_changes_keeps by blast
  from Cons.prems v t have "getItem repo t v (itemId c) = Some c"
    using put_get [of s c v t "itemId c"] by simp
  with keep Cons.prems(2) have "\<exists>new. getItem repo s' v (itemId c) = Some new \<and> supersedes new c"
    by (auto simp: pull_frame_def items_advance_def)
  with v Cons.IH [OF \<open>invar t\<close> Cons.prems(2) rest] show ?case
    by (simp add: page_stored_def)
qed

lemma apply_changes_stale:
  assumes "invar s" "ok v" "c \<in> set cs" "getItem repo s v (itemId c) = Some old" "\<not> supersedes c old"
  shows "\<exists>s' n' e. apply_changes repo v cs n s = (s', n', Some e)"
  using assms(1,3-5)
proof (induction cs arbitrary: n s old)
  case (Cons d cs)
  show ?case
  proof (cases "vaultId d = v \<and> (\<exists>s1. putItem repo s d = Inr s1)")
    case False
    then show ?thesis by (auto split: sum.splits)
  next
    case True
    then obtain s1 where d: "vaultId d = v" and put: "putItem repo s d = Inr s1" by blast
    from put_ok [OF Cons.prems(1) put] Cons.prems(3,4) d have "c \<noteq> d"
      by (auto simp: assertMonotonicPut_None_iff)
    moreover obtain new where "getItem repo s1 v (itemId c) = Some new" "supersedes new old"
      using put_supersedes [OF Cons.prems(1) _ assms(2) put Cons.prems(3)] d assms(2) by auto
    moreover from this Cons.prems(4) have "\<not> supersedes c new" by (blast dest: supersedes_trans)
    ultimately show ?thesis
      using Cons.IH [of s1 new "n + 1"] put_ok [OF Cons.prems(1) put] Cons.prems(2) d put by simp
  qed
qed simp

lemma page_commit:
  assumes "invar s" "ok v" "listChanges api w v cur = (w1, Inr page)"
    and "apply_changes repo v (changes page) n s = (s1, n1, None)"
    and "setCursor repo s1 v (case cursor_or (nextCursor page) cur of None \<Rightarrow> [] | Some c \<Rightarrow> c) = Inr s2"
  shows "invar s2 \<and> pull_frame repo ok v s s2 \<and> cursor_earned api repo v s2"
proof -
  from apply_changes_keeps [OF assms(1,2,4)] have s1: "invar s1" "pull_frame repo ok v s s1" by auto
  from apply_changes_stores [OF assms(1,2,4)] have "page_stored repo v (changes page) s1" by simp
  with cursor_set [OF s1(1) assms(5)] have "cursor_earned api repo v s2"
    using assms(3) unfolding cursor_earned_def by (fastforce simp: page_stored_def)
  with s1 cursor_set [OF s1(1) assms(5)] cursor_frame [OF s1(1) assms(5)] show ?thesis
    by (blast intro: pull_frame_trans)
qed

lemma pull_loop_safe:
  assumes "invar s" "ok v" "pull_loop api repo v fuel cur pages items w s = (w', s', out)"
  shows "invar s' \<and> pull_frame repo ok v s s' \<and>
    (getCursor repo s' v = getCursor repo s v \<or> cursor_earned api repo v s')"
  using assms
proof (induction fuel arbitrary: cur pages items w s)
  case 0
  then show ?case by simp
next
  case (Suc fuel)
  obtain w1 r where lc: "listChanges api w v cur = (w1, r)" by force
  show ?case
  proof (cases "\<exists>page s1 n1 s2. r = Inr page \<and> apply_changes repo v (changes page) items s = (s1, n1, None) \<and>
      setCursor repo s1 v (case cursor_or (nextCursor page) cur of None \<Rightarrow> [] | Some c \<Rightarrow> c) = Inr s2")
    case False
    with Suc.prems lc apply_changes_keeps [OF Suc.prems(1,2)] show ?thesis
      by (auto split: sum.splits prod.splits option.splits)
  next
    case True
    then obtain page s1 n1 s2 where r: "r = Inr page"
      and ac: "apply_changes repo v (changes page) items s = (s1, n1, None)"
      and sc: "setCursor repo s1 v (case cursor_or (nextCursor page) cur of None \<Rightarrow> [] | Some c \<Rightarrow> c) = Inr s2"
      by blast
    have s2: "invar s2" "pull_frame repo ok v s s2" "cursor_earned api repo v s2"
      using page_commit [OF Suc.prems(1,2) lc [unfolded r] ac sc] by auto
    show ?thesis
    proof (cases "changes page \<noteq> [] \<and> (nextCursor page = None \<or> nextCursor page \<noteq> cur)")
      case True
      with Suc.prems(3) lc r ac sc
      have "pull_loop api repo v fuel (cursor_or (nextCursor page) cur) (pages + 1) n1 w1 s2 = (w', s', out)"
        by simp
      from Suc.IH [OF s2(1) Suc.prems(2) this] s2(2,3) Suc.prems(2) show ?thesis
        by (metis pull_frame_trans cursor_earned_frame)
    next
      case False
      with Suc.prems(3) lc r ac sc s2 show ?thesis by (auto split: if_splits)
    qed
  qed
qed

end


section \<open>The push side\<close>

text \<open>
  What one attempt does to the repository.  It touches one queue entry.  The entry leaves the
  queue only when the returned record is stored; a conflict and a network failure keep it with
  the state the outcome reports; after an exception an entry with the same mutation is still
  queued.
\<close>

definition attempt_effect ::
  "'s local_repository \<Rightarrow> (id \<Rightarrow> bool) \<Rightarrow> queued_mutation \<Rightarrow> 's \<Rightarrow> 's \<Rightarrow> (sdk_error + push_outcome) \<Rightarrow> bool" where
  "attempt_effect repo ok entry s s' out \<longleftrightarrow>
     (\<forall>m. m \<noteq> q_id entry \<longrightarrow> getQueuedMutation repo s' m = getQueuedMutation repo s m) \<and>
     getCursor repo s' = getCursor repo s \<and>
     (case out of
        Inr (Push_applied item) \<Rightarrow>
          getQueuedMutation repo s' (q_id entry) = None \<and>
          (ok (vaultId item) \<longrightarrow> getItem repo s' (vaultId item) (itemId item) = Some item)
      | Inr (Push_conflict _) \<Rightarrow>
          getQueuedMutation repo s' (q_id entry) = Some (entry\<lparr>q_state := CONFLICT\<rparr>) \<and>
          getItem repo s' = getItem repo s
      | Inr (Push_retryable t msg) \<Rightarrow>
          getQueuedMutation repo s' (q_id entry) =
            Some (entry\<lparr>q_state := RETRYABLE, q_attempts := q_attempts entry + 1,
                        q_nextRetryAt := Some t, q_lastError := Some msg\<rparr>)
      | Inl _ \<Rightarrow>
          (\<exists>st \<in> {q_state entry, SYNCING, LOCAL_DIRTY}.
             getQueuedMutation repo s' (q_id entry) = Some (entry\<lparr>q_state := st\<rparr>)))"

lemma same_attempts [simp]:
  "entry\<lparr>q_state := st, q_attempts := q_attempts entry\<rparr> = entry\<lparr>q_state := st\<rparr>"
  by simp

text \<open>A mutation is safe when it is still queued or the server has confirmed it.\<close>

definition mutation_safe :: "'w sync_api \<Rightarrow> 's local_repository \<Rightarrow> 's \<Rightarrow> mutation \<Rightarrow> bool" where
  "mutation_safe api repo s m \<longleftrightarrow>
     (\<exists>q. getQueuedMutation repo s (mut_mutationId m) = Some q \<and> q_mutation q = m) \<or>
     (\<exists>w w' item. mutateItem api w (mut_vaultId m) m = (w', Inr (Mutated item)))"

context repository_laws
begin

lemma enqueue_entry:
  assumes "invar s" "enqueueMutation repo s q = Inr s'" "q_mutation q = q_mutation entry"
  shows "invar s'" "getQueuedMutation repo s' = (getQueuedMutation repo s)(q_id entry \<mapsto> q)"
    "getItem repo s' = getItem repo s" "getCursor repo s' = getCursor repo s"
  using enqueue_set [OF assms(1,2)] assms(3) by auto

lemma pushOne_catch_effect:
  assumes "invar s" "getQueuedMutation repo s (q_id entry) = Some (entry\<lparr>q_state := SYNCING\<rparr>)"
    and "pushOne_catch repo backoff clock entry e w s = (w', s', out)"
  shows "invar s' \<and> attempt_effect repo ok entry s s' out \<and> getItem repo s' = getItem repo s \<and> w' = w"
proof (cases e)
  case (HttpError status)
  with assms show ?thesis
    using enqueue_entry [OF assms(1), of "entry\<lparr>q_state := LOCAL_DIRTY\<rparr>" _ entry]
    by (auto simp: pushOne_catch_def attempt_effect_def split: sum.splits)
next
  case NetworkError
  let ?t = "clock w + retryDelayMs (int (q_attempts entry + 1)) backoff"
  let ?q = "entry\<lparr>q_state := RETRYABLE, q_attempts := q_attempts entry + 1,
      q_nextRetryAt := Some ?t, q_lastError := Some (error_message e)\<rparr>"
  from NetworkError assms show ?thesis
    using enqueue_entry [OF assms(1), of ?q _ entry]
    by (auto simp: pushOne_catch_def attempt_effect_def Let_def split: sum.splits)
qed (use assms in \<open>auto simp: pushOne_catch_def attempt_effect_def\<close>)

lemma attempt_effect_step:
  assumes "attempt_effect repo ok entry s1 s' out"
    and "\<And>m. m \<noteq> q_id entry \<Longrightarrow> getQueuedMutation repo s1 m = getQueuedMutation repo s m"
    and "getCursor repo s1 = getCursor repo s"
    and "getItem repo s1 = getItem repo s \<or> (\<forall>c. out \<noteq> Inr (Push_conflict c))"
  shows "attempt_effect repo ok entry s s' out"
  using assms by (auto simp: attempt_effect_def split: sum.splits push_outcome.splits)

lemma catch_no_conflict:
  "pushOne_catch repo backoff clock entry e w s \<noteq> (w', s', Inr (Push_conflict c))"
  by (auto simp: pushOne_catch_def Let_def split: sdk_error.splits sum.splits)

lemma pushOne_stored:
  assumes "invar s" "getQueuedMutation repo s (q_id entry) = Some (entry\<lparr>q_state := SYNCING\<rparr>)"
    and put: "putItem repo s item = Inr s2"
    and "(case dequeueMutation repo s2 (q_id entry) of
            Inl e \<Rightarrow> pushOne_catch repo backoff clock entry e w s2
          | Inr s3 \<Rightarrow> (w, s3, Inr (Push_applied item))) = (w', s', out)"
  shows "invar s' \<and> attempt_effect repo ok entry s s' out \<and> getItem repo s' = getItem repo s2 \<and> w' = w"
proof -
  have s2: "invar s2" "getCursor repo s2 = getCursor repo s"
    "getQueuedMutation repo s2 = getQueuedMutation repo s"
    using put_ok [OF assms(1) put] put_frame [OF put] put_queue [OF put] by auto
  show ?thesis
  proof (cases "dequeueMutation repo s2 (q_id entry)")
    case (Inl e)
    with assms s2 have c: "pushOne_catch repo backoff clock entry e w s2 = (w', s', out)" by simp
    from pushOne_catch_effect [OF s2(1) _ c] assms(2) s2(3)
    have "invar s'" "attempt_effect repo ok entry s2 s' out" "getItem repo s' = getItem repo s2" "w' = w"
      by auto
    moreover have "out \<noteq> Inr (Push_conflict d)" for d using c catch_no_conflict by metis
    ultimately show ?thesis using attempt_effect_step [of entry s2 s' out s] s2 by auto
  next
    case (Inr s3)
    with assms s2 dequeue_del [OF s2(1) Inr] put_get [OF assms(1) _ _ put, of "vaultId item"]
    show ?thesis by (auto simp: attempt_effect_def)
  qed
qed

lemma pushOne_effect:
  assumes "invar s" "getQueuedMutation repo s (q_id entry) = Some entry"
    and "pushOne api repo backoff clock entry w s = (w', s', out)"
  shows "invar s' \<and> attempt_effect repo ok entry s s' out"
proof (cases "enqueueMutation repo s (entry\<lparr>q_state := SYNCING\<rparr>)")
  case (Inl e)
  then have "s' = s" "out = Inl e" using assms(3) by (auto simp: pushOne_def)
  moreover have "entry = entry\<lparr>q_state := q_state entry\<rparr>" by simp
  ultimately show ?thesis using assms(1,2) by (auto simp: attempt_effect_def)
next
  case (Inr s1)
  note s1 = enqueue_entry [OF assms(1) Inr, of entry, simplified]
  have q1: "getQueuedMutation repo s1 (q_id entry) = Some (entry\<lparr>q_state := SYNCING\<rparr>)"
    using s1(2) by simp
  obtain w1 r where mi: "mutateItem api w (mut_vaultId (q_mutation entry)) (q_mutation entry) = (w1, r)"
    by force
  from assms(3) Inr mi consider
      (stored) item s2 where "putItem repo s1 item = Inr s2"
        "(case dequeueMutation repo s2 (q_id entry) of
            Inl e \<Rightarrow> pushOne_catch repo backoff clock entry e w1 s2
          | Inr s3 \<Rightarrow> (w1, s3, Inr (Push_applied item))) = (w', s', out)"
    | (caught) e where "pushOne_catch repo backoff clock entry e w1 s1 = (w', s', out)"
    | (conflict) c where "enqueueMutation repo s1 (entry\<lparr>q_state := CONFLICT\<rparr>) = Inr s'"
        "out = Inr (Push_conflict c)"
    by (cases r) (auto simp: pushOne_def Let_def split: sum.splits mutate_outcome.splits)
  then have "invar s' \<and> attempt_effect repo ok entry s1 s' out"
  proof cases
    case stored
    from pushOne_stored [OF s1(1) q1 stored] show ?thesis by simp
  next
    case caught
    from pushOne_catch_effect [OF s1(1) q1 caught] show ?thesis by simp
  next
    case conflict
    from enqueue_entry [OF s1(1) conflict(1), of entry] conflict(2) show ?thesis
      by (auto simp: attempt_effect_def)
  qed
  with attempt_effect_step [of entry s1 s' out s] s1(2-4) show ?thesis by auto
qed

lemma pushOne_confirmed:
  assumes "pushOne api repo backoff clock entry w s = (w', s', Inr (Push_applied item))"
  shows "mutateItem api w (mut_vaultId (q_mutation entry)) (q_mutation entry) = (w', Inr (Mutated item))"
  using assms
  by (auto simp: pushOne_def pushOne_catch_def Let_def
      split: sum.splits prod.splits mutate_outcome.splits sdk_error.splits)

text \<open>
  A whole push: no queued mutation is lost, and entries that are not due are untouched.
\<close>

lemma pushOne_safe:
  assumes "invar s" "getQueuedMutation repo s (q_id entry) = Some entry"
    and "pushOne api repo backoff clock entry w s = (w', s', out)"
    and "mutation_safe api repo s m"
  shows "mutation_safe api repo s' m"
proof -
  have eff: "attempt_effect repo ok entry s s' out" using pushOne_effect [OF assms(1-3)] by simp
  then have other: "getQueuedMutation repo s' i = getQueuedMutation repo s i" if "i \<noteq> q_id entry" for i
    using that by (simp add: attempt_effect_def)
  have here: "mutation_safe api repo s' (q_mutation entry)"
  proof (cases "\<exists>item. out = Inr (Push_applied item)")
    case True
    then obtain item where "out = Inr (Push_applied item)" by blast
    with assms(3) pushOne_confirmed [of api backoff clock entry w s w' s' item] show ?thesis
      unfolding mutation_safe_def by blast
  next
    case False
    with eff show ?thesis
      by (auto simp: attempt_effect_def mutation_safe_def split: sum.splits push_outcome.splits)
  qed
  show ?thesis
  proof (cases "mut_mutationId m = q_id entry")
    case True
    with assms(2,4) here show ?thesis by (auto simp: mutation_safe_def)
  next
    case False
    with assms(4) other show ?thesis by (simp add: mutation_safe_def)
  qed
qed

lemma pushAll_loop_safe:
  assumes "invar s" "distinct (map q_id entries)"
    and "\<And>q. q \<in> set entries \<Longrightarrow> getQueuedMutation repo s (q_id q) = Some q"
    and "pushAll_loop api repo backoff clock now entries results w s = (w', s', out)"
  shows "invar s' \<and> (\<forall>m. mutation_safe api repo s m \<longrightarrow> mutation_safe api repo s' m) \<and>
    (\<forall>i. (\<forall>q \<in> set entries. push_due now q \<longrightarrow> q_id q \<noteq> i) \<longrightarrow>
       getQueuedMutation repo s' i = getQueuedMutation repo s i)"
  using assms
proof (induction entries arbitrary: results w s)
  case Nil
  then show ?case by simp
next
  case (Cons e es)
  show ?case
  proof (cases "push_due now e")
    case False
    with Cons.prems(4) have "pushAll_loop api repo backoff clock now es results w s = (w', s', out)" by simp
    from Cons.IH [OF Cons.prems(1) _ _ this] Cons.prems(2,3) False show ?thesis by auto
  next
    case True
    obtain w1 s1 r where one: "pushOne api repo backoff clock e w s = (w1, s1, r)"
      by (cases "pushOne api repo backoff clock e w s") auto
    have qe: "getQueuedMutation repo s (q_id e) = Some e" using Cons.prems(3) by simp
    have inv1: "invar s1" and safe1: "\<And>m. mutation_safe api repo s m \<Longrightarrow> mutation_safe api repo s1 m"
      and other: "\<And>m. m \<noteq> q_id e \<Longrightarrow> getQueuedMutation repo s1 m = getQueuedMutation repo s m"
      using pushOne_effect [OF Cons.prems(1) qe one] pushOne_safe [OF Cons.prems(1) qe one]
      by (auto simp: attempt_effect_def)
    show ?thesis
    proof (cases r)
      case (Inl x)
      with Cons.prems(4) one True have "s' = s1" by simp
      with inv1 safe1 other True show ?thesis by auto
    next
      case (Inr out1)
      with Cons.prems(4) one True have rest: "pushAll_loop api repo backoff clock now es
          (AList.update (q_id e) out1 results) w1 s1 = (w', s', out)" by simp
      have qs: "getQueuedMutation repo s1 (q_id q) = Some q" if "q \<in> set es" for q
      proof -
        from that Cons.prems(2) have "q_id q \<noteq> q_id e" by (auto simp: image_iff)
        with that Cons.prems(3) [of q] other show ?thesis by simp
      qed
      from Cons.IH [OF inv1 _ qs rest] Cons.prems(2) safe1 other True show ?thesis by auto
    qed
  qed
qed

lemma pushAll_safe:
  assumes "invar s" "pushAll api repo backoff clock now w s = (w', s', out)"
  shows "invar s'" "mutation_safe api repo s m \<Longrightarrow> mutation_safe api repo s' m"
    "getQueuedMutation repo s i = Some q \<Longrightarrow> \<not> push_due now q \<Longrightarrow> getQueuedMutation repo s' i = Some q"
proof -
  have qs: "\<And>q. q \<in> set (listQueuedMutations repo s) \<Longrightarrow> getQueuedMutation repo s (q_id q) = Some q"
    using queue_list [OF assms(1)] by simp
  note * = pushAll_loop_safe [OF assms(1) queue_distinct [OF assms(1)] qs assms(2) [unfolded pushAll_def]]
  from * show "invar s'" by simp
  from * show "mutation_safe api repo s' m" if "mutation_safe api repo s m" using that by simp
  show "getQueuedMutation repo s' i = Some q"
    if "getQueuedMutation repo s i = Some q" "\<not> push_due now q"
  proof -
    have "\<forall>q \<in> set (listQueuedMutations repo s). push_due now q \<longrightarrow> q_id q \<noteq> i"
      using that qs by fastforce
    with * that show ?thesis by simp
  qed
qed

end

end
