(* ===== verification/Sync_Run.thy ===== *)
theory Sync_Run
  imports Sync_Engine
begin

text \<open>
  The sync engine as a state machine: the diagram of
  \<open>packages/contracts/sync-state-machine.md\<close> over the states of a queue entry, runs of the
  engine as sequences of its public methods, and the properties of push and pull on the
  repository the web client uses.
\<close>


section \<open>The diagram of a queue entry\<close>

text \<open>
  The edges of the documented diagram between queue states, labelled with the event the diagram
  names, and the one edge the code adds: a definite HTTP error other than 409 puts a \<open>SYNCING\<close>
  entry back to \<open>LOCAL_DIRTY\<close>.
\<close>

datatype sync_event = Ev_mutate | Ev_created | Ev_network_error | Ev_retry | Ev_conflict | Ev_resolve | Ev_http_error

inductive sync_edge :: "sync_state \<Rightarrow> sync_event \<Rightarrow> sync_state \<Rightarrow> bool" where
  mutate: "sync_edge LOCAL_DIRTY Ev_mutate SYNCING"
| created: "sync_edge SYNCING Ev_created LOCAL_CLEAN"
| network_error: "sync_edge SYNCING Ev_network_error RETRYABLE"
| retry: "sync_edge RETRYABLE Ev_retry SYNCING"
| conflict: "sync_edge SYNCING Ev_conflict CONFLICT"
| resolve: "sync_edge CONFLICT Ev_resolve LOCAL_DIRTY"
| http_error: "sync_edge SYNCING Ev_http_error LOCAL_DIRTY"

inductive_simps sync_edge_iff: "sync_edge SYNCING ev st"

text \<open>
  The event an answer of \<open>mutateItem\<close> is.  \<open>ApiClient\<close> throws only the two error classes of the
  first equations.
\<close>

fun answer_event :: "sdk_error + mutate_outcome \<Rightarrow> sync_event option" where
  "answer_event (Inl (HttpError _)) = Some Ev_http_error"
| "answer_event (Inl NetworkError) = Some Ev_network_error"
| "answer_event (Inl _) = None"
| "answer_event (Inr (Mutated _)) = Some Ev_created"
| "answer_event (Inr (Mutate_conflict _)) = Some Ev_conflict"

text \<open>The state an entry has in the repository; an entry that left the queue is clean.\<close>

definition entry_state :: "'s local_repository \<Rightarrow> 's \<Rightarrow> id \<Rightarrow> sync_state" where
  "entry_state repo s m =
     (case getQueuedMutation repo s m of None \<Rightarrow> LOCAL_CLEAN | Some q \<Rightarrow> q_state q)"

text \<open>
  What every queued entry satisfies: it is not clean, and a retryable one says when to retry.
\<close>

definition well_queued :: "queued_mutation \<Rightarrow> bool" where
  "well_queued q \<longleftrightarrow>
     q_state q \<noteq> LOCAL_CLEAN \<and>
     (q_state q = RETRYABLE \<longrightarrow> q_nextRetryAt q \<noteq> None \<and> 0 < q_attempts q)"

definition queue_ok :: "'s local_repository \<Rightarrow> 's \<Rightarrow> bool" where
  "queue_ok repo s \<longleftrightarrow> (\<forall>m q. getQueuedMutation repo s m = Some q \<longrightarrow> well_queued q)"


section \<open>Runs of the engine\<close>

text \<open>
  A step of a run is a call of one of the engine's public methods, with any arguments, whether
  it returns or throws, or a step of the environment: time and the network move on, and the
  storage changes in ways (\<open>env\<close>) that no method of the repository can see.
\<close>

inductive engine_step ::
  "'w sync_api \<Rightarrow> 's local_repository \<Rightarrow> ('s \<Rightarrow> 's \<Rightarrow> bool) \<Rightarrow> backoff_options \<Rightarrow> ('w \<Rightarrow> epoch_ms) \<Rightarrow>
   'w \<times> 's \<Rightarrow> 'w \<times> 's \<Rightarrow> bool"
  for api repo env backoff clock where
  edit: "enqueueEdit repo s m = Inr s' \<Longrightarrow> engine_step api repo env backoff clock (w, s) (w, s')"
| push: "pushAll api repo backoff clock now w s = (w', s', out) \<Longrightarrow>
    engine_step api repo env backoff clock (w, s) (w', s')"
| pull: "pull api repo v maxPages w s = (w', s', out) \<Longrightarrow>
    engine_step api repo env backoff clock (w, s) (w', s')"
| resolve: "resolveConflict repo s old m = (s', out) \<Longrightarrow>
    engine_step api repo env backoff clock (w, s) (w, s')"
| tick: "env s s' \<Longrightarrow> engine_step api repo env backoff clock (w, s) (w', s')"

inductive_cases engine_stepE: "engine_step api repo env backoff clock x y"

text \<open>What a step keeps: the invariants, and every stored version up to newer ones.\<close>

definition run_ok :: "'s local_repository \<Rightarrow> ('s \<Rightarrow> bool) \<Rightarrow> (id \<Rightarrow> bool) \<Rightarrow> 's \<Rightarrow> 's \<Rightarrow> bool" where
  "run_ok repo invar ok s s' \<longleftrightarrow> invar s' \<and> queue_ok repo s' \<and> items_advance repo ok s s'"

lemma run_okI:
  "invar s' \<Longrightarrow> queue_ok repo s' \<Longrightarrow> getItem repo s' = getItem repo s \<Longrightarrow> run_ok repo invar ok s s'"
  by (simp add: run_ok_def)

context repository_laws
begin

lemma queue_ok_upd:
  "queue_ok repo s \<Longrightarrow> getQueuedMutation repo s' = (getQueuedMutation repo s)(m \<mapsto> q) \<Longrightarrow> well_queued q \<Longrightarrow>
     queue_ok repo s'"
  by (auto simp: queue_ok_def split: if_splits)

lemma enqueueEdit_keeps:
  assumes "invar s" "queue_ok repo s" "enqueueEdit repo s m = Inr s'"
  shows "invar s'" "queue_ok repo s'"
  using enqueue_set [OF assms(1) assms(3) [unfolded enqueueEdit_def]] assms(2)
  by (auto simp: well_queued_def intro: queue_ok_upd)

lemma attempt_well_queued:
  assumes "attempt_effect repo ok entry s s' out" "queue_ok repo s" "well_queued entry"
    and "q_state entry \<noteq> CONFLICT"
  shows "queue_ok repo s'"
  unfolding queue_ok_def
proof (intro allI impI)
  fix m q
  assume q: "getQueuedMutation repo s' m = Some q"
  show "well_queued q"
  proof (cases "m = q_id entry")
    case False
    with assms(1,2) q show ?thesis by (simp add: attempt_effect_def queue_ok_def)
  next
    case True
    with assms q show ?thesis
      by (auto simp: attempt_effect_def well_queued_def split: sum.splits push_outcome.splits)
  qed
qed

lemma pushAll_loop_queue_ok:
  assumes "invar s" "queue_ok repo s" "distinct (map q_id entries)"
    and "\<And>q. q \<in> set entries \<Longrightarrow> getQueuedMutation repo s (q_id q) = Some q"
    and "pushAll_loop api repo backoff clock now entries results w s = (w', s', out)"
  shows "queue_ok repo s'"
  using assms
proof (induction entries arbitrary: results w s)
  case Nil
  then show ?case by simp
next
  case (Cons e es)
  show ?case
  proof (cases "push_due now e")
    case False
    with Cons.prems(5) have "pushAll_loop api repo backoff clock now es results w s = (w', s', out)" by simp
    from Cons.IH [OF Cons.prems(1,2) _ _ this] Cons.prems(3,4) show ?thesis by simp
  next
    case True
    obtain w1 s1 r where one: "pushOne api repo backoff clock e w s = (w1, s1, r)"
      by (cases "pushOne api repo backoff clock e w s") auto
    have qe: "getQueuedMutation repo s (q_id e) = Some e" using Cons.prems(4) by simp
    have inv1: "invar s1" and eff: "attempt_effect repo ok e s s1 r"
      using pushOne_effect [OF Cons.prems(1) qe one] by auto
    have ok1: "queue_ok repo s1"
      using attempt_well_queued [OF eff Cons.prems(2)] Cons.prems(2) qe True
      by (auto simp: queue_ok_def push_due_def)
    have qs: "getQueuedMutation repo s1 (q_id q) = Some q" if "q \<in> set es" for q
    proof -
      from that Cons.prems(3) have "q_id q \<noteq> q_id e" by (auto simp: image_iff)
      with that Cons.prems(4) [of q] eff show ?thesis by (simp add: attempt_effect_def)
    qed
    show ?thesis
      using Cons.IH [OF inv1 ok1 _ qs] Cons.prems(3,5) one True ok1
      by (cases r) auto
  qed
qed

lemma resolveConflict_keeps:
  assumes "invar s" "queue_ok repo s" "resolveConflict repo s old m = (s', out)"
  shows "invar s' \<and> queue_ok repo s'"
proof (cases "dequeueMutation repo s old")
  case (Inl e)
  with assms show ?thesis by (simp add: resolveConflict_def)
next
  case (Inr s1)
  from dequeue_del [OF assms(1) Inr] assms(2) have "invar s1" "queue_ok repo s1"
    by (auto simp: queue_ok_def split: if_splits)
  with assms(3) Inr enqueueEdit_keeps [of s1 m] show ?thesis
    by (auto simp: resolveConflict_def split: sum.splits)
qed

text \<open>Stored versions only advance, in every engine step.\<close>

lemma pushOne_advance:
  assumes "invar s" "\<And>v. ok v" "getQueuedMutation repo s (q_id entry) = Some entry"
    and "pushOne api repo backoff clock entry w s = (w', s', out)"
  shows "items_advance repo ok s s'"
proof (cases "enqueueMutation repo s (entry\<lparr>q_state := SYNCING\<rparr>)")
  case (Inl e)
  with assms show ?thesis by (simp add: pushOne_def)
next
  case (Inr s1)
  note s1 = enqueue_entry [OF assms(1) Inr, of entry, simplified]
  have q1: "getQueuedMutation repo s1 (q_id entry) = Some (entry\<lparr>q_state := SYNCING\<rparr>)"
    using s1(2) by simp
  obtain w1 r where mi: "mutateItem api w (mut_vaultId (q_mutation entry)) (q_mutation entry) = (w1, r)"
    by force
  from assms(4) Inr mi consider
      (stored) item s2 where "putItem repo s1 item = Inr s2"
        "(case dequeueMutation repo s2 (q_id entry) of
            Inl e \<Rightarrow> pushOne_catch repo backoff clock entry e w1 s2
          | Inr s3 \<Rightarrow> (w1, s3, Inr (Push_applied item))) = (w', s', out)"
    | (caught) e where "pushOne_catch repo backoff clock entry e w1 s1 = (w', s', out)"
    | (conflict) "enqueueMutation repo s1 (entry\<lparr>q_state := CONFLICT\<rparr>) = Inr s'"
    by (cases r) (auto simp: pushOne_def Let_def split: sum.splits mutate_outcome.splits)
  then show ?thesis
  proof cases
    case stored
    from pushOne_stored [OF s1(1) q1 stored] put_advance [OF s1(1) assms(2) stored(1)] s1(3)
    show ?thesis by (simp add: items_advance_def)
  next
    case caught
    from pushOne_catch_effect [OF s1(1) q1 caught] s1(3) show ?thesis by simp
  next
    case conflict
    from enqueue_set [OF s1(1) conflict(1)] s1(3) show ?thesis by simp
  qed
qed

lemma pushAll_loop_advance:
  assumes "invar s" "\<And>v. ok v" "distinct (map q_id entries)"
    and "\<And>q. q \<in> set entries \<Longrightarrow> getQueuedMutation repo s (q_id q) = Some q"
    and "pushAll_loop api repo backoff clock now entries results w s = (w', s', out)"
  shows "items_advance repo ok s s'"
  using assms
proof (induction entries arbitrary: results w s)
  case Nil
  then show ?case by simp
next
  case (Cons e es)
  show ?case
  proof (cases "push_due now e")
    case False
    with Cons.prems(5) have "pushAll_loop api repo backoff clock now es results w s = (w', s', out)" by simp
    from Cons.IH [OF Cons.prems(1,2) _ _ this] Cons.prems(3,4) show ?thesis by simp
  next
    case True
    obtain w1 s1 r where one: "pushOne api repo backoff clock e w s = (w1, s1, r)"
      by (cases "pushOne api repo backoff clock e w s") auto
    have qe: "getQueuedMutation repo s (q_id e) = Some e" using Cons.prems(4) by simp
    have inv1: "invar s1" and eff: "attempt_effect repo ok e s s1 r"
      using pushOne_effect [OF Cons.prems(1) qe one] by auto
    have adv: "items_advance repo ok s s1" by (rule pushOne_advance [OF Cons.prems(1,2) qe one])
    have qs: "getQueuedMutation repo s1 (q_id q) = Some q" if "q \<in> set es" for q
    proof -
      from that Cons.prems(3) have "q_id q \<noteq> q_id e" by (auto simp: image_iff)
      with that Cons.prems(4) [of q] eff show ?thesis by (simp add: attempt_effect_def)
    qed
    show ?thesis
    proof (cases r)
      case (Inl x)
      with Cons.prems(5) one True adv show ?thesis by simp
    next
      case (Inr out1)
      with Cons.prems(5) one True have rest: "pushAll_loop api repo backoff clock now es
          (AList.update (q_id e) out1 results) w1 s1 = (w', s', out)" by simp
      from Cons.prems(3) have "distinct (map q_id es)" by simp
      from Cons.IH [OF inv1 Cons.prems(2) this qs rest] adv show ?thesis
        by (rule items_advance_trans [rotated])
    qed
  qed
qed

lemma pushAll_keeps:
  assumes "invar s" "queue_ok repo s" "\<And>v. ok v"
    and "pushAll api repo backoff clock now w s = (w', s', out)"
  shows "run_ok repo invar ok s s'"
proof -
  have qs: "\<And>q. q \<in> set (listQueuedMutations repo s) \<Longrightarrow> getQueuedMutation repo s (q_id q) = Some q"
    using queue_list [OF assms(1)] by simp
  note loop = assms(4) [unfolded pushAll_def]
  have "queue_ok repo s'"
    by (rule pushAll_loop_queue_ok [OF assms(1,2) queue_distinct [OF assms(1)] qs loop])
  moreover have "items_advance repo ok s s'"
    by (rule pushAll_loop_advance [OF assms(1,3) queue_distinct [OF assms(1)] qs loop])
  ultimately show ?thesis using pushAll_safe(1) [OF assms(1,4)] unfolding run_ok_def by blast
qed

lemma resolve_items:
  assumes "invar s" "resolveConflict repo s old m = (s', out)"
  shows "getItem repo s' = getItem repo s"
proof (cases "dequeueMutation repo s old")
  case (Inl e)
  with assms show ?thesis by (simp add: resolveConflict_def)
next
  case (Inr s1)
  with assms dequeue_del [OF assms(1) Inr] enqueue_set [of s1 _ s'] show ?thesis
    by (auto simp: resolveConflict_def enqueueEdit_def split: sum.splits)
qed

lemma engine_step_keeps:
  assumes "engine_step api repo env backoff clock x y"
    and "invar (snd x)" "queue_ok repo (snd x)" "\<And>v. ok v"
    and env: "\<And>s s'. invar s \<Longrightarrow> env s s' \<Longrightarrow> invar s' \<and> getItem repo s' = getItem repo s \<and>
      getQueuedMutation repo s' = getQueuedMutation repo s"
  shows "run_ok repo invar ok (snd x) (snd y)"
  using assms(1-4)
proof (induction rule: engine_step.induct)
  case (edit s m s' w)
  then have i: "invar s" "queue_ok repo s" by simp_all
  from enqueueEdit_keeps [OF i edit.hyps] enqueue_set [OF i(1) edit.hyps [unfolded enqueueEdit_def]]
  show ?case by (simp add: run_okI)
next
  case (push now w s w' s' out)
  from pushAll_keeps [OF _ _ push.prems(3) push.hyps] push.prems(1,2) show ?case by simp
next
  case (pull v maxPages w s w' s' out)
  then have i: "invar s" "queue_ok repo s" by simp_all
  from pull_loop_safe [OF i(1) pull.prems(3) pull.hyps [unfolded pull_def]] i(2) show ?case
    unfolding run_ok_def pull_frame_def queue_ok_def snd_conv by metis
next
  case (resolve s old m s' out w)
  then have i: "invar s" "queue_ok repo s" by simp_all
  from resolveConflict_keeps [OF i resolve.hyps] resolve_items [OF i(1) resolve.hyps]
  show ?case by (simp add: run_okI)
next
  case (tick s s' w w')
  with env [of s s'] show ?case by (simp add: run_okI queue_ok_def)
qed

lemma engine_run_keeps:
  assumes "(engine_step api repo env backoff clock)\<^sup>*\<^sup>* x y"
    and "invar (snd x)" "queue_ok repo (snd x)" "\<And>v. ok v"
    and env: "\<And>s s'. invar s \<Longrightarrow> env s s' \<Longrightarrow> invar s' \<and> getItem repo s' = getItem repo s \<and>
      getQueuedMutation repo s' = getQueuedMutation repo s"
  shows "run_ok repo invar ok (snd x) (snd y)"
  using assms(1)
proof (induction rule: rtranclp_induct)
  case base
  with assms(2,3) show ?case by (simp add: run_ok_def)
next
  case (step y z)
  then have y: "invar (snd y)" "queue_ok repo (snd y)" "items_advance repo ok (snd x) (snd y)"
    by (auto simp: run_ok_def)
  from engine_step_keeps [OF step(2) y(1,2) assms(4) env] y(3) show ?case
    unfolding run_ok_def by (blast intro: items_advance_trans)
qed

end

end
