(* ===== verification/Sync_Converge.thy ===== *)
theory Sync_Converge
  imports Sync_Run
begin

text \<open>
  Progress of the pull side: when the storage works and the server's feed is the one
  \<open>packages/contracts/sync-state-machine.md\<close> describes (revisions of an item increase, the cursor
  moves with every page, the last page is empty), \<open>pull\<close> reaches the end of the feed and the
  local vault is then the result of the whole feed.
\<close>


section \<open>Repositories whose writes succeed\<close>

locale reliable_repository = repository_laws repo invar ok
  for repo :: "'s local_repository" and invar :: "'s \<Rightarrow> bool" and ok :: "id \<Rightarrow> bool" +
  fixes up :: "'s \<Rightarrow> bool"
  assumes put_succeeds:
      "invar s \<Longrightarrow> up s \<Longrightarrow> assertMonotonicPut (getItem repo s (vaultId r) (itemId r)) r = None \<Longrightarrow>
         \<exists>s'. putItem repo s r = Inr s' \<and> up s'"
    and cursor_succeeds: "invar s \<Longrightarrow> up s \<Longrightarrow> \<exists>s'. setCursor repo s v c = Inr s' \<and> up s'"
    and enqueue_succeeds: "invar s \<Longrightarrow> up s \<Longrightarrow> \<exists>s'. enqueueMutation repo s q = Inr s' \<and> up s'"
    and dequeue_succeeds: "invar s \<Longrightarrow> up s \<Longrightarrow> \<exists>s'. dequeueMutation repo s m = Inr s' \<and> up s'"

definition idb_up :: "indexed_db \<Rightarrow> bool" where
  "idb_up s \<longleftrightarrow> idb_fate s = []"

interpretation idb: reliable_repository IndexedDBLocalRepository idb_invar "\<lambda>_. True" idb_up
  by unfold_locales (auto simp: idb_defs idb_up_def)

interpretation mem: reliable_repository InMemoryLocalRepository mem_invar nul_free "\<lambda>_. True"
  by unfold_locales (auto simp: mem_defs)


section \<open>The feed\<close>

text \<open>The effect of a list of changes on the records of a vault, the last version winning.\<close>

definition feed_apply :: "(id \<rightharpoonup> item_record) \<Rightarrow> item_record list \<Rightarrow> (id \<rightharpoonup> item_record)" where
  "feed_apply m cs = foldl (\<lambda>m c. m(itemId c \<mapsto> c)) m cs"

text \<open>Changes of one vault, each a newer version of what is known of its item.\<close>

fun mono_feed :: "id \<Rightarrow> (id \<rightharpoonup> item_record) \<Rightarrow> item_record list \<Rightarrow> bool" where
  "mono_feed v m [] \<longleftrightarrow> True"
| "mono_feed v m (c # cs) \<longleftrightarrow>
     vaultId c = v \<and> (case m (itemId c) of None \<Rightarrow> True | Some old \<Rightarrow> supersedes c old) \<and>
     mono_feed v (m(itemId c \<mapsto> c)) cs"

text \<open>
  The server answers the given pages one after the other from cursor \<open>cur\<close>, then an empty one
  that repeats the cursor.
\<close>

fun serves :: "'w sync_api \<Rightarrow> 'w \<Rightarrow> id \<Rightarrow> string option \<Rightarrow> change_page list \<Rightarrow> bool" where
  "serves api w v cur [] \<longleftrightarrow>
     listChanges api w v cur = (w, Inr \<lparr>changes = [], nextCursor = cur\<rparr>)"
| "serves api w v cur (p # ps) \<longleftrightarrow>
     listChanges api w v cur = (w, Inr p) \<and> changes p \<noteq> [] \<and> nextCursor p \<noteq> None \<and>
     nextCursor p \<noteq> cur \<and> serves api w v (nextCursor p) ps"

definition feed_changes :: "change_page list \<Rightarrow> item_record list" where
  "feed_changes ps = concat (map changes ps)"

definition feed_cursor :: "string option \<Rightarrow> change_page list \<Rightarrow> string option" where
  "feed_cursor cur ps = (if ps = [] then cur else nextCursor (last ps))"

lemma mono_feed_append:
  "mono_feed v m (cs @ ds) \<longleftrightarrow> mono_feed v m cs \<and> mono_feed v (feed_apply m cs) ds"
  by (induction cs arbitrary: m) (auto simp: feed_apply_def)

context reliable_repository
begin

lemma apply_changes_succeeds:
  assumes "invar s" "up s" "ok v" "mono_feed v (getItem repo s v) cs"
  shows "\<exists>s'. apply_changes repo v cs n s = (s', n + length cs, None) \<and> invar s' \<and> up s' \<and>
    getItem repo s' v = feed_apply (getItem repo s v) cs"
  using assms
proof (induction cs arbitrary: n s)
  case Nil
  then show ?case by (simp add: feed_apply_def)
next
  case (Cons c cs)
  from Cons.prems(4) have v: "vaultId c = v"
    and guard: "assertMonotonicPut (getItem repo s (vaultId c) (itemId c)) c = None"
    and rest: "mono_feed v ((getItem repo s v)(itemId c \<mapsto> c)) cs"
    by (auto simp: assertMonotonicPut_None_iff)
  from put_succeeds [OF Cons.prems(1,2) guard] obtain s1
    where put: "putItem repo s c = Inr s1" and up1: "up s1" by blast
  have g: "getItem repo s1 v = (getItem repo s v)(itemId c \<mapsto> c)"
    using put_get [OF Cons.prems(1) _ Cons.prems(3) put] v Cons.prems(3) by (auto simp: fun_eq_iff)
  have "invar s1" using put_ok [OF Cons.prems(1) put] by simp
  from Cons.IH [OF this up1 Cons.prems(3) rest [folded g], of "n + 1"] obtain s' where
    "apply_changes repo v cs (n + 1) s1 = (s', n + 1 + length cs, None)" "invar s'" "up s'"
    "getItem repo s' v = feed_apply ((getItem repo s v)(itemId c \<mapsto> c)) cs"
    unfolding g by blast
  with put v show ?case by (simp add: feed_apply_def)
qed

lemma pull_loop_converges:
  assumes "invar s" "up s" "ok v" "serves api w v cur ps"
    and "mono_feed v (getItem repo s v) (feed_changes ps)" "length ps < fuel"
  shows "\<exists>s'. pull_loop api repo v fuel cur pages items w s =
      (w, s', Inr (Pull_applied (pages + length ps + 1) (items + length (feed_changes ps)) (feed_cursor cur ps))) \<and>
    getItem repo s' v = feed_apply (getItem repo s v) (feed_changes ps) \<and> invar s' \<and> up s' \<and>
    getCursor repo s' v = Some (case feed_cursor cur ps of None \<Rightarrow> [] | Some c \<Rightarrow> c)"
  using assms
proof (induction ps arbitrary: s cur pages items fuel)
  case Nil
  then obtain k where k: "fuel = Suc k" by (cases fuel) auto
  from cursor_succeeds [OF Nil.prems(1,2)] obtain s'
    where c: "setCursor repo s v (case cur of None \<Rightarrow> [] | Some c \<Rightarrow> c) = Inr s'" and up': "up s'" by blast
  have "cursor_or cur cur = cur" by (cases cur) (auto simp: cursor_or_def)
  with Nil k c up' cursor_set [OF Nil.prems(1) c] show ?case
    by (simp add: feed_changes_def feed_cursor_def feed_apply_def)
next
  case (Cons p ps)
  then obtain k where k: "fuel = Suc k" by (cases fuel) auto
  from Cons.prems(4) obtain c where lc: "listChanges api w v cur = (w, Inr p)" and c: "nextCursor p = Some c"
    and ne: "changes p \<noteq> []" "nextCursor p \<noteq> cur" and sv: "serves api w v (Some c) ps" by auto
  have mono: "mono_feed v (getItem repo s v) (changes p)"
    "mono_feed v (feed_apply (getItem repo s v) (changes p)) (feed_changes ps)"
    using Cons.prems(5) by (simp_all add: feed_changes_def mono_feed_append)
  from apply_changes_succeeds [OF Cons.prems(1-3) mono(1)] obtain s1
    where a: "apply_changes repo v (changes p) items s = (s1, items + length (changes p), None)"
      and s1: "invar s1" "up s1" "getItem repo s1 v = feed_apply (getItem repo s v) (changes p)" by blast
  from cursor_succeeds [OF s1(1,2)] obtain s2 where sc: "setCursor repo s1 v c = Inr s2" "up s2" by blast
  have s2: "invar s2" "getItem repo s2 v = getItem repo s1 v" using cursor_set [OF s1(1) sc(1)] by auto
  have "length ps < k" using Cons.prems(6) k by simp
  from Cons.IH [OF s2(1) sc(2) Cons.prems(3) sv _ this, of "pages + 1" "items + length (changes p)"] mono(2)
    k lc a sc s2 c ne s1(3) show ?case
    by (auto simp: cursor_or_def feed_changes_def feed_cursor_def feed_apply_def split: if_splits)
qed

text \<open>A push attempt on working storage takes the edge of the diagram that the answer names.\<close>

lemma pushOne_edge:
  assumes "invar s" "up s" "getQueuedMutation repo s (q_id entry) = Some entry"
    and "mutateItem api w (mut_vaultId (q_mutation entry)) (q_mutation entry) = (w1, answer)"
    and "answer_event answer = Some ev"
    and "\<And>item. answer = Inr (Mutated item) \<Longrightarrow>
      assertMonotonicPut (getItem repo s (vaultId item) (itemId item)) item = None"
  shows "\<exists>s' out. pushOne api repo backoff clock entry w s = (w1, s', out) \<and>
    sync_edge SYNCING ev (entry_state repo s' (q_id entry))"
proof -
  obtain s1 where e: "enqueueMutation repo s (entry\<lparr>q_state := SYNCING\<rparr>) = Inr s1" and up1: "up s1"
    using enqueue_succeeds [OF assms(1,2)] by blast
  note s1 = enqueue_entry [OF assms(1) e, of entry, simplified]
  have enq: "\<exists>s2. enqueueMutation repo s1 q = Inr s2 \<and> getQueuedMutation repo s2 (q_id entry) = Some q"
    if "q_mutation q = q_mutation entry" for q
    using enqueue_succeeds [OF s1(1) up1, of q] enqueue_entry(2) [OF s1(1) _ that] by auto
  show ?thesis
  proof (cases "\<exists>item. answer = Inr (Mutated item)")
    case False
    let ?t = "clock w1 + retryDelayMs (int (q_attempts entry + 1)) backoff"
    from False assms(4,5) e show ?thesis
      using enq [of "entry\<lparr>q_state := LOCAL_DIRTY\<rparr>"] enq [of "entry\<lparr>q_state := CONFLICT\<rparr>"]
        enq [of "entry\<lparr>q_state := RETRYABLE, q_attempts := q_attempts entry + 1,
          q_nextRetryAt := Some ?t, q_lastError := Some (error_message NetworkError)\<rparr>"]
      by (cases answer rule: answer_event.cases)
         (auto simp: pushOne_def pushOne_catch_def entry_state_def sync_edge_iff Let_def)
  next
    case True
    then obtain item where a: "answer = Inr (Mutated item)" by blast
    have "assertMonotonicPut (getItem repo s1 (vaultId item) (itemId item)) item = None"
      using assms(6) [OF a] s1(3) by simp
    from put_succeeds [OF s1(1) up1 this] obtain s2 where put: "putItem repo s1 item = Inr s2" "up s2" by blast
    have "invar s2" using put_ok [OF s1(1) put(1)] by simp
    from dequeue_succeeds [OF this put(2)] obtain s3
      where d: "dequeueMutation repo s2 (q_id entry) = Inr s3" by blast
    from dequeue_del [OF \<open>invar s2\<close> d] a assms(4,5) e put d show ?thesis
      by (simp add: pushOne_def entry_state_def sync_edge_iff Let_def)
  qed
qed

end

end
