(* ===== verification/Sync_Properties.thy ===== *)
theory Sync_Properties
  imports Sync_Converge
begin

text \<open>
  The properties of the sync engine on the repository of the web client, and the agreement of
  the two repository implementations.  The server is the argument \<open>api\<close>: every statement holds
  for whatever it answers.  \<open>sample_*\<close> are the inputs of the witnesses.
\<close>


section \<open>Sample data\<close>

definition sample_item :: "id \<Rightarrow> id \<Rightarrow> int \<Rightarrow> item_record" where
  "sample_item v i r =
     \<lparr>itemId = i, vaultId = v, ciphertext = ''b64:AA=='', envelopeVersion = ''crypto-envelope/v1'',
      revision = r, deleted = False, createdAt = ''t0'', updatedAt = ''t1''\<rparr>"

definition sample_mutation :: "id \<Rightarrow> mutation" where
  "sample_mutation m =
     \<lparr>mut_mutationId = m, mut_itemId = ''i'', mut_vaultId = ''v'', mut_baseRevision = 0,
      mut_ciphertext = ''b64:AA=='', mut_envelopeVersion = ''crypto-envelope/v1'', mut_deleted = False\<rparr>"

definition sample_entry :: "id \<Rightarrow> sync_state \<Rightarrow> queued_mutation" where
  "sample_entry m st =
     \<lparr>q_mutation = sample_mutation m, q_state = st, q_attempts = 0, q_nextRetryAt = None,
      q_lastError = None\<rparr>"

text \<open>A server that accepts every mutation as revision 1 and feeds one page.\<close>

definition sample_api :: "item_record list \<Rightarrow> unit sync_api" where
  "sample_api cs =
     \<lparr>mutateItem = (\<lambda>w v m. (w, Inr (Mutated (sample_item v (mut_itemId m) 1)))),
      listChanges = (\<lambda>w v c. (w, Inr \<lparr>changes = (if c = None then cs else []), nextCursor = Some ''c1''\<rparr>))\<rparr>"

definition sample_db :: indexed_db where
  "sample_db = idb_empty\<lparr>idb_items := [((''v'', ''i''), sample_item ''v'' ''i'' 0)],
     idb_queue := [(''m'', sample_entry ''m'' LOCAL_DIRTY)]\<rparr>"

lemma sample_db_invar: "idb_invar sample_db"
  by (simp add: sample_db_def idb_invar_def store_keyed_def store_wf_def idb_empty_def
      sample_entry_def sample_mutation_def sample_item_def item_path_def keyed_def map_wf_def)

lemma sample_db_queue: "queue_ok IndexedDBLocalRepository sample_db"
  by (simp add: queue_ok_def sample_db_def idb_defs well_queued_def sample_entry_def)

lemma idb_empty_invar [simp]: "idb_invar idb_empty"
  by (simp add: idb_empty_def idb_invar_def store_keyed_def)


section \<open>Stored records\<close>

text \<open>
  C1.  A record in the web client's store is only ever replaced by a newer version: whatever
  sequence of edits, pushes, pulls and conflict resolutions runs, against whatever server and
  with storage transactions failing at any point, each stored record is still there at the end
  with a higher revision or with the same revision and the same bytes; and the queue stays
  well formed (no clean entry, a retryable one has its retry time).
\<close>

theorem engine_run_safe:
  assumes "(engine_step api IndexedDBLocalRepository idb_env backoff clock)\<^sup>*\<^sup>* (w, s) (w', s')"
    and "idb_invar s" "queue_ok IndexedDBLocalRepository s"
  shows "idb_invar s' \<and> queue_ok IndexedDBLocalRepository s' \<and>
    (\<forall>v i old. idb_getItem s v i = Some old \<longrightarrow>
       (\<exists>new. idb_getItem s' v i = Some new \<and> supersedes new old))"
proof -
  have env: "idb_invar t' \<and>
      getItem IndexedDBLocalRepository t' = getItem IndexedDBLocalRepository t \<and>
      getQueuedMutation IndexedDBLocalRepository t' = getQueuedMutation IndexedDBLocalRepository t"
    if "idb_invar t" "idb_env t t'" for t t'
    using that by (cases t') (auto simp: idb_env_def idb_invar_def idb_defs fun_eq_iff)
  from idb.engine_run_keeps [OF assms(1) _ _ _ env] assms(2,3)
  have "run_ok IndexedDBLocalRepository idb_invar (\<lambda>_. True) s s'" by simp
  then show ?thesis
    by (simp add: run_ok_def items_advance_def IndexedDBLocalRepository_def)
qed

theorem engine_run_safe_witness:
  "\<exists>new. idb_getItem (fst (snd (pushAll (sample_api []) IndexedDBLocalRepository DEFAULT_BACKOFF
       (\<lambda>_. 0) 0 () sample_db))) ''v'' ''i'' = Some new \<and> supersedes new (sample_item ''v'' ''i'' 0)"
proof -
  obtain w s' out where push: "pushAll (sample_api []) IndexedDBLocalRepository DEFAULT_BACKOFF
      (\<lambda>_. 0) 0 () sample_db = (w, s', out)" by (rule prod_cases3)
  have "(engine_step (sample_api []) IndexedDBLocalRepository idb_env DEFAULT_BACKOFF (\<lambda>_. 0))\<^sup>*\<^sup>*
      ((), sample_db) (w, s')"
    using engine_step.push [OF push] by blast
  from engine_run_safe [OF this sample_db_invar sample_db_queue] show ?thesis
    by (simp add: push) (simp add: sample_db_def idb_getItem_def)
qed

text \<open>
  \<open>putItem\<close> lets exactly the records through that supersede the stored version: an
  accepted record is stored and nothing else changes; a lower revision or a changed content under
  the same revision (a deletion flag flipped back included) is refused with a
  \<open>RecordConflictError\<close>; any other refusal is a failed transaction.
\<close>

theorem idb_putItem_spec:
  "case idb_putItem s r of
     Inr s' \<Rightarrow>
       (\<forall>old. idb_getItem s (vaultId r) (itemId r) = Some old \<longrightarrow> supersedes r old) \<and>
       idb_getItem s' (vaultId r) (itemId r) = Some r \<and>
       (\<forall>v i. (v, i) \<noteq> (vaultId r, itemId r) \<longrightarrow> idb_getItem s' v i = idb_getItem s v i) \<and>
       idb_cursors s' = idb_cursors s \<and> idb_queue s' = idb_queue s
   | Inl e \<Rightarrow>
       (\<exists>reason msg. e = RecordConflictError reason msg \<and>
          (\<exists>old. idb_getItem s (vaultId r) (itemId r) = Some old \<and> \<not> supersedes r old)) \<or>
       (\<exists>fate. idb_fate s = Some e # fate)"
proof (cases "assertMonotonicPut (idb_getItem s (vaultId r) (itemId r)) r")
  case None
  then show ?thesis
    using assertMonotonicPut_None_iff [of "idb_getItem s (vaultId r) (itemId r)" r]
    by (auto simp: idb_defs split: list.splits option.splits sum.splits)
next
  case (Some e)
  then have "\<exists>old. idb_getItem s (vaultId r) (itemId r) = Some old \<and> \<not> supersedes r old"
    using assertMonotonicPut_None_iff [of "idb_getItem s (vaultId r) (itemId r)" r] by auto
  with Some assertMonotonicPut_error [OF Some] show ?thesis
    by (auto simp: idb_putItem_def idb_getItem_def)
qed

theorem idb_putItem_spec_witness:
  "\<exists>s'. idb_putItem sample_db (sample_item ''v'' ''i'' 1) = Inr s' \<and>
     idb_getItem s' ''v'' ''i'' = Some (sample_item ''v'' ''i'' 1)"
proof -
  have "\<exists>s'. idb_putItem sample_db (sample_item ''v'' ''i'' 1) = Inr s'"
    by (simp add: sample_db_def idb_empty_def idb_putItem_def idb_write_def assertMonotonicPut_def
        sample_item_def)
  then show ?thesis
    using idb_putItem_spec [of sample_db "sample_item ''v'' ''i'' 1"]
    by (auto simp: sample_item_def)
qed


section \<open>Pull\<close>

text \<open>
  A pull of vault \<open>v\<close> against any server changes records and cursor of \<open>v\<close> only, never
  touches the queue, never replaces a record by an older version, and leaves the cursor either
  where it was or at the cursor of a page of which every record is durably stored.
\<close>

theorem pull_safe:
  assumes "idb_invar s" "pull api IndexedDBLocalRepository v maxPages w s = (w', s', out)"
  shows "idb_invar s' \<and> pull_frame IndexedDBLocalRepository (\<lambda>_. True) v s s' \<and>
    (idb_getCursor s' v = idb_getCursor s v \<or> cursor_earned api IndexedDBLocalRepository v s')"
  using idb.pull_loop_safe [OF assms(1) TrueI assms(2) [unfolded pull_def]]
  by (simp add: IndexedDBLocalRepository_def)

theorem pull_safe_witness:
  "let s' = fst (snd (pull (sample_api [sample_item ''v'' ''i'' 1]) IndexedDBLocalRepository ''v'' 1 () sample_db))
   in idb_invar s' \<and> cursor_earned (sample_api [sample_item ''v'' ''i'' 1]) IndexedDBLocalRepository ''v'' s'"
proof -
  let ?p = "pull (sample_api [sample_item ''v'' ''i'' 1]) IndexedDBLocalRepository ''v'' 1 () sample_db"
  have c: "idb_getCursor (fst (snd ?p)) ''v'' \<noteq> idb_getCursor sample_db ''v''" by code_simp
  obtain w s' out where p: "?p = (w, s', out)" by (rule prod_cases3)
  from pull_safe [OF sample_db_invar p] c show ?thesis unfolding p fst_conv snd_conv Let_def by blast
qed

text \<open>
  A page that holds a record of another vault, or a rollback (a record that does not
  supersede the stored version), never moves the cursor: the pull that meets it reports an
  error and the cursor stays where it was, so the page is not skipped.
\<close>

theorem pull_bad_page:
  assumes "idb_invar s" "listChanges api w v (idb_getCursor s v) = (w1, Inr page)"
    and "c \<in> set (changes page)"
    and "vaultId c \<noteq> v \<or> (\<exists>old. idb_getItem s v (itemId c) = Some old \<and> \<not> supersedes c old)"
  shows "\<exists>s' msg n. pull api IndexedDBLocalRepository v (Suc k) w s = (w1, s', Inr (Pull_error msg n)) \<and>
    idb_getCursor s' = idb_getCursor s"
proof -
  have "\<exists>s' n' e. apply_changes IndexedDBLocalRepository v (changes page) 0 s = (s', n', Some e)"
    using assms(4) apply_changes_foreign [OF assms(3)]
      idb.apply_changes_stale [OF assms(1) TrueI assms(3)]
    by (auto simp: IndexedDBLocalRepository_def)
  then obtain s' n' e where a: "apply_changes IndexedDBLocalRepository v (changes page) 0 s = (s', n', Some e)"
    by blast
  from idb.apply_changes_keeps [OF assms(1) TrueI a] a assms(2) show ?thesis
    by (simp add: pull_def IndexedDBLocalRepository_def)
qed

theorem pull_bad_page_witness:
  "\<exists>s' msg n. pull (sample_api [sample_item ''v'' ''i'' (-1)]) IndexedDBLocalRepository ''v'' 5 () sample_db =
     ((), s', Inr (Pull_error msg n)) \<and> idb_getCursor s' = idb_getCursor sample_db"
  using pull_bad_page [of sample_db "sample_api [sample_item ''v'' ''i'' (-1)]" "()" "''v''" "()" _
      "sample_item ''v'' ''i'' (-1)" 4] sample_db_invar
  by (simp add: sample_api_def sample_db_def idb_empty_def idb_getCursor_def idb_getItem_def
      sample_item_def supersedes_def)

text \<open>
  When no transaction fails and the server serves a feed of pages whose records are of the
  pulled vault and newer than what is known, a pull with enough pages ends without an error at
  the end of the feed, having applied every change: the local vault is then exactly the old one
  overwritten by the feed, the last version of each item winning.
\<close>

theorem pull_converges:
  assumes "idb_invar s" "idb_up s" "serves api w v (idb_getCursor s v) ps"
    and "mono_feed v (idb_getItem s v) (feed_changes ps)" "length ps < maxPages"
  shows "\<exists>s'. pull api IndexedDBLocalRepository v maxPages w s =
      (w, s', Inr (Pull_applied (length ps + 1) (length (feed_changes ps))
        (feed_cursor (idb_getCursor s v) ps))) \<and>
    idb_getItem s' v = feed_apply (idb_getItem s v) (feed_changes ps)"
  using idb.pull_loop_converges [OF assms(1,2) TrueI assms(3), of maxPages 0 0] assms(4,5)
  by (auto simp: pull_def IndexedDBLocalRepository_def)

theorem pull_converges_witness:
  "\<exists>s'. pull (sample_api [sample_item ''v'' ''i'' 1, sample_item ''v'' ''j'' 4]) IndexedDBLocalRepository
      ''v'' 1000 () sample_db = ((), s', Inr (Pull_applied 2 2 (Some ''c1''))) \<and>
    idb_getItem s' ''v'' ''j'' = Some (sample_item ''v'' ''j'' 4)"
proof -
  let ?cs = "[sample_item ''v'' ''i'' 1, sample_item ''v'' ''j'' 4]"
  let ?ps = "[\<lparr>changes = ?cs, nextCursor = Some ''c1''\<rparr>]"
  have "idb_up sample_db" "serves (sample_api ?cs) () ''v'' (idb_getCursor sample_db ''v'') ?ps"
    "mono_feed ''v'' (idb_getItem sample_db ''v'') (feed_changes ?ps)" "length ?ps < (1000::nat)"
    by (simp_all add: idb_up_def sample_db_def idb_empty_def idb_getCursor_def sample_api_def
        idb_getItem_def feed_changes_def sample_item_def supersedes_def)
  note pull_converges [OF sample_db_invar this]
  moreover have "feed_apply m (feed_changes ?ps) ''j'' = Some (sample_item ''v'' ''j'' 4)" for m
    by (simp add: feed_apply_def feed_changes_def sample_item_def)
  ultimately show ?thesis
    by (auto simp: feed_changes_def feed_cursor_def numeral_2_eq_2)
qed


section \<open>Push\<close>

text \<open>
  One push attempt, whatever the server answers and whichever write fails: no other queue
  entry and no cursor changes; the entry leaves the queue only when the server's record is
  stored; a conflict keeps it as \<open>CONFLICT\<close>, a network failure as \<open>RETRYABLE\<close> with one more
  attempt; after an exception the same mutation is still queued.
\<close>

theorem pushOne_outcomes:
  assumes "idb_invar s" "idb_getQueuedMutation s (q_id entry) = Some entry"
    and "pushOne api IndexedDBLocalRepository backoff clock entry w s = (w', s', out)"
  shows "idb_invar s' \<and> attempt_effect IndexedDBLocalRepository (\<lambda>_. True) entry s s' out"
  using idb.pushOne_effect [OF assms(1) _ assms(3)] assms(2) by (simp add: IndexedDBLocalRepository_def)

theorem pushOne_outcomes_witness:
  "let s' = fst (snd (pushOne (sample_api []) IndexedDBLocalRepository DEFAULT_BACKOFF (\<lambda>_. 0)
        (sample_entry ''m'' LOCAL_DIRTY) () sample_db))
   in idb_getQueuedMutation s' ''m'' = None \<and>
      idb_getItem s' ''v'' ''i'' = Some (sample_item ''v'' ''i'' 1)"
proof -
  let ?p = "pushOne (sample_api []) IndexedDBLocalRepository DEFAULT_BACKOFF (\<lambda>_. 0)
        (sample_entry ''m'' LOCAL_DIRTY) () sample_db"
  obtain w s' out where p: "?p = (w, s', out)" by (rule prod_cases3)
  have "snd (snd ?p) = Inr (Push_applied (sample_item ''v'' ''i'' 1))"
    by (simp add: pushOne_def sample_db_def idb_empty_def idb_defs sample_api_def sample_entry_def
        sample_mutation_def assertMonotonicPut_def sample_item_def Let_def)
  then have out: "out = Inr (Push_applied (sample_item ''v'' ''i'' 1))" by (simp add: p)
  have q: "idb_getQueuedMutation sample_db (q_id (sample_entry ''m'' LOCAL_DIRTY)) =
      Some (sample_entry ''m'' LOCAL_DIRTY)"
    by (simp add: sample_db_def sample_entry_def sample_mutation_def idb_getQueuedMutation_def)
  from pushOne_outcomes [OF sample_db_invar q p]
  have "idb_getQueuedMutation s' ''m'' = None \<and> idb_getItem s' ''v'' ''i'' = Some (sample_item ''v'' ''i'' 1)"
    by (simp add: out attempt_effect_def IndexedDBLocalRepository_def sample_entry_def
        sample_mutation_def sample_item_def)
  then show ?thesis unfolding Let_def p by simp
qed

text \<open>
  C2.  \<open>pushAll\<close> loses no edit: a mutation that was queued before is afterwards still
  queued, or the server has answered it with a stored record; an entry in conflict or inside its
  backoff window is not touched.
\<close>

theorem pushAll_no_loss:
  assumes "idb_invar s" "pushAll api IndexedDBLocalRepository backoff clock now w s = (w', s', out)"
    and "idb_getQueuedMutation s m = Some q"
  shows "((\<exists>q'. idb_getQueuedMutation s' m = Some q' \<and> q_mutation q' = q_mutation q) \<or>
      (\<exists>w1 w2 item. mutateItem api w1 (mut_vaultId (q_mutation q)) (q_mutation q) = (w2, Inr (Mutated item)))) \<and>
    (\<not> push_due now q \<longrightarrow> idb_getQueuedMutation s' m = Some q)"
proof -
  have m: "q_id q = m"
    using idb.queue_key [OF assms(1)] assms(3) by (simp add: IndexedDBLocalRepository_def)
  have "mutation_safe api IndexedDBLocalRepository s (q_mutation q)"
    using assms(3) m by (auto simp: mutation_safe_def IndexedDBLocalRepository_def)
  from idb.pushAll_safe(2) [OF assms(1,2) this] m
  have "(\<exists>q'. idb_getQueuedMutation s' m = Some q' \<and> q_mutation q' = q_mutation q) \<or>
      (\<exists>w1 w2 item. mutateItem api w1 (mut_vaultId (q_mutation q)) (q_mutation q) = (w2, Inr (Mutated item)))"
    unfolding mutation_safe_def by (auto simp: IndexedDBLocalRepository_def)
  moreover have "idb_getQueuedMutation s' m = Some q" if "\<not> push_due now q"
    using idb.pushAll_safe(3) [OF assms(1,2) _ that] assms(3) by (simp add: IndexedDBLocalRepository_def)
  ultimately show ?thesis by blast
qed

theorem pushAll_no_loss_witness:
  "let db = sample_db\<lparr>idb_queue := [(''m'', sample_entry ''m'' CONFLICT)]\<rparr>
   in idb_getQueuedMutation (fst (snd (pushAll (sample_api []) IndexedDBLocalRepository DEFAULT_BACKOFF
        (\<lambda>_. 0) 0 () db))) ''m'' = Some (sample_entry ''m'' CONFLICT)"
proof -
  let ?db = "sample_db\<lparr>idb_queue := [(''m'', sample_entry ''m'' CONFLICT)]\<rparr>"
  obtain w s' out where p: "pushAll (sample_api []) IndexedDBLocalRepository DEFAULT_BACKOFF
      (\<lambda>_. 0) 0 () ?db = (w, s', out)" by (rule prod_cases3)
  have "idb_invar ?db"
    using sample_db_invar by (simp add: idb_invar_def store_keyed_def store_wf_def
        sample_entry_def sample_mutation_def keyed_def map_wf_def)
  from pushAll_no_loss [OF this p, of "''m''" "sample_entry ''m'' CONFLICT"] show ?thesis
    unfolding Let_def p by (simp add: idb_getQueuedMutation_def push_due_def sample_entry_def)
qed



text \<open>
  The backoff of a retry grows with the number of attempts, doubles from the base until it
  reaches the cap, and with the default options stays between half a second and half a minute.
\<close>

theorem retryDelayMs_bounds:
  assumes "0 < baseMs b" "baseMs b \<le> maxMs b" "1 \<le> a" "a \<le> a'"
  shows "baseMs b \<le> retryDelayMs a b \<and> retryDelayMs a b \<le> maxMs b \<and>
    retryDelayMs a b \<le> retryDelayMs a' b \<and>
    retryDelayMs (a + 1) b = min (2 * retryDelayMs a b) (maxMs b)"
proof -
  have p: "(1::int) \<le> 2 ^ n" for n :: nat by simp
  have step: "nat (max 0 (a + 1 - 1)) = Suc (nat (max 0 (a - 1)))" using assms(3) by simp
  have mono: "(2::int) ^ nat (max 0 (a - 1)) \<le> 2 ^ nat (max 0 (a' - 1))"
    using assms(3,4) by (intro power_increasing) auto
  have low: "baseMs b \<le> baseMs b * 2 ^ nat (max 0 (a - 1))"
    using assms(1) p by (simp add: mult_le_cancel_left1)
  have "retryDelayMs (a + 1) b = min (2 * (baseMs b * 2 ^ nat (max 0 (a - 1)))) (maxMs b)"
    unfolding retryDelayMs_def step Let_def by (simp add: ac_simps)
  moreover have "retryDelayMs a b \<le> retryDelayMs a' b"
    using mono assms(1) by (simp add: retryDelayMs_def Let_def min.coboundedI1)
  ultimately show ?thesis
    using low assms(1,2) by (simp add: retryDelayMs_def Let_def min_def)
qed

theorem retryDelayMs_bounds_witness:
  "500 \<le> retryDelayMs 3 DEFAULT_BACKOFF \<and> retryDelayMs 3 DEFAULT_BACKOFF \<le> retryDelayMs 9 DEFAULT_BACKOFF \<and>
   retryDelayMs 4 DEFAULT_BACKOFF = min (2 * retryDelayMs 3 DEFAULT_BACKOFF) 30000"
  using retryDelayMs_bounds [of DEFAULT_BACKOFF 3 9] by (simp add: DEFAULT_BACKOFF_def)

end
