(* ===== verification/Repository_Agreement.thy ===== *)
theory Repository_Agreement
  imports Sync_Converge
begin














end
