(* ===== verification/Utf8.thy ===== *)
theory Utf8
  imports Prelude
begin

text \<open>
  \<open>TextEncoder\<close> and the fatal \<open>TextDecoder("utf-8")\<close> of the Encoding standard, which the byte
  codecs of \<open>packages/extension-adapters/src/bytes.ts\<close> and the item codecs use.  Here a
  JavaScript string is a list of UTF-16 code units (numbers below 65536), since its content is
  arbitrary text.  The encoder replaces a lone surrogate by U+FFFD; the decoder refuses
  malformed input and drops a leading byte order mark.
\<close>

type_synonym ustring = "nat list"

definition high_surrogate :: "nat \<Rightarrow> bool" where
  "high_surrogate u \<longleftrightarrow> 0xD800 \<le> u \<and> u < 0xDC00"

definition low_surrogate :: "nat \<Rightarrow> bool" where
  "low_surrogate u \<longleftrightarrow> 0xDC00 \<le> u \<and> u < 0xE000"

definition scalar_value :: "nat \<Rightarrow> bool" where
  "scalar_value n \<longleftrightarrow> n < 0x110000 \<and> \<not> (0xD800 \<le> n \<and> n < 0xE000)"

definition unit_scalar :: "nat \<Rightarrow> nat" where
  "unit_scalar u = (if high_surrogate u \<or> low_surrogate u then 0xFFFD else u)"

fun utf16_scalars :: "ustring \<Rightarrow> nat list" where
  "utf16_scalars [] = []"
| "utf16_scalars [u] = [unit_scalar u]"
| "utf16_scalars (u # v # us) =
     (if high_surrogate u \<and> low_surrogate v
      then (0x10000 + (u - 0xD800) * 0x400 + (v - 0xDC00)) # utf16_scalars us
      else unit_scalar u # utf16_scalars (v # us))"

definition scalar_units :: "nat \<Rightarrow> ustring" where
  "scalar_units n =
     (if n < 0x10000 then [n]
      else [0xD800 + (n - 0x10000) div 0x400, 0xDC00 + (n - 0x10000) mod 0x400])"

definition encode_scalar :: "nat \<Rightarrow> nat list" where
  "encode_scalar n =
     (if n < 0x80 then [n]
      else if n < 0x800 then [0xC0 + n div 0x40, 0x80 + n mod 0x40]
      else if n < 0x10000 then [0xE0 + n div 0x1000, 0x80 + n div 0x40 mod 0x40, 0x80 + n mod 0x40]
      else [0xF0 + n div 0x40000, 0x80 + n div 0x1000 mod 0x40, 0x80 + n div 0x40 mod 0x40,
            0x80 + n mod 0x40])"

definition text_encode :: "ustring \<Rightarrow> nat list" where
  "text_encode s = concat (map encode_scalar (utf16_scalars s))"

text \<open>A continuation byte, whose lowest and highest value depend on the lead byte.\<close>

definition cont_byte :: "nat \<Rightarrow> nat \<Rightarrow> nat \<Rightarrow> bool" where
  "cont_byte lo hi b \<longleftrightarrow> lo \<le> b \<and> b \<le> hi"

definition second_range :: "nat \<Rightarrow> nat \<times> nat" where
  "second_range b =
     (if b = 0xE0 then (0xA0, 0xBF) else if b = 0xED then (0x80, 0x9F)
      else if b = 0xF0 then (0x90, 0xBF) else if b = 0xF4 then (0x80, 0x8F)
      else (0x80, 0xBF))"

definition second_ok :: "nat \<Rightarrow> nat \<Rightarrow> bool" where
  "second_ok b0 b1 = cont_byte (fst (second_range b0)) (snd (second_range b0)) b1"

fun utf8_scalars :: "nat list \<Rightarrow> nat list option" where
  "utf8_scalars [] = Some []"
| "utf8_scalars (b0 # bs) =
     (if b0 < 0x80 then map_option (Cons b0) (utf8_scalars bs)
      else if 0xC2 \<le> b0 \<and> b0 \<le> 0xDF then
        (case bs of
           b1 # bs1 \<Rightarrow>
             if second_ok b0 b1
             then map_option (Cons ((b0 - 0xC0) * 0x40 + (b1 - 0x80))) (utf8_scalars bs1) else None
         | _ \<Rightarrow> None)
      else if 0xE0 \<le> b0 \<and> b0 \<le> 0xEF then
        (case bs of
           b1 # b2 # bs2 \<Rightarrow>
             if second_ok b0 b1 \<and> cont_byte 0x80 0xBF b2
             then map_option (Cons ((b0 - 0xE0) * 0x1000 + (b1 - 0x80) * 0x40 + (b2 - 0x80)))
                    (utf8_scalars bs2)
             else None
         | _ \<Rightarrow> None)
      else if 0xF0 \<le> b0 \<and> b0 \<le> 0xF4 then
        (case bs of
           b1 # b2 # b3 # bs3 \<Rightarrow>
             if second_ok b0 b1 \<and> cont_byte 0x80 0xBF b2 \<and> cont_byte 0x80 0xBF b3
             then map_option (Cons ((b0 - 0xF0) * 0x40000 + (b1 - 0x80) * 0x1000 +
                                    (b2 - 0x80) * 0x40 + (b3 - 0x80)))
                    (utf8_scalars bs3)
             else None
         | _ \<Rightarrow> None)
      else None)"

definition drop_bom :: "nat list \<Rightarrow> nat list" where
  "drop_bom bs = (if take 3 bs = [0xEF, 0xBB, 0xBF] then drop 3 bs else bs)"

definition text_decode :: "nat list \<Rightarrow> ustring option" where
  "text_decode bs = map_option (\<lambda>ns. concat (map scalar_units ns)) (utf8_scalars (drop_bom bs))"


section \<open>Round trip\<close>

text \<open>Strings without lone surrogates.\<close>

fun well_formed_utf16 :: "ustring \<Rightarrow> bool" where
  "well_formed_utf16 [] \<longleftrightarrow> True"
| "well_formed_utf16 [u] \<longleftrightarrow> u < 0x10000 \<and> \<not> high_surrogate u \<and> \<not> low_surrogate u"
| "well_formed_utf16 (u # v # us) \<longleftrightarrow>
     (if high_surrogate u \<and> low_surrogate v then well_formed_utf16 us
      else u < 0x10000 \<and> \<not> high_surrogate u \<and> \<not> low_surrogate u \<and> well_formed_utf16 (v # us))"

lemma utf16_round:
  "well_formed_utf16 s \<Longrightarrow>
     concat (map scalar_units (utf16_scalars s)) = s \<and> list_all scalar_value (utf16_scalars s)"
proof (induction s rule: utf16_scalars.induct)
  case (2 u)
  then show ?case
    by (auto simp: unit_scalar_def scalar_units_def scalar_value_def high_surrogate_def low_surrogate_def)
next
  case (3 u v us)
  show ?case
  proof (cases "high_surrogate u \<and> low_surrogate v")
    case True
    then obtain a b where ab: "u = 0xD800 + a" "v = 0xDC00 + b" "a < 0x400" "b < 0x400"
      by (auto simp: high_surrogate_def low_surrogate_def dest!: le_Suc_ex)
    then have "scalar_units (0x10000 + (u - 0xD800) * 0x400 + (v - 0xDC00)) = [u, v]"
      "scalar_value (0x10000 + (u - 0xD800) * 0x400 + (v - 0xDC00))"
      by (simp_all add: scalar_units_def scalar_value_def)
    with 3 True show ?thesis by simp
  next
    case False
    with 3 show ?thesis
      by (auto simp: unit_scalar_def scalar_units_def scalar_value_def high_surrogate_def low_surrogate_def)
  qed
qed simp

text \<open>One lemma per length of the encoding, over the digits in base 64.\<close>

lemma decode_two:
  assumes "2 \<le> a" "a < 0x20" "b < 0x40"
  shows "utf8_scalars ((0xC0 + a) # (0x80 + b) # bs) = map_option (Cons (a * 0x40 + b)) (utf8_scalars bs)"
  using assms by (simp add: second_ok_def second_range_def cont_byte_def)

lemma decode_three:
  assumes "a < 0x10" "b < 0x40" "c < 0x40" "a = 0 \<longrightarrow> 0x20 \<le> b" "a = 0xD \<longrightarrow> b < 0x20"
  shows "utf8_scalars ((0xE0 + a) # (0x80 + b) # (0x80 + c) # bs) =
    map_option (Cons (a * 0x1000 + b * 0x40 + c)) (utf8_scalars bs)"
proof -
  have "second_ok (0xE0 + a) (0x80 + b)"
    using assms by (auto simp: second_ok_def second_range_def cont_byte_def)
  with assms(1-3) show ?thesis by (simp add: cont_byte_def)
qed

lemma decode_four:
  assumes "a < 5" "b < 0x40" "c < 0x40" "d < 0x40" "a = 0 \<longrightarrow> 0x10 \<le> b" "a = 4 \<longrightarrow> b < 0x10"
  shows "utf8_scalars ((0xF0 + a) # (0x80 + b) # (0x80 + c) # (0x80 + d) # bs) =
    map_option (Cons (a * 0x40000 + b * 0x1000 + c * 0x40 + d)) (utf8_scalars bs)"
proof -
  have "second_ok (0xF0 + a) (0x80 + b)"
    using assms by (auto simp: second_ok_def second_range_def cont_byte_def)
  with assms(1-4) show ?thesis by (simp add: cont_byte_def)
qed

lemma base64_digits:
  fixes n :: nat
  shows "n div 0x40 * 0x40 + n mod 0x40 = n"
    and "n div 0x1000 * 0x1000 + n div 0x40 mod 0x40 * 0x40 + n mod 0x40 = n"
    and "n div 0x40000 * 0x40000 + n div 0x1000 mod 0x40 * 0x1000 + n div 0x40 mod 0x40 * 0x40 + n mod 0x40 = n"
proof -
  have e: "n div 0x1000 = n div 0x40 div 0x40" "n div 0x40000 = n div 0x1000 div 0x40"
    by (simp_all add: div_mult2_eq [symmetric])
  note d = div_mult_mod_eq [of n "0x40"] div_mult_mod_eq [of "n div 0x40" "0x40"]
    div_mult_mod_eq [of "n div 0x1000" "0x40"]
  show "n div 0x40 * 0x40 + n mod 0x40 = n" by (rule d(1))
  show 2: "n div 0x1000 * 0x1000 + n div 0x40 mod 0x40 * 0x40 + n mod 0x40 = n"
    using d(1,2) unfolding e(1) by linarith
  show "n div 0x40000 * 0x40000 + n div 0x1000 mod 0x40 * 0x1000 + n div 0x40 mod 0x40 * 0x40 + n mod 0x40 = n"
    using d(3) 2 unfolding e(2) by linarith
qed

lemma encode_scalar_decodes:
  assumes "scalar_value n"
  shows "utf8_scalars (encode_scalar n @ bs) = map_option (Cons n) (utf8_scalars bs)"
proof -
  consider "n < 0x80" | "0x80 \<le> n" "n < 0x800" | "0x800 \<le> n" "n < 0x10000" | "0x10000 \<le> n" "n < 0x110000"
    using assms unfolding scalar_value_def by linarith
  then show ?thesis
  proof cases
    case 1
    then show ?thesis by (simp add: encode_scalar_def)
  next
    case 2
    then have "2 \<le> n div 0x40" "n div 0x40 < 0x20" by auto
    from decode_two [OF this, of "n mod 0x40" bs] 2 show ?thesis
      by (simp add: encode_scalar_def base64_digits(1) del: utf8_scalars.simps)
  next
    case 3
    let ?a = "n div 0x1000" and ?b = "n div 0x40 mod 0x40" and ?c = "n mod 0x40"
    have b: "?b < 0x40" "?c < 0x40" by simp_all
    note n = base64_digits(2) [of n]
    have "?a < 0x10" using n 3 by linarith
    moreover have "?a = 0 \<longrightarrow> 0x20 \<le> ?b" using n 3 b by linarith
    moreover have "?a = 0xD \<longrightarrow> ?b < 0x20"
      using n b assms unfolding scalar_value_def by linarith
    ultimately show ?thesis using decode_three [of ?a ?b ?c bs] 3 n
      by (simp add: encode_scalar_def del: utf8_scalars.simps)
  next
    case 4
    let ?a = "n div 0x40000" and ?b = "n div 0x1000 mod 0x40" and ?c = "n div 0x40 mod 0x40" and ?d = "n mod 0x40"
    have b: "?b < 0x40" "?c < 0x40" "?d < 0x40" by simp_all
    note n = base64_digits(3) [of n]
    have "?a < 5" using n 4 by linarith
    moreover have "?a = 0 \<longrightarrow> 0x10 \<le> ?b" using n 4 b by linarith
    moreover have "?a = 4 \<longrightarrow> ?b < 0x10" using n 4 b by linarith
    ultimately show ?thesis using decode_four [of ?a ?b ?c ?d bs] 4 n
      by (simp add: encode_scalar_def del: utf8_scalars.simps)
  qed
qed

lemma utf8_round: "list_all scalar_value ns \<Longrightarrow> utf8_scalars (concat (map encode_scalar ns)) = Some ns"
  by (induction ns) (simp_all add: encode_scalar_decodes)

lemma drop_bom_encode:
  assumes "well_formed_utf16 s" "take 1 s \<noteq> [0xFEFF]"
  shows "drop_bom (text_encode s) = text_encode s"
proof (cases "utf16_scalars s")
  case (Cons n ns)
  have n: "scalar_value n" "n \<noteq> 0xFEFF"
  proof -
    show "scalar_value n" using utf16_round [OF assms(1)] Cons by simp
    have "s = scalar_units n @ concat (map scalar_units ns)" using utf16_round [OF assms(1)] Cons by simp
    with assms(2) show "n \<noteq> 0xFEFF" by (auto simp: scalar_units_def)
  qed
  have "take 3 (encode_scalar n @ bs) \<noteq> [0xEF, 0xBB, 0xBF]" for bs
  proof
    assume a: "take 3 (encode_scalar n @ bs) = [0xEF, 0xBB, 0xBF]"
    have "encode_scalar n = [0xEF, 0xBB, 0xBF]"
    proof -
      consider "n < 0x80" | "0x80 \<le> n" "n < 0x800" | "0x800 \<le> n" "n < 0x10000" | "0x10000 \<le> n" by linarith
      then show ?thesis
        using a n(1) by cases (auto simp: encode_scalar_def scalar_value_def numeral_3_eq_3)
    qed
    with encode_scalar_decodes [OF n(1), of "[]"] n(2) show False
      by (simp add: second_ok_def second_range_def cont_byte_def)
  qed
  with Cons show ?thesis by (simp add: drop_bom_def text_encode_def)
qed (simp add: drop_bom_def text_encode_def)

lemma text_decode_encode:
  assumes "well_formed_utf16 s" "take 1 s \<noteq> [0xFEFF]"
  shows "text_decode (text_encode s) = Some s"
  using utf16_round [OF assms(1)] utf8_round [of "utf16_scalars s"]
  by (simp add: text_decode_def drop_bom_encode [OF assms]) (simp add: text_encode_def)

lemma encode_scalar_bytes: "scalar_value n \<Longrightarrow> b \<in> set (encode_scalar n) \<Longrightarrow> b < 256"
  by (auto simp: encode_scalar_def scalar_value_def split: if_splits)

end
