(* ===== verification/Js_Value.thy ===== *)
theory Js_Value
  imports Utf8
begin

text \<open>
  JavaScript values as they arrive in runtime messages and parsed JSON, and the byte-array
  codec of \<open>packages/extension-adapters/src/bytes.ts\<close>.

  An object is an association list in the order of its own keys.  A number is an integer or the
  constructor \<open>JFrac\<close> for the rest (fractions, infinities and NaN), which no modelled validator
  accepts.
\<close>


section \<open>Values\<close>

datatype jsval =
    JUndefined
  | JNull
  | JBool bool
  | JInt int
  | JFrac string
  | JStr string
  | JArr "jsval list"
  | JObj "(string \<times> jsval) list"

text \<open>Property access: a missing property is \<open>undefined\<close>.\<close>

definition jget :: "(string \<times> jsval) list \<Rightarrow> string \<Rightarrow> jsval" where
  "jget fields k = (case map_of fields k of None \<Rightarrow> JUndefined | Some v \<Rightarrow> v)"

definition jhas :: "(string \<times> jsval) list \<Rightarrow> string \<Rightarrow> bool" where
  "jhas fields k \<longleftrightarrow> k \<in> fst ` set fields"

fun jint :: "jsval \<Rightarrow> int option" where
  "jint (JInt n) = Some n"
| "jint _ = None"

fun jstring :: "jsval \<Rightarrow> string option" where
  "jstring (JStr s) = Some s"
| "jstring _ = None"

fun jbool :: "jsval \<Rightarrow> bool option" where
  "jbool (JBool b) = Some b"
| "jbool _ = None"

fun jobject :: "jsval \<Rightarrow> (string \<times> jsval) list option" where
  "jobject (JObj fields) = Some fields"
| "jobject _ = None"

lemma jget_has: "jget fields k \<noteq> JUndefined \<Longrightarrow> jhas fields k"
  by (force simp: jget_def jhas_def split: option.splits dest: map_of_SomeD)

lemma jget_absent: "\<not> jhas fields k \<Longrightarrow> jget fields k = JUndefined"
  using jget_has by blast


section \<open>Byte arrays\<close>

definition MAX_SECRET_BYTES :: nat where
  "MAX_SECRET_BYTES = 4096"

definition is_byte :: "jsval \<Rightarrow> bool" where
  "is_byte v = (case v of JInt n \<Rightarrow> 0 \<le> n \<and> n \<le> 255 | _ \<Rightarrow> False)"

definition isByteArray :: "jsval \<Rightarrow> nat \<Rightarrow> bool" where
  "isByteArray v maxLength =
     (case v of JArr xs \<Rightarrow> length xs \<le> maxLength \<and> list_all is_byte xs | _ \<Rightarrow> False)"

text \<open>The numbers of an array that \<open>isByteArray\<close> has accepted.\<close>

definition number_array :: "jsval \<Rightarrow> int list" where
  "number_array v = (case v of JArr xs \<Rightarrow> List.map_filter jint xs | _ \<Rightarrow> [])"

definition toByteArray :: "bytes \<Rightarrow> int list" where
  "toByteArray bs = map uint bs"

definition fromByteArray :: "int list \<Rightarrow> bytes" where
  "fromByteArray ns = map word_of_int ns"

definition clearNumberArray :: "int list \<Rightarrow> int list" where
  "clearNumberArray ns = replicate (length ns) 0"

definition stringToByteArray :: "ustring \<Rightarrow> int list" where
  "stringToByteArray s = toByteArray (map word_of_nat (text_encode s))"

definition byteArrayToString :: "int list \<Rightarrow> ustring option" where
  "byteArrayToString ns = text_decode (map unat (fromByteArray ns))"

lemma from_to_bytes: "fromByteArray (toByteArray bs) = bs"
  by (simp add: fromByteArray_def toByteArray_def map_idI)

lemma uint8_le: "uint (b :: uint8) \<le> 255"
  using uint_lt2p [of b] by simp

lemma text_encode_bytes:
  assumes "well_formed_utf16 s" "b \<in> set (text_encode s)"
  shows "b < 256"
  using utf16_round [OF assms(1)] assms(2) encode_scalar_bytes
  by (auto simp: text_encode_def list_all_iff)

lemma unat_encode:
  assumes "well_formed_utf16 s"
  shows "map unat (map word_of_nat (text_encode s) :: bytes) = text_encode s"
  using text_encode_bytes [OF assms] by (simp add: map_idI unat_word_ariths(1) take_bit_nat_eq_self unsigned_of_nat)

lemma number_array_JInt: "number_array (JArr (map JInt ns)) = ns"
  by (induction ns) (simp_all add: number_array_def)

text \<open>
  The byte codec carries text across the JSON boundary unchanged: text without lone
  surrogates (and without a leading byte order mark) that fits the length bound is encoded to an
  array the validator accepts, and decoding what arrives gives the text back.
\<close>

theorem byte_codec_roundtrip:
  assumes "well_formed_utf16 s" "take 1 s \<noteq> [0xFEFF]" "length (text_encode s) \<le> n"
  shows "isByteArray (JArr (map JInt (stringToByteArray s))) n \<and>
    byteArrayToString (number_array (JArr (map JInt (stringToByteArray s)))) = Some s"
proof -
  have "list_all is_byte (map JInt (stringToByteArray s))"
    by (auto simp: list_all_iff is_byte_def stringToByteArray_def toByteArray_def uint8_le)
  moreover have "length (stringToByteArray s) = length (text_encode s)"
    by (simp add: stringToByteArray_def toByteArray_def)
  ultimately show ?thesis
    using assms text_decode_encode [OF assms(1,2)]
    by (simp add: isByteArray_def number_array_JInt byteArrayToString_def stringToByteArray_def
        from_to_bytes unat_encode del: map_map)
qed

theorem byte_codec_roundtrip_witness:
  "byteArrayToString (number_array (JArr (map JInt (stringToByteArray [0x70, 0xE4, 0x20AC, 0xD83D, 0xDD11])))) =
     Some [0x70, 0xE4, 0x20AC, 0xD83D, 0xDD11]"
  using byte_codec_roundtrip [of "[0x70, 0xE4, 0x20AC, 0xD83D, 0xDD11]" 4096]
  by (simp add: high_surrogate_def low_surrogate_def text_encode_def unit_scalar_def encode_scalar_def)

end
