(* ===== verification/Message_Schema.thy ===== *)
theory Message_Schema
  imports Js_Value
begin

text \<open>
  The validators of extension runtime messages, \<open>packages/extension-adapters/src/schema.ts\<close>:
  every message from a content script or from the popup passes one of them before anything else
  looks at it.  A JavaScript object lists its own keys once each (\<open>plain\<close>).
\<close>


section \<open>Bounds and shapes\<close>

definition MAX_URL_LENGTH :: nat where "MAX_URL_LENGTH = 4096"
definition MAX_ID_LENGTH :: nat where "MAX_ID_LENGTH = 128"
definition MAX_ACCOUNT_ID_LENGTH :: nat where "MAX_ACCOUNT_ID_LENGTH = 256"
definition MAX_ORIGIN_LENGTH :: nat where "MAX_ORIGIN_LENGTH = 512"
definition MAX_TITLE_LENGTH :: nat where "MAX_TITLE_LENGTH = 500"
definition MAX_USERNAME_LENGTH :: nat where "MAX_USERNAME_LENGTH = 1024"
definition MAX_NOTES_BYTES :: nat where "MAX_NOTES_BYTES = 128 * 1024"

lemmas bound_defs =
  MAX_URL_LENGTH_def MAX_ID_LENGTH_def MAX_ACCOUNT_ID_LENGTH_def MAX_ORIGIN_LENGTH_def
  MAX_TITLE_LENGTH_def MAX_USERNAME_LENGTH_def MAX_NOTES_BYTES_def MAX_SECRET_BYTES_def

definition hasExactKeys :: "(string \<times> jsval) list \<Rightarrow> string list \<Rightarrow> string list \<Rightarrow> bool" where
  "hasExactKeys value required optional \<longleftrightarrow>
     list_all (\<lambda>key. key \<in> set (required @ optional)) (map fst value) \<and>
     list_all (\<lambda>key. jhas value key) required"

definition boundedString :: "jsval \<Rightarrow> nat \<Rightarrow> bool" where
  "boundedString v maxLength =
     (case v of JStr s \<Rightarrow> 0 < length s \<and> length s \<le> maxLength | _ \<Rightarrow> False)"

lemma boundedString_iff:
  "boundedString v n \<longleftrightarrow> (\<exists>s. v = JStr s \<and> s \<noteq> [] \<and> length s \<le> n)"
  by (cases v) (auto simp: boundedString_def)

text \<open>The string of a value that \<open>boundedString\<close> or a \<open>typeof\<close> test has accepted.\<close>

definition str_of :: "jsval \<Rightarrow> string" where
  "str_of v = (case v of JStr s \<Rightarrow> s | _ \<Rightarrow> [])"

definition bool_of :: "jsval \<Rightarrow> bool" where
  "bool_of v = (case v of JBool b \<Rightarrow> b | _ \<Rightarrow> False)"


section \<open>Messages of content scripts\<close>

record page_request =
  pageUrl :: string
  isTopFrame :: bool
  formAction :: "string option"
  usernameVisible :: bool
  passwordVisible :: bool

datatype content_message = Offer page_request | Cancel_offer

definition parse_page_request :: "(string \<times> jsval) list \<Rightarrow> page_request option" where
  "parse_page_request r =
     (if \<not> hasExactKeys r [''pageUrl'', ''isTopFrame'', ''usernameVisible'', ''passwordVisible'']
           [''formAction''] then None
      else if \<not> boundedString (jget r ''pageUrl'') MAX_URL_LENGTH then None
      else if jhas r ''formAction'' \<and> \<not> boundedString (jget r ''formAction'') MAX_URL_LENGTH then None
      else if jbool (jget r ''isTopFrame'') = None then None
      else if jbool (jget r ''usernameVisible'') = None then None
      else if jbool (jget r ''passwordVisible'') = None then None
      else Some \<lparr>pageUrl = str_of (jget r ''pageUrl''), isTopFrame = bool_of (jget r ''isTopFrame''),
                 formAction = jstring (jget r ''formAction''),
                 usernameVisible = bool_of (jget r ''usernameVisible''),
                 passwordVisible = bool_of (jget r ''passwordVisible'')\<rparr>)"

definition parseContentMessage :: "jsval \<Rightarrow> content_message option" where
  "parseContentMessage message =
     (case message of
        JObj m \<Rightarrow>
          (case jget m ''type'' of
             JStr ty \<Rightarrow>
               if ty = ''cancel-offer'' then (if hasExactKeys m [''type''] [] then Some Cancel_offer else None)
               else if ty \<noteq> ''offer'' then None
               else if \<not> hasExactKeys m [''type'', ''request''] [] then None
               else (case jget m ''request'' of
                       JObj r \<Rightarrow> map_option Offer (parse_page_request r)
                     | _ \<Rightarrow> None)
           | _ \<Rightarrow> None)
      | _ \<Rightarrow> None)"


section \<open>Messages of the popup\<close>

record save_message =
  sm_title :: string
  sm_itemType :: string
  sm_itemId :: "string option"
  sm_username :: "string option"
  sm_password :: "int list option"
  sm_url :: "string option"
  sm_notes :: "int list option"
  sm_totpSecret :: "int list option"

datatype popup_message =
    Get_state
  | Request_candidates
  | Fill_selected string string
  | Lock_msg
  | Logout
  | List_items
  | Get_totp string
  | Unlock string string "int list"
  | Save_item save_message

definition ITEM_TYPES :: "string list" where
  "ITEM_TYPES = [''login'', ''note'', ''totp-login'']"

text \<open>An optional field: absent, or present and valid.\<close>

definition optional_ok :: "(string \<times> jsval) list \<Rightarrow> string \<Rightarrow> (jsval \<Rightarrow> bool) \<Rightarrow> bool" where
  "optional_ok m key valid \<longleftrightarrow> jhas m key \<longrightarrow> valid (jget m key)"

definition opt_string :: "(string \<times> jsval) list \<Rightarrow> string \<Rightarrow> string option" where
  "opt_string m key = (if jhas m key then Some (str_of (jget m key)) else None)"

definition opt_bytes :: "(string \<times> jsval) list \<Rightarrow> string \<Rightarrow> int list option" where
  "opt_bytes m key = (if jhas m key then Some (number_array (jget m key)) else None)"

definition parse_save_item :: "(string \<times> jsval) list \<Rightarrow> save_message option" where
  "parse_save_item m =
     (if \<not> hasExactKeys m [''type'', ''title'', ''itemType'']
           [''itemId'', ''username'', ''password'', ''url'', ''notes'', ''totpSecret''] then None
      else if \<not> boundedString (jget m ''title'') MAX_TITLE_LENGTH then None
      else if \<not> (case jget m ''itemType'' of JStr ty \<Rightarrow> ty \<in> set ITEM_TYPES | _ \<Rightarrow> False) then None
      else if \<not> optional_ok m ''itemId'' (\<lambda>v. boundedString v MAX_ID_LENGTH) then None
      else if \<not> optional_ok m ''username'' (\<lambda>v. boundedString v MAX_USERNAME_LENGTH) then None
      else if \<not> optional_ok m ''url'' (\<lambda>v. boundedString v MAX_URL_LENGTH) then None
      else if \<not> optional_ok m ''password'' (\<lambda>v. isByteArray v MAX_SECRET_BYTES) then None
      else if \<not> optional_ok m ''notes'' (\<lambda>v. isByteArray v MAX_NOTES_BYTES) then None
      else if \<not> optional_ok m ''totpSecret'' (\<lambda>v. isByteArray v MAX_SECRET_BYTES) then None
      else Some \<lparr>sm_title = str_of (jget m ''title''), sm_itemType = str_of (jget m ''itemType''),
                 sm_itemId = opt_string m ''itemId'', sm_username = opt_string m ''username'',
                 sm_password = opt_bytes m ''password'', sm_url = opt_string m ''url'',
                 sm_notes = opt_bytes m ''notes'', sm_totpSecret = opt_bytes m ''totpSecret''\<rparr>)"

definition parsePopupMessage :: "jsval \<Rightarrow> popup_message option" where
  "parsePopupMessage message =
     (case message of
        JObj m \<Rightarrow>
          (case jget m ''type'' of
             JStr ty \<Rightarrow>
               if ty = ''get-state'' then (if hasExactKeys m [''type''] [] then Some Get_state else None)
               else if ty = ''request-candidates'' then
                 (if hasExactKeys m [''type''] [] then Some Request_candidates else None)
               else if ty = ''lock'' then (if hasExactKeys m [''type''] [] then Some Lock_msg else None)
               else if ty = ''logout'' then (if hasExactKeys m [''type''] [] then Some Logout else None)
               else if ty = ''list-items'' then (if hasExactKeys m [''type''] [] then Some List_items else None)
               else if ty = ''fill-selected'' then
                 (if \<not> hasExactKeys m [''type'', ''requestId'', ''itemId''] [] then None
                  else if \<not> boundedString (jget m ''requestId'') MAX_ID_LENGTH \<or>
                          \<not> boundedString (jget m ''itemId'') MAX_ID_LENGTH then None
                  else Some (Fill_selected (str_of (jget m ''requestId'')) (str_of (jget m ''itemId''))))
               else if ty = ''get-totp'' then
                 (if \<not> hasExactKeys m [''type'', ''itemId''] [] then None
                  else if \<not> boundedString (jget m ''itemId'') MAX_ID_LENGTH then None
                  else Some (Get_totp (str_of (jget m ''itemId''))))
               else if ty = ''unlock'' then
                 (if \<not> hasExactKeys m [''type'', ''accountId'', ''apiOrigin'', ''password''] [] then None
                  else if \<not> boundedString (jget m ''accountId'') MAX_ACCOUNT_ID_LENGTH then None
                  else if \<not> boundedString (jget m ''apiOrigin'') MAX_ORIGIN_LENGTH then None
                  else if \<not> isByteArray (jget m ''password'') MAX_SECRET_BYTES \<or>
                          number_array (jget m ''password'') = [] then None
                  else Some (Unlock (str_of (jget m ''accountId'')) (str_of (jget m ''apiOrigin''))
                              (number_array (jget m ''password''))))
               else if ty = ''save-item'' then map_option Save_item (parse_save_item m)
               else None
           | _ \<Rightarrow> None)
      | _ \<Rightarrow> None)"

section \<open>What the validators accept\<close>

definition str_ok :: "nat \<Rightarrow> string \<Rightarrow> bool" where
  "str_ok n s \<longleftrightarrow> s \<noteq> [] \<and> length s \<le> n"

definition bytes_ok :: "nat \<Rightarrow> int list \<Rightarrow> bool" where
  "bytes_ok n ns \<longleftrightarrow> length ns \<le> n \<and> list_all (\<lambda>b. 0 \<le> b \<and> b \<le> 255) ns"

fun content_valid :: "content_message \<Rightarrow> bool" where
  "content_valid Cancel_offer \<longleftrightarrow> True"
| "content_valid (Offer r) \<longleftrightarrow>
     str_ok MAX_URL_LENGTH (pageUrl r) \<and> pred_option (str_ok MAX_URL_LENGTH) (formAction r)"

fun popup_valid :: "popup_message \<Rightarrow> bool" where
  "popup_valid (Fill_selected r i) \<longleftrightarrow> str_ok MAX_ID_LENGTH r \<and> str_ok MAX_ID_LENGTH i"
| "popup_valid (Get_totp i) \<longleftrightarrow> str_ok MAX_ID_LENGTH i"
| "popup_valid (Unlock a u p) \<longleftrightarrow>
     str_ok MAX_ACCOUNT_ID_LENGTH a \<and> str_ok MAX_ORIGIN_LENGTH u \<and> bytes_ok MAX_SECRET_BYTES p \<and> p \<noteq> []"
| "popup_valid (Save_item m) \<longleftrightarrow>
     str_ok MAX_TITLE_LENGTH (sm_title m) \<and> sm_itemType m \<in> set ITEM_TYPES \<and>
     pred_option (str_ok MAX_ID_LENGTH) (sm_itemId m) \<and>
     pred_option (str_ok MAX_USERNAME_LENGTH) (sm_username m) \<and>
     pred_option (str_ok MAX_URL_LENGTH) (sm_url m) \<and>
     pred_option (bytes_ok MAX_SECRET_BYTES) (sm_password m) \<and>
     pred_option (bytes_ok MAX_NOTES_BYTES) (sm_notes m) \<and>
     pred_option (bytes_ok MAX_SECRET_BYTES) (sm_totpSecret m)"
| "popup_valid _ \<longleftrightarrow> True"

lemma isByteArray_numbers: "isByteArray v n \<Longrightarrow> bytes_ok n (number_array v)"
proof -
  have "list_all is_byte xs \<Longrightarrow>
      length (List.map_filter jint xs) \<le> length xs \<and> list_all (\<lambda>b. 0 \<le> b \<and> b \<le> 255) (List.map_filter jint xs)"
    for xs
    by (induction xs) (auto simp: is_byte_def split: jsval.splits)
  then show "isByteArray v n \<Longrightarrow> bytes_ok n (number_array v)"
    by (fastforce simp: isByteArray_def number_array_def bytes_ok_def split: jsval.splits)
qed

lemma isByteArray_JArr [simp]: "isByteArray (JArr (map JInt ns)) n \<longleftrightarrow> bytes_ok n ns"
  by (auto simp: isByteArray_def bytes_ok_def list_all_iff is_byte_def)

lemma boundedString_JStr [simp]: "boundedString (JStr s) n \<longleftrightarrow> str_ok n s"
  by (auto simp: boundedString_def str_ok_def)

lemma boundedString_str: "boundedString v n \<Longrightarrow> str_ok n (str_of v) \<and> v = JStr (str_of v)"
  by (auto simp: boundedString_iff str_ok_def str_of_def)

lemma optional_string:
  "optional_ok m k (\<lambda>v. boundedString v n) \<Longrightarrow> pred_option (str_ok n) (opt_string m k)"
  by (auto simp: optional_ok_def opt_string_def dest: boundedString_str)

lemma optional_bytes:
  "optional_ok m k (\<lambda>v. isByteArray v n) \<Longrightarrow> pred_option (bytes_ok n) (opt_bytes m k)"
  by (auto simp: optional_ok_def opt_bytes_def dest: isByteArray_numbers)

lemmas validator_facts = boundedString_str isByteArray_numbers optional_string optional_bytes

lemma parse_save_item_valid: "parse_save_item m = Some r \<Longrightarrow> popup_valid (Save_item r)"
  by (auto simp: parse_save_item_def str_of_def split: if_splits jsval.splits dest: validator_facts)

lemma parse_page_request_valid: "parse_page_request m = Some r \<Longrightarrow> content_valid (Offer r)"
  using jget_absent [of m "''formAction''"]
  by (cases "jhas m ''formAction''")
     (auto simp: parse_page_request_def boundedString_iff str_of_def str_ok_def split: if_splits)

lemma parse_popup_valid: "parsePopupMessage v = Some p \<Longrightarrow> popup_valid p"
  by (auto simp: parsePopupMessage_def split: jsval.splits if_splits dest: validator_facts parse_save_item_valid)

lemma parse_content_valid: "parseContentMessage v = Some c \<Longrightarrow> content_valid c"
  by (auto simp: parseContentMessage_def split: jsval.splits if_splits dest: parse_page_request_valid)


section \<open>The messages the senders build\<close>

definition field :: "string \<Rightarrow> jsval option \<Rightarrow> (string \<times> jsval) list" where
  "field k v = (case v of None \<Rightarrow> [] | Some x \<Rightarrow> [(k, x)])"

definition jbytes :: "int list \<Rightarrow> jsval" where
  "jbytes ns = JArr (map JInt ns)"

fun content_json :: "content_message \<Rightarrow> jsval" where
  "content_json Cancel_offer = JObj [(''type'', JStr ''cancel-offer'')]"
| "content_json (Offer r) =
     JObj [(''type'', JStr ''offer''),
           (''request'', JObj ([(''pageUrl'', JStr (pageUrl r)), (''isTopFrame'', JBool (isTopFrame r)),
              (''usernameVisible'', JBool (usernameVisible r)), (''passwordVisible'', JBool (passwordVisible r))] @
              field ''formAction'' (map_option JStr (formAction r))))]"

fun popup_json :: "popup_message \<Rightarrow> jsval" where
  "popup_json Get_state = JObj [(''type'', JStr ''get-state'')]"
| "popup_json Request_candidates = JObj [(''type'', JStr ''request-candidates'')]"
| "popup_json (Fill_selected r i) =
     JObj [(''type'', JStr ''fill-selected''), (''requestId'', JStr r), (''itemId'', JStr i)]"
| "popup_json Lock_msg = JObj [(''type'', JStr ''lock'')]"
| "popup_json Logout = JObj [(''type'', JStr ''logout'')]"
| "popup_json List_items = JObj [(''type'', JStr ''list-items'')]"
| "popup_json (Get_totp i) = JObj [(''type'', JStr ''get-totp''), (''itemId'', JStr i)]"
| "popup_json (Unlock a u p) =
     JObj [(''type'', JStr ''unlock''), (''accountId'', JStr a), (''apiOrigin'', JStr u), (''password'', jbytes p)]"
| "popup_json (Save_item m) =
     JObj ([(''type'', JStr ''save-item''), (''title'', JStr (sm_title m)), (''itemType'', JStr (sm_itemType m))] @
       field ''itemId'' (map_option JStr (sm_itemId m)) @ field ''username'' (map_option JStr (sm_username m)) @
       field ''password'' (map_option jbytes (sm_password m)) @ field ''url'' (map_option JStr (sm_url m)) @
       field ''notes'' (map_option jbytes (sm_notes m)) @ field ''totpSecret'' (map_option jbytes (sm_totpSecret m)))"

lemma number_array_jbytes [simp]: "number_array (jbytes ns) = ns"
  by (simp add: jbytes_def number_array_JInt)

lemma jhas_simps [simp]:
  "jhas [] k \<longleftrightarrow> False" "jhas ((j, v) # m) k \<longleftrightarrow> j = k \<or> jhas m k"
  "jhas (m @ n) k \<longleftrightarrow> jhas m k \<or> jhas n k" "jhas (field j ov) k \<longleftrightarrow> j = k \<and> ov \<noteq> None"
  by (auto simp: jhas_def field_def split: option.splits)

lemma jget_simps [simp]:
  "jget [] k = JUndefined" "jget ((j, v) # m) k = (if j = k then v else jget m k)"
  "jget (field j ov @ m) k = (if j = k \<and> ov \<noteq> None then the ov else jget m k)"
  "jget (field j ov) k = (if j = k \<and> ov \<noteq> None then the ov else JUndefined)"
  by (auto simp: jget_def field_def split: option.splits)

lemma field_keys [simp]: "list_all P (map fst (field k v)) \<longleftrightarrow> v = None \<or> P k"
  by (auto simp: field_def split: option.splits)

lemma parse_content_json: "content_valid c \<Longrightarrow> parseContentMessage (content_json c) = Some c"
  by (cases c) (auto simp: parseContentMessage_def parse_page_request_def hasExactKeys_def str_of_def bool_of_def
      pred_option_def split: option.splits)

lemma optional_string_field:
  assumes "jhas m k \<longleftrightarrow> ov \<noteq> None" "ov \<noteq> None \<Longrightarrow> jget m k = JStr (the ov)"
  shows "optional_ok m k valid \<longleftrightarrow> pred_option (\<lambda>x. valid (JStr x)) ov" "opt_string m k = ov"
  using assms by (cases ov; simp add: optional_ok_def opt_string_def str_of_def)+

lemma optional_byte_field:
  assumes "jhas m k \<longleftrightarrow> ov \<noteq> None" "ov \<noteq> None \<Longrightarrow> jget m k = jbytes (the ov)"
  shows "optional_ok m k valid \<longleftrightarrow> pred_option (\<lambda>x. valid (jbytes x)) ov" "opt_bytes m k = ov"
  using assms by (cases ov; simp add: optional_ok_def opt_bytes_def)+

lemma parse_save_json:
  assumes "popup_valid (Save_item m)" "popup_json (Save_item m) = JObj fs"
  shows "parse_save_item fs = Some m"
proof -
  have fs: "fs = [(''type'', JStr ''save-item''), (''title'', JStr (sm_title m)), (''itemType'', JStr (sm_itemType m))] @
       field ''itemId'' (map_option JStr (sm_itemId m)) @ field ''username'' (map_option JStr (sm_username m)) @
       field ''password'' (map_option jbytes (sm_password m)) @ field ''url'' (map_option JStr (sm_url m)) @
       field ''notes'' (map_option jbytes (sm_notes m)) @ field ''totpSecret'' (map_option jbytes (sm_totpSecret m))"
    using assms(2) by simp
  have keys: "hasExactKeys fs [''type'', ''title'', ''itemType'']
      [''itemId'', ''username'', ''password'', ''url'', ''notes'', ''totpSecret'']"
    unfolding fs hasExactKeys_def by simp
  have has: "jhas fs ''itemId'' \<longleftrightarrow> sm_itemId m \<noteq> None" "jhas fs ''username'' \<longleftrightarrow> sm_username m \<noteq> None"
    "jhas fs ''password'' \<longleftrightarrow> sm_password m \<noteq> None" "jhas fs ''url'' \<longleftrightarrow> sm_url m \<noteq> None"
    "jhas fs ''notes'' \<longleftrightarrow> sm_notes m \<noteq> None" "jhas fs ''totpSecret'' \<longleftrightarrow> sm_totpSecret m \<noteq> None"
    unfolding fs by simp_all
  have get: "sm_itemId m \<noteq> None \<Longrightarrow> jget fs ''itemId'' = JStr (the (sm_itemId m))"
    "sm_username m \<noteq> None \<Longrightarrow> jget fs ''username'' = JStr (the (sm_username m))"
    "sm_password m \<noteq> None \<Longrightarrow> jget fs ''password'' = jbytes (the (sm_password m))"
    "sm_url m \<noteq> None \<Longrightarrow> jget fs ''url'' = JStr (the (sm_url m))"
    "sm_notes m \<noteq> None \<Longrightarrow> jget fs ''notes'' = jbytes (the (sm_notes m))"
    "sm_totpSecret m \<noteq> None \<Longrightarrow> jget fs ''totpSecret'' = jbytes (the (sm_totpSecret m))"
    unfolding fs by (simp_all add: option.map_sel)
  have plain: "jget fs ''title'' = JStr (sm_title m)" "jget fs ''itemType'' = JStr (sm_itemType m)"
    unfolding fs by simp_all
  note fields = optional_string_field [OF has(1) get(1)] optional_string_field [OF has(2) get(2)]
    optional_byte_field [OF has(3) get(3)] optional_string_field [OF has(4) get(4)]
    optional_byte_field [OF has(5) get(5)] optional_byte_field [OF has(6) get(6)]
  show ?thesis
    using assms(1)
    by (simp add: parse_save_item_def keys plain fields jbytes_def str_of_def)
qed

lemma parse_popup_json: "popup_valid p \<Longrightarrow> parsePopupMessage (popup_json p) = Some p"
  using parse_save_json
  by (cases p) (auto simp: parsePopupMessage_def hasExactKeys_def str_of_def jbytes_def number_array_JInt)

section \<open>Properties\<close>

lemma content_keys:
  "parseContentMessage (JObj m) = Some c \<Longrightarrow> fst ` set m \<subseteq> {''type'', ''request''}"
  by (auto simp: parseContentMessage_def hasExactKeys_def list_all_iff split: jsval.splits if_splits)

lemma content_request_keys:
  "parseContentMessage (JObj m) = Some (Offer r) \<Longrightarrow>
     \<exists>q. jget m ''request'' = JObj q \<and>
       fst ` set q \<subseteq> {''pageUrl'', ''isTopFrame'', ''usernameVisible'', ''passwordVisible'', ''formAction''}"
  by (auto simp: parseContentMessage_def parse_page_request_def hasExactKeys_def list_all_iff
      split: jsval.splits if_splits)

text \<open>
  The validator of content-script messages accepts every well-formed offer and
  cancellation as it was sent, whatever it accepts is bounded, and it rejects a message with a
  field beyond the ones of the protocol, so a page cannot smuggle a credential, a gesture or an
  item choice through it.
\<close>

lemma content_validator_exact:
  "(content_valid c \<longrightarrow> parseContentMessage (content_json c) = Some c) \<and>
   (parseContentMessage (JObj m) = Some c \<longrightarrow>
      content_valid c \<and> fst ` set m \<subseteq> {''type'', ''request''} \<and>
      (\<forall>r. c = Offer r \<longrightarrow> (\<exists>q. jget m ''request'' = JObj q \<and>
         fst ` set q \<subseteq> {''pageUrl'', ''isTopFrame'', ''usernameVisible'', ''passwordVisible'', ''formAction''})))"
  using parse_content_json parse_content_valid content_keys content_request_keys by blast

text \<open>
  The validator of popup messages accepts exactly the protocol: every message within the
  bounds passes unchanged, and whatever passes is within the bounds (identifiers, origins and
  titles non-empty and bounded, secrets arrays of at most the allowed number of bytes).
\<close>

theorem popup_validator_exact:
  "(popup_valid p \<longrightarrow> parsePopupMessage (popup_json p) = Some p) \<and>
   (parsePopupMessage v = Some p \<longrightarrow> popup_valid p)"
  using parse_popup_json parse_popup_valid by blast

theorem popup_validator_exact_witness:
  "parsePopupMessage (popup_json (Unlock ''acct'' ''https://api.test'' [112, 119])) =
     Some (Unlock ''acct'' ''https://api.test'' [112, 119])"
  using popup_validator_exact [of "Unlock ''acct'' ''https://api.test'' [112, 119]" JNull]
  by (simp add: str_ok_def bytes_ok_def bound_defs)

end
