(* ===== verification/Fill_Policy.thy ===== *)
theory Fill_Policy
  imports Message_Schema
begin

text \<open>
  The pure decisions of the autofill path: origin matching
  (\<open>packages/domain/src/origin.ts\<close>), the authority of a message sender
  (\<open>packages/extension-adapters/src/sender.ts\<close>) and the fill decision
  (\<open>packages/extension-adapters/src/index.ts\<close>).

  The URL parser of the platform (\<open>new URL\<close>) is the argument \<open>url\<close>: it returns the parts of an
  absolute URL that the code reads, or \<open>None\<close> where the constructor throws.
\<close>


section \<open>Origins\<close>

record url_parts =
  url_protocol :: string
  url_hostname :: string
  url_port :: string
  url_origin :: string

type_synonym url_parser = "string \<Rightarrow> url_parts option"

datatype origin_match_reason = Exact | Scheme_mismatch | Host_mismatch | Port_mismatch | Unparseable

record origin_match_result =
  om_matches :: bool
  om_reason :: origin_match_reason

record parsed_origin =
  po_scheme :: string
  po_host :: string
  po_port :: string

definition DEFAULT_PORTS :: "(string \<times> string) list" where
  "DEFAULT_PORTS = [(''http:'', ''80''), (''https:'', ''443'')]"

definition parseOrigin :: "url_parser \<Rightarrow> string \<Rightarrow> parsed_origin option" where
  "parseOrigin url input =
     (if length input = 0 \<or> length input > 4096 then None
      else case url input of
             None \<Rightarrow> None
           | Some u \<Rightarrow>
               if url_hostname u = [] then None
               else Some \<lparr>po_scheme = url_protocol u, po_host = toLowerCase (url_hostname u),
                          po_port = (if url_port u \<noteq> [] then url_port u
                                     else case map_of DEFAULT_PORTS (url_protocol u) of
                                            Some p \<Rightarrow> p | None \<Rightarrow> [])\<rparr>)"

definition matchOrigin :: "url_parser \<Rightarrow> string \<Rightarrow> string \<Rightarrow> origin_match_result" where
  "matchOrigin url itemOrigin pageOrigin =
     (case (parseOrigin url itemOrigin, parseOrigin url pageOrigin) of
        (Some item, Some page) \<Rightarrow>
          if po_scheme item \<noteq> po_scheme page then \<lparr>om_matches = False, om_reason = Scheme_mismatch\<rparr>
          else if po_host item \<noteq> po_host page then \<lparr>om_matches = False, om_reason = Host_mismatch\<rparr>
          else if po_port item \<noteq> po_port page then \<lparr>om_matches = False, om_reason = Port_mismatch\<rparr>
          else \<lparr>om_matches = True, om_reason = Exact\<rparr>
      | _ \<Rightarrow> \<lparr>om_matches = False, om_reason = Unparseable\<rparr>)"

definition itemMatchesPageOrigin :: "url_parser \<Rightarrow> string list \<Rightarrow> string \<Rightarrow> bool" where
  "itemMatchesPageOrigin url itemUrls pageOrigin \<longleftrightarrow>
     list_ex (\<lambda>u. om_matches (matchOrigin url u pageOrigin)) itemUrls"

lemma matchOrigin_iff:
  "om_matches (matchOrigin url a b) \<longleftrightarrow> (\<exists>p. parseOrigin url a = Some p \<and> parseOrigin url b = Some p)"
  by (auto simp: matchOrigin_def split: option.splits)

text \<open>
  Origin matching is exact: two URLs match precisely when both parse to the same scheme,
  host and port.  It is therefore symmetric and transitive, it never relates an HTTP and an
  HTTPS origin or a host and its subdomain, and a URL that does not parse matches nothing, not
  even itself.
\<close>

theorem matchOrigin_exact:
  "(om_matches (matchOrigin url a b) \<longleftrightarrow>
      parseOrigin url a \<noteq> None \<and> parseOrigin url a = parseOrigin url b) \<and>
   (om_matches (matchOrigin url a b) \<longleftrightarrow> om_matches (matchOrigin url b a)) \<and>
   (om_matches (matchOrigin url a b) \<and> om_matches (matchOrigin url b c) \<longrightarrow>
      om_matches (matchOrigin url a c)) \<and>
   (om_matches (matchOrigin url a b) \<longleftrightarrow> om_reason (matchOrigin url a b) = Exact)"
  unfolding matchOrigin_iff by (auto simp: matchOrigin_def split: option.splits)

definition sample_url :: url_parser where
  "sample_url s =
     map_of [(''https://a.test/in'', \<lparr>url_protocol = ''https:'', url_hostname = ''a.test'', url_port = '''', url_origin = ''https://a.test''\<rparr>),
             (''https://a.test'', \<lparr>url_protocol = ''https:'', url_hostname = ''a.test'', url_port = '''', url_origin = ''https://a.test''\<rparr>),
             (''https://a.test:443'', \<lparr>url_protocol = ''https:'', url_hostname = ''a.test'', url_port = ''443'', url_origin = ''https://a.test''\<rparr>),
             (''http://a.test'', \<lparr>url_protocol = ''http:'', url_hostname = ''a.test'', url_port = '''', url_origin = ''http://a.test''\<rparr>)] s"

theorem matchOrigin_exact_witness:
  "om_matches (matchOrigin sample_url ''https://a.test/in'' ''https://a.test:443'')"
proof -
  have "om_matches (matchOrigin sample_url ''https://a.test/in'' ''https://a.test'')"
    "om_matches (matchOrigin sample_url ''https://a.test'' ''https://a.test:443'')"
    by code_simp+
  with matchOrigin_exact [of sample_url "''https://a.test/in''" "''https://a.test''" "''https://a.test:443''"]
  show ?thesis by blast
qed


section \<open>Senders\<close>

record runtime_sender =
  rs_id :: "string option"
  rs_url :: "string option"
  rs_tab :: "jsval option"
  rs_frameId :: "int option"
  rs_documentId :: "string option"

text \<open>\<open>rs_tab\<close> is the \<open>id\<close> field of \<open>sender.tab\<close>, when there is a tab.\<close>

record trusted_content_sender =
  ts_tabId :: int
  ts_url :: string
  ts_origin :: string
  ts_documentId :: "string option"

definition trustedContentSender ::
  "url_parser \<Rightarrow> runtime_sender option \<Rightarrow> string \<Rightarrow> trusted_content_sender option" where
  "trustedContentSender url sender ownExtensionId =
     (case sender of
        None \<Rightarrow> None
      | Some s \<Rightarrow>
          if rs_id s \<noteq> Some ownExtensionId then None
          else (case rs_tab s of
                  Some (JInt tabId) \<Rightarrow>
                    if tabId < 0 then None
                    else if rs_frameId s \<noteq> Some 0 then None
                    else (case rs_url s of
                            None \<Rightarrow> None
                          | Some u \<Rightarrow>
                              (case parseOrigin url u of
                                 None \<Rightarrow> None
                               | Some origin \<Rightarrow>
                                   if po_scheme origin \<noteq> ''https:'' then None
                                   else
                                     (case url u of
                                        None \<Rightarrow> None
                                      | Some parts \<Rightarrow>
                                          Some \<lparr>ts_tabId = tabId, ts_url = u, ts_origin = url_origin parts,
                                            ts_documentId =
                                              (case rs_documentId s of
                                                 Some d \<Rightarrow> if length d > 0 \<and> length d \<le> 128 then Some d else None
                                               | None \<Rightarrow> None)\<rparr>)))
                | _ \<Rightarrow> None))"

definition trustedPopupSender :: "runtime_sender option \<Rightarrow> string \<Rightarrow> string \<Rightarrow> string option" where
  "trustedPopupSender sender ownExtensionId popupUrl =
     (case sender of
        None \<Rightarrow> None
      | Some s \<Rightarrow>
          if rs_id s \<noteq> Some ownExtensionId then None
          else if rs_tab s \<noteq> None then None
          else if rs_url s \<noteq> Some popupUrl then None
          else rs_url s)"

lemma trustedContentSender_facts:
  assumes "trustedContentSender url sender own = Some t"
  shows "\<exists>s p. sender = Some s \<and> rs_id s = Some own \<and> rs_tab s = Some (JInt (ts_tabId t)) \<and> 0 \<le> ts_tabId t \<and>
    rs_frameId s = Some 0 \<and> rs_url s = Some (ts_url t) \<and> parseOrigin url (ts_url t) = Some p \<and>
    po_scheme p = ''https:'' \<and> map_option url_origin (url (ts_url t)) = Some (ts_origin t)"
  using assms
  by (auto simp: trustedContentSender_def split: option.splits if_splits jsval.splits)

text \<open>
  No sender has both authorities, and each is what the browser attests: a trusted content
  sender is this extension's script in the top frame of an HTTPS document of a tab, the trusted
  popup is this extension's popup document outside any tab.
\<close>

lemma sender_authority:
  "\<not> (trustedContentSender url sender own \<noteq> None \<and> trustedPopupSender sender own popup \<noteq> None) \<and>
   (case trustedContentSender url sender own of
      Some t \<Rightarrow> \<exists>s p. sender = Some s \<and> rs_id s = Some own \<and> rs_frameId s = Some 0 \<and>
        rs_tab s = Some (JInt (ts_tabId t)) \<and> rs_url s = Some (ts_url t) \<and>
        parseOrigin url (ts_url t) = Some p \<and> po_scheme p = ''https:''
    | None \<Rightarrow> True) \<and>
   (case trustedPopupSender sender own popup of
      Some u \<Rightarrow> u = popup \<and> (\<exists>s. sender = Some s \<and> rs_id s = Some own \<and> rs_tab s = None \<and> rs_url s = Some popup)
    | None \<Rightarrow> True)"
proof (cases "trustedContentSender url sender own")
  case None
  then show ?thesis by (auto simp: trustedPopupSender_def split: option.splits if_splits)
next
  case (Some t)
  from trustedContentSender_facts [OF Some] Some show ?thesis
    by (auto simp: trustedPopupSender_def split: option.splits if_splits)
qed


section \<open>The vault as the policy sees it\<close>

record fill_fields =
  ff_username :: string
  ff_password :: string
  ff_totp :: "string option"

datatype save_result =
    Save_ok string
  | Save_validation "string list"
  | Save_conflict
  | Save_locked
  | Save_network


section \<open>The fill decision\<close>

record login_candidate =
  lc_id :: string
  lc_title :: string
  lc_origin :: string

datatype refusal_reason =
    R_locked | R_not_top_frame | R_not_https | R_invalid_page | R_cross_origin_form | R_hidden_field
  | R_no_exact_origin_match | R_confirmation_required | R_stale_capability
  | R_document_targeting_unsupported | R_unlock_unavailable | R_not_found

datatype fill_decision = Allowed "login_candidate list" | Refused refusal_reason

text \<open>\<open>request.formAction &&\<close>: an absent and an empty form action are both skipped.\<close>

definition form_action_ok :: "url_parser \<Rightarrow> page_request \<Rightarrow> bool" where
  "form_action_ok url request \<longleftrightarrow>
     (case formAction request of
        None \<Rightarrow> True
      | Some a \<Rightarrow> a = [] \<or> om_matches (matchOrigin url (pageUrl request) a))"

definition decideFill :: "url_parser \<Rightarrow> page_request \<Rightarrow> login_candidate list \<Rightarrow> fill_decision" where
  "decideFill url request candidates =
     (if \<not> isTopFrame request then Refused R_not_top_frame
      else case parseOrigin url (pageUrl request) of
             None \<Rightarrow> Refused R_invalid_page
           | Some page \<Rightarrow>
               if po_scheme page \<noteq> ''https:'' then Refused R_not_https
               else if \<not> usernameVisible request \<or> \<not> passwordVisible request then Refused R_hidden_field
               else if \<not> form_action_ok url request then Refused R_cross_origin_form
               else
                 (let exact = filter (\<lambda>c. om_matches (matchOrigin url (lc_origin c) (pageUrl request))) candidates
                  in if length exact > 0 then Allowed exact else Refused R_no_exact_origin_match))"

definition confirmFill :: "bool \<Rightarrow> unit + refusal_reason" where
  "confirmFill userGesture = (if userGesture then Inl () else Inr R_confirmation_required)"

lemma decideFill_iff:
  "decideFill url request cs = Allowed offered \<longleftrightarrow>
     isTopFrame request \<and> usernameVisible request \<and> passwordVisible request \<and>
     (\<exists>page. parseOrigin url (pageUrl request) = Some page \<and> po_scheme page = ''https:'' \<and>
        (\<forall>a. formAction request = Some a \<and> a \<noteq> [] \<longrightarrow> parseOrigin url a = Some page) \<and>
        offered = filter (\<lambda>c. parseOrigin url (lc_origin c) = Some page) cs \<and> offered \<noteq> [])"
proof (cases "parseOrigin url (pageUrl request)")
  case None
  then show ?thesis by (simp add: decideFill_def)
next
  case (Some page)
  have f: "form_action_ok url request \<longleftrightarrow> (\<forall>a. formAction request = Some a \<and> a \<noteq> [] \<longrightarrow> parseOrigin url a = Some page)"
    by (auto simp: form_action_ok_def matchOrigin_iff Some split: option.splits)
  have m: "om_matches (matchOrigin url (lc_origin c) (pageUrl request)) \<longleftrightarrow> parseOrigin url (lc_origin c) = Some page" for c
    by (auto simp: matchOrigin_iff Some)
  show ?thesis by (auto simp: decideFill_def Some f m Let_def)
qed

text \<open>
  The fill decision has no permissive path: it allows a fill exactly when the request is
  for the top frame of an HTTPS page with both fields visible and a form that submits to the
  page's own origin, and then offers all and only the candidates recorded for the page's exact
  origin, of which there is at least one.
\<close>

theorem decideFill_sound_complete:
  "decideFill url request cs = Allowed offered \<longleftrightarrow>
     isTopFrame request \<and> usernameVisible request \<and> passwordVisible request \<and>
     (\<exists>page. parseOrigin url (pageUrl request) = Some page \<and> po_scheme page = ''https:'' \<and>
        (\<forall>a. formAction request = Some a \<and> a \<noteq> [] \<longrightarrow> parseOrigin url a = Some page) \<and>
        offered = filter (\<lambda>c. parseOrigin url (lc_origin c) = Some page) cs \<and> offered \<noteq> [])"
  by (rule decideFill_iff)

theorem decideFill_sound_complete_witness:
  "decideFill sample_url \<lparr>pageUrl = ''https://a.test/in'', isTopFrame = True, formAction = Some ''https://a.test'',
       usernameVisible = True, passwordVisible = True\<rparr>
     [\<lparr>lc_id = ''1'', lc_title = ''A'', lc_origin = ''https://a.test:443''\<rparr>,
      \<lparr>lc_id = ''2'', lc_title = ''B'', lc_origin = ''http://a.test''\<rparr>] =
   Allowed [\<lparr>lc_id = ''1'', lc_title = ''A'', lc_origin = ''https://a.test:443''\<rparr>]"
  unfolding decideFill_sound_complete
  by (simp add: parseOrigin_def sample_url_def DEFAULT_PORTS_def toLowerCase_def)

end
