(* ===== verification/Session_Capability.thy ===== *)
theory Session_Capability
  imports Js_Value
begin

text \<open>
  The extension's session state machine (\<open>packages/extension-adapters/src/session-state.ts\<close>) and
  its store of one-use fill capabilities (\<open>packages/extension-adapters/src/capability.ts\<close>).  The
  clock value a method reads is its argument \<open>now\<close>, the random bytes are an argument of
  \<open>grant\<close>.
\<close>


section \<open>Session\<close>

datatype lock_reason = L_explicit | L_popup_closed | L_timeout | L_error | L_evicted | L_auth_failed | L_startup

definition POPUP_INACTIVITY_LIMIT_MS :: int where
  "POPUP_INACTIVITY_LIMIT_MS = 300000"

record session_state =
  generation :: int
  lastTrustedActivityAt :: "epoch_ms option"
  active :: bool
  lastLockReason :: lock_reason

definition session_new :: session_state where
  "session_new = \<lparr>generation = 1, lastTrustedActivityAt = None, active = False, lastLockReason = L_startup\<rparr>"

definition locked :: "session_state \<Rightarrow> bool" where
  "locked s \<longleftrightarrow> \<not> active s"

definition session_lock :: "lock_reason \<Rightarrow> session_state \<Rightarrow> session_state" where
  "session_lock reason s =
     s\<lparr>generation := generation s + 1, active := False, lastTrustedActivityAt := None, lastLockReason := reason\<rparr>"

definition markUnlocked :: "epoch_ms \<Rightarrow> session_state \<Rightarrow> session_state" where
  "markUnlocked now s = (if active s then s else s\<lparr>active := True, lastTrustedActivityAt := Some now\<rparr>)"

definition noteTrustedPopupActivity :: "epoch_ms \<Rightarrow> session_state \<Rightarrow> session_state" where
  "noteTrustedPopupActivity now s = (if active s then s\<lparr>lastTrustedActivityAt := Some now\<rparr> else s)"

definition ensureActive :: "epoch_ms \<Rightarrow> session_state \<Rightarrow> session_state" where
  "ensureActive now s =
     (if \<not> active s then s
      else case lastTrustedActivityAt s of
             None \<Rightarrow> session_lock L_timeout s
           | Some last_at \<Rightarrow> if now - last_at > POPUP_INACTIVITY_LIMIT_MS then session_lock L_timeout s else s)"

text \<open>An active session has a trusted activity to count its deadline from.\<close>

definition session_wf :: "session_state \<Rightarrow> bool" where
  "session_wf s \<longleftrightarrow> (active s \<longleftrightarrow> lastTrustedActivityAt s \<noteq> None)"

lemmas session_defs = session_lock_def markUnlocked_def noteTrustedPopupActivity_def ensureActive_def locked_def

inductive session_step :: "session_state \<Rightarrow> session_state \<Rightarrow> bool" where
  lock: "session_step s (session_lock r s)"
| unlock: "session_step s (markUnlocked now s)"
| activity: "session_step s (noteTrustedPopupActivity now s)"
| ensure: "session_step s (ensureActive now s)"

lemma session_step_keeps:
  assumes "session_step s s'" "session_wf s"
  shows "session_wf s'" "generation s \<le> generation s'"
    "active s \<Longrightarrow> generation s' = generation s \<Longrightarrow> active s'"
  using assms by (induction rule: session_step.induct)
    (auto simp: session_defs session_wf_def split: option.splits if_splits)

text \<open>
  Over any sequence of session operations the generation never decreases, and a session
  that is active and whose generation has not changed is still active: whatever was authorised
  under a generation is dead as soon as a lock has happened.  After \<open>ensureActive\<close> an active
  session has seen trusted activity within the last five minutes.
\<close>

theorem session_generation:
  assumes "session_step\<^sup>*\<^sup>* s s'" "session_wf s"
  shows "session_wf s' \<and> generation s \<le> generation s' \<and>
    (active s \<and> generation s' = generation s \<longrightarrow> active s') \<and>
    (active (ensureActive now s') \<longrightarrow>
       (\<exists>t0. lastTrustedActivityAt (ensureActive now s') = Some t0 \<and> now - t0 \<le> 300000))"
proof -
  have "session_wf s' \<and> generation s \<le> generation s' \<and> (active s \<and> generation s' = generation s \<longrightarrow> active s')"
    using assms(1)
  proof (induction rule: rtranclp_induct)
    case base
    with assms(2) show ?case by simp
  next
    case (step y z)
    with session_step_keeps [OF step(2)] show ?case by fastforce
  qed
  moreover from this have "active (ensureActive now s') \<longrightarrow>
       (\<exists>t0. lastTrustedActivityAt (ensureActive now s') = Some t0 \<and> now - t0 \<le> 300000)"
    by (auto simp: session_defs session_wf_def POPUP_INACTIVITY_LIMIT_MS_def split: option.splits if_splits)
  ultimately show ?thesis by blast
qed

theorem session_generation_witness:
  "generation session_new \<le> generation (session_lock L_explicit (markUnlocked 5 session_new))"
proof -
  have "session_step\<^sup>*\<^sup>* session_new (session_lock L_explicit (markUnlocked 5 session_new))"
    by (rule rtranclp.rtrancl_into_rtrancl [OF r_into_rtranclp [of session_step, OF session_step.unlock]
          session_step.lock])
  moreover have "session_wf session_new" by (simp add: session_wf_def session_new_def)
  ultimately show ?thesis using session_generation by blast
qed


section \<open>Capabilities\<close>

record capability_binding =
  cb_generation :: int
  cb_tabId :: int
  cb_documentId :: string
  cb_origin :: string
  cb_formActionOrigin :: string

record capability_entry =
  ce_binding :: capability_binding
  ce_grantedAt :: epoch_ms

type_synonym capability_store = "(string, capability_entry) js_map"

definition MAX_CAPABILITY_LIFETIME_MS :: int where
  "MAX_CAPABILITY_LIFETIME_MS = 30000"

datatype consume_failure =
    CF_unknown | CF_expired | CF_generation | CF_tab | CF_document | CF_origin | CF_form_action

definition hex_digit :: "nat \<Rightarrow> char" where
  "hex_digit n = ''0123456789abcdef'' ! n"

definition byte_hex :: "uint8 \<Rightarrow> string" where
  "byte_hex b =
     padStart
       (if unat b < 16 then [hex_digit (unat b)] else [hex_digit (unat b div 16), hex_digit (unat b mod 16)])
       2 (CHR ''0'')"

definition grant :: "capability_store \<Rightarrow> capability_binding \<Rightarrow> epoch_ms \<Rightarrow> bytes \<Rightarrow> capability_store \<times> string" where
  "grant caps binding now rnd =
     (let requestId = concat (map byte_hex rnd)
      in (AList.update requestId \<lparr>ce_binding = binding, ce_grantedAt = now\<rparr> caps, requestId))"

definition consume ::
  "capability_store \<Rightarrow> jsval \<Rightarrow> capability_binding \<Rightarrow> epoch_ms \<Rightarrow> capability_store \<times> consume_failure option" where
  "consume caps requestId current now =
     (case requestId of
        JStr rid \<Rightarrow>
          if length rid = 0 \<or> length rid > 128 then (caps, Some CF_unknown)
          else
            (let caps' = AList.delete rid caps
             in case map_of caps rid of
                  None \<Rightarrow> (caps', Some CF_unknown)
                | Some entry \<Rightarrow>
                    if now - ce_grantedAt entry > MAX_CAPABILITY_LIFETIME_MS then (caps', Some CF_expired)
                    else
                      (let bound = ce_binding entry
                       in if cb_generation bound \<noteq> cb_generation current then (caps', Some CF_generation)
                          else if cb_tabId bound \<noteq> cb_tabId current then (caps', Some CF_tab)
                          else if cb_documentId bound \<noteq> cb_documentId current then (caps', Some CF_document)
                          else if cb_origin bound \<noteq> cb_origin current then (caps', Some CF_origin)
                          else if cb_formActionOrigin bound \<noteq> cb_formActionOrigin current
                          then (caps', Some CF_form_action)
                          else (caps', None)))
      | _ \<Rightarrow> (caps, Some CF_unknown))"

definition invalidateAll :: "capability_store \<Rightarrow> capability_store" where
  "invalidateAll caps = []"

lemma consume_ok:
  assumes "consume caps r current now = (caps', None)"
  shows "\<exists>rid entry. r = JStr rid \<and> map_of caps rid = Some entry \<and> ce_binding entry = current \<and>
    now - ce_grantedAt entry \<le> 30000 \<and> caps' = AList.delete rid caps"
  using assms
  by (auto simp: consume_def Let_def MAX_CAPABILITY_LIFETIME_MS_def
      split: jsval.splits option.splits if_splits)

lemma consume_removes: "consume caps (JStr rid) current now = (caps', f) \<Longrightarrow> 0 < length rid \<Longrightarrow> length rid \<le> 128 \<Longrightarrow>
    caps' = AList.delete rid caps"
  by (auto simp: consume_def Let_def split: option.splits if_splits)

text \<open>
  A capability is good for one consumption, in the exact context it was granted for:
  consumption succeeds only for a stored capability with the same generation, tab, document,
  origin and form action, at most 30 seconds old; whether it succeeds or not the capability is
  gone, so a second presentation of the same identifier is always unknown.
\<close>

theorem capability_single_use:
  assumes "consume caps (JStr rid) current now = (caps', outcome)"
  shows "(outcome = None \<longrightarrow>
      (\<exists>entry. map_of caps rid = Some entry \<and> ce_binding entry = current \<and> now - ce_grantedAt entry \<le> 30000)) \<and>
    (0 < length rid \<and> length rid \<le> 128 \<longrightarrow>
       consume caps' (JStr rid) current' now' = (AList.delete rid caps', Some CF_unknown)) \<and>
    (\<forall>other. other \<noteq> rid \<longrightarrow> map_of caps' other = map_of caps other)"
proof -
  have "map_of caps' other = map_of caps other" if "other \<noteq> rid" for other
    using assms that by (auto simp: consume_def Let_def split: option.splits if_splits)
  moreover have "consume caps' (JStr rid) current' now' = (AList.delete rid caps', Some CF_unknown)"
    if "0 < length rid \<and> length rid \<le> 128"
    using consume_removes [OF assms] that by (auto simp: consume_def Let_def)
  moreover have "\<exists>entry. map_of caps rid = Some entry \<and> ce_binding entry = current \<and> now - ce_grantedAt entry \<le> 30000"
    if "outcome = None"
    using consume_ok [OF assms [unfolded that]] by auto
  ultimately show ?thesis by blast
qed

definition sample_binding :: capability_binding where
  "sample_binding = \<lparr>cb_generation = 1, cb_tabId = 7, cb_documentId = ''d'', cb_origin = ''https://a.test'',
     cb_formActionOrigin = ''https://a.test''\<rparr>"

theorem capability_single_use_witness:
  "consume (fst (consume (fst (grant [] sample_binding 1000 [0x0a, 0xff])) (JStr ''0aff'') sample_binding 2000))
     (JStr ''0aff'') sample_binding 2001 = ([], Some CF_unknown)"
proof -
  let ?caps = "fst (grant [] sample_binding 1000 [0x0a, 0xff])"
  have c: "consume ?caps (JStr ''0aff'') sample_binding 2000 = ([], None)" by code_simp
  from capability_single_use [OF c, of sample_binding 2001] show ?thesis unfolding c by simp
qed

end
