(* ===== verification/Background.thy ===== *)
theory Background
  imports Fill_Policy Session_Capability
begin

text \<open>
  \<open>BackgroundPolicy\<close> of \<open>apps/extension/src/background.ts\<close>, the trusted core of the browser
  extension.  Its handlers are \<open>async\<close>: at every \<open>await\<close> other handlers can run.  A handler is
  therefore cut at its awaits: the first part runs when the message arrives, and what follows an
  \<open>await\<close> is the continuation of a pending task (\<open>bg_task\<close>), run by \<open>resume\<close> with the value the
  awaited promise settles with.  The vault, the tab query, the message transport and the
  storage are outside: what they return is an argument (\<open>answer\<close>), so any of them may answer
  anything, at any time, in any order.

  \<open>bg_log\<close> records the calls the policy makes that matter outside of it, the latest first.
  Offers are objects compared by identity (\<open>this.#pendingOffer !== offer\<close>), so each has a serial
  number.  One synchronous part of a handler reads the clock once (\<open>now\<close>).
\<close>


section \<open>State\<close>

record pending_offer =
  of_ref :: nat
  of_tabId :: int
  of_origin :: string
  of_documentId :: string
  of_formActionOrigin :: string
  of_candidates :: "login_candidate list"

record saved_account =
  sa_accountId :: string
  sa_apiOrigin :: string

record save_input =
  si_itemId :: "string option"
  si_title :: string
  si_type :: string
  si_username :: "string option"
  si_password :: "ustring option"
  si_url :: "string option"
  si_notes :: "ustring option"
  si_totpSecret :: "ustring option"

record item_summary =
  is_itemId :: string
  is_title :: string
  is_type :: string
  is_username :: "string option"
  is_url :: "string option"

datatype to_content = C_offer_available | C_refused refusal_reason | C_locked

datatype to_popup =
    P_state bool bool "saved_account option"
  | P_candidates string "login_candidate list"
  | P_refused refusal_reason
  | P_unlock_failed
  | P_unlocked
  | P_items "item_summary list"
  | P_saved string
  | P_save_failed save_result
  | P_totp string nat
  | P_locked

datatype bg_effect =
    Vault_lock
  | Vault_unlock string string bytes
  | Vault_save save_input
  | Granted string capability_binding epoch_ms
  | Consumed string capability_binding epoch_ms
  | Sent string string pending_offer fill_fields int
  | Stored saved_account

record background =
  bg_session :: session_state
  bg_caps :: capability_store
  bg_savedAccount :: "saved_account option option"
  bg_offer :: "pending_offer option"
  bg_next :: nat
  bg_log :: "bg_effect list"

text \<open>Which methods the injected vault has; the base interface is \<open>candidatesFor\<close>, \<open>fieldsFor\<close>.\<close>

record vault_methods =
  has_unlock :: bool
  has_lock :: bool
  has_logout :: bool
  has_listItems :: bool
  has_saveItem :: bool
  has_getTotp :: bool
  has_checkFresh :: bool

record bg_config =
  cfg_ownExtensionId :: string
  cfg_popupUrl :: string
  cfg_vault :: "vault_methods option"
  cfg_url :: url_parser

definition background_new :: background where
  "background_new =
     \<lparr>bg_session = session_new, bg_caps = [], bg_savedAccount = None, bg_offer = None, bg_next = 0, bg_log = []\<rparr>"

definition has_method :: "bg_config \<Rightarrow> (vault_methods \<Rightarrow> bool) \<Rightarrow> bool" where
  "has_method cfg m = (case cfg_vault cfg of None \<Rightarrow> False | Some v \<Rightarrow> m v)"


section \<open>Locking\<close>

definition lock_with :: "bg_config \<Rightarrow> lock_reason \<Rightarrow> background \<Rightarrow> background" where
  "lock_with cfg reason b =
     b\<lparr>bg_session := session_lock reason (bg_session b), bg_caps := invalidateAll (bg_caps b), bg_offer := None,
       bg_log := (if has_method cfg has_lock then Vault_lock # bg_log b else bg_log b)\<rparr>"

definition bg_lock :: "bg_config \<Rightarrow> background \<Rightarrow> background" where
  "bg_lock cfg b = lock_with cfg L_explicit b"

definition lockFromPopupClose :: "bg_config \<Rightarrow> background \<Rightarrow> background" where
  "lockFromPopupClose cfg b = lock_with cfg L_popup_closed b"

definition bg_ensureActive :: "epoch_ms \<Rightarrow> background \<Rightarrow> background" where
  "bg_ensureActive now b = b\<lparr>bg_session := ensureActive now (bg_session b)\<rparr>"


section \<open>Content messages\<close>

text \<open>\<open>candidates\<close> is what \<open>candidatesFor(trusted.origin)\<close> returns at this moment.\<close>

definition handleContentMessage ::
  "bg_config \<Rightarrow> epoch_ms \<Rightarrow> login_candidate list \<Rightarrow> jsval \<Rightarrow> runtime_sender option \<Rightarrow> background \<Rightarrow>
   background \<times> to_content" where
  "handleContentMessage cfg now candidates message sender b0 =
     (let b = bg_ensureActive now b0
      in case trustedContentSender (cfg_url cfg) sender (cfg_ownExtensionId cfg) of
           None \<Rightarrow> (b, C_locked)
         | Some trusted \<Rightarrow>
             (case parseContentMessage message of
                None \<Rightarrow> (b, C_refused R_locked)
              | Some Cancel_offer \<Rightarrow>
                  ((case bg_offer b of
                      Some offer \<Rightarrow> if of_tabId offer = ts_tabId trusted then b\<lparr>bg_offer := None\<rparr> else b
                    | None \<Rightarrow> b), C_locked)
              | Some (Offer request) \<Rightarrow>
                  if locked (bg_session b) \<or> cfg_vault cfg = None then (b, C_refused R_locked)
                  else if pageUrl request \<noteq> ts_url trusted then (b, C_refused R_invalid_page)
                  else (case decideFill (cfg_url cfg) request candidates of
                          Refused reason \<Rightarrow> (b, C_refused reason)
                        | Allowed exact \<Rightarrow>
                            (case ts_documentId trusted of
                               None \<Rightarrow> (b\<lparr>bg_offer := None\<rparr>, C_refused R_document_targeting_unsupported)
                             | Some documentId \<Rightarrow>
                                 (b\<lparr>bg_offer := Some
                                      \<lparr>of_ref = bg_next b, of_tabId = ts_tabId trusted, of_origin = ts_origin trusted,
                                       of_documentId = documentId,
                                       of_formActionOrigin =
                                         (case formAction request of Some a \<Rightarrow> a | None \<Rightarrow> ts_origin trusted),
                                       of_candidates = exact\<rparr>,
                                    bg_next := bg_next b + 1\<rparr>, C_offer_available)))))"


section \<open>Popup messages: the part up to the first await\<close>

datatype bg_task =
    T_getState
  | T_unlock string string
  | T_store
  | T_logout
  | T_candidates pending_offer
  | T_listItems
  | T_totp
  | T_save
  | T_tab string string pending_offer int
  | T_fields string string pending_offer int
  | T_send pending_offer int

text \<open>A part ends with a reply, with an exception, or at an \<open>await\<close>.\<close>

datatype bg_outcome = Reply to_popup | Throws | Await bg_task

definition state_reply :: "bg_config \<Rightarrow> background \<Rightarrow> saved_account option \<Rightarrow> bg_outcome" where
  "state_reply cfg b acct = Reply (P_state (locked (bg_session b)) (has_method cfg has_unlock) acct)"

definition getState :: "bg_config \<Rightarrow> background \<Rightarrow> background \<times> bg_outcome" where
  "getState cfg b =
     (case bg_savedAccount b of None \<Rightarrow> (b, Await T_getState) | Some acct \<Rightarrow> (b, state_reply cfg b acct))"

definition bg_unlock :: "bg_config \<Rightarrow> string \<Rightarrow> string \<Rightarrow> int list \<Rightarrow> background \<Rightarrow> background \<times> bg_outcome" where
  "bg_unlock cfg accountId apiOrigin passwordBytes b =
     (if \<not> has_method cfg has_unlock then (b, Reply (P_refused R_unlock_unavailable))
      else
        (let b1 = (if \<not> locked (bg_session b) then bg_lock cfg b else b)
         in (b1\<lparr>bg_log := Vault_unlock accountId apiOrigin (fromByteArray passwordBytes) # bg_log b1\<rparr>,
             Await (T_unlock accountId apiOrigin))))"

definition bg_logout_end :: "background \<Rightarrow> background \<times> bg_outcome" where
  "bg_logout_end b =
     (b\<lparr>bg_session := session_lock L_explicit (bg_session b), bg_caps := invalidateAll (bg_caps b), bg_offer := None\<rparr>,
      Reply P_locked)"

definition bg_logout :: "bg_config \<Rightarrow> background \<Rightarrow> background \<times> bg_outcome" where
  "bg_logout cfg b = (if has_method cfg has_logout then (b, Await T_logout) else bg_logout_end b)"

definition offer_binding :: "session_state \<Rightarrow> pending_offer \<Rightarrow> capability_binding" where
  "offer_binding s offer =
     \<lparr>cb_generation = generation s, cb_tabId = of_tabId offer, cb_documentId = of_documentId offer,
      cb_origin = of_origin offer, cb_formActionOrigin = of_formActionOrigin offer\<rparr>"

definition grantCandidates :: "epoch_ms \<Rightarrow> bytes \<Rightarrow> pending_offer \<Rightarrow> background \<Rightarrow> background \<times> bg_outcome" where
  "grantCandidates now rnd offer b =
     (let binding = offer_binding (bg_session b) offer;
          (caps, requestId) = grant (bg_caps b) binding now rnd
      in (b\<lparr>bg_caps := caps, bg_log := Granted requestId binding now # bg_log b\<rparr>,
          Reply (P_candidates requestId (of_candidates offer))))"

definition requestCandidates :: "bg_config \<Rightarrow> epoch_ms \<Rightarrow> bytes \<Rightarrow> background \<Rightarrow> background \<times> bg_outcome" where
  "requestCandidates cfg now rnd b =
     (if locked (bg_session b) \<or> cfg_vault cfg = None then (b, Reply P_locked)
      else case bg_offer b of
             None \<Rightarrow> (b, Reply (P_refused R_no_exact_origin_match))
           | Some offer \<Rightarrow>
               if \<not> has_method cfg has_checkFresh then grantCandidates now rnd offer b
               else (b, Await (T_candidates offer)))"

text \<open>\<open>items\<close> is what the vault's \<open>listItems()\<close> returns at this moment.\<close>

definition listItems_end :: "item_summary list \<Rightarrow> background \<Rightarrow> background \<times> bg_outcome" where
  "listItems_end items b =
     (if locked (bg_session b) then (b, Reply P_locked) else (b, Reply (P_items items)))"

definition bg_listItems :: "bg_config \<Rightarrow> item_summary list \<Rightarrow> background \<Rightarrow> background \<times> bg_outcome" where
  "bg_listItems cfg items b =
     (if locked (bg_session b) \<or> \<not> has_method cfg has_listItems then (b, Reply (P_refused R_unlock_unavailable))
      else if has_method cfg has_checkFresh then (b, Await T_listItems)
      else listItems_end items b)"

definition bg_getTotp :: "bg_config \<Rightarrow> background \<Rightarrow> background \<times> bg_outcome" where
  "bg_getTotp cfg b =
     (if locked (bg_session b) \<or> \<not> has_method cfg has_getTotp then (b, Reply (P_refused R_unlock_unavailable))
      else (b, Await T_totp))"

text \<open>The optional byte arrays are decoded one after the other; a malformed one throws.\<close>

definition decode_field :: "int list option \<Rightarrow> ustring option option" where
  "decode_field v = (case v of None \<Rightarrow> Some None | Some ns \<Rightarrow> map_option Some (byteArrayToString ns))"

definition save_input_of :: "save_message \<Rightarrow> save_input option" where
  "save_input_of m =
     (case (decode_field (sm_password m), decode_field (sm_notes m), decode_field (sm_totpSecret m)) of
        (Some p, Some n, Some t) \<Rightarrow>
          Some \<lparr>si_itemId = sm_itemId m, si_title = sm_title m, si_type = sm_itemType m,
                si_username = sm_username m, si_password = p, si_url = sm_url m, si_notes = n, si_totpSecret = t\<rparr>
      | _ \<Rightarrow> None)"

definition bg_saveItem :: "bg_config \<Rightarrow> save_message \<Rightarrow> background \<Rightarrow> background \<times> bg_outcome" where
  "bg_saveItem cfg parsed b =
     (if locked (bg_session b) \<or> \<not> has_method cfg has_saveItem then (b, Reply (P_refused R_unlock_unavailable))
      else case save_input_of parsed of
             None \<Rightarrow> (b, Throws)
           | Some input \<Rightarrow> (b\<lparr>bg_log := Vault_save input # bg_log b\<rparr>, Await T_save))"

definition fillSelected :: "bg_config \<Rightarrow> string \<Rightarrow> string \<Rightarrow> background \<Rightarrow> background \<times> bg_outcome" where
  "fillSelected cfg requestId itemId b =
     (if locked (bg_session b) \<or> cfg_vault cfg = None then (b, Reply P_locked)
      else case bg_offer b of
             None \<Rightarrow> (b, Reply (P_refused R_stale_capability))
           | Some offer \<Rightarrow>
               if \<not> list_ex (\<lambda>c. lc_id c = itemId) (of_candidates offer)
               then (b, Reply (P_refused R_no_exact_origin_match))
               else (b, Await (T_tab requestId itemId offer (generation (bg_session b)))))"

text \<open>The \<open>switch\<close> over the validated message.\<close>

definition popup_dispatch ::
  "bg_config \<Rightarrow> epoch_ms \<Rightarrow> bytes \<Rightarrow> item_summary list \<Rightarrow> popup_message \<Rightarrow> background \<Rightarrow> background \<times> bg_outcome" where
  "popup_dispatch cfg now rnd items parsed b =
     (case parsed of
        Get_state \<Rightarrow> getState cfg b
      | Lock_msg \<Rightarrow> (bg_lock cfg b, Reply P_locked)
      | Logout \<Rightarrow> bg_logout cfg b
      | Request_candidates \<Rightarrow> requestCandidates cfg now rnd b
      | List_items \<Rightarrow> bg_listItems cfg items b
      | Get_totp itemId \<Rightarrow> bg_getTotp cfg b
      | Unlock accountId apiOrigin password \<Rightarrow> bg_unlock cfg accountId apiOrigin password b
      | Save_item m \<Rightarrow> bg_saveItem cfg m b
      | Fill_selected requestId itemId \<Rightarrow> fillSelected cfg requestId itemId b)"

definition handlePopupMessage ::
  "bg_config \<Rightarrow> epoch_ms \<Rightarrow> bytes \<Rightarrow> item_summary list \<Rightarrow> jsval \<Rightarrow> runtime_sender option \<Rightarrow> background \<Rightarrow>
   background \<times> bg_outcome" where
  "handlePopupMessage cfg now rnd items message sender b0 =
     (let b = bg_ensureActive now b0
      in if trustedPopupSender sender (cfg_ownExtensionId cfg) (cfg_popupUrl cfg) = None then (b, Reply P_locked)
         else case parsePopupMessage message of
                None \<Rightarrow> (b, Reply P_locked)
              | Some parsed \<Rightarrow>
                  popup_dispatch cfg now rnd items parsed
                    (b\<lparr>bg_session := noteTrustedPopupActivity now (bg_session b)\<rparr>))"

text \<open>The state a validated popup message is dispatched in.\<close>

definition popup_entry :: "epoch_ms \<Rightarrow> background \<Rightarrow> background" where
  "popup_entry now b =
     (let b1 = bg_ensureActive now b in b1\<lparr>bg_session := noteTrustedPopupActivity now (bg_session b1)\<rparr>)"

lemma handlePopupMessage_cases:
  assumes "handlePopupMessage cfg now rnd items msg sender b = (b', out)"
  obtains (refused) "b' = bg_ensureActive now b" "out = Reply P_locked"
  | (dispatched) p where "parsePopupMessage msg = Some p"
      "popup_dispatch cfg now rnd items p (popup_entry now b) = (b', out)"
  using assms unfolding handlePopupMessage_def popup_entry_def Let_def
  by (cases "trustedPopupSender sender (cfg_ownExtensionId cfg) (cfg_popupUrl cfg) = None";
      cases "parsePopupMessage msg") auto


section \<open>Popup messages: after an await\<close>

text \<open>
  The values the awaited promises settle with; \<open>None\<close> at the outside of an option is a
  rejection.  Rejections of the storage, of \<open>logout\<close> and of the delivery are caught where they
  happen.
\<close>

datatype bg_answer =
    A_account "saved_account option"
  | A_unlock "bool option"
  | A_settled
  | A_fresh "bool option" "item_summary list"
  | A_totp "(string \<times> nat) option option"
  | A_save "save_result option"
  | A_tab "(int \<times> string) option option"
  | A_fields "fill_fields option option"
  | A_delivered bool

definition getState_resume :: "bg_config \<Rightarrow> saved_account option \<Rightarrow> background \<Rightarrow> background \<times> bg_outcome" where
  "getState_resume cfg acct b =
     (let b1 = b\<lparr>bg_savedAccount := Some acct\<rparr> in (b1, state_reply cfg b1 acct))"

definition unlock_resume ::
  "epoch_ms \<Rightarrow> string \<Rightarrow> string \<Rightarrow> bool option \<Rightarrow> background \<Rightarrow> background \<times> bg_outcome" where
  "unlock_resume now accountId apiOrigin result b =
     (if result \<noteq> Some True then (b, Reply P_unlock_failed)
      else
        (let acct = \<lparr>sa_accountId = accountId, sa_apiOrigin = apiOrigin\<rparr>
         in (b\<lparr>bg_session := markUnlocked now (bg_session b), bg_savedAccount := Some (Some acct),
               bg_log := Stored acct # bg_log b\<rparr>,
             Await T_store)))"

definition candidates_resume ::
  "epoch_ms \<Rightarrow> bytes \<Rightarrow> pending_offer \<Rightarrow> bool option \<Rightarrow> background \<Rightarrow> background \<times> bg_outcome" where
  "candidates_resume now rnd offer fresh b =
     (case fresh of
        None \<Rightarrow> (b, Throws)
      | Some ok \<Rightarrow>
          if \<not> ok \<or> locked (bg_session b) then (b, Reply P_locked)
          else if map_option of_ref (bg_offer b) \<noteq> Some (of_ref offer)
          then (b, Reply (P_refused R_no_exact_origin_match))
          else grantCandidates now rnd offer b)"

definition listItems_resume :: "bool option \<Rightarrow> item_summary list \<Rightarrow> background \<Rightarrow> background \<times> bg_outcome" where
  "listItems_resume fresh items b =
     (case fresh of
        None \<Rightarrow> (b, Throws)
      | Some False \<Rightarrow> (b, Reply P_locked)
      | Some True \<Rightarrow> listItems_end items b)"

definition totp_resume :: "(string \<times> nat) option option \<Rightarrow> background \<Rightarrow> background \<times> bg_outcome" where
  "totp_resume result b =
     (case result of
        None \<Rightarrow> (b, Throws)
      | Some totp \<Rightarrow>
          if locked (bg_session b) then (b, Reply P_locked)
          else (case totp of
                  None \<Rightarrow> (b, Reply (P_refused R_not_found))
                | Some (code, seconds) \<Rightarrow> (b, Reply (P_totp code seconds))))"

definition save_resume :: "save_result option \<Rightarrow> background \<Rightarrow> background \<times> bg_outcome" where
  "save_resume result b =
     (case result of
        None \<Rightarrow> (b, Throws)
      | Some r \<Rightarrow>
          if locked (bg_session b) then (b, Reply P_locked)
          else (case r of
                  Save_ok itemId \<Rightarrow> (b, Reply (P_saved itemId))
                | Save_locked \<Rightarrow> (b, Reply P_locked)
                | _ \<Rightarrow> (b, Reply (P_save_failed r))))"

definition tab_resume ::
  "epoch_ms \<Rightarrow> string \<Rightarrow> string \<Rightarrow> pending_offer \<Rightarrow> int \<Rightarrow> (int \<times> string) option option \<Rightarrow> background \<Rightarrow>
   background \<times> bg_outcome" where
  "tab_resume now requestId itemId offer generationBefore result b =
     (case result of
        None \<Rightarrow> (b, Throws)
      | Some tab \<Rightarrow>
          if locked (bg_session b) \<or> generation (bg_session b) \<noteq> generationBefore
          then (b, Reply (P_refused R_stale_capability))
          else if tab \<noteq> Some (of_tabId offer, of_origin offer) then
            (b\<lparr>bg_caps := fst (consume (bg_caps b) (JStr requestId)
                \<lparr>cb_generation = -1, cb_tabId = -1, cb_documentId = [], cb_origin = [], cb_formActionOrigin = []\<rparr> now)\<rparr>,
             Reply (P_refused R_stale_capability))
          else
            (let binding = offer_binding (bg_session b) offer;
                 (caps, failure) = consume (bg_caps b) (JStr requestId) binding now
             in case failure of
                  Some _ \<Rightarrow> (b\<lparr>bg_caps := caps\<rparr>, Reply (P_refused R_stale_capability))
                | None \<Rightarrow>
                    (b\<lparr>bg_caps := caps, bg_log := Consumed requestId binding now # bg_log b\<rparr>,
                     Await (T_fields requestId itemId offer generationBefore))))"

definition fields_resume ::
  "string \<Rightarrow> string \<Rightarrow> pending_offer \<Rightarrow> int \<Rightarrow> fill_fields option option \<Rightarrow> background \<Rightarrow>
   background \<times> bg_outcome" where
  "fields_resume requestId itemId offer generationBefore result b =
     (case result of
        None \<Rightarrow> (b, Throws)
      | Some found \<Rightarrow>
          if generation (bg_session b) \<noteq> generationBefore then (b, Reply (P_refused R_stale_capability))
          else (case found of
                  None \<Rightarrow> (b, Reply (P_refused R_no_exact_origin_match))
                | Some f \<Rightarrow>
                    (b\<lparr>bg_log := Sent requestId itemId offer f (generation (bg_session b)) # bg_log b\<rparr>,
                     Await (T_send offer (generation (bg_session b))))))"

definition send_resume ::
  "bg_config \<Rightarrow> int \<Rightarrow> bool \<Rightarrow> background \<Rightarrow> background \<times> bg_outcome" where
  "send_resume cfg generationAtRelease delivered b =
     (let b1 = b\<lparr>bg_offer := None\<rparr>
      in if generation (bg_session b1) \<noteq> generationAtRelease
         then (bg_lock cfg b1, Reply (P_refused R_stale_capability))
         else if delivered then (b1, Reply P_locked)
         else (b1, Reply (P_refused R_document_targeting_unsupported)))"

text \<open>\<open>None\<close>: the answer is not one this await can get.\<close>

definition resume ::
  "bg_config \<Rightarrow> epoch_ms \<Rightarrow> bytes \<Rightarrow> bg_answer \<Rightarrow> bg_task \<Rightarrow> background \<Rightarrow> (background \<times> bg_outcome) option" where
  "resume cfg now rnd ans task b =
     (case task of
        T_getState \<Rightarrow> (case ans of A_account acct \<Rightarrow> Some (getState_resume cfg acct b) | _ \<Rightarrow> None)
      | T_unlock acct org \<Rightarrow> (case ans of A_unlock r \<Rightarrow> Some (unlock_resume now acct org r b) | _ \<Rightarrow> None)
      | T_store \<Rightarrow> (case ans of A_settled \<Rightarrow> Some (b, Reply P_unlocked) | _ \<Rightarrow> None)
      | T_logout \<Rightarrow> (case ans of A_settled \<Rightarrow> Some (bg_logout_end b) | _ \<Rightarrow> None)
      | T_candidates offer \<Rightarrow>
          (case ans of A_fresh f _ \<Rightarrow> Some (candidates_resume now rnd offer f b) | _ \<Rightarrow> None)
      | T_listItems \<Rightarrow> (case ans of A_fresh f items \<Rightarrow> Some (listItems_resume f items b) | _ \<Rightarrow> None)
      | T_totp \<Rightarrow> (case ans of A_totp r \<Rightarrow> Some (totp_resume r b) | _ \<Rightarrow> None)
      | T_save \<Rightarrow> (case ans of A_save r \<Rightarrow> Some (save_resume r b) | _ \<Rightarrow> None)
      | T_tab rid item offer g \<Rightarrow>
          (case ans of A_tab r \<Rightarrow> Some (tab_resume now rid item offer g r b) | _ \<Rightarrow> None)
      | T_fields rid item offer g \<Rightarrow>
          (case ans of A_fields r \<Rightarrow> Some (fields_resume rid item offer g r b) | _ \<Rightarrow> None)
      | T_send offer g \<Rightarrow> (case ans of A_delivered d \<Rightarrow> Some (send_resume cfg g d b) | _ \<Rightarrow> None))"


section \<open>Interleavings\<close>

definition add_task :: "bg_outcome \<Rightarrow> bg_task list \<Rightarrow> bg_task list" where
  "add_task out ts = (case out of Await t \<Rightarrow> t # ts | _ \<Rightarrow> ts)"

text \<open>
  A step of the extension: a message arrives, a pending task goes on, the popup's port closes,
  or the vault reports an authentication failure (\<open>onAuthFailure\<close>).
\<close>

inductive bg_step :: "bg_config \<Rightarrow> background \<times> bg_task list \<Rightarrow> background \<times> bg_task list \<Rightarrow> bool"
  for cfg where
  content: "handleContentMessage cfg now cands msg sender b = (b', r) \<Longrightarrow> bg_step cfg (b, ts) (b', ts)"
| popup: "handlePopupMessage cfg now rnd items msg sender b = (b', out) \<Longrightarrow>
    bg_step cfg (b, ts) (b', add_task out ts)"
| resume: "t \<in> set ts \<Longrightarrow> resume cfg now rnd ans t b = Some (b', out) \<Longrightarrow>
    bg_step cfg (b, ts) (b', add_task out (remove1 t ts))"
| popup_closed: "bg_step cfg (b, ts) (lockFromPopupClose cfg b, ts)"
| auth_failure: "bg_step cfg (b, ts) (bg_lock cfg b, ts)"

inductive_cases bg_stepE: "bg_step cfg x y"

definition bg_reachable :: "bg_config \<Rightarrow> background \<Rightarrow> bg_task list \<Rightarrow> bool" where
  "bg_reachable cfg b ts \<longleftrightarrow> (bg_step cfg)\<^sup>*\<^sup>* (background_new, []) (b, ts)"

end
