(* ===== verification/Fill_Protocol.thy ===== *)
theory Fill_Protocol
  imports Session_Capability "HOL-Library.Multiset"
begin

text \<open>
  What the fill path promises, as an abstract protocol (ADR-0011, "Exact-origin authorization
  and cancellation"): capabilities are granted for a binding, consumed within 30 seconds in the
  generation they were granted in, and a consumed capability allows one release of fields, in
  that same generation.  Everything else may only take authority away.  The background policy
  refines it (theory \<open>Background_Safety\<close>).
\<close>

datatype fill_event =
    F_grant string capability_binding epoch_ms
  | F_consume string capability_binding epoch_ms
  | F_send string capability_binding

record fill_state =
  fs_session :: session_state
  fs_caps :: "string \<rightharpoonup> capability_entry"
  fs_flight :: "(string \<times> capability_binding) multiset"
  fs_log :: "fill_event list"

inductive fill_step :: "fill_state \<Rightarrow> fill_state \<Rightarrow> bool" where
  quiet: "session_step\<^sup>*\<^sup>* s s' \<Longrightarrow> caps' \<subseteq>\<^sub>m caps \<Longrightarrow> fl' \<subseteq># fl \<Longrightarrow>
    fill_step \<lparr>fs_session = s, fs_caps = caps, fs_flight = fl, fs_log = l\<rparr>
      \<lparr>fs_session = s', fs_caps = caps', fs_flight = fl', fs_log = l\<rparr>"
| grant: "active s \<Longrightarrow> cb_generation bind = generation s \<Longrightarrow>
    fill_step \<lparr>fs_session = s, fs_caps = caps, fs_flight = fl, fs_log = l\<rparr>
      \<lparr>fs_session = s, fs_caps = caps(rid \<mapsto> \<lparr>ce_binding = bind, ce_grantedAt = now\<rparr>), fs_flight = fl,
       fs_log = F_grant rid bind now # l\<rparr>"
| consume: "active s \<Longrightarrow> cb_generation bind = generation s \<Longrightarrow>
    caps rid = Some \<lparr>ce_binding = bind, ce_grantedAt = t0\<rparr> \<Longrightarrow> now - t0 \<le> 30000 \<Longrightarrow>
    fill_step \<lparr>fs_session = s, fs_caps = caps, fs_flight = fl, fs_log = l\<rparr>
      \<lparr>fs_session = s, fs_caps = caps(rid := None), fs_flight = add_mset (rid, bind) fl,
       fs_log = F_consume rid bind now # l\<rparr>"
| send: "(rid, bind) \<in># fl \<Longrightarrow> cb_generation bind = generation s \<Longrightarrow>
    fill_step \<lparr>fs_session = s, fs_caps = caps, fs_flight = fl, fs_log = l\<rparr>
      \<lparr>fs_session = s, fs_caps = caps, fs_flight = fl - {#(rid, bind)#}, fs_log = F_send rid bind # l\<rparr>"

inductive_cases fill_stepE: "fill_step x y"

definition fill_init :: fill_state where
  "fill_init = \<lparr>fs_session = session_new, fs_caps = Map.empty, fs_flight = {#}, fs_log = []\<rparr>"


section \<open>Invariant\<close>

definition authorised :: "fill_event list \<Rightarrow> string \<Rightarrow> capability_binding \<Rightarrow> bool" where
  "authorised l rid bind \<longleftrightarrow>
     (\<exists>t0 t. F_grant rid bind t0 \<in> set l \<and> F_consume rid bind t \<in> set l \<and> t - t0 \<le> 30000)"

fun is_grant :: "string \<Rightarrow> fill_event \<Rightarrow> bool" where
  "is_grant rid (F_grant r _ _) \<longleftrightarrow> r = rid"
| "is_grant rid _ \<longleftrightarrow> False"

fun is_send :: "string \<Rightarrow> fill_event \<Rightarrow> bool" where
  "is_send rid (F_send r _) \<longleftrightarrow> r = rid"
| "is_send rid _ \<longleftrightarrow> False"

definition uses_of :: "string \<Rightarrow> fill_state \<Rightarrow> nat" where
  "uses_of rid S =
     length (filter (is_send rid) (fs_log S)) + size (filter_mset (\<lambda>p. fst p = rid) (fs_flight S)) +
     (if fs_caps S rid = None then 0 else 1)"

definition fill_inv :: "fill_state \<Rightarrow> bool" where
  "fill_inv S \<longleftrightarrow>
     session_wf (fs_session S) \<and>
     (\<forall>rid e. fs_caps S rid = Some e \<longrightarrow> F_grant rid (ce_binding e) (ce_grantedAt e) \<in> set (fs_log S)) \<and>
     (\<forall>rid bind. (rid, bind) \<in># fs_flight S \<longrightarrow>
        authorised (fs_log S) rid bind \<and> cb_generation bind \<le> generation (fs_session S) \<and>
        (cb_generation bind = generation (fs_session S) \<longrightarrow> active (fs_session S))) \<and>
     (\<forall>rid bind. F_send rid bind \<in> set (fs_log S) \<longrightarrow> authorised (fs_log S) rid bind) \<and>
     (\<forall>rid. uses_of rid S \<le> length (filter (is_grant rid) (fs_log S)))"

lemma map_le_some: "m \<subseteq>\<^sub>m n \<Longrightarrow> m k = Some v \<Longrightarrow> n k = Some v"
  by (force simp: map_le_def)

lemma authorised_Cons: "authorised l rid bind \<Longrightarrow> authorised (e # l) rid bind"
  by (auto simp: authorised_def)

lemma session_steps_keep:
  assumes "session_step\<^sup>*\<^sup>* s s'" "session_wf s"
  shows "session_wf s' \<and> generation s \<le> generation s' \<and> (active s \<and> generation s' = generation s \<longrightarrow> active s')"
  using assms(1)
proof (induction rule: rtranclp_induct)
  case base
  with assms(2) show ?case by simp
next
  case (step y z)
  with session_step_keeps [OF step(2)] show ?case by fastforce
qed

lemma quiet_uses:
  assumes "caps' \<subseteq>\<^sub>m caps" "fl' \<subseteq># fl"
  shows "uses_of rid \<lparr>fs_session = s', fs_caps = caps', fs_flight = fl', fs_log = l\<rparr> \<le>
    uses_of rid \<lparr>fs_session = s, fs_caps = caps, fs_flight = fl, fs_log = l\<rparr>"
proof -
  have "size (filter_mset (\<lambda>p. fst p = rid) fl') \<le> size (filter_mset (\<lambda>p. fst p = rid) fl)"
    by (intro size_mset_mono multiset_filter_mono assms(2))
  moreover have "caps rid = None \<Longrightarrow> caps' rid = None"
    using map_le_some [OF assms(1)] by (cases "caps' rid") auto
  ultimately show ?thesis by (auto simp: uses_of_def)
qed

lemma fill_invI:
  assumes "session_wf (fs_session S)"
    and "\<And>rid e. fs_caps S rid = Some e \<Longrightarrow> F_grant rid (ce_binding e) (ce_grantedAt e) \<in> set (fs_log S)"
    and "\<And>rid bind. (rid, bind) \<in># fs_flight S \<Longrightarrow>
        authorised (fs_log S) rid bind \<and> cb_generation bind \<le> generation (fs_session S) \<and>
        (cb_generation bind = generation (fs_session S) \<longrightarrow> active (fs_session S))"
    and "\<And>rid bind. F_send rid bind \<in> set (fs_log S) \<Longrightarrow> authorised (fs_log S) rid bind"
    and "\<And>rid. uses_of rid S \<le> length (filter (is_grant rid) (fs_log S))"
  shows "fill_inv S"
  using assms unfolding fill_inv_def by blast

lemma fill_invD:
  assumes "fill_inv S"
  shows "session_wf (fs_session S)"
    and "fs_caps S rid = Some e \<Longrightarrow> F_grant rid (ce_binding e) (ce_grantedAt e) \<in> set (fs_log S)"
    and "(rid, bind) \<in># fs_flight S \<Longrightarrow>
        authorised (fs_log S) rid bind \<and> cb_generation bind \<le> generation (fs_session S) \<and>
        (cb_generation bind = generation (fs_session S) \<longrightarrow> active (fs_session S))"
    and "F_send rid bind \<in> set (fs_log S) \<Longrightarrow> authorised (fs_log S) rid bind"
    and "uses_of rid S \<le> length (filter (is_grant rid) (fs_log S))"
  using assms unfolding fill_inv_def by blast+

lemma quiet_inv:
  assumes "session_step\<^sup>*\<^sup>* s s'" "caps' \<subseteq>\<^sub>m caps" "fl' \<subseteq># fl"
    and "fill_inv \<lparr>fs_session = s, fs_caps = caps, fs_flight = fl, fs_log = l\<rparr>"
  shows "fill_inv \<lparr>fs_session = s', fs_caps = caps', fs_flight = fl', fs_log = l\<rparr>"
proof -
  note inv = fill_invD [OF assms(4), simplified]
  note keep = session_steps_keep [OF assms(1) inv(1)]
  show ?thesis
  proof (rule fill_invI, goal_cases)
    case 3
    then show ?case using inv(3) keep mset_subset_eqD [OF assms(3)] by fastforce
  next
    case (5 rid)
    from order_trans [OF quiet_uses [OF assms(2,3)] inv(5)] show ?case by simp
  qed (use keep inv(2,4) map_le_some [OF assms(2)] in auto)
qed

lemma fill_step_inv:
  assumes "fill_step S S'" "fill_inv S"
  shows "fill_inv S'"
  using assms
proof (induction rule: fill_step.induct)
  case (quiet s s' caps' caps fl' fl l)
  then show ?case by (rule quiet_inv)
next
  case (grant s bind caps fl l rid now)
  note inv = fill_invD [OF grant.prems, simplified]
  show ?case
  proof (rule fill_invI, goal_cases)
    case (5 r)
    from inv(5) [of r] show ?case by (auto simp: uses_of_def split: if_splits)
  qed (use inv in \<open>auto simp: authorised_Cons split: if_splits\<close>)
next
  case (consume s bind caps rid t0 now fl l)
  note inv = fill_invD [OF consume.prems, simplified]
  have "F_grant rid bind t0 \<in> set l" using inv(2) [OF consume.hyps(3)] by simp
  with consume.hyps(4) have "authorised (F_consume rid bind now # l) rid bind"
    unfolding authorised_def by auto
  then show ?case
  proof (intro fill_invI, goal_cases)
    case (5 r)
    from inv(5) [of r] consume.hyps(3) show ?case by (auto simp: uses_of_def split: if_splits)
  qed (use inv consume.hyps in \<open>auto simp: authorised_Cons split: if_splits\<close>)
next
  case (send rid bind fl s caps l)
  note inv = fill_invD [OF send.prems, simplified]
  obtain fl' where fl': "fl = add_mset (rid, bind) fl'" using send.hyps(1) by (meson mset_add)
  show ?case
  proof (rule fill_invI, goal_cases)
    case (5 r)
    from inv(5) [of r] show ?case by (auto simp: uses_of_def fl' split: if_splits)
  qed (use inv fl' in \<open>auto simp: authorised_Cons split: if_splits\<close>)
qed

lemma fill_init_inv: "fill_inv fill_init"
  by (simp add: fill_inv_def fill_init_def uses_of_def session_wf_def session_new_def)

end
