(* ===== verification/Background_Safety.thy ===== *)
theory Background_Safety
  imports Background Fill_Protocol
begin

text \<open>
  The background policy refines the fill protocol: every interleaving of messages, continuations
  and locks is a run of \<open>fill_step\<close> under the abstraction \<open>abs_bg\<close>.  With the concrete invariant on
  offers, the properties of the protocol become properties of \<open>background.ts\<close>: which fields
  leave the extension, for which document, and how often.
\<close>


section \<open>The abstraction\<close>

definition bind_of :: "int \<Rightarrow> pending_offer \<Rightarrow> capability_binding" where
  "bind_of g offer =
     \<lparr>cb_generation = g, cb_tabId = of_tabId offer, cb_documentId = of_documentId offer,
      cb_origin = of_origin offer, cb_formActionOrigin = of_formActionOrigin offer\<rparr>"

lemma offer_binding_eq: "offer_binding s offer = bind_of (generation s) offer"
  by (simp add: offer_binding_def bind_of_def)

fun abs_event :: "bg_effect \<Rightarrow> fill_event option" where
  "abs_event (Granted rid bind t) = Some (F_grant rid bind t)"
| "abs_event (Consumed rid bind t) = Some (F_consume rid bind t)"
| "abs_event (Sent rid item offer f g) = Some (F_send rid (bind_of g offer))"
| "abs_event _ = None"

fun flight_of :: "bg_task \<Rightarrow> (string \<times> capability_binding) option" where
  "flight_of (T_fields rid item offer g) = Some (rid, bind_of g offer)"
| "flight_of _ = None"

definition flight :: "bg_task list \<Rightarrow> (string \<times> capability_binding) multiset" where
  "flight ts = image_mset (the \<circ> flight_of) (filter_mset (\<lambda>t. flight_of t \<noteq> None) (mset ts))"

definition abs_bg :: "background \<times> bg_task list \<Rightarrow> fill_state" where
  "abs_bg x =
     \<lparr>fs_session = bg_session (fst x), fs_caps = map_of (bg_caps (fst x)), fs_flight = flight (snd x),
      fs_log = List.map_filter abs_event (bg_log (fst x))\<rparr>"

lemma flight_Nil [simp]: "flight [] = {#}"
  by (simp add: flight_def)

lemma flight_Cons: "flight (t # ts) = (case flight_of t of None \<Rightarrow> flight ts | Some p \<Rightarrow> add_mset p (flight ts))"
  by (simp add: flight_def split: option.splits)

lemma flight_remove1:
  assumes "t \<in> set ts"
  shows "flight ts = (case flight_of t of None \<Rightarrow> flight (remove1 t ts) | Some p \<Rightarrow> add_mset p (flight (remove1 t ts)))"
proof -
  obtain M where M: "mset ts = add_mset t M" using assms multi_member_split [of t "mset ts"] by auto
  then have "mset (remove1 t ts) = M" by simp
  then show ?thesis unfolding flight_def M by (simp del: mset_remove1 split: option.splits)
qed

text \<open>A part of a handler is quiet when it grants, consumes and releases nothing.\<close>

definition quiet_part :: "background \<Rightarrow> background \<times> bg_outcome \<Rightarrow> bool" where
  "quiet_part b r \<longleftrightarrow>
     session_step\<^sup>*\<^sup>* (bg_session b) (bg_session (fst r)) \<and>
     map_of (bg_caps (fst r)) \<subseteq>\<^sub>m map_of (bg_caps b) \<and>
     List.map_filter abs_event (bg_log (fst r)) = List.map_filter abs_event (bg_log b) \<and>
     (\<forall>t. snd r = Await t \<longrightarrow> flight_of t = None)"

lemma flight_add_task:
  "(\<And>t. out = Await t \<Longrightarrow> flight_of t = None) \<Longrightarrow> flight (add_task out ts) = flight ts"
  by (cases out) (simp_all add: add_task_def flight_Cons)

lemma quiet_part_step:
  assumes "quiet_part b (b', out)"
  shows "fill_step (abs_bg (b, ts)) (abs_bg (b', add_task out ts))"
  using assms unfolding abs_bg_def quiet_part_def
  by (auto simp: flight_add_task intro!: fill_step.quiet)

lemma quiet_drop_step:
  assumes "t \<in> set ts" "quiet_part b (b', out)"
  shows "fill_step (abs_bg (b, ts)) (abs_bg (b', add_task out (remove1 t ts)))"
proof -
  have "flight (remove1 t ts) \<subseteq># flight ts"
    using flight_remove1 [OF assms(1)] by (simp split: option.splits)
  with assms(2) show ?thesis unfolding abs_bg_def quiet_part_def
    by (auto simp: flight_add_task intro!: fill_step.quiet)
qed

lemma delete_map_le [simp]: "map_of (AList.delete k m) \<subseteq>\<^sub>m map_of m"
  by (simp add: map_le_def)

lemma steps_lock [simp, intro]: "session_step\<^sup>*\<^sup>* s (session_lock r s)"
  by (rule r_into_rtranclp [of session_step, OF session_step.lock])

lemma steps_ensure [simp, intro]: "session_step\<^sup>*\<^sup>* s (ensureActive now s)"
  by (rule r_into_rtranclp [of session_step, OF session_step.ensure])

lemma steps_unlock [simp, intro]: "session_step\<^sup>*\<^sup>* s (markUnlocked now s)"
  by (rule r_into_rtranclp [of session_step, OF session_step.unlock])

lemma steps_activity [simp, intro]: "session_step\<^sup>*\<^sup>* s (noteTrustedPopupActivity now s)"
  by (rule r_into_rtranclp [of session_step, OF session_step.activity])


section \<open>The quiet parts\<close>

lemma quiet_same [simp]: "quiet_part b (b, Reply r)" "quiet_part b (b, Throws)"
  by (simp_all add: quiet_part_def)

lemma quiet_await [simp]: "flight_of t = None \<Longrightarrow> quiet_part b (b, Await t)"
  by (simp add: quiet_part_def)

lemma quiet_lock [simp]: "quiet_part b (lock_with cfg r b, Reply x)"
  by (simp add: quiet_part_def lock_with_def invalidateAll_def)

lemma quiet_logout_end [simp]: "quiet_part b (bg_logout_end b)"
  by (simp add: quiet_part_def bg_logout_end_def invalidateAll_def)

lemma quiet_popup_parts:
  "quiet_part b (getState cfg b)" "quiet_part b (bg_unlock cfg a u p b)" "quiet_part b (bg_logout cfg b)"
  "quiet_part b (bg_listItems cfg items b)" "quiet_part b (bg_getTotp cfg b)" "quiet_part b (bg_saveItem cfg m b)"
  "quiet_part b (fillSelected cfg rid item b)"
  by (auto simp: getState_def state_reply_def bg_unlock_def bg_logout_def bg_listItems_def listItems_end_def
      bg_getTotp_def bg_saveItem_def fillSelected_def Let_def bg_lock_def split: option.splits)
     (auto simp: quiet_part_def lock_with_def invalidateAll_def)

lemma quiet_resume_parts:
  "quiet_part b (getState_resume cfg acct b)" "quiet_part b (unlock_resume now a u r b)"
  "quiet_part b (listItems_resume f items b)" "quiet_part b (totp_resume tr b)" "quiet_part b (save_resume sr b)"
  "quiet_part b (send_resume cfg g d b)"
  by (auto simp: getState_resume_def state_reply_def unlock_resume_def listItems_resume_def listItems_end_def
      totp_resume_def save_resume_def send_resume_def Let_def bg_lock_def quiet_part_def lock_with_def
      invalidateAll_def split: option.splits bool.splits save_result.splits)

lemma quiet_content:
  "handleContentMessage cfg now cands msg sender b = (b', r) \<Longrightarrow> quiet_part b (b', Throws)"
  by (auto simp: handleContentMessage_def bg_ensureActive_def quiet_part_def Let_def
      split: option.splits content_message.splits if_splits fill_decision.splits)



section \<open>The parts that grant, consume and release\<close>

lemma grant_sim:
  assumes "\<not> locked (bg_session b)"
  shows "fill_step (abs_bg (b, ts)) (abs_bg (fst (grantCandidates now rnd offer b), ts))"
  using fill_step.grant [of "bg_session b" "offer_binding (bg_session b) offer" "map_of (bg_caps b)" "flight ts"
      "List.map_filter abs_event (bg_log b)" "concat (map byte_hex rnd)" now] assms
  by (simp add: abs_bg_def grantCandidates_def grant_def Let_def locked_def offer_binding_def)

lemma grant_task: "add_task (snd (grantCandidates now rnd offer b)) ts = ts"
  by (simp add: grantCandidates_def grant_def Let_def add_task_def)

lemma requestCandidates_sim:
  assumes "requestCandidates cfg now rnd b = (b', out)"
  shows "fill_step (abs_bg (b, ts)) (abs_bg (b', add_task out ts))"
proof (cases "\<exists>offer. grantCandidates now rnd offer b = (b', out) \<and> \<not> locked (bg_session b)")
  case True
  then obtain offer where g: "grantCandidates now rnd offer b = (b', out)" "\<not> locked (bg_session b)" by blast
  from grant_sim [OF g(2), of ts now rnd offer] grant_task [of now rnd offer b ts] show ?thesis
    unfolding g(1) by simp
next
  case False
  then have "quiet_part b (b', out)"
    using assms by (auto simp: requestCandidates_def split: if_splits option.splits)
  then show ?thesis by (rule quiet_part_step)
qed

lemma candidates_resume_sim:
  assumes "t \<in> set ts" "flight_of t = None" "candidates_resume now rnd offer fresh b = (b', out)"
  shows "fill_step (abs_bg (b, ts)) (abs_bg (b', add_task out (remove1 t ts)))"
proof (cases "grantCandidates now rnd offer b = (b', out) \<and> \<not> locked (bg_session b)")
  case True
  have "flight (remove1 t ts) = flight ts" using flight_remove1 [OF assms(1)] assms(2) by simp
  then have "abs_bg (b, remove1 t ts) = abs_bg (b, ts)" by (simp add: abs_bg_def)
  with grant_sim [of b "remove1 t ts" now rnd offer] grant_task [of now rnd offer b "remove1 t ts"] True
  show ?thesis by (metis fst_conv snd_conv)
next
  case False
  then have "quiet_part b (b', out)"
    using assms(3) by (auto simp: candidates_resume_def split: if_splits option.splits)
  then show ?thesis by (rule quiet_drop_step [OF assms(1)])
qed

lemma tab_resume_sim:
  assumes "t \<in> set ts" "flight_of t = None" "tab_resume now rid item offer g r b = (b', out)"
  shows "fill_step (abs_bg (b, ts)) (abs_bg (b', add_task out (remove1 t ts)))"
proof (cases "\<exists>caps. consume (bg_caps b) (JStr rid) (offer_binding (bg_session b) offer) now = (caps, None) \<and>
    \<not> locked (bg_session b) \<and> generation (bg_session b) = g \<and>
    b' = b\<lparr>bg_caps := caps, bg_log := Consumed rid (offer_binding (bg_session b) offer) now # bg_log b\<rparr> \<and>
    out = Await (T_fields rid item offer g)")
  case True
  then obtain caps where c: "consume (bg_caps b) (JStr rid) (offer_binding (bg_session b) offer) now = (caps, None)"
    and s: "\<not> locked (bg_session b)" "generation (bg_session b) = g"
    and b': "b' = b\<lparr>bg_caps := caps, bg_log := Consumed rid (offer_binding (bg_session b) offer) now # bg_log b\<rparr>"
    and out: "out = Await (T_fields rid item offer g)" by blast
  from consume_ok [OF c] obtain entry where e: "map_of (bg_caps b) rid = Some entry"
    "ce_binding entry = offer_binding (bg_session b) offer" "now - ce_grantedAt entry \<le> 30000"
    "caps = AList.delete rid (bg_caps b)" by auto
  have "flight (remove1 t ts) = flight ts" using flight_remove1 [OF assms(1)] assms(2) by simp
  then show ?thesis
    using fill_step.consume [of "bg_session b" "offer_binding (bg_session b) offer" "map_of (bg_caps b)" rid
        "ce_grantedAt entry" now "flight ts" "List.map_filter abs_event (bg_log b)"] e s
    by (simp add: abs_bg_def b' out add_task_def flight_Cons offer_binding_eq locked_def bind_of_def
        flip: e(2))
next
  case False
  have c: "map_of (fst (consume (bg_caps b) (JStr rid) bind now)) \<subseteq>\<^sub>m map_of (bg_caps b)" for bind
    by (auto simp: consume_def Let_def split: option.splits)
  have "quiet_part b (b', out)"
    using assms(3) False c
    by (auto simp: tab_resume_def Let_def quiet_part_def split: if_splits option.splits prod.splits)
       (metis fst_conv)+
  then show ?thesis by (rule quiet_drop_step [OF assms(1)])
qed

lemma fields_resume_sim:
  assumes "T_fields rid item offer g \<in> set ts" "fields_resume rid item offer g r b = (b', out)"
  shows "fill_step (abs_bg (b, ts)) (abs_bg (b', add_task out (remove1 (T_fields rid item offer g) ts)))"
proof (cases "\<exists>f. generation (bg_session b) = g \<and>
    b' = b\<lparr>bg_log := Sent rid item offer f g # bg_log b\<rparr> \<and> out = Await (T_send offer g)")
  case True
  then obtain f where f: "generation (bg_session b) = g"
    "b' = b\<lparr>bg_log := Sent rid item offer f g # bg_log b\<rparr>" "out = Await (T_send offer g)" by blast
  have fl: "flight ts = add_mset (rid, bind_of g offer) (flight (remove1 (T_fields rid item offer g) ts))"
    using flight_remove1 [OF assms(1)] by simp
  then show ?thesis
    using fill_step.send [of rid "bind_of g offer" "flight ts" "bg_session b" "map_of (bg_caps b)"
        "List.map_filter abs_event (bg_log b)"] f
    by (simp add: abs_bg_def add_task_def flight_Cons) (simp add: bind_of_def)
next
  case False
  then have "quiet_part b (b', out)"
    using assms(2) by (auto simp: fields_resume_def split: if_splits option.splits)
  then show ?thesis by (rule quiet_drop_step [OF assms(1)])
qed


section \<open>Refinement\<close>

lemma dispatch_sim:
  assumes "popup_dispatch cfg now rnd items p b = (b', out)"
  shows "fill_step (abs_bg (b, ts)) (abs_bg (b', add_task out ts))"
proof (cases "p = Request_candidates")
  case True
  with assms show ?thesis by (simp add: popup_dispatch_def requestCandidates_sim)
next
  case False
  then have "quiet_part b (popup_dispatch cfg now rnd items p b)"
    by (cases p) (simp_all add: popup_dispatch_def bg_lock_def quiet_popup_parts)
  with assms show ?thesis by (simp add: quiet_part_step)
qed

lemma entry_sessions:
  "session_step\<^sup>*\<^sup>* (bg_session b) (bg_session (bg_ensureActive now b))"
  "session_step\<^sup>*\<^sup>* (bg_session b) (bg_session (popup_entry now b))"
  by (auto simp: bg_ensureActive_def popup_entry_def Let_def intro: rtranclp_trans)

lemma popup_sim:
  assumes "handlePopupMessage cfg now rnd items msg sender b = (b', out)"
  shows "fill_step\<^sup>*\<^sup>* (abs_bg (b, ts)) (abs_bg (b', add_task out ts))"
  using assms
proof (cases rule: handlePopupMessage_cases)
  case refused
  then have "quiet_part b (b', out)"
    using entry_sessions(1) by (simp add: quiet_part_def) (simp add: bg_ensureActive_def)
  from quiet_part_step [OF this] show ?thesis by blast
next
  case (dispatched p)
  have "quiet_part b (popup_entry now b, Throws)"
    using entry_sessions(2) by (simp add: quiet_part_def) (simp add: popup_entry_def bg_ensureActive_def)
  from quiet_part_step [OF this, of ts] have "fill_step (abs_bg (b, ts)) (abs_bg (popup_entry now b, ts))"
    by (simp add: add_task_def)
  moreover have "fill_step (abs_bg (popup_entry now b, ts)) (abs_bg (b', add_task out ts))"
    by (rule dispatch_sim [OF dispatched(2)])
  ultimately show ?thesis by (meson rtranclp.rtrancl_into_rtrancl r_into_rtranclp)
qed

fun fill_task :: "bg_task \<Rightarrow> bool" where
  "fill_task (T_candidates _) \<longleftrightarrow> True"
| "fill_task (T_tab _ _ _ _) \<longleftrightarrow> True"
| "fill_task (T_fields _ _ _ _) \<longleftrightarrow> True"
| "fill_task _ \<longleftrightarrow> False"

lemma quiet_resume: "resume cfg now rnd ans t b = Some r \<Longrightarrow> \<not> fill_task t \<Longrightarrow> quiet_part b r"
  by (cases t; cases ans) (auto simp: resume_def quiet_resume_parts)

lemma resume_sim:
  assumes "t \<in> set ts" "resume cfg now rnd ans t b = Some (b', out)"
  shows "fill_step (abs_bg (b, ts)) (abs_bg (b', add_task out (remove1 t ts)))"
proof (cases "fill_task t")
  case False
  from quiet_drop_step [OF assms(1) quiet_resume [OF assms(2) this]] show ?thesis .
next
  case True
  then consider (cand) offer where "t = T_candidates offer" | (tab) rid item offer g where "t = T_tab rid item offer g"
    | (found) rid item offer g where "t = T_fields rid item offer g"
    by (cases t) auto
  then show ?thesis
  proof cases
    case cand
    with assms candidates_resume_sim [OF assms(1)] show ?thesis
      by (auto simp: resume_def split: bg_answer.splits)
  next
    case tab
    with assms tab_resume_sim [OF assms(1)] show ?thesis
      by (auto simp: resume_def split: bg_answer.splits)
  next
    case found
    with assms fields_resume_sim [of rid item offer g ts] show ?thesis
      by (auto simp: resume_def split: bg_answer.splits)
  qed
qed

lemma bg_step_sim:
  assumes "bg_step cfg x y"
  shows "fill_step\<^sup>*\<^sup>* (abs_bg x) (abs_bg y)"
  using assms
proof (induction rule: bg_step.induct)
  case (content now cands msg sender b b' r ts)
  from quiet_part_step [OF quiet_content [OF content], of ts] show ?case by (auto simp: add_task_def)
next
  case (popup now rnd items msg sender b b' out ts)
  then show ?case by (rule popup_sim)
next
  case (resume t ts now rnd ans b b' out)
  then show ?case by (blast intro: resume_sim)
next
  case (popup_closed b ts)
  from quiet_part_step [OF quiet_lock [of b cfg L_popup_closed P_locked], of ts] show ?case
    by (auto simp: add_task_def lockFromPopupClose_def)
next
  case (auth_failure b ts)
  from quiet_part_step [OF quiet_lock [of b cfg L_explicit P_locked], of ts] show ?case
    by (auto simp: add_task_def bg_lock_def)
qed

lemma abs_new: "abs_bg (background_new, []) = fill_init"
  by (simp add: abs_bg_def background_new_def fill_init_def List.map_filter_def)

lemma background_sim: "bg_reachable cfg b ts \<Longrightarrow> fill_step\<^sup>*\<^sup>* fill_init (abs_bg (b, ts))"
  unfolding bg_reachable_def abs_new [symmetric]
proof (induction rule: rtranclp_induct2)
  case refl
  show ?case by simp
next
  case (step b ts b' ts')
  from bg_step_sim [OF step(2)] step(3) show ?case by (meson rtranclp_trans)
qed

text \<open>
  C7.  The background policy refines the fill protocol: every interleaving of content messages,
  popup messages, continuations after an await, popup closings and authentication failures maps
  to a run of the protocol.
\<close>

theorem background_refines_protocol:
  "bg_reachable cfg b ts \<Longrightarrow> fill_step\<^sup>*\<^sup>* fill_init (abs_bg (b, ts))"
  by (rule background_sim)

theorem background_refines_protocol_witness:
  "fill_step\<^sup>*\<^sup>* fill_init (abs_bg (bg_lock \<lparr>cfg_ownExtensionId = ''x'', cfg_popupUrl = ''p'', cfg_vault = None,
     cfg_url = sample_url\<rparr> background_new, []))"
proof -
  have "bg_reachable \<lparr>cfg_ownExtensionId = ''x'', cfg_popupUrl = ''p'', cfg_vault = None, cfg_url = sample_url\<rparr>
      (bg_lock \<lparr>cfg_ownExtensionId = ''x'', cfg_popupUrl = ''p'', cfg_vault = None, cfg_url = sample_url\<rparr> background_new) []"
    unfolding bg_reachable_def by (rule r_into_rtranclp [of "bg_step _", OF bg_step.auth_failure])
  then show ?thesis by (rule background_refines_protocol)
qed


section \<open>Offers\<close>

text \<open>
  An offer stands for one HTTPS page: its origin is the browser's origin of that page, and
  every candidate in it is recorded for exactly that scheme, host and port.
\<close>

definition offer_ok :: "bg_config \<Rightarrow> pending_offer \<Rightarrow> bool" where
  "offer_ok cfg offer \<longleftrightarrow>
     (\<exists>u page. parseOrigin (cfg_url cfg) u = Some page \<and> po_scheme page = ''https:'' \<and>
        map_option url_origin (cfg_url cfg u) = Some (of_origin offer) \<and>
        (\<forall>c \<in> set (of_candidates offer). parseOrigin (cfg_url cfg) (lc_origin c) = Some page))"

definition choice_ok :: "bg_config \<Rightarrow> string \<Rightarrow> pending_offer \<Rightarrow> bool" where
  "choice_ok cfg item offer \<longleftrightarrow> offer_ok cfg offer \<and> (\<exists>c \<in> set (of_candidates offer). lc_id c = item)"

fun task_ok :: "bg_config \<Rightarrow> bg_task \<Rightarrow> bool" where
  "task_ok cfg (T_candidates offer) \<longleftrightarrow> offer_ok cfg offer"
| "task_ok cfg (T_tab rid item offer g) \<longleftrightarrow> choice_ok cfg item offer"
| "task_ok cfg (T_fields rid item offer g) \<longleftrightarrow> choice_ok cfg item offer"
| "task_ok cfg _ \<longleftrightarrow> True"

fun effect_ok :: "bg_config \<Rightarrow> bg_effect \<Rightarrow> bool" where
  "effect_ok cfg (Sent rid item offer f g) \<longleftrightarrow> choice_ok cfg item offer"
| "effect_ok cfg _ \<longleftrightarrow> True"

definition bg_ok :: "bg_config \<Rightarrow> background \<Rightarrow> bool" where
  "bg_ok cfg b \<longleftrightarrow> pred_option (offer_ok cfg) (bg_offer b) \<and> list_all (effect_ok cfg) (bg_log b)"

definition part_ok :: "bg_config \<Rightarrow> background \<times> bg_outcome \<Rightarrow> bool" where
  "part_ok cfg r \<longleftrightarrow> bg_ok cfg (fst r) \<and> (\<forall>t. snd r = Await t \<longrightarrow> task_ok cfg t)"

lemmas part_defs =
  getState_def state_reply_def bg_unlock_def bg_logout_def bg_logout_end_def bg_listItems_def listItems_end_def
  bg_getTotp_def bg_saveItem_def fillSelected_def requestCandidates_def grantCandidates_def grant_def bg_lock_def
  lock_with_def

lemmas resume_defs =
  getState_resume_def unlock_resume_def candidates_resume_def listItems_resume_def totp_resume_def save_resume_def
  tab_resume_def fields_resume_def send_resume_def

lemma dispatch_ok: "bg_ok cfg b \<Longrightarrow> part_ok cfg (popup_dispatch cfg now rnd items p b)"
  by (cases p) (auto simp: popup_dispatch_def part_defs part_ok_def bg_ok_def choice_ok_def list_ex_iff Let_def
      split: option.splits)

lemma resume_parts_ok:
  assumes "bg_ok cfg b"
  shows "part_ok cfg (getState_resume cfg acct b)" "part_ok cfg (unlock_resume now a u r b)"
    "part_ok cfg (listItems_resume f items b)" "part_ok cfg (totp_resume tr b)" "part_ok cfg (save_resume sr b)"
    "part_ok cfg (send_resume cfg g d b)" "part_ok cfg (bg_logout_end b)"
    "part_ok cfg (candidates_resume now rnd offer f b)"
    "choice_ok cfg item offer \<Longrightarrow> part_ok cfg (tab_resume now rid item offer g ar b)"
    "choice_ok cfg item offer \<Longrightarrow> part_ok cfg (fields_resume rid item offer g fr b)"
  using assms
  by (auto simp: resume_defs part_defs part_ok_def bg_ok_def Let_def split_beta
      split: option.splits bool.splits save_result.splits if_splits)

lemma resume_ok:
  assumes "bg_ok cfg b" "task_ok cfg t" "resume cfg now rnd ans t b = Some r"
  shows "part_ok cfg r"
proof -
  have "part_ok cfg (b, Reply P_unlocked)" using assms(1) by (simp add: part_ok_def)
  with assms resume_parts_ok [OF assms(1)] show ?thesis
    by (cases t; cases ans) (auto simp: resume_def)
qed

lemma content_ok:
  assumes "bg_ok cfg b" "handleContentMessage cfg now cands msg sender b = (b', r)"
  shows "bg_ok cfg b'"
proof -
  have new: "offer_ok cfg \<lparr>of_ref = n, of_tabId = ts_tabId t, of_origin = ts_origin t, of_documentId = d,
      of_formActionOrigin = fa, of_candidates = cs\<rparr>"
    if "trustedContentSender (cfg_url cfg) sender own = Some t" "pageUrl req = ts_url t"
      "decideFill (cfg_url cfg) req cands = Allowed cs" for t own req cs n d fa
  proof -
    from trustedContentSender_facts [OF that(1)] obtain p where
      p: "parseOrigin (cfg_url cfg) (ts_url t) = Some p" "po_scheme p = ''https:''"
        "map_option url_origin (cfg_url cfg (ts_url t)) = Some (ts_origin t)" by blast
    moreover have "\<forall>c \<in> set cs. parseOrigin (cfg_url cfg) (lc_origin c) = Some p"
      using that(2,3) p(1) unfolding decideFill_iff by auto
    ultimately show ?thesis unfolding offer_ok_def by auto
  qed
  show ?thesis
    using assms new unfolding handleContentMessage_def Let_def
    by (auto simp: bg_ok_def bg_ensureActive_def
        split: option.splits content_message.splits if_splits fill_decision.splits)
qed

definition run_inv :: "bg_config \<Rightarrow> background \<times> bg_task list \<Rightarrow> bool" where
  "run_inv cfg x \<longleftrightarrow> bg_ok cfg (fst x) \<and> (\<forall>t \<in> set (snd x). task_ok cfg t)"

lemma part_run_inv:
  "part_ok cfg (b', out) \<Longrightarrow> (\<And>t. t \<in> set ts \<Longrightarrow> task_ok cfg t) \<Longrightarrow> run_inv cfg (b', add_task out ts)"
  by (auto simp: part_ok_def run_inv_def add_task_def split: bg_outcome.splits)

lemma bg_step_inv:
  assumes "bg_step cfg x y" "run_inv cfg x"
  shows "run_inv cfg y"
  using assms
proof (induction rule: bg_step.induct)
  case (content now cands msg sender b b' r ts)
  with content_ok [of cfg b] show ?case by (simp add: run_inv_def)
next
  case (popup now rnd items msg sender b b' out ts)
  then have b: "bg_ok cfg b" "\<And>t. t \<in> set ts \<Longrightarrow> task_ok cfg t" by (auto simp: run_inv_def)
  from popup.hyps have "part_ok cfg (b', out)"
  proof (cases rule: handlePopupMessage_cases)
    case refused
    with b show ?thesis by (simp add: part_ok_def bg_ok_def bg_ensureActive_def)
  next
    case (dispatched p)
    have "bg_ok cfg (popup_entry now b)"
      using b by (simp add: popup_entry_def bg_ensureActive_def bg_ok_def)
    from dispatch_ok [OF this] dispatched(2) show ?thesis by metis
  qed
  then show ?case using b(2) by (rule part_run_inv)
next
  case (resume t ts now rnd ans b b' out)
  then have b: "bg_ok cfg b" "\<And>t. t \<in> set ts \<Longrightarrow> task_ok cfg t" by (auto simp: run_inv_def)
  from resume_ok [OF b(1) b(2) [OF resume.hyps(1)] resume.hyps(2)] show ?case
    using b(2) notin_set_remove1 by (blast intro: part_run_inv dest: notin_set_remove1)
qed (auto simp: run_inv_def bg_ok_def lockFromPopupClose_def bg_lock_def lock_with_def)

lemma reachable_inv:
  assumes "bg_reachable cfg b ts"
  shows "run_inv cfg (b, ts)" "fill_inv (abs_bg (b, ts))"
proof -
  have "run_inv cfg (background_new, [])"
    by (simp add: run_inv_def bg_ok_def background_new_def)
  then have "(bg_step cfg)\<^sup>*\<^sup>* (background_new, []) y \<Longrightarrow> run_inv cfg y" for y
    by (erule_tac rtranclp_induct) (auto intro: bg_step_inv)
  with assms show "run_inv cfg (b, ts)" by (simp add: bg_reachable_def)
  have "fill_step\<^sup>*\<^sup>* fill_init (abs_bg (b, ts))"
    by (rule background_sim [OF assms])
  then show "fill_inv (abs_bg (b, ts))"
    by (induction rule: rtranclp_induct) (auto intro: fill_init_inv fill_step_inv)
qed


section \<open>Reading the abstract log\<close>

lemma abs_log_iff: "e \<in> set (fs_log (abs_bg (b, ts))) \<longleftrightarrow> (\<exists>x \<in> set (bg_log b). abs_event x = Some e)"
  by (auto simp: abs_bg_def List.map_filter_def image_iff)

lemma abs_log_grant: "F_grant rid bind t \<in> set (fs_log (abs_bg (b, ts))) \<longleftrightarrow> Granted rid bind t \<in> set (bg_log b)"
  unfolding abs_log_iff by (force elim: abs_event.elims)

lemma abs_log_consume: "F_consume rid bind t \<in> set (fs_log (abs_bg (b, ts))) \<longleftrightarrow> Consumed rid bind t \<in> set (bg_log b)"
  unfolding abs_log_iff by (force elim: abs_event.elims)

lemma abs_log_mem:
  "Sent rid item offer f g \<in> set (bg_log b) \<Longrightarrow> F_send rid (bind_of g offer) \<in> set (fs_log (abs_bg (b, ts)))"
  unfolding abs_log_iff by force

lemma abs_count_send:
  "length (filter (is_send rid) (List.map_filter abs_event l)) =
     length (filter (\<lambda>e. case e of Sent r _ _ _ _ \<Rightarrow> r = rid | _ \<Rightarrow> False) l)"
  by (induction l) (auto simp: List.map_filter_def split: bg_effect.splits)

lemma abs_count_grant:
  "length (filter (is_grant rid) (List.map_filter abs_event l)) =
     length (filter (\<lambda>e. case e of Granted r _ _ \<Rightarrow> r = rid | _ \<Rightarrow> False) l)"
  by (induction l) (auto simp: List.map_filter_def split: bg_effect.splits)

end
