(* ===== verification/Background_Properties.thy ===== *)
theory Background_Properties
  imports Background_Safety
begin

text \<open>
  The properties of \<open>apps/extension/src/background.ts\<close> over all interleavings, obtained from
  the refinement of the fill protocol and the invariant on offers.
\<close>


section \<open>Sample run\<close>

definition sample_cfg :: bg_config where
  "sample_cfg = \<lparr>cfg_ownExtensionId = ''ext'', cfg_popupUrl = ''popup'', cfg_vault =
     Some \<lparr>has_unlock = True, has_lock = True, has_logout = True, has_listItems = True, has_saveItem = True,
           has_getTotp = True, has_checkFresh = False\<rparr>, cfg_url = sample_url\<rparr>"

definition popup_sender :: "runtime_sender option" where
  "popup_sender = Some \<lparr>rs_id = Some ''ext'', rs_url = Some ''popup'', rs_tab = None, rs_frameId = None, rs_documentId = None\<rparr>"

definition page_sender :: "runtime_sender option" where
  "page_sender = Some \<lparr>rs_id = Some ''ext'', rs_url = Some ''https://a.test'', rs_tab = Some (JInt 7),
     rs_frameId = Some 0, rs_documentId = Some ''doc''\<rparr>"

definition page_offer :: jsval where
  "page_offer = content_json (Offer \<lparr>pageUrl = ''https://a.test'', isTopFrame = True, formAction = None,
     usernameVisible = True, passwordVisible = True\<rparr>)"

definition sample_candidate :: login_candidate where
  "sample_candidate = \<lparr>lc_id = ''item'', lc_title = ''A'', lc_origin = ''https://a.test:443''\<rparr>"

definition sample_fields :: fill_fields where
  "sample_fields = \<lparr>ff_username = ''u'', ff_password = ''p'', ff_totp = None\<rparr>"

text \<open>Unlock, offer, candidates, selection, tab, fields: the states after each step.\<close>

definition run1 :: "background \<times> bg_outcome" where
  "run1 = handlePopupMessage sample_cfg 0 [] [] (popup_json (Unlock ''acct'' ''https://api'' [112])) popup_sender background_new"

definition run2 :: "background \<times> bg_outcome" where
  "run2 = the (resume sample_cfg 10 [] (A_unlock (Some True)) (T_unlock ''acct'' ''https://api'') (fst run1))"

definition run3 :: background where
  "run3 = fst (handleContentMessage sample_cfg 20 [sample_candidate] page_offer page_sender (fst run2))"

definition run4 :: "background \<times> bg_outcome" where
  "run4 = handlePopupMessage sample_cfg 30 [0xAB] [] (popup_json Request_candidates) popup_sender run3"

definition run5 :: "background \<times> bg_outcome" where
  "run5 = handlePopupMessage sample_cfg 40 [] [] (popup_json (Fill_selected ''ab'' ''item'')) popup_sender (fst run4)"

definition sample_offer :: pending_offer where
  "sample_offer = \<lparr>of_ref = 0, of_tabId = 7, of_origin = ''https://a.test'', of_documentId = ''doc'',
     of_formActionOrigin = ''https://a.test'', of_candidates = [sample_candidate]\<rparr>"

definition run6 :: "background \<times> bg_outcome" where
  "run6 = the (resume sample_cfg 50 [] (A_tab (Some (Some (7, ''https://a.test''))))
     (T_tab ''ab'' ''item'' sample_offer 1) (fst run5))"

definition run7 :: "background \<times> bg_outcome" where
  "run7 = the (resume sample_cfg 60 [] (A_fields (Some (Some sample_fields)))
     (T_fields ''ab'' ''item'' sample_offer 1) (fst run6))"

lemma run_outcomes:
  "snd run1 = Await (T_unlock ''acct'' ''https://api'')" "snd run2 = Await T_store"
  "bg_offer run3 = Some sample_offer" "snd run4 = Reply (P_candidates ''ab'' [sample_candidate])"
  "snd run5 = Await (T_tab ''ab'' ''item'' sample_offer 1)"
  "snd run6 = Await (T_fields ''ab'' ''item'' sample_offer 1)"
  "snd run7 = Await (T_send sample_offer 1)"
  "bg_log (fst run7) ! 0 = Sent ''ab'' ''item'' sample_offer sample_fields 1"
  by code_simp+

lemma popup_reach:
  assumes "bg_reachable cfg b ts" "r = handlePopupMessage cfg now rnd items msg sender b"
  shows "bg_reachable cfg (fst r) (add_task (snd r) ts)"
  using assms bg_step.popup [of cfg now rnd items msg sender b "fst r" "snd r" ts]
  unfolding bg_reachable_def by (simp add: rtranclp.rtrancl_into_rtrancl)

lemma resume_reach:
  assumes "bg_reachable cfg b ts" "t \<in> set ts" "resume cfg now rnd ans t b = Some r"
  shows "bg_reachable cfg (fst r) (add_task (snd r) (remove1 t ts))"
  using assms bg_step.resume [of t ts cfg now rnd ans b "fst r" "snd r"]
  unfolding bg_reachable_def by (simp add: rtranclp.rtrancl_into_rtrancl)

lemma content_reach:
  assumes "bg_reachable cfg b ts"
  shows "bg_reachable cfg (fst (handleContentMessage cfg now cands msg sender b)) ts"
  using assms bg_step.content [of cfg now cands msg sender b _ _ ts]
  unfolding bg_reachable_def by (metis prod.collapse rtranclp.rtrancl_into_rtrancl)

lemma sample_reachable: "bg_reachable sample_cfg (fst run7) [T_send sample_offer 1, T_store]"
proof -
  have "bg_reachable sample_cfg background_new []" by (simp add: bg_reachable_def)
  from popup_reach [OF this run1_def] have "bg_reachable sample_cfg (fst run1) [T_unlock ''acct'' ''https://api'']"
    by (simp add: run_outcomes add_task_def)
  from resume_reach [OF this, of "T_unlock ''acct'' ''https://api''" 10 "[]" "A_unlock (Some True)" run2]
  have "bg_reachable sample_cfg (fst run2) [T_store]"
    by (simp add: run_outcomes add_task_def) (simp add: run2_def resume_def)
  from content_reach [OF this, of 20 "[sample_candidate]" page_offer page_sender]
  have "bg_reachable sample_cfg run3 [T_store]" by (simp add: run3_def)
  from popup_reach [OF this run4_def] have "bg_reachable sample_cfg (fst run4) [T_store]"
    by (simp add: run_outcomes add_task_def)
  from popup_reach [OF this run5_def]
  have "bg_reachable sample_cfg (fst run5) [T_tab ''ab'' ''item'' sample_offer 1, T_store]"
    by (simp add: run_outcomes add_task_def)
  from resume_reach [OF this, of "T_tab ''ab'' ''item'' sample_offer 1" 50 "[]"
      "A_tab (Some (Some (7, ''https://a.test'')))" run6]
  have "bg_reachable sample_cfg (fst run6) [T_fields ''ab'' ''item'' sample_offer 1, T_store]"
    by (simp add: run_outcomes add_task_def) (simp add: run6_def resume_def)
  from resume_reach [OF this, of "T_fields ''ab'' ''item'' sample_offer 1" 60 "[]"
      "A_fields (Some (Some sample_fields))" run7]
  show ?thesis
    by (simp add: run_outcomes add_task_def) (simp add: run7_def resume_def)
qed


section \<open>Release of fields\<close>



text \<open>
  C6.  A capability releases fields at most as often as it was granted: with fresh random
  request identifiers, at most once, whatever messages are replayed or interleaved.
\<close>

theorem fill_one_use:
  assumes "bg_reachable cfg b ts"
  shows "length (filter (\<lambda>e. case e of Sent r _ _ _ _ \<Rightarrow> r = rid | _ \<Rightarrow> False) (bg_log b)) \<le>
    length (filter (\<lambda>e. case e of Granted r _ _ \<Rightarrow> r = rid | _ \<Rightarrow> False) (bg_log b))"
  using fill_invD(5) [OF reachable_inv(2) [OF assms], of rid]
  by (simp add: uses_of_def abs_bg_def abs_count_send abs_count_grant)

theorem fill_one_use_witness:
  "length (filter (\<lambda>e. case e of Sent r _ _ _ _ \<Rightarrow> r = ''ab'' | _ \<Rightarrow> False) (bg_log (fst run7))) \<le> 1"
proof -
  have "length (filter (\<lambda>e. case e of Granted r _ _ \<Rightarrow> r = ''ab'' | _ \<Rightarrow> False) (bg_log (fst run7))) = 1" by code_simp
  with fill_one_use [OF sample_reachable, of "''ab''"] show ?thesis by simp
qed



section \<open>A locked session\<close>

text \<open>Replies that carry vault data, and the releases in a log.\<close>

fun reveals :: "bg_outcome \<Rightarrow> bool" where
  "reveals (Reply (P_candidates _ _)) \<longleftrightarrow> True"
| "reveals (Reply (P_items _)) \<longleftrightarrow> True"
| "reveals (Reply (P_totp _ _)) \<longleftrightarrow> True"
| "reveals (Reply (P_saved _)) \<longleftrightarrow> True"
| "reveals _ \<longleftrightarrow> False"

definition releases :: "bg_effect list \<Rightarrow> bg_effect list" where
  "releases l = filter (\<lambda>e. case e of Sent _ _ _ _ _ \<Rightarrow> True | _ \<Rightarrow> False) l"

lemma releases_Cons [simp]:
  "releases (e # l) = (case e of Sent _ _ _ _ _ \<Rightarrow> e # releases l | _ \<Rightarrow> releases l)"
  by (simp add: releases_def split: bg_effect.splits)

definition mute :: "background \<Rightarrow> background \<times> bg_outcome \<Rightarrow> bool" where
  "mute b r \<longleftrightarrow> \<not> reveals (snd r) \<and> releases (bg_log (fst r)) = releases (bg_log b)"

lemma flight_gen:
  assumes "bg_reachable cfg b ts" "T_fields rid item offer g \<in> set ts" "locked (bg_session b)"
  shows "generation (bg_session b) \<noteq> g"
proof -
  have "(rid, bind_of g offer) \<in># flight ts" using flight_remove1 [OF assms(2)] by simp
  then have "(rid, bind_of g offer) \<in># fs_flight (abs_bg (b, ts))" by (simp add: abs_bg_def)
  from fill_invD(3) [OF reachable_inv(2) [OF assms(1)] this] assms(3) show ?thesis
    by (auto simp: abs_bg_def bind_of_def locked_def)
qed

lemma dispatch_mute:
  "locked (bg_session b) \<Longrightarrow> mute b (popup_dispatch cfg now rnd items p b)"
  by (cases p) (auto simp: popup_dispatch_def part_defs mute_def Let_def locked_def session_lock_def
      split: option.splits if_splits)

lemma resume_mute:
  assumes "locked (bg_session b)" "\<And>rid item offer g. t = T_fields rid item offer g \<Longrightarrow> generation (bg_session b) \<noteq> g"
    and "resume cfg now rnd ans t b = Some r"
  shows "mute b r"
proof (cases t)
  case (T_send offer g)
  with assms show ?thesis
    by (cases ans) (auto simp: resume_def send_resume_def mute_def Let_def bg_lock_def lock_with_def split: if_splits)
qed (use assms in \<open>cases ans; auto simp: resume_def getState_resume_def state_reply_def unlock_resume_def candidates_resume_def
    listItems_resume_def listItems_end_def totp_resume_def save_resume_def tab_resume_def fields_resume_def
    bg_logout_end_def mute_def Let_def split: option.splits bool.splits if_splits\<close>)+

lemma entry_locked:
  "locked (bg_session b) \<Longrightarrow> locked (bg_session (bg_ensureActive now b)) \<and> locked (bg_session (popup_entry now b)) \<and>
     bg_log (bg_ensureActive now b) = bg_log b \<and> bg_log (popup_entry now b) = bg_log b"
  by (simp add: bg_ensureActive_def popup_entry_def Let_def session_defs)

text \<open>
  C8.  A locked extension gives nothing away: whichever message arrives and whichever pending
  operation goes on while the session is locked, the popup gets no candidates, items, codes or
  save confirmations, no fields are released to a page, and no offer is accepted from one.  So a
  lock cancels everything that was under way.
\<close>

theorem locked_reveals_nothing:
  assumes "bg_reachable cfg b ts" "locked (bg_session b)"
  shows "(handlePopupMessage cfg now rnd items msg sender b = (b1, out1) \<longrightarrow>
        \<not> reveals out1 \<and> releases (bg_log b1) = releases (bg_log b)) \<and>
    (t \<in> set ts \<and> resume cfg now rnd ans t b = Some (b2, out2) \<longrightarrow>
        \<not> reveals out2 \<and> releases (bg_log b2) = releases (bg_log b)) \<and>
    snd (handleContentMessage cfg now cands msg sender b) \<noteq> C_offer_available"
proof (intro conjI impI)
  assume h: "handlePopupMessage cfg now rnd items msg sender b = (b1, out1)"
  have "mute b (b1, out1)" using h
  proof (cases rule: handlePopupMessage_cases)
    case refused
    with entry_locked [OF assms(2), of now] show ?thesis by (simp add: mute_def)
  next
    case (dispatched p)
    with dispatch_mute [of "popup_entry now b" cfg now rnd items p] entry_locked [OF assms(2), of now]
    show ?thesis by (simp add: mute_def)
  qed
  then show "\<not> reveals out1" "releases (bg_log b1) = releases (bg_log b)" by (auto simp: mute_def)
next
  assume "t \<in> set ts \<and> resume cfg now rnd ans t b = Some (b2, out2)"
  then have "mute b (b2, out2)"
    using resume_mute [OF assms(2), of t cfg now rnd ans "(b2, out2)"] flight_gen [OF assms(1) _ assms(2)] by auto
  then show "\<not> reveals out2" "releases (bg_log b2) = releases (bg_log b)" by (auto simp: mute_def)
next
  from entry_locked [OF assms(2), of now]
  show "snd (handleContentMessage cfg now cands msg sender b) \<noteq> C_offer_available"
    by (auto simp: handleContentMessage_def Let_def split: option.splits content_message.splits)
qed

theorem locked_reveals_nothing_witness:
  "\<not> reveals (snd (handlePopupMessage sample_cfg 70 [] [] (popup_json List_items) popup_sender (bg_lock sample_cfg (fst run7))))"
proof -
  have "bg_reachable sample_cfg (bg_lock sample_cfg (fst run7)) [T_send sample_offer 1, T_store]"
    using sample_reachable bg_step.auth_failure unfolding bg_reachable_def by (rule rtranclp.rtrancl_into_rtrancl)
  moreover have "locked (bg_session (bg_lock sample_cfg (fst run7)))"
    by (simp add: bg_lock_def lock_with_def locked_def session_lock_def)
  ultimately show ?thesis using locked_reveals_nothing [of sample_cfg "bg_lock sample_cfg (fst run7)"
      "[T_send sample_offer 1, T_store]" 70 "[]" "[]" "popup_json List_items" popup_sender]
    by (metis prod.collapse)
qed

text \<open>
  An inactivity timeout is not a full lock: after more than five minutes without popup
  activity the next message locks the session, but the vault is not told to drop its keys, and
  the pending offer of the old session is still there, also after a new unlock has succeeded.
\<close>

theorem timeout_keeps_offer:
  assumes "active (bg_session b)" "lastTrustedActivityAt (bg_session b) = Some t0" "now - t0 > 300000"
    and "has_method cfg has_unlock"
    and "handlePopupMessage cfg now rnd items (popup_json (Unlock acct org pw)) sender b = (b1, out)"
    and "trustedPopupSender sender (cfg_ownExtensionId cfg) (cfg_popupUrl cfg) \<noteq> None"
    and "popup_valid (Unlock acct org pw)"
  shows "out = Await (T_unlock acct org) \<and> locked (bg_session b1) \<and>
    bg_log b1 = Vault_unlock acct org (fromByteArray pw) # bg_log b \<and>
    (\<exists>b2. resume cfg now' rnd (A_unlock (Some True)) (T_unlock acct org) b1 = Some (b2, Await T_store) \<and>
       active (bg_session b2) \<and> bg_offer b2 = bg_offer b)"
  using assms(1-6) parse_popup_json [OF assms(7)]
  by (auto simp: handlePopupMessage_def popup_dispatch_def bg_ensureActive_def bg_unlock_def Let_def session_defs
      POPUP_INACTIVITY_LIMIT_MS_def resume_def unlock_resume_def)

theorem timeout_keeps_offer_witness:
  "\<exists>b1 b2. handlePopupMessage sample_cfg 400000 [] [] (popup_json (Unlock ''acct2'' ''https://api'' [113])) popup_sender
       (fst run7) = (b1, Await (T_unlock ''acct2'' ''https://api'')) \<and>
     resume sample_cfg 400010 [] (A_unlock (Some True)) (T_unlock ''acct2'' ''https://api'') b1 = Some (b2, Await T_store) \<and>
     bg_offer b2 = Some sample_offer"
proof -
  let ?msg = "popup_json (Unlock ''acct2'' ''https://api'' [113])"
  obtain b1 out where h: "handlePopupMessage sample_cfg 400000 [] [] ?msg popup_sender (fst run7) = (b1, out)"
    by (meson surj_pair)
  have "active (bg_session (fst run7))" "lastTrustedActivityAt (bg_session (fst run7)) = Some 40"
    "bg_offer (fst run7) = Some sample_offer" "has_method sample_cfg has_unlock"
    "trustedPopupSender popup_sender (cfg_ownExtensionId sample_cfg) (cfg_popupUrl sample_cfg) \<noteq> None"
    "popup_valid (Unlock ''acct2'' ''https://api'' [113])"
    by code_simp+
  with timeout_keeps_offer [of "fst run7" 40 400000 sample_cfg "[]" "[]" "''acct2''" "''https://api''" "[113]"
      popup_sender b1 out 400010] h show ?thesis by auto
qed

end
