(* ===== verification/Totp.thy ===== *)
theory Totp
  imports Prelude
begin

unbundle bit_operations_syntax

text \<open>
  RFC 6238 codes as \<open>packages/extension-adapters/src/totp.ts\<close> computes them (the web client has
  the same code in \<open>apps/web/src/crypto/totp.ts\<close>).  JavaScript's bit operators work on 32-bit
  integers, so the accumulators are \<open>32 word\<close>s.  The platform's HMAC is the argument \<open>hmac\<close>.
\<close>


section \<open>Base32\<close>

definition BASE32_ALPHABET :: string where
  "BASE32_ALPHABET = ''ABCDEFGHIJKLMNOPQRSTUVWXYZ234567''"

definition index_of :: "string \<Rightarrow> char \<Rightarrow> nat option" where
  "index_of s c = (if c \<in> set s then Some (length (takeWhile (\<lambda>d. d \<noteq> c) s)) else None)"

definition base32_clean :: "string \<Rightarrow> string" where
  "base32_clean input =
     rev (dropWhile (\<lambda>c. c = CHR ''='')
       (rev (filter (\<lambda>c. \<not> is_space c \<and> c \<noteq> CHR ''-'') (toUpperCase (trim input)))))"

text \<open>The loop: \<open>bits\<close> is the number of pending low bits of \<open>value\<close>.\<close>

fun base32_loop :: "string \<Rightarrow> nat \<Rightarrow> 32 word \<Rightarrow> bytes \<Rightarrow> bytes option" where
  "base32_loop [] bits value bytes = Some bytes"
| "base32_loop (c # cs) bits value bytes =
     (case index_of BASE32_ALPHABET c of
        None \<Rightarrow> None
      | Some index \<Rightarrow>
          (let value' = push_bit 5 value OR word_of_nat index; bits' = bits + 5
           in if bits' \<ge> 8
              then base32_loop cs (bits' - 8) value' (bytes @ [ucast (signed_drop_bit (bits' - 8) value' AND 0xff)])
              else base32_loop cs bits' value' bytes))"

text \<open>\<open>None\<close> is the exception for a character outside the alphabet.\<close>

definition base32Decode :: "string \<Rightarrow> bytes option" where
  "base32Decode input =
     (let cleaned = base32_clean input
      in if length cleaned = 0 then Some [] else base32_loop cleaned 0 0 [])"


section \<open>Codes\<close>

datatype totp_algorithm = SHA1 | SHA256 | SHA512

record totp_options =
  opt_algorithm :: totp_algorithm
  opt_digits :: nat
  opt_periodSeconds :: int

definition TOTP_DEFAULTS :: totp_options where
  "TOTP_DEFAULTS = \<lparr>opt_algorithm = SHA1, opt_digits = 6, opt_periodSeconds = 30\<rparr>"

fun counter_loop :: "nat \<Rightarrow> int \<Rightarrow> bytes \<Rightarrow> bytes" where
  "counter_loop 0 remaining bytes = bytes"
| "counter_loop (Suc i) remaining bytes =
     counter_loop i (remaining div 256) (bytes[i := word_of_int (remaining mod 256)])"

definition counterBytes :: "int \<Rightarrow> bytes" where
  "counterBytes counter = counter_loop 8 counter (replicate 8 0)"

text \<open>A typed array read past its end is \<open>undefined\<close>, which a bit operator reads as 0.\<close>

definition byte_at :: "bytes \<Rightarrow> nat \<Rightarrow> 32 word" where
  "byte_at bs i = (if i < length bs then ucast (bs ! i) else 0)"

definition truncated :: "bytes \<Rightarrow> 32 word" where
  "truncated hmacResult =
     (let offset = unat (byte_at hmacResult (length hmacResult - 1) AND 0x0f)
      in push_bit 24 (byte_at hmacResult offset AND 0x7f) OR
         push_bit 16 (byte_at hmacResult (offset + 1) AND 0xff) OR
         push_bit 8 (byte_at hmacResult (offset + 2) AND 0xff) OR
         (byte_at hmacResult (offset + 3) AND 0xff))"

definition dynamicTruncate :: "bytes \<Rightarrow> nat \<Rightarrow> string" where
  "dynamicTruncate hmacResult digits =
     (let code = unat (truncated hmacResult) mod 10 ^ digits
      in padStart (string_of_nat code) digits (CHR ''0''))"

datatype totp_error = Invalid_base32 | Empty_secret

definition computeTotp ::
  "(totp_algorithm \<Rightarrow> bytes \<Rightarrow> bytes \<Rightarrow> bytes) \<Rightarrow> string \<Rightarrow> totp_options \<Rightarrow> epoch_ms \<Rightarrow> totp_error + string" where
  "computeTotp hmac secretBase32 options atEpochMs =
     (case base32Decode secretBase32 of
        None \<Rightarrow> Inl Invalid_base32
      | Some secret \<Rightarrow>
          if length secret = 0 then Inl Empty_secret
          else
            (let counter = atEpochMs div 1000 div opt_periodSeconds options;
                 digest = hmac (opt_algorithm options) secret (counterBytes counter)
             in Inr (dynamicTruncate digest (opt_digits options))))"

definition secondsRemaining :: "int \<Rightarrow> epoch_ms \<Rightarrow> int" where
  "secondsRemaining periodSeconds atEpochMs =
     (let elapsed = atEpochMs div 1000 mod periodSeconds in periodSeconds - elapsed)"



section \<open>Base32 as a bit string\<close>

text \<open>The low \<open>n\<close> bits of a number, the most significant first.\<close>

definition low_bits :: "nat \<Rightarrow> 'a::len word \<Rightarrow> bool list" where
  "low_bits n v = map (\<lambda>k. bit v (n - 1 - k)) [0..<n]"

definition quintets :: "nat list \<Rightarrow> bool list" where
  "quintets is = concat (map (\<lambda>i. low_bits 5 (word_of_nat i :: 32 word)) is)"

definition octets :: "bytes \<Rightarrow> bool list" where
  "octets bs = concat (map (low_bits 8) bs)"

lemma length_low_bits [simp]: "length (low_bits n v) = n"
  by (simp add: low_bits_def)

lemma low_bits_0 [simp]: "low_bits 0 v = []"
  by (simp add: low_bits_def)

lemma bit_small_nat:
  assumes "i < 32" "5 \<le> k"
  shows "\<not> bit (word_of_nat i :: 32 word) k"
proof -
  have "i < 2 ^ k" using assms power_increasing [of 5 k "2 :: nat"] by simp
  then have "\<not> bit i k" by (simp add: bit_iff_odd)
  then show ?thesis by (simp add: bit_of_nat_iff)
qed

lemma low_bits_push:
  assumes "n + 5 \<le> 32" "i < 32"
  shows "low_bits (n + 5) (push_bit 5 v OR word_of_nat i :: 32 word) = low_bits n v @ low_bits 5 (word_of_nat i :: 32 word)"
proof (rule nth_equalityI)
  fix k
  assume "k < length (low_bits (n + 5) (push_bit 5 v OR word_of_nat i :: 32 word))"
  then have k: "k < n + 5" by simp
  show "low_bits (n + 5) (push_bit 5 v OR word_of_nat i :: 32 word) ! k =
      (low_bits n v @ low_bits 5 (word_of_nat i :: 32 word)) ! k"
  proof (cases "k < n")
    case True
    then have "n + 5 - 1 - k = n - 1 - k + 5" "5 \<le> 4 + n - k" "4 + n - k < 32" using assms(1) by auto
    with True bit_small_nat [OF assms(2), of "4 + n - k"] show ?thesis
      by (simp add: low_bits_def nth_append bit_or_iff bit_push_bit_iff)
  next
    case False
    then have e: "n + 5 - 1 - k = 5 - 1 - (k - n)" "n + 5 - 1 - k < 5" using k by auto
    then have "\<not> bit (push_bit 5 v) (n + 5 - 1 - k)" by (simp add: bit_push_bit_iff)
    with e False k show ?thesis by (simp add: low_bits_def nth_append bit_or_iff)
  qed
qed simp

lemma low_bits_byte:
  assumes "n \<le> 12"
  shows "low_bits (n + 8) v = low_bits 8 (ucast (signed_drop_bit n v AND 0xff) :: uint8) @ low_bits n (v :: 32 word)"
proof (rule nth_equalityI)
  fix k
  assume "k < length (low_bits (n + 8) v)"
  then have k: "k < n + 8" by simp
  show "low_bits (n + 8) v ! k = (low_bits 8 (ucast (signed_drop_bit n v AND 0xff) :: uint8) @ low_bits n v) ! k"
  proof (cases "k < 8")
    case True
    then have j: "n + 8 - 1 - k = n + (7 - k)" "7 - k < 8" by auto
    have m: "bit (0xff :: 32 word) (7 - k)"
    proof -
      have "bit (mask 8 :: 32 word) (7 - k)" using j(2) by (simp only: bit_mask_iff) simp
      then show ?thesis by (simp add: mask_eq_exp_minus_1)
    qed
    have "bit (signed_drop_bit n v) (7 - k) = bit v (n + (7 - k))"
      using assms j(2) by (auto simp: bit_signed_drop_bit_iff)
    with m j True show ?thesis
      by (simp add: low_bits_def nth_append bit_ucast_iff bit_and_iff)
  next
    case False
    then have "n + 8 - 1 - k = n - 1 - (k - 8)" using k by auto
    with False k show ?thesis by (simp add: low_bits_def nth_append)
  qed
qed simp

lemma index_of_bound: "index_of s c = Some i \<Longrightarrow> i < length s \<and> s ! i = c"
proof -
  assume "index_of s c = Some i"
  then have c: "c \<in> set s" and i: "i = length (takeWhile (\<lambda>d. d \<noteq> c) s)"
    by (auto simp: index_of_def split: if_splits)
  from c have "length (takeWhile (\<lambda>d. d \<noteq> c) s) < length s" by (induction s) auto
  with i nth_length_takeWhile [of "\<lambda>d. d \<noteq> c" s] show "i < length s \<and> s ! i = c" by simp
qed

lemma index_of_alphabet: "index_of BASE32_ALPHABET c = Some i \<Longrightarrow> i < 32"
  using index_of_bound [of BASE32_ALPHABET c i] by (simp add: BASE32_ALPHABET_def)

lemma base32_loop_bits:
  assumes "base32_loop cs bits val acc = Some out" "bits < 8"
  shows "\<exists>is rest. map (index_of BASE32_ALPHABET) cs = map Some is \<and> length rest < 8 \<and>
    octets out @ rest = octets acc @ low_bits bits val @ quintets is"
  using assms
proof (induction cs arbitrary: bits val acc)
  case Nil
  then show ?case by (auto simp: quintets_def)
next
  case (Cons c cs)
  then obtain i where i: "index_of BASE32_ALPHABET c = Some i" by (auto split: option.splits)
  note i32 = index_of_alphabet [OF i]
  let ?v = "push_bit 5 val OR word_of_nat i :: 32 word"
  have push: "low_bits (bits + 5) ?v = low_bits bits val @ low_bits 5 (word_of_nat i :: 32 word)"
    by (rule low_bits_push) (use Cons.prems(2) i32 in auto)
  show ?case
  proof (cases "8 \<le> bits + 5")
    case True
    let ?b = "ucast (signed_drop_bit (bits + 5 - 8) ?v AND 0xff) :: uint8"
    from True Cons.prems i have "base32_loop cs (bits + 5 - 8) ?v (acc @ [?b]) = Some out"
      by (simp add: Let_def)
    moreover have "bits + 5 - 8 < 8" using Cons.prems(2) by simp
    ultimately obtain js rest where js: "map (index_of BASE32_ALPHABET) cs = map Some js"
      "length rest < 8" "octets out @ rest = octets (acc @ [?b]) @ low_bits (bits + 5 - 8) ?v @ quintets js"
      using Cons.IH by blast
    have "low_bits 8 ?b @ low_bits (bits + 5 - 8) ?v = low_bits (bits + 5) ?v"
    proof -
      have e: "bits + 5 - 8 + 8 = bits + 5" "bits + 5 - 8 \<le> 12" using True Cons.prems(2) by auto
      from low_bits_byte [OF e(2), of ?v] show ?thesis unfolding e(1) by (rule sym)
    qed
    with js(3) push have "octets out @ rest = octets acc @ low_bits bits val @ quintets (i # js)"
      by (simp add: octets_def quintets_def)
    with js i show ?thesis by (intro exI [of _ "i # js"] exI [of _ rest]) simp
  next
    case False
    with Cons.prems i have "base32_loop cs (bits + 5) ?v acc = Some out" by (simp add: Let_def)
    moreover have "bits + 5 < 8" using False by simp
    ultimately obtain js rest where js: "map (index_of BASE32_ALPHABET) cs = map Some js"
      "length rest < 8" "octets out @ rest = octets acc @ low_bits (bits + 5) ?v @ quintets js"
      using Cons.IH by blast
    with push i show ?thesis
      by (intro exI [of _ "i # js"] exI [of _ rest]) (simp add: quintets_def)
  qed
qed

lemma base32_loop_fails:
  "(\<exists>c \<in> set cs. c \<notin> set BASE32_ALPHABET) \<longleftrightarrow> base32_loop cs bits val acc = None"
  by (induction cs arbitrary: bits val acc) (auto simp: index_of_def Let_def)

lemma base32_Decode_loop: "base32Decode s = base32_loop (base32_clean s) 0 0 []"
  by (simp add: base32Decode_def Let_def)

text \<open>
  Base32 decoding is the bit-exact RFC 4648 decoding in spite of the 32-bit accumulator
  that overflows: the output bytes spell the bit string of the input characters, five bits each,
  up to fewer than eight leftover bits; and it fails exactly when the cleaned input has a
  character outside the alphabet.
\<close>

theorem base32Decode_bits:
  "case base32Decode s of
     None \<Rightarrow> \<exists>c \<in> set (base32_clean s). c \<notin> set BASE32_ALPHABET
   | Some out \<Rightarrow>
       \<exists>is rest. map (index_of BASE32_ALPHABET) (base32_clean s) = map Some is \<and> length rest < 8 \<and>
         octets out @ rest = quintets is"
proof (cases "base32Decode s")
  case None
  then show ?thesis using base32_loop_fails [of "base32_clean s" 0 0 "[]"] by (simp add: base32_Decode_loop)
next
  case (Some out)
  then have "base32_loop (base32_clean s) 0 0 [] = Some out" by (simp add: base32_Decode_loop)
  from base32_loop_bits [OF this] Some show ?thesis by (simp add: octets_def)
qed

theorem base32Decode_bits_witness:
  "\<exists>is rest. map (index_of BASE32_ALPHABET) (base32_clean ''mzxw 6===='') = map Some is \<and> length rest < 8 \<and>
     octets [0x66, 0x6f, 0x6f] @ rest = quintets is"
proof -
  have "base32Decode ''mzxw 6===='' = Some [0x66, 0x6f, 0x6f]" by code_simp
  with base32Decode_bits [of "''mzxw 6====''"] show ?thesis by simp
qed


section \<open>Counter and truncation\<close>

definition be_value :: "bytes \<Rightarrow> int" where
  "be_value bs = foldl (\<lambda>n b. n * 256 + uint b) 0 bs"

lemma be_value_snoc: "be_value (bs @ [b]) = be_value bs * 256 + uint b"
  by (simp add: be_value_def)

lemma counter_loop_prefix:
  "i \<le> length bs \<Longrightarrow>
     be_value (take i (counter_loop i n bs)) = n mod 256 ^ i \<and> length (counter_loop i n bs) = length bs \<and>
     drop i (counter_loop i n bs) = drop i bs"
proof (induction i arbitrary: n bs)
  case 0
  then show ?case by (simp add: be_value_def)
next
  case (Suc i)
  let ?bs = "bs[i := word_of_int (n mod 256)]"
  have i: "i \<le> length ?bs" using Suc.prems by simp
  note IH = Suc.IH [OF i, of "n div 256"]
  have d: "drop i (counter_loop i (n div 256) ?bs) = word_of_int (n mod 256) # drop (Suc i) bs"
    using IH Suc.prems by (simp add: Cons_nth_drop_Suc [symmetric] drop_update_cancel)
  then have "take (Suc i) (counter_loop i (n div 256) ?bs) =
      take i (counter_loop i (n div 256) ?bs) @ [word_of_int (n mod 256)]"
    using IH Suc.prems by (metis append_take_drop_id length_list_update list.sel(1) take_hd_drop Suc_le_lessD)
  moreover have "uint (word_of_int (n mod 256) :: uint8) = n mod 256"
    by (simp add: uint_word_of_int_eq take_bit_eq_mod)
  moreover have "n div 256 mod 256 ^ i * 256 + n mod 256 = n mod 256 ^ Suc i"
    by (simp add: zmod_zmult2_eq [of "256 ^ i" n 256] mult.commute)
  moreover have "drop (Suc i) (counter_loop i (n div 256) ?bs) = drop (Suc i) bs"
    using d by (metis drop_Suc list.sel(3) tl_drop)
  ultimately show ?case using IH by (simp add: be_value_snoc)
qed

lemma counterBytes_value: "be_value (counterBytes n) = n mod 2 ^ 64" "length (counterBytes n) = 8"
proof -
  have "be_value (take 8 (counterBytes n)) = n mod 256 ^ 8 \<and> length (counterBytes n) = length (replicate 8 (0 :: uint8))"
    using counter_loop_prefix [of 8 "replicate 8 0" n] unfolding counterBytes_def by fastforce
  then have p: "be_value (take 8 (counterBytes n)) = n mod 256 ^ 8" "length (counterBytes n) = 8" by auto
  then show "length (counterBytes n) = 8" by simp
  from p have "take 8 (counterBytes n) = counterBytes n" by simp
  with p(1) show "be_value (counterBytes n) = n mod 2 ^ 64" by simp
qed

lemma mask_byte: "(0xff :: 32 word) = mask 8" "(0x7f :: 32 word) = mask 7" "(0x0f :: 32 word) = mask 4"
  by (simp_all add: mask_eq_exp_minus_1)

text \<open>The four shifted bytes do not overlap, so the disjunction is their sum.\<close>

lemma truncated_value:
  "unat (truncated h) =
     (let k = unat (byte_at h (length h - 1)) mod 16
      in unat (byte_at h k) mod 128 * 2 ^ 24 + unat (byte_at h (k + 1)) mod 256 * 2 ^ 16 +
         unat (byte_at h (k + 2)) mod 256 * 2 ^ 8 + unat (byte_at h (k + 3)) mod 256)"
proof -
  have or: "unat (push_bit n a OR b) = unat a * 2 ^ n + unat b"
    if "unat a * 2 ^ n + unat b < 2 ^ 32" "unat b < 2 ^ n" "n < 32" for a b :: "32 word" and n
  proof -
    have "\<not> bit (push_bit n a) k \<or> \<not> bit b k" for k
    proof (cases "k < n")
      case True
      then show ?thesis by (simp add: bit_push_bit_iff)
    next
      case False
      then have "(2 :: nat) ^ n \<le> 2 ^ k" by (intro power_increasing) auto
      with that(2) have "unat b < 2 ^ k" by linarith
      then have "\<not> bit (unat b) k" by (simp add: bit_iff_odd)
      then show ?thesis by (simp add: bit_unsigned_iff)
    qed
    then have "push_bit n a OR b = push_bit n a + b" by (simp add: disjunctive_add)
    moreover have "unat (push_bit n a) = unat a * 2 ^ n"
    proof -
      have "unat (push_bit n a) = take_bit 32 (push_bit n (unat a))"
        by (subst unsigned_push_bit_eq) simp
      with that(1) show ?thesis by (simp only: push_bit_eq_mult) (simp add: take_bit_eq_mod)
    qed
    ultimately show ?thesis using that(1) by (simp add: unat_word_ariths)
  qed
  have m: "unat (w AND 0xff) = unat w mod 256" "unat (w AND 0x7f) = unat w mod 128" "unat (w AND 0x0f) = unat w mod 16"
    for w :: "32 word"
    unfolding mask_byte by (simp_all add: take_bit_eq_mask [symmetric] unsigned_take_bit_eq take_bit_eq_mod unat_mod)
  have four: "unat (push_bit 24 a OR push_bit 16 b OR push_bit 8 c OR d) =
      unat a * 2 ^ 24 + unat b * 2 ^ 16 + unat c * 2 ^ 8 + unat d"
    if "unat a < 128" "unat b < 256" "unat c < 256" "unat d < 256" for a b c d :: "32 word"
  proof -
    have 1: "unat (push_bit 8 c OR d) = unat c * 2 ^ 8 + unat d" by (rule or) (use that in simp_all)
    have 2: "unat (push_bit 16 b OR (push_bit 8 c OR d)) = unat b * 2 ^ 16 + unat (push_bit 8 c OR d)"
      by (rule or) (use that 1 in simp_all)
    have "unat (push_bit 24 a OR (push_bit 16 b OR (push_bit 8 c OR d))) =
        unat a * 2 ^ 24 + unat (push_bit 16 b OR (push_bit 8 c OR d))"
      by (rule or) (use that 1 2 in simp_all)
    with 1 2 show ?thesis by (simp add: or.assoc)
  qed
  show ?thesis
    unfolding truncated_def Let_def m(3) by (subst four) (unfold m, simp_all)
qed



section \<open>Properties\<close>

text \<open>
  C9.  The displayed code is the one of RFC 4226: it has exactly the requested number of
  decimal digits, and read as a number it is the 31-bit big-endian integer at the digest's
  dynamic offset, reduced modulo the power of ten.
\<close>

theorem dynamicTruncate_rfc:
  assumes "0 < digits"
  shows "length (dynamicTruncate h digits) = digits \<and> set (dynamicTruncate h digits) \<subseteq> set ''0123456789'' \<and>
    nat_of_string (dynamicTruncate h digits) =
      (let k = unat (byte_at h (length h - 1)) mod 16
       in unat (byte_at h k) mod 128 * 2 ^ 24 + unat (byte_at h (k + 1)) mod 256 * 2 ^ 16 +
          unat (byte_at h (k + 2)) mod 256 * 2 ^ 8 + unat (byte_at h (k + 3)) mod 256) mod 10 ^ digits"
proof -
  let ?code = "unat (truncated h) mod 10 ^ digits"
  have "length (string_of_nat ?code) \<le> digits" using assms by (intro string_of_nat_bound) simp_all
  moreover have "set (padStart (string_of_nat ?code) digits CHR ''0'') \<subseteq> set ''0123456789''"
    using set_padStart [of "string_of_nat ?code" digits "CHR ''0''"] string_of_nat_digits [of ?code] by auto
  moreover have "nat_of_string (padStart (string_of_nat ?code) digits CHR ''0'') = ?code"
    by (simp add: nat_of_string_padStart)
  ultimately show ?thesis
    unfolding dynamicTruncate_def Let_def truncated_value [unfolded Let_def, symmetric] by simp
qed

theorem dynamicTruncate_rfc_witness:
  "length (dynamicTruncate [0x1f, 0x86, 0x98, 0x69, 0x0e, 0x02, 0xca, 0x16, 0x61, 0x85, 0x50, 0xef, 0x7f, 0x19,
      0xda, 0x8e, 0x94, 0x5b, 0x55, 0x5a] 6) = 6 \<and>
   nat_of_string (dynamicTruncate [0x1f, 0x86, 0x98, 0x69, 0x0e, 0x02, 0xca, 0x16, 0x61, 0x85, 0x50, 0xef, 0x7f, 0x19,
      0xda, 0x8e, 0x94, 0x5b, 0x55, 0x5a] 6) = 872921"
  using dynamicTruncate_rfc [of 6 "[0x1f, 0x86, 0x98, 0x69, 0x0e, 0x02, 0xca, 0x16, 0x61, 0x85, 0x50, 0xef, 0x7f, 0x19,
      0xda, 0x8e, 0x94, 0x5b, 0x55, 0x5a]"]
  by (simp add: byte_at_def Let_def)

text \<open>
  The countdown tells the truth: it is between one second and the period, the code stays the
  same for every whole second before it runs out, and the moving factor of the code increases by
  exactly one when it does.
\<close>

theorem totp_countdown:
  assumes "0 < opt_periodSeconds opts" "0 \<le> at" "0 \<le> k" "k < secondsRemaining (opt_periodSeconds opts) at"
  shows "1 \<le> secondsRemaining (opt_periodSeconds opts) at \<and>
    secondsRemaining (opt_periodSeconds opts) at \<le> opt_periodSeconds opts \<and>
    computeTotp hmac secret opts (at + 1000 * k) = computeTotp hmac secret opts at \<and>
    (at + 1000 * secondsRemaining (opt_periodSeconds opts) at) div 1000 div opt_periodSeconds opts =
      at div 1000 div opt_periodSeconds opts + 1"
proof -
  let ?p = "opt_periodSeconds opts" and ?s = "at div 1000"
  have sec: "(at + 1000 * j) div 1000 = ?s + j" for j by simp
  have m: "0 \<le> ?s mod ?p" "?s mod ?p < ?p" using assms(1) by simp_all
  have rem: "secondsRemaining ?p at = ?p - ?s mod ?p" by (simp add: secondsRemaining_def Let_def)
  have div: "(?s + j) div ?p = ?s div ?p + (?s mod ?p + j) div ?p" for j
  proof -
    have "?s + j = (?s mod ?p + j) + ?s div ?p * ?p" using div_mult_mod_eq [of ?s ?p] by linarith
    then show ?thesis using assms(1) by (metis add.commute div_mult_self1 less_irrefl)
  qed
  have same: "(?s + k) div ?p = ?s div ?p"
    unfolding div using assms(3,4) m rem by (simp add: div_pos_pos_trivial)
  have next_p: "(?s + (?p - ?s mod ?p)) div ?p = ?s div ?p + 1"
    unfolding div using assms(1) by simp
  show ?thesis
    unfolding computeTotp_def Let_def sec same rem next_p using m by simp
qed

theorem totp_countdown_witness:
  "secondsRemaining 30 1000000 = 20 \<and>
   computeTotp (\<lambda>_ k m. k @ m) ''GEZDGNBV'' TOTP_DEFAULTS (1000000 + 1000 * 19) =
     computeTotp (\<lambda>_ k m. k @ m) ''GEZDGNBV'' TOTP_DEFAULTS 1000000"
  using totp_countdown [of TOTP_DEFAULTS 1000000 19 "\<lambda>_ k m. k @ m" "''GEZDGNBV''"]
  by (simp add: TOTP_DEFAULTS_def secondsRemaining_def)

end
