(* ===== verification/Vault_Item.thy ===== *)
theory Vault_Item
  imports Prelude
begin

text \<open>
  Decrypted items (\<open>apps/web/src/vault/item-codec.ts\<close>), their validation, and the in-memory
  search (\<open>apps/web/src/vault/search.ts\<close>).
\<close>

record item_data =
  d_type :: string
  d_title :: string
  d_username :: "string option"
  d_password :: "string option"
  d_url :: "string option"
  d_notes :: "string option"
  d_totpSecret :: "string option"

text \<open>JavaScript truthiness of an optional string.\<close>

definition truthy :: "string option \<Rightarrow> bool" where
  "truthy v \<longleftrightarrow> v \<noteq> None \<and> v \<noteq> Some []"

definition is_login :: "item_data \<Rightarrow> bool" where
  "is_login d \<longleftrightarrow> d_type d = ''login'' \<or> d_type d = ''totp-login''"

definition validateItemData :: "item_data \<Rightarrow> string list" where
  "validateItemData d =
     (if d_title d = [] \<or> trim (d_title d) = [] then [''Title is required.''] else []) @
     (if d_title d \<noteq> [] \<and> length (d_title d) > 500 then [''Title is too long.''] else []) @
     (if is_login d \<and> \<not> truthy (d_username d) \<and> \<not> truthy (d_password d)
      then [''A login needs a username or a password.''] else []) @
     (if d_type d = ''totp-login'' \<and> \<not> truthy (d_totpSecret d) then [''A TOTP login needs a secret.''] else []) @
     (if truthy (d_notes d) \<and> (case d_notes d of None \<Rightarrow> False | Some n \<Rightarrow> length n > 100000)
      then [''Notes are too long.''] else [])"

record search_entry =
  se_itemId :: string
  se_title :: string
  se_username :: "string option"
  se_url :: "string option"
  se_type :: string

definition opt_includes :: "string option \<Rightarrow> string \<Rightarrow> bool" where
  "opt_includes v q = (case v of None \<Rightarrow> False | Some s \<Rightarrow> str_includes (toLowerCase s) q)"

definition searchItems :: "search_entry list \<Rightarrow> string \<Rightarrow> search_entry list" where
  "searchItems entries query =
     (let q = toLowerCase (trim query)
      in if length q = 0 then entries
         else filter (\<lambda>e. str_includes (toLowerCase (se_title e)) q \<or> opt_includes (se_username e) q \<or>
                          opt_includes (se_url e) q) entries)"

text \<open>A text contains the query, ignoring case.\<close>

definition mentions :: "string \<Rightarrow> string \<Rightarrow> bool" where
  "mentions s q \<longleftrightarrow> (\<exists>a b. toLowerCase s = a @ q @ b)"

text \<open>
  Search returns, in their order, exactly the entries whose title, user name or address
  contains the trimmed query ignoring case, and everything for a blank query; it never looks at
  passwords or notes, which entries do not carry.
\<close>

lemma searchItems_exact:
  "searchItems entries query =
     (let q = toLowerCase (trim query)
      in filter (\<lambda>e. mentions (se_title e) q \<or> (\<exists>u. se_username e = Some u \<and> mentions u q) \<or>
                     (\<exists>u. se_url e = Some u \<and> mentions u q)) entries)"
proof -
  have "opt_includes v q \<longleftrightarrow> (\<exists>u. v = Some u \<and> mentions u q)" for v q
    by (auto simp: opt_includes_def mentions_def str_includes_iff split: option.splits)
  moreover have "mentions s []" for s by (auto simp: mentions_def)
  ultimately show ?thesis
    by (simp add: searchItems_def Let_def str_includes_iff mentions_def [symmetric])
qed

end
