(* ===== verification/Base64.thy ===== *)
theory Base64
  imports Prelude
begin

text \<open>
  \<open>packages/sdk/src/b64.ts\<close>: binary values on the wire are \<open>b64:\<close> followed by padded base64.
  \<open>btoa\<close> and \<open>atob\<close> are modelled from the HTML and Infra standards (\<open>atob\<close> is the forgiving
  decoder: it drops ASCII white space, accepts missing padding and ignores left-over bits).
  Bytes are numbers below 256 inside the codec.
\<close>


section \<open>The alphabet\<close>

definition B64_ALPHABET :: string where
  "B64_ALPHABET = ''ABCDEFGHIJKLMNOPQRSTUVWXYZabcdefghijklmnopqrstuvwxyz0123456789+/''"

definition sextet_char :: "nat \<Rightarrow> char" where
  "sextet_char n = B64_ALPHABET ! n"

definition char_sextet :: "char \<Rightarrow> nat option" where
  "char_sextet c = map_of (zip B64_ALPHABET [0..<64]) c"

lemma char_sextet_char [simp]:
  assumes "n < 64"
  shows "char_sextet (sextet_char n) = Some n"
proof -
  have d: "distinct B64_ALPHABET" and l: "length B64_ALPHABET = 64" by (simp_all add: B64_ALPHABET_def)
  from assms l have "(B64_ALPHABET ! n, n) \<in> set (zip B64_ALPHABET [0..<64])"
    by (force simp: set_zip)
  moreover have "distinct (map fst (zip B64_ALPHABET [0..<64]))" using d l by simp
  ultimately show ?thesis by (simp add: char_sextet_def sextet_char_def)
qed

lemma sextet_char_plain: "n < 64 \<Longrightarrow> \<not> is_space (sextet_char n) \<and> sextet_char n \<noteq> CHR ''=''"
proof -
  have "list_all (\<lambda>c. \<not> is_space c \<and> c \<noteq> CHR ''='') B64_ALPHABET"
    by (simp add: B64_ALPHABET_def is_space_def)
  moreover assume "n < 64"
  moreover have "length B64_ALPHABET = 64" by (simp add: B64_ALPHABET_def)
  ultimately show ?thesis by (simp add: sextet_char_def list_all_length)
qed


section \<open>btoa and atob\<close>

fun encode_sextets :: "nat list \<Rightarrow> nat list" where
  "encode_sextets [] = []"
| "encode_sextets [a] = [a div 4, (a mod 4) * 16]"
| "encode_sextets [a, b] = [a div 4, (a mod 4) * 16 + b div 16, (b mod 16) * 4]"
| "encode_sextets (a # b # c # bs) =
     a div 4 # ((a mod 4) * 16 + b div 16) # ((b mod 16) * 4 + c div 64) # c mod 64 # encode_sextets bs"

definition b64_padding :: "nat \<Rightarrow> string" where
  "b64_padding n = replicate ((3 - n mod 3) mod 3) (CHR ''='')"

definition btoa :: "nat list \<Rightarrow> string" where
  "btoa bs = map sextet_char (encode_sextets bs) @ b64_padding (length bs)"

fun decode_sextets :: "nat list \<Rightarrow> nat list option" where
  "decode_sextets [] = Some []"
| "decode_sextets [w] = None"
| "decode_sextets [w, x] = Some [w * 4 + x div 16]"
| "decode_sextets [w, x, y] = Some [w * 4 + x div 16, (x mod 16) * 16 + y div 4]"
| "decode_sextets (w # x # y # z # rest) =
     map_option (\<lambda>bs. (w * 4 + x div 16) # ((x mod 16) * 16 + y div 4) # ((y mod 4) * 64 + z) # bs)
       (decode_sextets rest)"

text \<open>At most two trailing padding characters are dropped, and only from a full last group.\<close>

definition strip_padding :: "string \<Rightarrow> string" where
  "strip_padding s =
     (if length s mod 4 = 0
      then (let t = (if s \<noteq> [] \<and> last s = CHR ''='' then butlast s else s)
            in if t \<noteq> s \<and> t \<noteq> [] \<and> last t = CHR ''='' then butlast t else t)
      else s)"

fun all_sextets :: "string \<Rightarrow> nat list option" where
  "all_sextets [] = Some []"
| "all_sextets (c # cs) =
     (case char_sextet c of
        None \<Rightarrow> None
      | Some n \<Rightarrow> map_option (Cons n) (all_sextets cs))"

text \<open>ASCII white space: tab, line feed, form feed, carriage return, space.\<close>

definition ascii_space :: "char \<Rightarrow> bool" where
  "ascii_space c \<longleftrightarrow> (of_char c :: nat) \<in> {9, 10, 12, 13, 32}"

definition atob :: "string \<Rightarrow> nat list option" where
  "atob s =
     (let data = strip_padding (filter (\<lambda>c. \<not> ascii_space c) s)
      in case all_sextets data of
           None \<Rightarrow> None
         | Some ns \<Rightarrow> decode_sextets ns)"


section \<open>b64.ts\<close>

definition B64_PREFIX :: string where
  "B64_PREFIX = ''b64:''"

definition encodeB64 :: "bytes \<Rightarrow> string" where
  "encodeB64 bs = B64_PREFIX @ btoa (map unat bs)"

datatype b64_error = Missing_prefix | Invalid_base64

definition decodeB64 :: "string \<Rightarrow> b64_error + bytes" where
  "decodeB64 v =
     (if \<not> is_prefix B64_PREFIX v then Inl Missing_prefix
      else case atob (drop (length B64_PREFIX) v) of
             None \<Rightarrow> Inl Invalid_base64
           | Some ns \<Rightarrow> Inr (map word_of_nat ns))"


section \<open>Round trip\<close>

lemma encode_sextets_bound: "list_all (\<lambda>b. b < 256) bs \<Longrightarrow> list_all (\<lambda>n. n < 64) (encode_sextets bs)"
  by (induction bs rule: encode_sextets.induct) auto

lemma decode_encode_sextets: "list_all (\<lambda>b. b < 256) bs \<Longrightarrow> decode_sextets (encode_sextets bs) = Some bs"
proof (induction bs rule: encode_sextets.induct)
  case (2 a)
  then show ?case by simp
next
  case (3 a b)
  then have "a < 256" "b < 256" by simp_all
  then show ?case by simp
next
  case (4 a b c bs)
  then have "a < 256" "b < 256" "c < 256" by simp_all
  then have "(a mod 4 * 16 + b div 16) div 16 = a mod 4" "(a mod 4 * 16 + b div 16) mod 16 = b div 16"
    "(b mod 16 * 4 + c div 64) div 4 = b mod 16" "(b mod 16 * 4 + c div 64) mod 4 = c div 64" by auto
  with 4 show ?case by simp
qed simp

lemma all_sextets_map: "list_all (\<lambda>n. n < 64) ns \<Longrightarrow> all_sextets (map sextet_char ns) = Some ns"
  by (induction ns) simp_all

lemma length_encode_sextets:
  "length (encode_sextets bs) + (3 - length bs mod 3) mod 3 = 4 * ((length bs + 2) div 3)"
proof (induction bs rule: encode_sextets.induct)
  case (4 a b c bs)
  have "(length (a # b # c # bs) + 2) div 3 = (length bs + 2) div 3 + 1" by (simp add: div_add_self2 [of 3, symmetric])
  with 4 show ?case by simp
qed simp_all

lemma strip_padding_btoa:
  assumes "list_all (\<lambda>n. n < 64) (encode_sextets bs)"
  shows "strip_padding (btoa bs) = map sextet_char (encode_sextets bs)"
proof -
  let ?s = "map sextet_char (encode_sextets bs)" and ?k = "(3 - length bs mod 3) mod 3"
  have len: "length (btoa bs) mod 4 = 0"
    using length_encode_sextets [of bs] by (simp add: btoa_def b64_padding_def)
  have last: "?s \<noteq> [] \<Longrightarrow> last ?s \<noteq> CHR ''=''"
    using assms sextet_char_plain by (metis (no_types, lifting) last_in_set last_map list.map_disc_iff list_all_iff)
  have "?k = 0 \<or> ?k = 1 \<or> ?k = 2" by linarith
  moreover have "?k \<noteq> 0 \<Longrightarrow> ?s \<noteq> []" by (cases bs rule: encode_sextets.cases) auto
  ultimately show ?thesis
    using len last
    by (auto simp: strip_padding_def btoa_def b64_padding_def Let_def numeral_2_eq_2 butlast_append)
qed

lemma btoa_no_space:
  assumes "list_all (\<lambda>n. n < 64) (encode_sextets bs)"
  shows "filter (\<lambda>c. \<not> ascii_space c) (btoa bs) = btoa bs"
proof -
  have "\<not> ascii_space c" if "\<not> is_space c" for c
    using that by (auto simp: ascii_space_def is_space_def Let_def)
  moreover have "\<not> ascii_space CHR ''=''" by (simp add: ascii_space_def)
  ultimately show ?thesis
    using assms sextet_char_plain by (auto simp: btoa_def b64_padding_def list_all_iff filter_id_conv)
qed

lemma atob_btoa:
  assumes "list_all (\<lambda>b. b < 256) bs"
  shows "atob (btoa bs) = Some bs"
  using encode_sextets_bound [OF assms] decode_encode_sextets [OF assms]
  by (simp add: atob_def btoa_no_space strip_padding_btoa all_sextets_map)

lemma decode_encode_B64: "decodeB64 (encodeB64 bs) = Inr bs"
proof -
  have "unat b < 256" for b :: uint8
    by (rule order.strict_trans2 [OF unsigned_less]) simp
  then have "list_all (\<lambda>b. b < 256) (map unat bs)" by (simp add: list_all_iff)
  then have "atob (btoa (map unat bs)) = Some (map unat bs)" by (rule atob_btoa)
  moreover have "map word_of_nat (map unat bs) = bs" by (simp add: map_idI)
  ultimately show ?thesis by (simp add: decodeB64_def encodeB64_def is_prefix_iff del: map_map)
qed

text \<open>
  The base64 codec of the wire format is lossless for every byte string: decoding an encoded
  byte string gives the bytes back, and two byte strings have the same encoding only if they are equal.
\<close>
theorem b64_roundtrip: "decodeB64 (encodeB64 bs) = Inr bs \<and> (encodeB64 bs = encodeB64 cs \<longleftrightarrow> bs = cs)"
  by (metis decode_encode_B64 sum.inject(2))

end
