(* ===== verification/Account_Bundle.thy ===== *)
theory Account_Bundle
  imports Base64 Js_Value "HOL-Library.Monad_Syntax"
begin

text \<open>
  The published key bundle (\<open>packages/sdk/src/account-bundle-codec.ts\<close>) and its local copy
  (\<open>apps/web/src/vault/account-bundle.ts\<close>).

  \<open>JSON.parse\<close> is the argument \<open>json_parse\<close> (\<open>None\<close> where it throws).  \<open>JSON.stringify\<close> is used on
  objects of strings only, and modelled for these.
\<close>


section \<open>JSON text of an object of strings\<close>

definition hex_char :: "nat \<Rightarrow> char" where
  "hex_char n = ''0123456789abcdef'' ! n"

definition json_escape :: "char \<Rightarrow> string" where
  "json_escape c =
     (let n = (of_char c :: nat)
      in if n = 0x22 then [CHR 0x5C, CHR 0x22]
         else if n = 0x5C then [CHR 0x5C, CHR 0x5C]
         else if n = 0x08 then [CHR 0x5C, CHR ''b'']
         else if n = 0x0C then [CHR 0x5C, CHR ''f'']
         else if n = 0x0A then [CHR 0x5C, CHR ''n'']
         else if n = 0x0D then [CHR 0x5C, CHR ''r'']
         else if n = 0x09 then [CHR 0x5C, CHR ''t'']
         else if n < 0x20 then [CHR 0x5C] @ ''u00'' @ [hex_char (n div 16), hex_char (n mod 16)]
         else [c])"

definition json_string :: "string \<Rightarrow> string" where
  "json_string s = [CHR 0x22] @ concat (map json_escape s) @ [CHR 0x22]"

fun json_members :: "(string \<times> string) list \<Rightarrow> string" where
  "json_members [] = []"
| "json_members [(k, v)] = json_string k @ '':'' @ json_string v"
| "json_members ((k, v) # kvs) = json_string k @ '':'' @ json_string v @ '','' @ json_members kvs"

definition json_object :: "(string \<times> string) list \<Rightarrow> string" where
  "json_object kvs = ''{'' @ json_members kvs @ ''}''"

definition units :: "string \<Rightarrow> ustring" where
  "units s = map of_char s"

definition utf8_bytes :: "ustring \<Rightarrow> bytes" where
  "utf8_bytes s = map word_of_nat (text_encode s)"


section \<open>Fields and patterns\<close>

definition ACCOUNT_BUNDLE_FORMAT :: string where
  "ACCOUNT_BUNDLE_FORMAT = ''c04-account-bundle/1''"

definition ACCOUNT_BUNDLE_FIELDS :: "string list" where
  "ACCOUNT_BUNDLE_FIELDS =
     [''format'', ''accountId'', ''vaultId'', ''itemId'', ''kdfParametersCbor'', ''wrappedAccountKey'', ''wrappedVaultKey'',
      ''wrappedItemKey'', ''wrappedRecoveryKey'']"

record account_bundle =
  ab_accountId :: id
  ab_vaultId :: id
  ab_itemId :: id
  ab_kdfParametersCbor :: bytes
  ab_wrappedAccountKey :: bytes
  ab_wrappedVaultKey :: bytes
  ab_wrappedItemKey :: bytes
  ab_wrappedRecoveryKey :: bytes

record account_bundle_fields =
  bf_format :: string
  bf_accountId :: string
  bf_vaultId :: string
  bf_itemId :: string
  bf_kdfParametersCbor :: string
  bf_wrappedAccountKey :: string
  bf_wrappedVaultKey :: string
  bf_wrappedItemKey :: string
  bf_wrappedRecoveryKey :: string

definition ordered_fields :: "account_bundle_fields \<Rightarrow> (string \<times> string) list" where
  "ordered_fields f =
     [(''format'', bf_format f), (''accountId'', bf_accountId f), (''vaultId'', bf_vaultId f), (''itemId'', bf_itemId f),
      (''kdfParametersCbor'', bf_kdfParametersCbor f), (''wrappedAccountKey'', bf_wrappedAccountKey f),
      (''wrappedVaultKey'', bf_wrappedVaultKey f), (''wrappedItemKey'', bf_wrappedItemKey f),
      (''wrappedRecoveryKey'', bf_wrappedRecoveryKey f)]"

definition alnum :: "char \<Rightarrow> bool" where
  "alnum c \<longleftrightarrow> c \<in> set ''ABCDEFGHIJKLMNOPQRSTUVWXYZabcdefghijklmnopqrstuvwxyz0123456789''"

definition id_pattern :: "string \<Rightarrow> bool" where
  "id_pattern s \<longleftrightarrow>
     (case s of
        [] \<Rightarrow> False
      | c # cs \<Rightarrow> alnum c \<and> length cs \<le> 127 \<and> list_all (\<lambda>d. alnum d \<or> d = CHR ''_'' \<or> d = CHR ''-'') cs)"

definition b64_digit :: "char \<Rightarrow> bool" where
  "b64_digit c \<longleftrightarrow> alnum c \<or> c = CHR ''+'' \<or> c = CHR ''/''"

definition b64_pattern :: "string \<Rightarrow> bool" where
  "b64_pattern s \<longleftrightarrow>
     is_prefix ''b64:'' s \<and>
     (let body = drop 4 s; digits = takeWhile b64_digit body; tail = dropWhile b64_digit body
      in digits \<noteq> [] \<and> length tail \<le> 2 \<and> list_all (\<lambda>c. c = CHR ''='') tail)"

definition MAX_OUTER_BYTES :: int where "MAX_OUTER_BYTES = 512 * 1024"
definition MAX_WRAPPER_BYTES :: int where "MAX_WRAPPER_BYTES = 64 * 1024"
definition MAX_KDF_PARAMS_BYTES :: int where "MAX_KDF_PARAMS_BYTES = 512"


section \<open>Codec\<close>

definition encoded_fields :: "account_bundle \<Rightarrow> account_bundle_fields" where
  "encoded_fields b =
     \<lparr>bf_format = ACCOUNT_BUNDLE_FORMAT, bf_accountId = ab_accountId b, bf_vaultId = ab_vaultId b, bf_itemId = ab_itemId b,
      bf_kdfParametersCbor = encodeB64 (ab_kdfParametersCbor b), bf_wrappedAccountKey = encodeB64 (ab_wrappedAccountKey b),
      bf_wrappedVaultKey = encodeB64 (ab_wrappedVaultKey b), bf_wrappedItemKey = encodeB64 (ab_wrappedItemKey b),
      bf_wrappedRecoveryKey = encodeB64 (ab_wrappedRecoveryKey b)\<rparr>"

definition canonical_bytes :: "account_bundle_fields \<Rightarrow> bytes" where
  "canonical_bytes f = utf8_bytes (units (json_object (ordered_fields f)))"

definition buildAccountBundle :: "account_bundle \<Rightarrow> string" where
  "buildAccountBundle b = encodeB64 (canonical_bytes (encoded_fields b))"

definition safeDecode :: "string \<Rightarrow> bytes option" where
  "safeDecode v = (case decodeB64 v of Inl _ \<Rightarrow> None | Inr b \<Rightarrow> Some b)"

definition bounded_b64 :: "int \<Rightarrow> string \<Rightarrow> bool" where
  "bounded_b64 cap v \<longleftrightarrow>
     b64_pattern v \<and> (case safeDecode v of None \<Rightarrow> False | Some b \<Rightarrow> b \<noteq> [] \<and> int (length b) \<le> cap)"

text \<open>The own string properties of a record, if it has exactly the fields of the format.\<close>

definition bundle_record :: "jsval \<Rightarrow> account_bundle_fields option" where
  "bundle_record v =
     (case v of
        JObj r \<Rightarrow>
          if length r \<noteq> length ACCOUNT_BUNDLE_FIELDS \<or>
             \<not> list_all (\<lambda>k. jhas r k \<and> jstring (jget r k) \<noteq> None) ACCOUNT_BUNDLE_FIELDS then None
          else do {
            fmt \<leftarrow> jstring (jget r ''format'');
            a \<leftarrow> jstring (jget r ''accountId'');
            v \<leftarrow> jstring (jget r ''vaultId'');
            i \<leftarrow> jstring (jget r ''itemId'');
            kdf \<leftarrow> jstring (jget r ''kdfParametersCbor'');
            wa \<leftarrow> jstring (jget r ''wrappedAccountKey'');
            wv \<leftarrow> jstring (jget r ''wrappedVaultKey'');
            wi \<leftarrow> jstring (jget r ''wrappedItemKey'');
            wr \<leftarrow> jstring (jget r ''wrappedRecoveryKey'');
            Some \<lparr>bf_format = fmt, bf_accountId = a, bf_vaultId = v, bf_itemId = i, bf_kdfParametersCbor = kdf,
              bf_wrappedAccountKey = wa, bf_wrappedVaultKey = wv, bf_wrappedItemKey = wi, bf_wrappedRecoveryKey = wr\<rparr>
          }
      | _ \<Rightarrow> None)"

definition fields_ok :: "account_bundle_fields \<Rightarrow> bool" where
  "fields_ok f \<longleftrightarrow>
     bf_format f = ACCOUNT_BUNDLE_FORMAT \<and> id_pattern (bf_accountId f) \<and> id_pattern (bf_vaultId f) \<and>
     id_pattern (bf_itemId f) \<and> bounded_b64 MAX_KDF_PARAMS_BYTES (bf_kdfParametersCbor f) \<and>
     bounded_b64 MAX_WRAPPER_BYTES (bf_wrappedAccountKey f) \<and> bounded_b64 MAX_WRAPPER_BYTES (bf_wrappedVaultKey f) \<and>
     bounded_b64 MAX_WRAPPER_BYTES (bf_wrappedItemKey f) \<and> bounded_b64 MAX_WRAPPER_BYTES (bf_wrappedRecoveryKey f)"

definition parseAccountBundle :: "(ustring \<Rightarrow> jsval option) \<Rightarrow> string \<Rightarrow> account_bundle_fields option" where
  "parseAccountBundle json_parse wire =
     (if \<not> b64_pattern wire then None
      else do {
        outerBytes \<leftarrow> safeDecode wire;
        if outerBytes = [] \<or> int (length outerBytes) > MAX_OUTER_BYTES then None
        else do {
          text \<leftarrow> text_decode (map unat outerBytes);
          parsed \<leftarrow> json_parse text;
          f \<leftarrow> bundle_record parsed;
          if fields_ok f \<and> canonical_bytes f = outerBytes then Some f else None
        }
      })"


section \<open>Local copy\<close>

text \<open>\<open>localStorage\<close> is a map of strings; a missing field of the stored object makes \<open>decodeB64\<close> throw.\<close>

type_synonym local_storage = "(string, string) js_map"

definition bundle_key :: "id \<Rightarrow> string" where
  "bundle_key a = ''zkpm.bundle.'' @ a"

definition stored_fields :: "account_bundle \<Rightarrow> (string \<times> string) list" where
  "stored_fields b = tl (ordered_fields (encoded_fields b))"

definition saveAccountBundle :: "account_bundle \<Rightarrow> local_storage \<Rightarrow> local_storage" where
  "saveAccountBundle b st = AList.update (bundle_key (ab_accountId b)) (json_object (stored_fields b)) st"

text \<open>\<open>None\<close>: the function throws; \<open>Some None\<close>: it returns null.\<close>

definition decoded_member :: "(string \<times> jsval) list \<Rightarrow> string \<Rightarrow> bytes option" where
  "decoded_member r k = (case jget r k of JStr s \<Rightarrow> safeDecode s | _ \<Rightarrow> None)"

definition loadAccountBundle :: "(ustring \<Rightarrow> jsval option) \<Rightarrow> id \<Rightarrow> local_storage \<Rightarrow> account_bundle option option" where
  "loadAccountBundle json_parse a st =
     (case map_of st (bundle_key a) of
        None \<Rightarrow> Some None
      | Some raw \<Rightarrow>
          if raw = [] then Some None
          else do {
            parsed \<leftarrow> json_parse (units raw);
            r \<leftarrow> jobject parsed;
            kdf \<leftarrow> decoded_member r ''kdfParametersCbor'';
            wa \<leftarrow> decoded_member r ''wrappedAccountKey'';
            wv \<leftarrow> decoded_member r ''wrappedVaultKey'';
            wi \<leftarrow> decoded_member r ''wrappedItemKey'';
            wr \<leftarrow> decoded_member r ''wrappedRecoveryKey'';
            ai \<leftarrow> jstring (jget r ''accountId'');
            vi \<leftarrow> jstring (jget r ''vaultId'');
            ii \<leftarrow> jstring (jget r ''itemId'');
            Some (Some \<lparr>ab_accountId = ai, ab_vaultId = vi, ab_itemId = ii, ab_kdfParametersCbor = kdf,
              ab_wrappedAccountKey = wa, ab_wrappedVaultKey = wv, ab_wrappedItemKey = wi, ab_wrappedRecoveryKey = wr\<rparr>)
          })"

definition hasAccountBundle :: "id \<Rightarrow> local_storage \<Rightarrow> bool" where
  "hasAccountBundle a st \<longleftrightarrow> map_of st (bundle_key a) \<noteq> None"


section \<open>Round trip\<close>

lemma b64_digit_sextet: "n < 64 \<Longrightarrow> b64_digit (sextet_char n)"
proof -
  have "list_all (\<lambda>n. b64_digit (sextet_char n)) [0..<64]" by code_simp
  then show "n < 64 \<Longrightarrow> b64_digit (sextet_char n)" by (simp add: list_all_iff)
qed

lemma unat_byte: "unat (b :: uint8) < 256"
  by (rule order.strict_trans2 [OF unsigned_less]) simp

lemma b64_pattern_encode:
  assumes "bs \<noteq> []"
  shows "b64_pattern (encodeB64 bs)"
proof -
  let ?ns = "encode_sextets (map unat bs)" and ?k = "(3 - length bs mod 3) mod 3"
  have "list_all (\<lambda>n. n < 64) ?ns"
    by (rule encode_sextets_bound) (simp add: list_all_iff unat_byte)
  then have digits: "list_all b64_digit (map sextet_char ?ns)" by (auto simp: list_all_iff b64_digit_sextet)
  have eq: "\<not> b64_digit (CHR ''='')" by code_simp
  have btoa: "btoa (map unat bs) = map sextet_char ?ns @ replicate ?k (CHR ''='')"
    by (simp add: btoa_def b64_padding_def)
  have "takeWhile b64_digit (xs @ replicate k (CHR ''='')) = xs \<and>
      dropWhile b64_digit (xs @ replicate k (CHR ''='')) = replicate k (CHR ''='')" if "list_all b64_digit xs" for xs k
    using that eq by (induction xs) (cases k; simp)+
  from this [OF digits, of ?k] have
    "takeWhile b64_digit (btoa (map unat bs)) = map sextet_char ?ns"
    "dropWhile b64_digit (btoa (map unat bs)) = replicate ?k (CHR ''='')" by (simp_all add: btoa)
  moreover have "?ns \<noteq> []" using assms by (cases "map unat bs" rule: encode_sextets.cases) auto
  ultimately show ?thesis
    by (simp add: b64_pattern_def encodeB64_def B64_PREFIX_def is_prefix_iff Let_def list_all_iff)
qed

lemma bounded_b64_encode: "bs \<noteq> [] \<Longrightarrow> int (length bs) \<le> cap \<Longrightarrow> bounded_b64 cap (encodeB64 bs)"
  by (simp add: bounded_b64_def b64_pattern_encode safeDecode_def decode_encode_B64)

lemma units_well_formed: "well_formed_utf16 (units s) \<and> take 1 (units s) \<noteq> [0xFEFF]"
proof -
  have small: "(of_char c :: nat) < 256" for c by (rule nat_of_char_less_256)
  have bom: "(of_char c :: nat) \<noteq> 0xFEFF" for c using small [of c] by linarith
  have "well_formed_utf16 us" if "list_all (\<lambda>u. u < 256) us" for us
    using that
    by (induction us rule: well_formed_utf16.induct) (auto simp: high_surrogate_def low_surrogate_def)
  moreover have "list_all (\<lambda>u. u < 256) (units s)" by (simp add: units_def list_all_iff small)
  moreover have "take 1 (units s) \<noteq> [0xFEFF]" by (cases s) (simp_all add: units_def bom)
  ultimately show ?thesis by blast
qed

lemma text_encode_units_length: "length (text_encode (units s)) \<le> 2 * length s"
proof -
  have *: "length (concat (map encode_scalar (utf16_scalars us))) \<le> 2 * length us" if "list_all (\<lambda>u. u < 256) us" for us
    using that
    by (induction us rule: utf16_scalars.induct)
       (auto simp: high_surrogate_def low_surrogate_def unit_scalar_def encode_scalar_def)
  have "list_all (\<lambda>u. u < 256) (units s)" by (simp add: units_def list_all_iff)
  from * [OF this] show ?thesis by (simp add: text_encode_def) (simp add: units_def)
qed

lemma text_decode_units: "text_decode (map unat (utf8_bytes (units s))) = Some (units s)"
  using units_well_formed [of s] by (simp add: utf8_bytes_def unat_encode text_decode_encode del: map_map)

text \<open>A bundle the format can carry.\<close>

definition publishable :: "account_bundle \<Rightarrow> bool" where
  "publishable b \<longleftrightarrow>
     id_pattern (ab_accountId b) \<and> id_pattern (ab_vaultId b) \<and> id_pattern (ab_itemId b) \<and>
     ab_kdfParametersCbor b \<noteq> [] \<and> int (length (ab_kdfParametersCbor b)) \<le> MAX_KDF_PARAMS_BYTES \<and>
     list_all (\<lambda>w. w \<noteq> [] \<and> int (length w) \<le> MAX_WRAPPER_BYTES)
       [ab_wrappedAccountKey b, ab_wrappedVaultKey b, ab_wrappedItemKey b, ab_wrappedRecoveryKey b] \<and>
     int (length (canonical_bytes (encoded_fields b))) \<le> MAX_OUTER_BYTES"

definition string_object :: "(string \<times> string) list \<Rightarrow> jsval" where
  "string_object kvs = JObj (map (\<lambda>(k, v). (k, JStr v)) kvs)"

lemma bundle_record_ordered: "bundle_record (string_object (ordered_fields f)) = Some f"
  by (simp add: bundle_record_def string_object_def ordered_fields_def ACCOUNT_BUNDLE_FIELDS_def jhas_def jget_def)

lemma fields_ok_encoded: "publishable b \<Longrightarrow> fields_ok (encoded_fields b)"
  by (simp add: publishable_def fields_ok_def encoded_fields_def bounded_b64_encode)

lemma canonical_bytes_nonempty: "canonical_bytes f \<noteq> []"
proof
  assume "canonical_bytes f = []"
  then have "text_encode (units (json_object (ordered_fields f))) = []"
    by (simp add: canonical_bytes_def utf8_bytes_def)
  then have "text_decode [] = Some (units (json_object (ordered_fields f)))"
    using text_decode_encode [OF conjunct1 [OF units_well_formed] conjunct2 [OF units_well_formed]] by metis
  then show False by (simp add: text_decode_def drop_bom_def units_def json_object_def)
qed

lemma parseAccountBundle_build:
  assumes "publishable b"
    and "json_parse (units (json_object (ordered_fields (encoded_fields b)))) = Some (string_object (ordered_fields (encoded_fields b)))"
  shows "parseAccountBundle json_parse (buildAccountBundle b) = Some (encoded_fields b)"
proof -
  let ?f = "encoded_fields b"
  have "int (length (canonical_bytes ?f)) \<le> MAX_OUTER_BYTES" using assms(1) by (simp add: publishable_def)
  moreover have "text_decode (map unat (canonical_bytes ?f)) = Some (units (json_object (ordered_fields ?f)))"
    by (simp add: canonical_bytes_def text_decode_units del: map_map)
  ultimately show ?thesis
    using assms(2) fields_ok_encoded [OF assms(1)]
    by (simp add: parseAccountBundle_def buildAccountBundle_def b64_pattern_encode canonical_bytes_nonempty safeDecode_def
        decode_encode_B64 bundle_record_ordered)
qed

definition sample_account :: account_bundle where
  "sample_account = \<lparr>ab_accountId = ''a'', ab_vaultId = ''v'', ab_itemId = ''i'', ab_kdfParametersCbor = [1],
     ab_wrappedAccountKey = [2], ab_wrappedVaultKey = [3], ab_wrappedItemKey = [4, 5], ab_wrappedRecoveryKey = [6]\<rparr>"

lemma publishable_sample: "publishable sample_account"
proof -
  have "int (length (canonical_bytes (encoded_fields sample_account))) \<le>
      2 * int (length (json_object (ordered_fields (encoded_fields sample_account))))"
    using text_encode_units_length [of "json_object (ordered_fields (encoded_fields sample_account))"]
    by (simp add: canonical_bytes_def utf8_bytes_def)
  also have "\<dots> \<le> MAX_OUTER_BYTES" by code_simp
  finally have "int (length (canonical_bytes (encoded_fields sample_account))) \<le> MAX_OUTER_BYTES" .
  then show ?thesis
    by (simp add: publishable_def sample_account_def id_pattern_def alnum_def MAX_KDF_PARAMS_BYTES_def MAX_WRAPPER_BYTES_def)
qed

text \<open>
  The published key bundle survives its wire form, and its reader trusts nothing else.  A bundle
  within the limits of the format is read back from what \<open>buildAccountBundle\<close> writes, with every key
  wrapper decoding to its bytes; and whatever text the reader accepts has valid identifiers, wrappers
  within the limits, and the very bytes the writer would produce for these fields.
\<close>
theorem account_bundle_roundtrip:
  assumes "publishable b"
    and "json_parse (units (json_object (ordered_fields (encoded_fields b)))) = Some (string_object (ordered_fields (encoded_fields b)))"
  shows "parseAccountBundle json_parse (buildAccountBundle b) = Some (encoded_fields b) \<and>
    decodeB64 (bf_wrappedItemKey (encoded_fields b)) = Inr (ab_wrappedItemKey b) \<and>
    decodeB64 (bf_wrappedAccountKey (encoded_fields b)) = Inr (ab_wrappedAccountKey b) \<and>
    decodeB64 (bf_wrappedVaultKey (encoded_fields b)) = Inr (ab_wrappedVaultKey b) \<and>
    (\<forall>wire f. parseAccountBundle json_parse wire = Some f \<longrightarrow> fields_ok f \<and> safeDecode wire = Some (canonical_bytes f))"
proof -
  have "fields_ok f \<and> safeDecode wire = Some (canonical_bytes f)"
    if "parseAccountBundle json_parse wire = Some f" for wire f
    using that by (auto simp: parseAccountBundle_def split: if_splits bind_splits)
  with parseAccountBundle_build [of b json_parse, OF assms] show ?thesis by (auto simp: encoded_fields_def decode_encode_B64)
qed

theorem account_bundle_roundtrip_witness:
  "\<exists>json_parse. parseAccountBundle json_parse (buildAccountBundle sample_account) = Some (encoded_fields sample_account)"
  using account_bundle_roundtrip [OF publishable_sample, of "\<lambda>_. Some (string_object (ordered_fields (encoded_fields sample_account)))"]
  by blast

lemma stored_bundle_roundtrip:
  assumes "json_parse (units (json_object (stored_fields b))) = Some (string_object (stored_fields b))"
  shows "loadAccountBundle json_parse (ab_accountId b) (saveAccountBundle b st) = Some (Some b)"
    and "a \<noteq> ab_accountId b \<Longrightarrow>
      loadAccountBundle json_parse a (saveAccountBundle b st) = loadAccountBundle json_parse a st"
  using assms
  by (simp_all add: loadAccountBundle_def saveAccountBundle_def bundle_key_def string_object_def stored_fields_def
      ordered_fields_def encoded_fields_def json_object_def decoded_member_def safeDecode_def decode_encode_B64 jget_def)

end
