(* ===== verification/Vault_Session.thy ===== *)
theory Vault_Session
  imports Vault_Item Repository Account_Bundle
begin

text \<open>
  \<open>VaultSession\<close> of \<open>apps/web/src/vault/vault-session.ts\<close>: the one object of the web client that
  holds decrypted items.  Its methods are \<open>async\<close> and may be suspended at every \<open>await\<close> while
  others run, so a method is cut at its awaits: the part up to the first one is a definition on
  the state, what follows is the continuation of a task, run by \<open>vs_resume\<close> with the value the
  promise settles with.  The crypto worker, the repository, the sync engine and the clipboard
  answer anything.  \<open>decode\<close> is \<open>decodeItemData\<close> (\<open>None\<close> where it throws), and random identifiers are
  arguments.

  \<open>vs_log\<close> records the durable calls of the session and the values the clipboard got, the latest
  first.  \<open>vs_scheduled\<close> holds the handles of the timeouts that have been set and neither fired nor
  been cleared: two copies under way at once leave more of them than \<open>clipboardTimer\<close> remembers.
\<close>


section \<open>State\<close>

datatype vs_effect =
    Enqueued mutation
  | Conflict_replaced id mutation
  | Undone id
  | Clipboard string

record vault_session =
  vs_session :: "int option"
  vs_bundle :: "account_bundle option"
  vs_items :: "(id, item_data) js_map"
  vs_revisions :: "(id, int) js_map"
  vs_deleted :: "id list"
  vs_timer :: "nat option"
  vs_scheduled :: "nat list"
  vs_handles :: nat
  vs_selected :: "id option"
  vs_generation :: int
  vs_log :: "vs_effect list"

definition vault_session_new :: vault_session where
  "vault_session_new = \<lparr>vs_session = None, vs_bundle = None, vs_items = [], vs_revisions = [], vs_deleted = [],
     vs_timer = None, vs_scheduled = [], vs_handles = 0, vs_selected = None, vs_generation = 0, vs_log = []\<rparr>"

definition isGenerationCurrent :: "vault_session \<Rightarrow> int \<Rightarrow> bool" where
  "isGenerationCurrent s g \<longleftrightarrow> g = vs_generation s \<and> vs_session s \<noteq> None"

definition isUnlocked :: "vault_session \<Rightarrow> bool" where
  "isUnlocked s \<longleftrightarrow> vs_session s \<noteq> None"

definition set_add :: "'a \<Rightarrow> 'a list \<Rightarrow> 'a list" where
  "set_add x xs = (if x \<in> set xs then xs else xs @ [x])"

definition set_remove :: "'a \<Rightarrow> 'a list \<Rightarrow> 'a list" where
  "set_remove x xs = filter (\<lambda>y. y \<noteq> x) xs"


section \<open>Tasks\<close>

text \<open>What a load carries across its awaits: generation, session handle and bundle.\<close>

record load_ctx =
  ld_generation :: int
  ld_session :: int
  ld_bundle :: account_bundle

datatype vs_task =
    V_unlock account_bundle
  | V_list load_ctx
  | V_open_item load_ctx item_record "item_record list"
  | V_queue load_ctx
  | V_open_queued load_ctx mutation "queued_mutation list"
  | V_lock
  | V_save_seal int account_bundle id item_data
  | V_save_enqueue int id item_data
  | V_delete_seal account_bundle id
  | V_delete_enqueue id id
  | V_undo_get id id
  | V_undo_dequeue id
  | V_copy string
  | V_decrypt_current conflict
  | V_decrypt_attempted conflict bytes
  | V_resolve_seal int account_bundle conflict item_data
  | V_resolve_enqueue int id item_data

record decrypted_conflict =
  dc_mutationId :: id
  dc_currentRevision :: int
  dc_currentData :: item_data
  dc_updatedAt :: string
  dc_baseRevision :: int
  dc_attemptedData :: item_data

datatype vs_result =
    R_unit
  | R_id id
  | R_bool bool
  | R_conflict decrypted_conflict

datatype vs_outcome = V_done vs_result | V_throws | V_await vs_task

datatype vs_answer =
    W_session "int option"
  | W_items "item_record list option"
  | W_queue "queued_mutation list option"
  | W_bytes "bytes option"
  | W_settled bool
  | W_queued "queued_mutation option option"


section \<open>Loading\<close>

fun load_records ::
  "load_ctx \<Rightarrow> item_record list \<Rightarrow> vault_session \<Rightarrow> vault_session \<times> vs_outcome" where
  "load_records c [] s =
     (if isGenerationCurrent s (ld_generation c) then (s, V_await (V_queue c)) else (s, V_done R_unit))"
| "load_records c (r # rs) s =
     (if \<not> isGenerationCurrent s (ld_generation c) then (s, V_done R_unit)
      else
        (let s1 = s\<lparr>vs_revisions := AList.update (itemId r) (revision r) (vs_revisions s)\<rparr>
         in if deleted r then load_records c rs (s1\<lparr>vs_deleted := set_add (itemId r) (vs_deleted s1)\<rparr>)
            else (case decodeB64 (ciphertext r) of
                    Inl _ \<Rightarrow> load_records c rs s1
                  | Inr _ \<Rightarrow> (s1, V_await (V_open_item c r rs)))))"

fun load_queued ::
  "load_ctx \<Rightarrow> queued_mutation list \<Rightarrow> vault_session \<Rightarrow> vault_session \<times> vs_outcome" where
  "load_queued c [] s = (s, V_done R_unit)"
| "load_queued c (q # qs) s =
     (if \<not> isGenerationCurrent s (ld_generation c) then (s, V_done R_unit)
      else if q_state q = CONFLICT then load_queued c qs s
      else if mut_vaultId (q_mutation q) \<noteq> ab_vaultId (ld_bundle c) then load_queued c qs s
      else if mut_deleted (q_mutation q)
      then load_queued c qs (s\<lparr>vs_deleted := set_add (mut_itemId (q_mutation q)) (vs_deleted s)\<rparr>)
      else (case decodeB64 (mut_ciphertext (q_mutation q)) of
              Inl _ \<Rightarrow> load_queued c qs s
            | Inr _ \<Rightarrow> (s, V_await (V_open_queued c (q_mutation q) qs))))"

definition loadAllItemsIntoMemory :: "vault_session \<Rightarrow> vault_session \<times> vs_outcome" where
  "loadAllItemsIntoMemory s =
     (case (vs_session s, vs_bundle s) of
        (Some session, Some bundle) \<Rightarrow>
          (s, V_await (V_list \<lparr>ld_generation = vs_generation s, ld_session = session, ld_bundle = bundle\<rparr>))
      | _ \<Rightarrow> (s, V_done R_unit))"

definition list_resume ::
  "load_ctx \<Rightarrow> item_record list option \<Rightarrow> vault_session \<Rightarrow> vault_session \<times> vs_outcome" where
  "list_resume c r s =
     (case r of
        None \<Rightarrow> (s, V_throws)
      | Some records \<Rightarrow>
          if \<not> isGenerationCurrent s (ld_generation c) then (s, V_done R_unit) else load_records c records s)"

text \<open>A rejected or undecodable payload is caught: the loop goes on with the next record.\<close>

definition open_item_resume ::
  "(bytes \<Rightarrow> item_data option) \<Rightarrow> load_ctx \<Rightarrow> item_record \<Rightarrow> item_record list \<Rightarrow> bytes option \<Rightarrow>
   vault_session \<Rightarrow> vault_session \<times> vs_outcome" where
  "open_item_resume decode c r rs answer s =
     (case answer of
        None \<Rightarrow> load_records c rs s
      | Some plaintext \<Rightarrow>
          if \<not> isGenerationCurrent s (ld_generation c) then (s, V_done R_unit)
          else (case decode plaintext of
                  None \<Rightarrow> load_records c rs s
                | Some d \<Rightarrow> load_records c rs (s\<lparr>vs_items := AList.update (itemId r) d (vs_items s)\<rparr>)))"

definition queue_resume ::
  "load_ctx \<Rightarrow> queued_mutation list option \<Rightarrow> vault_session \<Rightarrow> vault_session \<times> vs_outcome" where
  "queue_resume c r s =
     (case r of
        None \<Rightarrow> (s, V_throws)
      | Some queued \<Rightarrow>
          if \<not> isGenerationCurrent s (ld_generation c) then (s, V_done R_unit) else load_queued c queued s)"

definition open_queued_resume ::
  "(bytes \<Rightarrow> item_data option) \<Rightarrow> load_ctx \<Rightarrow> mutation \<Rightarrow> queued_mutation list \<Rightarrow> bytes option \<Rightarrow>
   vault_session \<Rightarrow> vault_session \<times> vs_outcome" where
  "open_queued_resume decode c m qs answer s =
     (case answer of
        None \<Rightarrow> load_queued c qs s
      | Some plaintext \<Rightarrow>
          if \<not> isGenerationCurrent s (ld_generation c) then (s, V_done R_unit)
          else (case decode plaintext of
                  None \<Rightarrow> load_queued c qs s
                | Some d \<Rightarrow>
                    load_queued c qs
                      (s\<lparr>vs_items := AList.update (mut_itemId m) d (vs_items s),
                         vs_deleted := set_remove (mut_itemId m) (vs_deleted s)\<rparr>)))"


section \<open>Unlock and lock\<close>

text \<open>\<open>unlockWithPassword\<close> and \<open>unlockWithRecovery\<close> differ in the request to the worker only.\<close>

definition vs_unlock_start :: "account_bundle \<Rightarrow> vault_session \<Rightarrow> vault_session \<times> vs_outcome" where
  "vs_unlock_start bundle s = (s\<lparr>vs_generation := vs_generation s + 1\<rparr>, V_await (V_unlock bundle))"

definition vs_unlock_resume :: "account_bundle \<Rightarrow> int option \<Rightarrow> vault_session \<Rightarrow> vault_session \<times> vs_outcome" where
  "vs_unlock_resume bundle answer s =
     (case answer of
        None \<Rightarrow> (s, V_throws)
      | Some session \<Rightarrow> loadAllItemsIntoMemory (s\<lparr>vs_session := Some session, vs_bundle := Some bundle\<rparr>))"

definition cancelClipboardTimer :: "vault_session \<Rightarrow> vault_session" where
  "cancelClipboardTimer s =
     (case vs_timer s of
        None \<Rightarrow> s
      | Some h \<Rightarrow> s\<lparr>vs_timer := None, vs_scheduled := set_remove h (vs_scheduled s)\<rparr>)"

definition clearClipboardTimer :: "vault_session \<Rightarrow> vault_session" where
  "clearClipboardTimer s =
     (let s1 = cancelClipboardTimer s in s1\<lparr>vs_log := Clipboard [] # vs_log s1\<rparr>)"

text \<open>The \<open>finally\<close> block of \<open>lock\<close>; an exception of the worker is rethrown after it.\<close>

definition lock_finally :: "vault_session \<Rightarrow> vault_session" where
  "lock_finally s =
     clearClipboardTimer
       (s\<lparr>vs_generation := vs_generation s + 1, vs_session := None, vs_bundle := None, vs_items := [],
          vs_revisions := [], vs_deleted := [], vs_selected := None\<rparr>)"

definition lock_start :: "vault_session \<Rightarrow> vault_session \<times> vs_outcome" where
  "lock_start s = (if vs_session s \<noteq> None then (s, V_await V_lock) else (lock_finally s, V_done R_unit))"

definition lock_resume :: "bool \<Rightarrow> vault_session \<Rightarrow> vault_session \<times> vs_outcome" where
  "lock_resume ok s = (lock_finally s, if ok then V_done R_unit else V_throws)"


section \<open>Reading\<close>

definition listVisible :: "vault_session \<Rightarrow> search_entry list" where
  "listVisible s =
     (if vs_session s = None then []
      else map (\<lambda>(i, d). \<lparr>se_itemId = i, se_title = d_title d, se_username = d_username d, se_url = d_url d,
                          se_type = d_type d\<rparr>)
             (filter (\<lambda>(i, d). i \<notin> set (vs_deleted s)) (vs_items s)))"

definition vs_search :: "vault_session \<Rightarrow> string \<Rightarrow> search_entry list" where
  "vs_search s query = searchItems (listVisible s) query"

definition getItemData :: "vault_session \<Rightarrow> id \<Rightarrow> item_data option" where
  "getItemData s i =
     (if vs_session s = None then None
      else if i \<in> set (vs_deleted s) then None
      else map_of (vs_items s) i)"

definition requireUnlocked :: "vault_session \<Rightarrow> (int \<times> account_bundle) option" where
  "requireUnlocked s =
     (case (vs_session s, vs_bundle s) of (Some session, Some bundle) \<Rightarrow> Some (session, bundle) | _ \<Rightarrow> None)"


section \<open>Writing\<close>

definition ENVELOPE_VERSION :: string where
  "ENVELOPE_VERSION = ''crypto-envelope/v1''"

definition new_mutation :: "id \<Rightarrow> id \<Rightarrow> id \<Rightarrow> int \<Rightarrow> bytes \<Rightarrow> bool \<Rightarrow> mutation" where
  "new_mutation mid item vault base envelope del =
     \<lparr>mut_mutationId = mid, mut_itemId = item, mut_vaultId = vault, mut_baseRevision = base,
      mut_ciphertext = encodeB64 envelope, mut_envelopeVersion = ENVELOPE_VERSION, mut_deleted = del\<rparr>"

definition base_revision :: "vault_session \<Rightarrow> id \<Rightarrow> int" where
  "base_revision s i = (case map_of (vs_revisions s) i of None \<Rightarrow> 0 | Some r \<Rightarrow> r)"

definition saveItem :: "item_data \<Rightarrow> id option \<Rightarrow> id \<Rightarrow> vault_session \<Rightarrow> vault_session \<times> vs_outcome" where
  "saveItem d item uuid s =
     (if validateItemData d \<noteq> [] then (s, V_throws)
      else case requireUnlocked s of
             None \<Rightarrow> (s, V_throws)
           | Some (session, bundle) \<Rightarrow>
               (s, V_await (V_save_seal (vs_generation s) bundle (case item of None \<Rightarrow> uuid | Some i \<Rightarrow> i) d)))"

definition save_seal_resume ::
  "int \<Rightarrow> account_bundle \<Rightarrow> id \<Rightarrow> item_data \<Rightarrow> id \<Rightarrow> bytes option \<Rightarrow> vault_session \<Rightarrow> vault_session \<times> vs_outcome" where
  "save_seal_resume g bundle i d uuid answer s =
     (case answer of
        None \<Rightarrow> (s, V_throws)
      | Some envelope \<Rightarrow>
          (s\<lparr>vs_log := Enqueued (new_mutation uuid i (ab_vaultId bundle) (base_revision s i) envelope False) # vs_log s\<rparr>,
           V_await (V_save_enqueue g i d)))"

definition save_enqueue_resume :: "int \<Rightarrow> id \<Rightarrow> item_data \<Rightarrow> bool \<Rightarrow> vault_session \<Rightarrow> vault_session \<times> vs_outcome" where
  "save_enqueue_resume g i d ok s =
     (if \<not> ok then (s, V_throws)
      else if isGenerationCurrent s g
      then (s\<lparr>vs_items := AList.update i d (vs_items s), vs_deleted := set_remove i (vs_deleted s)\<rparr>, V_done (R_id i))
      else (s, V_done (R_id i)))"

definition deleteItem :: "id \<Rightarrow> vault_session \<Rightarrow> vault_session \<times> vs_outcome" where
  "deleteItem i s =
     (case requireUnlocked s of
        None \<Rightarrow> (s, V_throws)
      | Some (session, bundle) \<Rightarrow>
          (case map_of (vs_items s) i of
             None \<Rightarrow> (s, V_throws)
           | Some d \<Rightarrow> (s, V_await (V_delete_seal bundle i))))"

definition delete_seal_resume ::
  "account_bundle \<Rightarrow> id \<Rightarrow> id \<Rightarrow> bytes option \<Rightarrow> vault_session \<Rightarrow> vault_session \<times> vs_outcome" where
  "delete_seal_resume bundle i uuid answer s =
     (case answer of
        None \<Rightarrow> (s, V_throws)
      | Some envelope \<Rightarrow>
          (s\<lparr>vs_log := Enqueued (new_mutation uuid i (ab_vaultId bundle) (base_revision s i) envelope True) # vs_log s\<rparr>,
           V_await (V_delete_enqueue i uuid)))"

definition delete_enqueue_resume :: "id \<Rightarrow> id \<Rightarrow> bool \<Rightarrow> vault_session \<Rightarrow> vault_session \<times> vs_outcome" where
  "delete_enqueue_resume i uuid ok s =
     (if \<not> ok then (s, V_throws)
      else (s\<lparr>vs_deleted := set_add i (vs_deleted s),
              vs_selected := (if vs_selected s = Some i then None else vs_selected s)\<rparr>, V_done (R_id uuid)))"

definition undoDeleteIfLocal :: "id \<Rightarrow> id \<Rightarrow> vault_session \<Rightarrow> vault_session \<times> vs_outcome" where
  "undoDeleteIfLocal m i s = (s, V_await (V_undo_get m i))"

definition undo_get_resume ::
  "id \<Rightarrow> id \<Rightarrow> queued_mutation option option \<Rightarrow> vault_session \<Rightarrow> vault_session \<times> vs_outcome" where
  "undo_get_resume m i answer s =
     (case answer of
        None \<Rightarrow> (s, V_throws)
      | Some None \<Rightarrow> (s, V_done (R_bool False))
      | Some (Some q) \<Rightarrow>
          if q_state q = LOCAL_CLEAN then (s, V_done (R_bool False))
          else (s\<lparr>vs_log := Undone m # vs_log s\<rparr>, V_await (V_undo_dequeue i)))"

definition undo_dequeue_resume :: "id \<Rightarrow> bool \<Rightarrow> vault_session \<Rightarrow> vault_session \<times> vs_outcome" where
  "undo_dequeue_resume i ok s =
     (if \<not> ok then (s, V_throws)
      else (s\<lparr>vs_deleted := set_remove i (vs_deleted s)\<rparr>, V_done (R_bool True)))"

definition copyToClipboard :: "string \<Rightarrow> vault_session \<Rightarrow> vault_session \<times> vs_outcome" where
  "copyToClipboard v s = (cancelClipboardTimer s, V_await (V_copy v))"

definition copy_resume :: "string \<Rightarrow> bool \<Rightarrow> vault_session \<Rightarrow> vault_session \<times> vs_outcome" where
  "copy_resume v ok s =
     (if \<not> ok then (s, V_throws)
      else (s\<lparr>vs_timer := Some (vs_handles s), vs_scheduled := vs_handles s # vs_scheduled s,
              vs_handles := Suc (vs_handles s), vs_log := Clipboard v # vs_log s\<rparr>, V_done R_unit))"

definition clipboard_timer_fires :: "nat \<Rightarrow> vault_session \<Rightarrow> vault_session" where
  "clipboard_timer_fires h s =
     (if h \<in> set (vs_scheduled s)
      then s\<lparr>vs_timer := None, vs_scheduled := set_remove h (vs_scheduled s), vs_log := Clipboard [] # vs_log s\<rparr>
      else s)"


section \<open>Conflicts\<close>

definition decryptConflict :: "conflict \<Rightarrow> vault_session \<Rightarrow> vault_session \<times> vs_outcome" where
  "decryptConflict c s =
     (case requireUnlocked s of
        None \<Rightarrow> (s, V_throws)
      | Some _ \<Rightarrow>
          (case decodeB64 (ciphertext (cf_current c)) of
             Inl _ \<Rightarrow> (s, V_throws)
           | Inr _ \<Rightarrow> (s, V_await (V_decrypt_current c))))"

definition decrypt_current_resume ::
  "conflict \<Rightarrow> bytes option \<Rightarrow> vault_session \<Rightarrow> vault_session \<times> vs_outcome" where
  "decrypt_current_resume c answer s =
     (case answer of
        None \<Rightarrow> (s, V_throws)
      | Some plaintext \<Rightarrow>
          (case decodeB64 (mut_ciphertext (cf_attempted c)) of
             Inl _ \<Rightarrow> (s, V_throws)
           | Inr _ \<Rightarrow> (s, V_await (V_decrypt_attempted c plaintext))))"

definition decrypt_attempted_resume ::
  "(bytes \<Rightarrow> item_data option) \<Rightarrow> conflict \<Rightarrow> bytes \<Rightarrow> bytes option \<Rightarrow> vault_session \<Rightarrow> vault_session \<times> vs_outcome" where
  "decrypt_attempted_resume decode c currentPlaintext answer s =
     (case answer of
        None \<Rightarrow> (s, V_throws)
      | Some attemptedPlaintext \<Rightarrow>
          (case (decode currentPlaintext, decode attemptedPlaintext) of
             (Some d, Some e) \<Rightarrow> 
               (s, V_done (R_conflict
                    \<lparr>dc_mutationId = cf_mutationId c, dc_currentRevision = revision (cf_current c), dc_currentData = d,
                     dc_updatedAt = updatedAt (cf_current c), dc_baseRevision = mut_baseRevision (cf_attempted c),
                     dc_attemptedData = e\<rparr>))
           | _ \<Rightarrow> (s, V_throws)))"

definition vs_resolveConflict :: "conflict \<Rightarrow> item_data \<Rightarrow> vault_session \<Rightarrow> vault_session \<times> vs_outcome" where
  "vs_resolveConflict c resolution s =
     (case requireUnlocked s of
        None \<Rightarrow> (s, V_throws)
      | Some (session, bundle) \<Rightarrow>
          if validateItemData resolution \<noteq> [] then (s, V_throws)
          else (s, V_await (V_resolve_seal (vs_generation s) bundle c resolution)))"

definition resolve_seal_resume ::
  "int \<Rightarrow> account_bundle \<Rightarrow> conflict \<Rightarrow> item_data \<Rightarrow> id \<Rightarrow> bytes option \<Rightarrow> vault_session \<Rightarrow> vault_session \<times> vs_outcome" where
  "resolve_seal_resume g bundle c d uuid answer s =
     (case answer of
        None \<Rightarrow> (s, V_throws)
      | Some envelope \<Rightarrow>
          (s\<lparr>vs_log := Conflict_replaced (cf_mutationId c)
               (new_mutation uuid (itemId (cf_current c)) (ab_vaultId bundle) (revision (cf_current c)) envelope False) # vs_log s\<rparr>,
           V_await (V_resolve_enqueue g (itemId (cf_current c)) d)))"

definition resolve_enqueue_resume :: "int \<Rightarrow> id \<Rightarrow> item_data \<Rightarrow> bool \<Rightarrow> vault_session \<Rightarrow> vault_session \<times> vs_outcome" where
  "resolve_enqueue_resume g i d ok s =
     (if \<not> ok then (s, V_throws)
      else if isGenerationCurrent s g
      then (s\<lparr>vs_items := AList.update i d (vs_items s), vs_deleted := set_remove i (vs_deleted s)\<rparr>, V_done R_unit)
      else (s, V_done R_unit))"

definition refreshFromRepository :: "vault_session \<Rightarrow> vault_session \<times> vs_outcome" where
  "refreshFromRepository s =
     (if vs_session s = None \<or> vs_bundle s = None then (s, V_done R_unit) else loadAllItemsIntoMemory s)"



section \<open>Interleavings\<close>

definition vs_resume ::
  "(bytes \<Rightarrow> item_data option) \<Rightarrow> id \<Rightarrow> vs_answer \<Rightarrow> vs_task \<Rightarrow> vault_session \<Rightarrow> (vault_session \<times> vs_outcome) option" where
  "vs_resume decode uuid ans task s =
     (case task of
        V_unlock bundle \<Rightarrow> (case ans of W_session r \<Rightarrow> Some (vs_unlock_resume bundle r s) | _ \<Rightarrow> None)
      | V_list c \<Rightarrow> (case ans of W_items r \<Rightarrow> Some (list_resume c r s) | _ \<Rightarrow> None)
      | V_open_item c r rs \<Rightarrow> (case ans of W_bytes b \<Rightarrow> Some (open_item_resume decode c r rs b s) | _ \<Rightarrow> None)
      | V_queue c \<Rightarrow> (case ans of W_queue r \<Rightarrow> Some (queue_resume c r s) | _ \<Rightarrow> None)
      | V_open_queued c m qs \<Rightarrow> (case ans of W_bytes b \<Rightarrow> Some (open_queued_resume decode c m qs b s) | _ \<Rightarrow> None)
      | V_lock \<Rightarrow> (case ans of W_settled ok \<Rightarrow> Some (lock_resume ok s) | _ \<Rightarrow> None)
      | V_save_seal g bundle i d \<Rightarrow> (case ans of W_bytes b \<Rightarrow> Some (save_seal_resume g bundle i d uuid b s) | _ \<Rightarrow> None)
      | V_save_enqueue g i d \<Rightarrow> (case ans of W_settled ok \<Rightarrow> Some (save_enqueue_resume g i d ok s) | _ \<Rightarrow> None)
      | V_delete_seal bundle i \<Rightarrow> (case ans of W_bytes b \<Rightarrow> Some (delete_seal_resume bundle i uuid b s) | _ \<Rightarrow> None)
      | V_delete_enqueue i m \<Rightarrow> (case ans of W_settled ok \<Rightarrow> Some (delete_enqueue_resume i m ok s) | _ \<Rightarrow> None)
      | V_undo_get m i \<Rightarrow> (case ans of W_queued r \<Rightarrow> Some (undo_get_resume m i r s) | _ \<Rightarrow> None)
      | V_undo_dequeue i \<Rightarrow> (case ans of W_settled ok \<Rightarrow> Some (undo_dequeue_resume i ok s) | _ \<Rightarrow> None)
      | V_copy v \<Rightarrow> (case ans of W_settled ok \<Rightarrow> Some (copy_resume v ok s) | _ \<Rightarrow> None)
      | V_decrypt_current c \<Rightarrow> (case ans of W_bytes b \<Rightarrow> Some (decrypt_current_resume c b s) | _ \<Rightarrow> None)
      | V_decrypt_attempted c p \<Rightarrow> (case ans of W_bytes b \<Rightarrow> Some (decrypt_attempted_resume decode c p b s) | _ \<Rightarrow> None)
      | V_resolve_seal g bundle c d \<Rightarrow>
          (case ans of W_bytes b \<Rightarrow> Some (resolve_seal_resume g bundle c d uuid b s) | _ \<Rightarrow> None)
      | V_resolve_enqueue g i d \<Rightarrow> (case ans of W_settled ok \<Rightarrow> Some (resolve_enqueue_resume g i d ok s) | _ \<Rightarrow> None))"

text \<open>The calls of the public methods.\<close>

datatype vs_call =
    Call_unlock account_bundle
  | Call_lock
  | Call_save item_data "id option" id
  | Call_delete id
  | Call_undo id id
  | Call_copy string
  | Call_decrypt conflict
  | Call_resolve conflict item_data
  | Call_refresh

fun vs_start :: "vs_call \<Rightarrow> vault_session \<Rightarrow> vault_session \<times> vs_outcome" where
  "vs_start (Call_unlock bundle) s = vs_unlock_start bundle s"
| "vs_start Call_lock s = lock_start s"
| "vs_start (Call_save d i uuid) s = saveItem d i uuid s"
| "vs_start (Call_delete i) s = deleteItem i s"
| "vs_start (Call_undo m i) s = undoDeleteIfLocal m i s"
| "vs_start (Call_copy v) s = copyToClipboard v s"
| "vs_start (Call_decrypt c) s = decryptConflict c s"
| "vs_start (Call_resolve c d) s = vs_resolveConflict c d s"
| "vs_start Call_refresh s = refreshFromRepository s"

definition vs_add_task :: "vs_outcome \<Rightarrow> vs_task list \<Rightarrow> vs_task list" where
  "vs_add_task out ts = (case out of V_await t \<Rightarrow> t # ts | _ \<Rightarrow> ts)"

text \<open>The field \<open>selectedItemId\<close> is public: the views write it.\<close>

inductive vs_step ::
  "(bytes \<Rightarrow> item_data option) \<Rightarrow> vault_session \<times> vs_task list \<Rightarrow> vault_session \<times> vs_task list \<Rightarrow> bool"
  for decode where
  call: "vs_start c s = (s', out) \<Longrightarrow> vs_step decode (s, ts) (s', vs_add_task out ts)"
| resume: "t \<in> set ts \<Longrightarrow> vs_resume decode uuid ans t s = Some (s', out) \<Longrightarrow>
    vs_step decode (s, ts) (s', vs_add_task out (remove1 t ts))"
| timer: "vs_step decode (s, ts) (clipboard_timer_fires h s, ts)"
| select: "vs_step decode (s, ts) (s\<lparr>vs_selected := i\<rparr>, ts)"

inductive_cases vs_stepE: "vs_step decode x y"

definition vs_reachable :: "(bytes \<Rightarrow> item_data option) \<Rightarrow> vault_session \<Rightarrow> vs_task list \<Rightarrow> bool" where
  "vs_reachable decode s ts \<longleftrightarrow> (vs_step decode)\<^sup>*\<^sup>* (vault_session_new, []) (s, ts)"

end
