(* ===== verification/Vault_Session_Properties.thy ===== *)
theory Vault_Session_Properties
  imports Vault_Session
begin

text \<open>
  The lock lifecycle of the web client over all interleavings: what is in memory while the vault
  is locked, and what an operation that was under way when it was locked can still do.
\<close>


section \<open>Which task may write plaintext\<close>

fun task_gen :: "vs_task \<Rightarrow> int option" where
  "task_gen (V_list c) = Some (ld_generation c)"
| "task_gen (V_open_item c _ _) = Some (ld_generation c)"
| "task_gen (V_queue c) = Some (ld_generation c)"
| "task_gen (V_open_queued c _ _) = Some (ld_generation c)"
| "task_gen (V_save_seal g _ _ _) = Some g"
| "task_gen (V_save_enqueue g _ _) = Some g"
| "task_gen (V_resolve_seal g _ _ _) = Some g"
| "task_gen (V_resolve_enqueue g _ _) = Some g"
| "task_gen _ = None"

definition out_gen :: "vs_outcome \<Rightarrow> int option \<Rightarrow> bool" where
  "out_gen out g \<longleftrightarrow> (\<forall>t. out = V_await t \<longrightarrow> task_gen t = None \<or> task_gen t = g)"

lemma load_records_frame:
  assumes "load_records c rs s = (s', out)"
  shows "vs_session s' = vs_session s \<and> vs_generation s' = vs_generation s \<and> vs_items s' = vs_items s \<and>
    (\<not> isGenerationCurrent s (ld_generation c) \<longrightarrow> s' = s) \<and> out_gen out (Some (ld_generation c))"
  using assms
proof (induction rs arbitrary: s)
  case Nil
  then show ?case by (auto simp: out_gen_def split: if_splits)
next
  case (Cons r rs)
  show ?case
  proof (cases "isGenerationCurrent s (ld_generation c)")
    case False
    with Cons.prems show ?thesis by (auto simp: out_gen_def)
  next
    case True
    let ?s1 = "s\<lparr>vs_revisions := AList.update (itemId r) (revision r) (vs_revisions s)\<rparr>"
    from True Cons.prems consider
        "load_records c rs (?s1\<lparr>vs_deleted := set_add (itemId r) (vs_deleted ?s1)\<rparr>) = (s', out)"
      | "load_records c rs ?s1 = (s', out)" | "s' = ?s1" "out = V_await (V_open_item c r rs)"
      by (cases "deleted r"; cases "decodeB64 (ciphertext r)") (simp_all add: Let_def)
    then show ?thesis
    proof cases
      case 1
      from Cons.IH [OF this] True show ?thesis by simp
    next
      case 2
      from Cons.IH [OF this] True show ?thesis by simp
    next
      case 3
      with True show ?thesis by (simp add: out_gen_def)
    qed
  qed
qed

lemma load_queued_frame:
  "load_queued c qs s = (s', out) \<Longrightarrow>
     vs_session s' = vs_session s \<and> vs_generation s' = vs_generation s \<and> vs_items s' = vs_items s \<and>
     vs_revisions s' = vs_revisions s \<and> out_gen out (Some (ld_generation c))"
proof (induction qs arbitrary: s)
  case Nil
  then show ?case by (auto simp: out_gen_def)
next
  case (Cons q qs)
  let ?s1 = "s\<lparr>vs_deleted := set_add (mut_itemId (q_mutation q)) (vs_deleted s)\<rparr>"
  from Cons.prems consider "s' = s" "out = V_done R_unit" | "load_queued c qs s = (s', out)"
    | "load_queued c qs ?s1 = (s', out)" | "s' = s" "out = V_await (V_open_queued c (q_mutation q) qs)"
    by (cases "isGenerationCurrent s (ld_generation c)"; cases "q_state q = CONFLICT";
        cases "mut_vaultId (q_mutation q) = ab_vaultId (ld_bundle c)"; cases "mut_deleted (q_mutation q)";
        cases "decodeB64 (mut_ciphertext (q_mutation q))") simp_all
  then show ?case
  proof cases
    case 2
    from Cons.IH [OF this] show ?thesis .
  next
    case 3
    from Cons.IH [OF this] show ?thesis by simp
  qed (auto simp: out_gen_def)
qed

text \<open>
  What a part of a method may do to the plaintext: leave it, clear it, or, when the session is
  unlocked in generation \<open>g\<close>, write it.
\<close>

definition part_safe :: "int option \<Rightarrow> vault_session \<Rightarrow> vault_session \<times> vs_outcome \<Rightarrow> bool" where
  "part_safe g s r \<longleftrightarrow>
     vs_generation s \<le> vs_generation (fst r) \<and>
     (distinct (map fst (vs_items s)) \<longrightarrow> distinct (map fst (vs_items (fst r)))) \<and>
     (vs_items (fst r) = vs_items s \<and> vs_revisions (fst r) = vs_revisions s \<and>
        (vs_session (fst r) = vs_session s \<or> vs_session (fst r) \<noteq> None) \<or>
      vs_items (fst r) = [] \<and> vs_revisions (fst r) = [] \<or>
      g = Some (vs_generation s) \<and> vs_session s \<noteq> None \<and> vs_session (fst r) \<noteq> None)"

definition out_ok :: "int option \<Rightarrow> vault_session \<times> vs_outcome \<Rightarrow> bool" where
  "out_ok g r \<longleftrightarrow> (\<forall>t h. snd r = V_await t \<longrightarrow> task_gen t = Some h \<longrightarrow> g = Some h \<or> h = vs_generation (fst r))"

lemma load_records_part:
  "part_safe (Some (ld_generation c)) s (load_records c rs s) \<and> out_ok (Some (ld_generation c)) (load_records c rs s)"
  using load_records_frame [of c rs s]
  by (cases "load_records c rs s") (fastforce simp: part_safe_def out_ok_def out_gen_def isGenerationCurrent_def)

lemma load_queued_part:
  "part_safe (Some (ld_generation c)) s (load_queued c qs s) \<and> out_ok (Some (ld_generation c)) (load_queued c qs s)"
  using load_queued_frame [of c qs s]
  by (cases "load_queued c qs s") (fastforce simp: part_safe_def out_ok_def out_gen_def)

lemma part_safe_after:
  assumes "isGenerationCurrent s g" "vs_session s' = vs_session s" "vs_generation s' = vs_generation s"
    and "distinct (map fst (vs_items s)) \<Longrightarrow> distinct (map fst (vs_items s'))" and "part_safe (Some g) s' r"
  shows "part_safe (Some g) s r"
  using assms by (auto simp: part_safe_def isGenerationCurrent_def)

lemma load_resume_parts:
  "part_safe (Some (ld_generation c)) s (list_resume c a s) \<and> out_ok (Some (ld_generation c)) (list_resume c a s)"
  "part_safe (Some (ld_generation c)) s (open_item_resume decode c r rs b s) \<and>
     out_ok (Some (ld_generation c)) (open_item_resume decode c r rs b s)"
  "part_safe (Some (ld_generation c)) s (queue_resume c q s) \<and> out_ok (Some (ld_generation c)) (queue_resume c q s)"
  "part_safe (Some (ld_generation c)) s (open_queued_resume decode c m qs b s) \<and>
     out_ok (Some (ld_generation c)) (open_queued_resume decode c m qs b s)"
proof -
  have same: "part_safe g s (s, V_done R_unit) \<and> out_ok g (s, V_done R_unit)"
    "part_safe g s (s, V_throws) \<and> out_ok g (s, V_throws)" for g s
    by (auto simp: part_safe_def out_ok_def)
  show "part_safe (Some (ld_generation c)) s (list_resume c a s) \<and> out_ok (Some (ld_generation c)) (list_resume c a s)"
    using same load_records_part by (auto simp: list_resume_def split: option.splits)
  show "part_safe (Some (ld_generation c)) s (queue_resume c q s) \<and> out_ok (Some (ld_generation c)) (queue_resume c q s)"
    using same load_queued_part by (auto simp: queue_resume_def split: option.splits)
  have opened:
    "part_safe (Some (ld_generation c)) s (load_records c rs (s\<lparr>vs_items := AList.update i d (vs_items s)\<rparr>))"
    "part_safe (Some (ld_generation c)) s
       (load_queued c qs (s\<lparr>vs_items := AList.update i d (vs_items s), vs_deleted := ys\<rparr>))"
    if "isGenerationCurrent s (ld_generation c)" for i d ys
    using part_safe_after [OF that, of "s\<lparr>vs_items := AList.update i d (vs_items s)\<rparr>"]
      part_safe_after [OF that, of "s\<lparr>vs_items := AList.update i d (vs_items s), vs_deleted := ys\<rparr>"]
    by (simp_all add: load_records_part load_queued_part distinct_update)
  show "part_safe (Some (ld_generation c)) s (open_item_resume decode c r rs b s) \<and>
      out_ok (Some (ld_generation c)) (open_item_resume decode c r rs b s)"
    by (simp add: open_item_resume_def same load_records_part opened split: option.split)
  show "part_safe (Some (ld_generation c)) s (open_queued_resume decode c m qs b s) \<and>
      out_ok (Some (ld_generation c)) (open_queued_resume decode c m qs b s)"
    by (simp add: open_queued_resume_def same load_queued_part opened split: option.split)
qed

lemmas vs_write_defs =
  save_seal_resume_def save_enqueue_resume_def delete_seal_resume_def delete_enqueue_resume_def
  undo_get_resume_def undo_dequeue_resume_def copy_resume_def decrypt_current_resume_def
  decrypt_attempted_resume_def resolve_seal_resume_def resolve_enqueue_resume_def

lemmas vs_start_defs =
  vs_unlock_start_def lock_start_def saveItem_def deleteItem_def undoDeleteIfLocal_def copyToClipboard_def
  decryptConflict_def vs_resolveConflict_def refreshFromRepository_def loadAllItemsIntoMemory_def

lemma start_part: "part_safe None s (vs_start call s) \<and> out_ok None (vs_start call s)"
  by (cases call)
     (auto simp: vs_start_defs part_safe_def out_ok_def lock_finally_def clearClipboardTimer_def
        cancelClipboardTimer_def Let_def
        split: option.splits sum.splits)

lemma write_parts:
  "part_safe (Some g) s (save_seal_resume g bundle i d uuid b s) \<and> out_ok (Some g) (save_seal_resume g bundle i d uuid b s)"
  "part_safe (Some g) s (save_enqueue_resume g i d ok s) \<and> out_ok (Some g) (save_enqueue_resume g i d ok s)"
  "part_safe (Some g) s (resolve_seal_resume g bundle cf d uuid b s) \<and>
     out_ok (Some g) (resolve_seal_resume g bundle cf d uuid b s)"
  "part_safe (Some g) s (resolve_enqueue_resume g i d ok s) \<and> out_ok (Some g) (resolve_enqueue_resume g i d ok s)"
  "part_safe None s (delete_seal_resume bundle i uuid b s) \<and> out_ok None (delete_seal_resume bundle i uuid b s)"
  "part_safe None s (delete_enqueue_resume i m ok s) \<and> out_ok None (delete_enqueue_resume i m ok s)"
  "part_safe None s (undo_get_resume m i q s) \<and> out_ok None (undo_get_resume m i q s)"
  "part_safe None s (undo_dequeue_resume i ok s) \<and> out_ok None (undo_dequeue_resume i ok s)"
  "part_safe None s (copy_resume v ok s) \<and> out_ok None (copy_resume v ok s)"
  "part_safe None s (decrypt_current_resume cf b s) \<and> out_ok None (decrypt_current_resume cf b s)"
  "part_safe None s (decrypt_attempted_resume decode cf p b s) \<and> out_ok None (decrypt_attempted_resume decode cf p b s)"
  by (auto simp: vs_write_defs part_safe_def out_ok_def isGenerationCurrent_def distinct_update
      split: option.splits sum.splits)

lemma lifecycle_parts:
  "part_safe None s (vs_unlock_resume bundle a s) \<and> out_ok None (vs_unlock_resume bundle a s)"
  "part_safe None s (lock_resume ok s) \<and> out_ok None (lock_resume ok s)"
  by (auto simp: vs_unlock_resume_def loadAllItemsIntoMemory_def lock_resume_def lock_finally_def
      clearClipboardTimer_def cancelClipboardTimer_def Let_def part_safe_def out_ok_def split: option.splits)

lemma resume_part:
  assumes "vs_resume decode uuid ans t s = Some r"
  shows "part_safe (task_gen t) s r \<and> out_ok (task_gen t) r"
  using assms
  by (cases t; cases ans) (auto simp: vs_resume_def load_resume_parts write_parts lifecycle_parts)


section \<open>Reachable states\<close>

definition vs_inv :: "vault_session \<times> vs_task list \<Rightarrow> bool" where
  "vs_inv x \<longleftrightarrow>
     (vs_session (fst x) = None \<longrightarrow> vs_items (fst x) = [] \<and> vs_revisions (fst x) = []) \<and>
     distinct (map fst (vs_items (fst x))) \<and>
     (\<forall>t\<in>set (snd x). \<forall>g. task_gen t = Some g \<longrightarrow> g \<le> vs_generation (fst x))"

lemma vs_inv_part:
  assumes inv: "vs_inv (s, ts)" and part: "part_safe g s (s', out)" and out: "out_ok g (s', out)"
    and us: "set us \<subseteq> set ts" and g: "\<And>h. g = Some h \<Longrightarrow> h \<le> vs_generation s"
  shows "vs_inv (s', vs_add_task out us)"
proof -
  have le: "vs_generation s \<le> vs_generation s'" using part by (simp add: part_safe_def)
  have "h \<le> vs_generation s'" if "t \<in> set us" "task_gen t = Some h" for t h
    using that inv us le by (force simp: vs_inv_def)
  moreover have "h \<le> vs_generation s'" if "out = V_await t" "task_gen t = Some h" for t h
    using that out g le by (fastforce simp: out_ok_def)
  moreover have "vs_session s' = None \<longrightarrow> vs_items s' = [] \<and> vs_revisions s' = []"
    "distinct (map fst (vs_items s'))"
    using inv part by (auto simp: vs_inv_def part_safe_def)
  ultimately show ?thesis
    by (auto simp: vs_inv_def vs_add_task_def split: vs_outcome.split)
qed

lemma clipboard_timer_fires_frame [simp]:
  "vs_session (clipboard_timer_fires h s) = vs_session s" "vs_items (clipboard_timer_fires h s) = vs_items s"
  "vs_revisions (clipboard_timer_fires h s) = vs_revisions s"
  "vs_generation (clipboard_timer_fires h s) = vs_generation s"
  by (simp_all add: clipboard_timer_fires_def)


lemma vs_step_inv: "vs_step decode x y \<Longrightarrow> vs_inv x \<Longrightarrow> vs_inv y"
proof (induction rule: vs_step.induct)
  case (call c s s' out ts)
  then show ?case using start_part [of s c] by (intro vs_inv_part [where g = None and s = s and ts = ts]) simp_all
next
  case (resume t ts uuid ans s s' out)
  show ?case
  proof (rule vs_inv_part [OF resume.prems])
    show "part_safe (task_gen t) s (s', out)" "out_ok (task_gen t) (s', out)"
      using resume_part [OF resume.hyps(2)] by simp_all
    show "set (remove1 t ts) \<subseteq> set ts" by (rule set_remove1_subset)
    show "h \<le> vs_generation s" if "task_gen t = Some h" for h
      using that resume.prems resume.hyps(1) by (auto simp: vs_inv_def)
  qed
qed (simp_all add: vs_inv_def)


lemma vs_reachable_inv: "vs_reachable decode s ts \<Longrightarrow> vs_inv (s, ts)"
  unfolding vs_reachable_def
  by (induction rule: rtranclp_induct)
     (auto simp: vs_inv_def vault_session_new_def dest: vs_step_inv [unfolded vs_inv_def])







section \<open>Runs\<close>

datatype vs_event = E_call vs_call | E_resume nat id vs_answer

text \<open>A run given by its events; a resumption names the position of the task among the pending ones.\<close>

fun vs_run ::
  "(bytes \<Rightarrow> item_data option) \<Rightarrow> vs_event list \<Rightarrow> vault_session \<times> vs_task list \<Rightarrow> (vault_session \<times> vs_task list) option" where
  "vs_run decode [] x = Some x"
| "vs_run decode (E_call c # es) x =
     (case vs_start c (fst x) of (s, out) \<Rightarrow> vs_run decode es (s, vs_add_task out (snd x)))"
| "vs_run decode (E_resume n uuid ans # es) x =
     (if n < length (snd x)
      then (case vs_resume decode uuid ans (snd x ! n) (fst x) of
              None \<Rightarrow> None
            | Some (s, out) \<Rightarrow> vs_run decode es (s, vs_add_task out (remove1 (snd x ! n) (snd x))))
      else None)"

lemma vs_run_steps: "vs_run decode es x = Some y \<Longrightarrow> (vs_step decode)\<^sup>*\<^sup>* x y"
proof (induction decode es x rule: vs_run.induct)
  case (2 decode c es x)
  obtain s ts where x: "x = (s, ts)" by (cases x)
  obtain s' out where st: "vs_start c s = (s', out)" by (cases "vs_start c s")
  from 2 have "(vs_step decode)\<^sup>*\<^sup>* (s', vs_add_task out ts) y" by (simp add: x st)
  then show ?case unfolding x by (rule converse_rtranclp_into_rtranclp [of "vs_step decode", OF vs_step.call [OF st]])
next
  case (3 decode n uuid ans es x)
  obtain s ts where x: "x = (s, ts)" by (cases x)
  from 3(2) obtain s' out where n: "n < length ts" and re: "vs_resume decode uuid ans (ts ! n) s = Some (s', out)"
    and run: "vs_run decode es (s', vs_add_task out (remove1 (ts ! n) ts)) = Some y"
    by (auto simp: x split: if_splits option.splits)
  have "(vs_step decode)\<^sup>*\<^sup>* (s', vs_add_task out (remove1 (ts ! n) ts)) y"
    using 3(1) [of "(s', out)" s' out] n re run by (simp add: x)
  then show ?case unfolding x
    by (rule converse_rtranclp_into_rtranclp [of "vs_step decode", OF vs_step.resume [OF nth_mem [OF n] re]])
qed simp

lemma vs_run_reachable: "vs_run decode es (vault_session_new, []) = Some (s, ts) \<Longrightarrow> vs_reachable decode s ts"
  by (simp add: vs_reachable_def vs_run_steps)

lemma run_caseE:
  assumes "case r of None \<Rightarrow> False | Some (s, ts) \<Rightarrow> P s ts"
  obtains s ts where "r = Some (s, ts)" "P s ts"
  using assms by (auto split: option.splits)

text \<open>Sample data for the witnesses.\<close>

definition sample_bundle :: account_bundle where
  "sample_bundle = \<lparr>ab_accountId = ''a'', ab_vaultId = ''v'', ab_itemId = ''k'', ab_kdfParametersCbor = [],
     ab_wrappedAccountKey = [], ab_wrappedVaultKey = [], ab_wrappedItemKey = [], ab_wrappedRecoveryKey = []\<rparr>"

definition sample_data :: item_data where
  "sample_data = \<lparr>d_type = ''login'', d_title = ''Bank'', d_username = Some ''me'', d_password = Some ''pw'',
     d_url = None, d_notes = None, d_totpSecret = None\<rparr>"

definition sample_decode :: "bytes \<Rightarrow> item_data option" where
  "sample_decode _ = Some sample_data"

definition sample_unlock :: "vs_event list" where
  "sample_unlock = [E_call (Call_unlock sample_bundle), E_resume 0 [] (W_session (Some 7))]"

definition sample_save :: "vs_event list" where
  "sample_save = sample_unlock @ [E_call (Call_save sample_data None ''i''), E_resume 0 ''m'' (W_bytes (Some [1, 2])),
     E_resume 0 [] (W_settled True)]"


section \<open>Properties\<close>

text \<open>
  In every state the session can reach, by any interleaving of calls, answers and timers, a
  locked session holds no decrypted item and no revision, and shows nothing: the list, every search
  and every lookup are empty.
\<close>
theorem locked_holds_nothing:
  assumes "vs_reachable decode s ts" and "\<not> isUnlocked s"
  shows "vs_items s = [] \<and> vs_revisions s = [] \<and> vs_search s query = [] \<and> getItemData s i = None"
  using vs_reachable_inv [OF assms(1)] assms(2)
  by (simp add: vs_inv_def isUnlocked_def vs_search_def listVisible_def getItemData_def searchItems_def Let_def)

theorem locked_holds_nothing_witness:
  "case vs_run sample_decode (sample_save @ [E_call Call_lock, E_resume 0 [] (W_settled False)]) (vault_session_new, []) of
     None \<Rightarrow> False
   | Some (s, ts) \<Rightarrow> \<not> isUnlocked s \<and> ts \<noteq> [] \<and> vs_items s = [] \<and> vs_search s ''bank'' = []"
proof -
  let ?r = "vs_run sample_decode (sample_save @ [E_call Call_lock, E_resume 0 [] (W_settled False)]) (vault_session_new, [])"
  have "case ?r of None \<Rightarrow> False | Some (s, ts) \<Rightarrow> \<not> isUnlocked s \<and> ts \<noteq> []" by code_simp
  then obtain s ts where run: "?r = Some (s, ts)" and locked: "\<not> isUnlocked s" and ts: "ts \<noteq> []"
    by (elim run_caseE) blast
  from locked_holds_nothing [OF vs_run_reachable [OF run] locked, of "''bank''"] locked ts
  show ?thesis unfolding run by (simp only: option.case prod.case) blast
qed



text \<open>
  In every reachable state the list and the lookup agree: the list has no item twice, it shows
  exactly the items a lookup finds, and with the fields the lookup returns.
\<close>
theorem list_agrees_with_lookup:
  assumes "vs_reachable decode s ts"
  shows "distinct (map se_itemId (listVisible s)) \<and>
    (e \<in> set (listVisible s) \<longleftrightarrow>
       (\<exists>d. getItemData s (se_itemId e) = Some d \<and>
            e = \<lparr>se_itemId = se_itemId e, se_title = d_title d, se_username = d_username d, se_url = d_url d,
                 se_type = d_type d\<rparr>))"
proof -
  have dist: "distinct (map fst (vs_items s))" using vs_reachable_inv [OF assms] by (simp add: vs_inv_def)
  have "map se_itemId (listVisible s) =
      (if vs_session s = None then [] else map fst (filter (\<lambda>(i, d). i \<notin> set (vs_deleted s)) (vs_items s)))"
    by (simp add: listVisible_def case_prod_unfold comp_def)
  then have "distinct (map se_itemId (listVisible s))" using dist by (simp add: distinct_map_filter)
  moreover have "e \<in> set (listVisible s) \<longleftrightarrow>
       (\<exists>d. getItemData s (se_itemId e) = Some d \<and>
            e = \<lparr>se_itemId = se_itemId e, se_title = d_title d, se_username = d_username d, se_url = d_url d,
                 se_type = d_type d\<rparr>)"
    using map_of_eq_Some_iff [OF dist]
    by (cases e) (auto simp: listVisible_def getItemData_def image_iff Bex_def)
  ultimately show ?thesis by blast
qed

theorem list_agrees_with_lookup_witness:
  "case vs_run sample_decode sample_save (vault_session_new, []) of
     None \<Rightarrow> False
   | Some (s, ts) \<Rightarrow> map se_itemId (listVisible s) = [''i''] \<and> (\<exists>d. getItemData s ''i'' = Some d)"
proof -
  let ?r = "vs_run sample_decode sample_save (vault_session_new, [])"
  have "case ?r of None \<Rightarrow> False | Some (s, ts) \<Rightarrow> map se_itemId (listVisible s) = [''i'']" by code_simp
  then obtain s ts where run: "?r = Some (s, ts)" and ids: "map se_itemId (listVisible s) = [''i'']"
    by (rule run_caseE)
  then obtain e where "e \<in> set (listVisible s)" "se_itemId e = ''i''" by (cases "listVisible s") auto
  with list_agrees_with_lookup [OF vs_run_reachable [OF run], of e] ids
  show ?thesis unfolding run by (simp only: option.case prod.case) blast
qed

text \<open>
  A save never loses the edit: once the worker has sealed it, whatever the session has become
  meanwhile, one mutation is queued that carries the sealed envelope unchanged (its base-64 form
  decodes to it) for the item and the vault of the session that began the save.  After that the item
  shows the new data if that session is still the current one; otherwise nothing is written.
\<close>
theorem save_survives_lock:
  assumes "saveItem d item newId s = (s1, V_await t)"
  shows "\<exists>bundle i. s1 = s \<and> requireUnlocked s \<noteq> None \<and> vs_bundle s = Some bundle \<and> i = case_option newId (\<lambda>x. x) item \<and>
    t = V_save_seal (vs_generation s) bundle i d \<and>
    (\<forall>s2 uuid envelope. \<exists>m.
       save_seal_resume (vs_generation s) bundle i d uuid (Some envelope) s2 =
         (s2\<lparr>vs_log := Enqueued m # vs_log s2\<rparr>, V_await (V_save_enqueue (vs_generation s) i d)) \<and>
       decodeB64 (mut_ciphertext m) = Inr envelope \<and> mut_itemId m = i \<and> mut_vaultId m = ab_vaultId bundle \<and>
       mut_mutationId m = uuid \<and> \<not> mut_deleted m \<and> mut_baseRevision m = base_revision s2 i) \<and>
    (\<forall>s3. let s4 = fst (save_enqueue_resume (vs_generation s) i d True s3)
          in if isGenerationCurrent s3 (vs_generation s) then getItemData s4 i = Some d else s4 = s3)"
proof -
  from assms obtain h bd where req: "requireUnlocked s = Some (h, bd)" and s1: "s1 = s"
    and t: "t = V_save_seal (vs_generation s) bd (case_option newId (\<lambda>x. x) item) d"
    by (auto simp: saveItem_def split: if_splits option.splits prod.splits)
  from req have b: "vs_bundle s = Some bd" by (auto simp: requireUnlocked_def split: option.splits)
  have stored: "let s4 = fst (save_enqueue_resume g i d True s3)
          in if isGenerationCurrent s3 g then getItemData s4 i = Some d else s4 = s3" for g i s3
    by (auto simp: save_enqueue_resume_def getItemData_def isGenerationCurrent_def set_remove_def update_conv Let_def)
  show ?thesis
    using req s1 t b stored
    by (auto simp: save_seal_resume_def new_mutation_def decode_encode_B64)
qed

theorem save_survives_lock_witness:
  "\<exists>bundle. saveItem sample_data None ''i'' (vault_session_new\<lparr>vs_session := Some 7, vs_bundle := Some sample_bundle\<rparr>) =
     (vault_session_new\<lparr>vs_session := Some 7, vs_bundle := Some sample_bundle\<rparr>, V_await (V_save_seal 0 bundle ''i'' sample_data))"
proof -
  let ?s = "vault_session_new\<lparr>vs_session := Some 7, vs_bundle := Some sample_bundle\<rparr>"
  have "saveItem sample_data None ''i'' ?s = (?s, V_await (V_save_seal 0 sample_bundle ''i'' sample_data))" by code_simp
  from save_survives_lock [OF this] this show ?thesis by blast
qed

text \<open>
  A lock that runs while an unlock is under way is overridden when the worker answers: the session
  is unlocked after it, by the user's own earlier request, although \<open>lock\<close> was called last.
\<close>
lemma unlock_overrides_lock:
  "vs_run decode [E_call (Call_unlock b), E_call Call_lock, E_resume 0 uuid (W_session (Some h))] (vault_session_new, []) =
     Some (s, ts) \<Longrightarrow> vs_reachable decode s ts \<and> isUnlocked s"
  by (frule vs_run_reachable) (auto simp: vs_resume_def vs_unlock_start_def lock_start_def vs_unlock_resume_def
      loadAllItemsIntoMemory_def vs_add_task_def lock_finally_def clearClipboardTimer_def cancelClipboardTimer_def
      Let_def vault_session_new_def isUnlocked_def)

end
