(* ===== verification/Csv.thy ===== *)
theory Csv
  imports Js_Value
begin

text \<open>
  Import limits (\<open>packages/importers/src/limits.ts\<close>) and the CSV parser
  (\<open>packages/importers/src/csv-parser.ts\<close>).  The parser's index loop is a recursion on the characters
  that remain; \<open>field\<close>, \<open>row\<close> and \<open>rows\<close> are its accumulators.
\<close>


section \<open>Limits\<close>

definition MAX_INPUT_CHARS :: nat where "MAX_INPUT_CHARS = 25000000"
definition MAX_ITEMS :: nat where "MAX_ITEMS = 50000"
definition MAX_FIELD_CHARS :: nat where "MAX_FIELD_CHARS = 100000"

text \<open>The limits are compared as integers when the definitions are evaluated.\<close>

lemma limits_code [code_unfold]:
  "MAX_INPUT_CHARS < n \<longleftrightarrow> 25000000 < int n" "MAX_ITEMS \<le> n \<longleftrightarrow> 50000 \<le> int n"
  "n \<le> MAX_FIELD_CHARS \<longleftrightarrow> int n \<le> 100000"
  by (auto simp: MAX_INPUT_CHARS_def MAX_ITEMS_def MAX_FIELD_CHARS_def)

datatype import_error = ImportSizeError string

definition assertInputSize :: "string \<Rightarrow> import_error option" where
  "assertInputSize input =
     (if length input > MAX_INPUT_CHARS
      then Some (ImportSizeError (''import input exceeds maximum size of '' @ string_of_nat MAX_INPUT_CHARS @ '' characters''))
      else None)"

text \<open>The value and whether it was cut.\<close>

definition boundField :: "jsval \<Rightarrow> string option \<times> bool" where
  "boundField v =
     (case v of
        JStr s \<Rightarrow>
          if s = [] then (None, False)
          else if length s \<le> MAX_FIELD_CHARS then (Some s, False)
          else (Some (take MAX_FIELD_CHARS s), True)
      | _ \<Rightarrow> (None, False))"

lemma boundField_bounds:
  assumes "boundField v = (Some s, b)"
  shows "0 < length s \<and> length s \<le> MAX_FIELD_CHARS \<and>
    (\<exists>t. v = JStr t \<and> s = take MAX_FIELD_CHARS t \<and> (b \<longleftrightarrow> s \<noteq> t))"
  using assms by (auto simp: boundField_def MAX_FIELD_CHARS_def split: jsval.splits if_splits)


section \<open>Parser\<close>

abbreviation quote_char :: char where "quote_char \<equiv> CHR 0x22"
abbreviation cr_char :: char where "cr_char \<equiv> CHR 0x0D"
abbreviation lf_char :: char where "lf_char \<equiv> CHR 0x0A"

text \<open>The loop returns the accumulators at the end of the input.\<close>

fun csv_loop ::
  "string \<Rightarrow> bool \<Rightarrow> string \<Rightarrow> string list \<Rightarrow> string list list \<Rightarrow> string \<times> string list \<times> string list list" where
  "csv_loop [] inQuotes field row rows = (field, row, rows)"
| "csv_loop (c # cs) True field row rows =
     (if c = quote_char
      then (case cs of
              d # ds \<Rightarrow>
                if d = quote_char then csv_loop ds True (field @ [quote_char]) row rows
                else csv_loop cs False field row rows
            | [] \<Rightarrow> csv_loop cs False field row rows)
      else csv_loop cs True (field @ [c]) row rows)"
| "csv_loop (c # cs) False field row rows =
     (if c = quote_char \<and> length field = 0 then csv_loop cs True field row rows
      else if c = CHR '','' then csv_loop cs False [] (row @ [field]) rows
      else if c = cr_char then csv_loop cs False field row rows
      else if c = lf_char then csv_loop cs False [] [] (rows @ [row @ [field]])
      else csv_loop cs False (field @ [c]) row rows)"

definition parseCsv :: "string \<Rightarrow> string list list" where
  "parseCsv input =
     (case csv_loop input False [] [] [] of
        (field, row, rows) \<Rightarrow>
          filter (\<lambda>r. \<not> (length r = 1 \<and> r ! 0 = []))
            (if length field > 0 \<or> length row > 0 then rows @ [row @ [field]] else rows))"


section \<open>Round trip\<close>

text \<open>
  A file in the format of RFC 4180: every field is quoted, with its quotes doubled, or plain when it
  holds no delimiter; rows end with LF or CRLF, which the last row may lack.
\<close>

definition escape_quotes :: "string \<Rightarrow> string" where
  "escape_quotes s = concat (map (\<lambda>c. if c = quote_char then [quote_char, quote_char] else [c]) s)"

definition plain_field :: "string \<Rightarrow> bool" where
  "plain_field s \<longleftrightarrow> set s \<inter> {quote_char, CHR '','', cr_char, lf_char} = {}"

definition csv_field :: "(string \<Rightarrow> bool) \<Rightarrow> string \<Rightarrow> string" where
  "csv_field quoted s = (if quoted s \<or> \<not> plain_field s then [quote_char] @ escape_quotes s @ [quote_char] else s)"

fun csv_line :: "(string \<Rightarrow> bool) \<Rightarrow> string list \<Rightarrow> string" where
  "csv_line quoted [] = []"
| "csv_line quoted [s] = csv_field quoted s"
| "csv_line quoted (s # ss) = csv_field quoted s @ [CHR '',''] @ csv_line quoted ss"

definition line_end :: "bool \<Rightarrow> string" where
  "line_end crlf = (if crlf then [cr_char, lf_char] else [lf_char])"

definition csv_file :: "(string \<Rightarrow> bool) \<Rightarrow> bool \<Rightarrow> string list list \<Rightarrow> string" where
  "csv_file quoted crlf rows = concat (map (\<lambda>r. csv_line quoted r @ line_end crlf) rows)"

lemma loop_escaped:
  "\<forall>d ds. rest = d # ds \<longrightarrow> d \<noteq> quote_char \<Longrightarrow>
   csv_loop (escape_quotes s @ [quote_char] @ rest) True field row rows = csv_loop rest False (field @ s) row rows"
  by (induction s arbitrary: field) (auto simp: escape_quotes_def split: list.splits)

lemma loop_plain:
  "plain_field s \<Longrightarrow> csv_loop (s @ rest) False field row rows = csv_loop rest False (field @ s) row rows"
  by (induction s arbitrary: field) (auto simp: plain_field_def)

lemma loop_field:
  assumes "\<forall>d ds. rest = d # ds \<longrightarrow> d \<noteq> quote_char"
  shows "csv_loop (csv_field quoted s @ rest) False [] row rows = csv_loop rest False s row rows"
  using loop_escaped [OF assms, of s "[]"] loop_plain [of s rest "[]"] by (simp add: csv_field_def)

lemma loop_line:
  assumes "\<forall>d ds. rest = d # ds \<longrightarrow> d \<noteq> quote_char" and "ss \<noteq> []"
  shows "csv_loop (csv_line quoted ss @ rest) False [] row rows = csv_loop rest False (last ss) (row @ butlast ss) rows"
  using assms(2)
proof (induction quoted ss arbitrary: row rule: csv_line.induct)
  case (2 quoted s)
  then show ?case using loop_field [OF assms(1)] by simp
next
  case (3 quoted s t ts)
  then show ?case using loop_field [of "[CHR '',''] @ csv_line quoted (t # ts) @ rest"] by simp
qed simp

lemma loop_file:
  assumes "list_all (\<lambda>r. r \<noteq> []) rs"
  shows "csv_loop (csv_file quoted crlf rs @ rest) False [] [] rows = csv_loop rest False [] [] (rows @ rs)"
  using assms
proof (induction rs arbitrary: rows)
  case Nil
  then show ?case by (simp add: csv_file_def)
next
  case (Cons r rs)
  let ?rest = "line_end crlf @ csv_file quoted crlf rs @ rest"
  have "csv_loop (csv_line quoted r @ ?rest) False [] [] rows = csv_loop ?rest False (last r) (butlast r) rows"
    using Cons.prems by (subst loop_line) (auto simp: line_end_def)
  also have "\<dots> = csv_loop (csv_file quoted crlf rs @ rest) False [] [] (rows @ [r])"
    using Cons.prems by (simp add: line_end_def)
  also have "\<dots> = csv_loop rest False [] [] (rows @ r # rs)"
    using Cons by simp
  finally show ?case by (simp add: csv_file_def)
qed

lemma parse_csv_file:
  assumes "list_all (\<lambda>r. r \<noteq> []) rows"
  shows "parseCsv (csv_file quoted crlf rows) = filter (\<lambda>r. r \<noteq> [[]]) rows"
    and "ending \<noteq> [] \<Longrightarrow>
      parseCsv (csv_file quoted crlf rows @ csv_line quoted ending) = filter (\<lambda>r. r \<noteq> [[]]) (rows @ [ending])"
proof -
  have "(length r = 1 \<and> r ! 0 = []) \<longleftrightarrow> r = [[]]" for r :: "string list"
    by (cases r) auto
  then have blank: "(\<lambda>r :: string list. \<not> (length r = 1 \<and> r ! 0 = [])) = (\<lambda>r. r \<noteq> [[]])" by blast
  have "csv_loop (csv_file quoted crlf rows) False [] [] [] = ([], [], rows)"
    using loop_file [OF assms, of quoted crlf "[]" "[]"] by simp
  then show "parseCsv (csv_file quoted crlf rows) = filter (\<lambda>r. r \<noteq> [[]]) rows"
    unfolding parseCsv_def blank by simp
  assume ending: "ending \<noteq> []"
  have "csv_loop (csv_file quoted crlf rows @ csv_line quoted ending) False [] [] [] =
      (last ending, butlast ending, rows)"
    using loop_file [OF assms, of quoted crlf "csv_line quoted ending" "[]"]
      loop_line [of "[]" ending quoted "[]" rows] ending
    by simp
  then show "parseCsv (csv_file quoted crlf rows @ csv_line quoted ending) = filter (\<lambda>r. r \<noteq> [[]]) (rows @ [ending])"
    unfolding parseCsv_def blank using ending by (cases ending rule: rev_cases) auto
qed

text \<open>
  The parser reads back every well-formed CSV file: for every table of rows, whichever fields
  are quoted, whichever line ending is used and whether or not the last line is terminated, parsing
  the file gives exactly the rows, commas, quotes and line breaks inside the fields included.  Only
  blank lines, that is rows of one empty field, are dropped.
\<close>
lemma csv_roundtrip:
  assumes "list_all (\<lambda>r. r \<noteq> []) rows" and "ending \<noteq> []"
  shows "parseCsv (csv_file quoted crlf rows) = filter (\<lambda>r. r \<noteq> [[]]) rows \<and>
    parseCsv (csv_file quoted crlf rows @ csv_line quoted ending) = filter (\<lambda>r. r \<noteq> [[]]) (rows @ [ending])"
  using parse_csv_file [OF assms(1)] assms(2) by blast

end
