(* ===== verification/Importers.thy ===== *)
theory Importers
  imports Csv
begin

text \<open>
  The import normalizers of \<open>packages/importers/src\<close> (\<open>csv.ts\<close>, \<open>bitwarden.ts\<close>, \<open>enpass.ts\<close>,
  \<open>onepassword.ts\<close>) and the items they produce (\<open>packages/domain/src/normalized-item.ts\<close>).
  \<open>json_parse\<close> is \<open>JSON.parse\<close>: a value, or the message of the exception.

  The three loops share their frame, which is \<open>normalize_loop\<close>; what they do with one record is its
  argument.  The laws that a record function owes the frame are the locale \<open>record_normalizer\<close>.
\<close>


section \<open>Items and issues\<close>

datatype import_source = Src_enpass | Src_1password | Src_bitwarden | Src_csv

record normalized_totp =
  nt_secret :: string
  nt_algorithm :: "string option"
  nt_digits :: "nat option"
  nt_periodSeconds :: "nat option"

record normalized_item =
  n_title :: string
  n_username :: "string option"
  n_password :: "string option"
  n_url :: "string option"
  n_otherUrls :: "string list option"
  n_notes :: "string option"
  n_totp :: "normalized_totp option"
  n_folder :: "string option"
  n_source :: import_source

record normalize_issue =
  i_index :: nat
  i_reason :: string

record normalize_result =
  r_items :: "normalized_item list"
  r_issues :: "normalize_issue list"

definition issue :: "nat \<Rightarrow> string \<Rightarrow> normalize_issue" where
  "issue i reason = \<lparr>i_index = i, i_reason = reason\<rparr>"

definition bare_totp :: "string option \<Rightarrow> normalized_totp option" where
  "bare_totp secret =
     (case secret of
        None \<Rightarrow> None
      | Some s \<Rightarrow>
          if s = [] then None
          else Some \<lparr>nt_secret = s, nt_algorithm = None, nt_digits = None, nt_periodSeconds = None\<rparr>)"


section \<open>The record loop\<close>

type_synonym 'a record_step = "nat \<Rightarrow> 'a \<Rightarrow> normalize_issue list \<times> normalized_item option"

fun normalize_loop ::
  "'a record_step \<Rightarrow> nat \<Rightarrow> 'a list \<Rightarrow> normalized_item list \<Rightarrow> normalize_issue list \<Rightarrow> normalize_result" where
  "normalize_loop step idx [] items issues = \<lparr>r_items = items, r_issues = issues\<rparr>"
| "normalize_loop step idx (x # xs) items issues =
     (if length items \<ge> MAX_ITEMS
      then normalize_loop step (Suc idx) xs items
             (issues @ [issue idx (''dropped: exceeds max item limit of '' @ string_of_nat MAX_ITEMS)])
      else (case step idx x of
              (found, None) \<Rightarrow> normalize_loop step (Suc idx) xs items (issues @ found)
            | (found, Some item) \<Rightarrow> normalize_loop step (Suc idx) xs (items @ [item]) (issues @ found)))"


section \<open>CSV\<close>

text \<open>
  The role of a column.  The alias table is an object literal, so the header \<open>constructor\<close> finds the
  inherited property of that name; writing to it does not reach any field that is read.
\<close>

datatype column_role =
  R_title | R_username | R_password | R_url | R_notes | R_totp | R_folder | R_inherited

definition HEADER_ALIASES :: "(string \<times> column_role) list" where
  "HEADER_ALIASES =
     [(''title'', R_title), (''name'', R_title), (''itemname'', R_title), (''username'', R_username),
      (''user'', R_username), (''login'', R_username), (''email'', R_username), (''password'', R_password),
      (''pass'', R_password), (''pwd'', R_password), (''url'', R_url), (''website'', R_url), (''uri'', R_url),
      (''site'', R_url), (''notes'', R_notes), (''note'', R_notes), (''comments'', R_notes), (''totp'', R_totp),
      (''otp'', R_totp), (''otp secret'', R_totp), (''folder'', R_folder), (''group'', R_folder),
      (''constructor'', R_inherited)]"

fun role_name :: "column_role \<Rightarrow> string" where
  "role_name R_title = ''title''"
| "role_name R_username = ''username''"
| "role_name R_password = ''password''"
| "role_name R_url = ''url''"
| "role_name R_notes = ''notes''"
| "role_name R_totp = ''totp''"
| "role_name R_folder = ''folder''"
| "role_name R_inherited = ''function Object() { [native code] }''"

record mapped_row =
  m_title :: "string option"
  m_username :: "string option"
  m_password :: "string option"
  m_url :: "string option"
  m_notes :: "string option"
  m_totp :: "string option"
  m_folder :: "string option"

definition empty_row :: mapped_row where
  "empty_row = \<lparr>m_title = None, m_username = None, m_password = None, m_url = None, m_notes = None, m_totp = None,
     m_folder = None\<rparr>"

fun set_role :: "column_role \<Rightarrow> string \<Rightarrow> mapped_row \<Rightarrow> mapped_row" where
  "set_role R_title v m = m\<lparr>m_title := Some v\<rparr>"
| "set_role R_username v m = m\<lparr>m_username := Some v\<rparr>"
| "set_role R_password v m = m\<lparr>m_password := Some v\<rparr>"
| "set_role R_url v m = m\<lparr>m_url := Some v\<rparr>"
| "set_role R_notes v m = m\<lparr>m_notes := Some v\<rparr>"
| "set_role R_totp v m = m\<lparr>m_totp := Some v\<rparr>"
| "set_role R_folder v m = m\<lparr>m_folder := Some v\<rparr>"
| "set_role R_inherited v m = m"

text \<open>\<open>replace (/[..]+/g, " ")\<close>: every maximal run of the characters becomes one blank.\<close>

fun collapse_runs :: "(char \<Rightarrow> bool) \<Rightarrow> bool \<Rightarrow> string \<Rightarrow> string" where
  "collapse_runs P inside [] = []"
| "collapse_runs P inside (c # cs) =
     (if P c then (if inside then collapse_runs P True cs else CHR '' '' # collapse_runs P True cs)
      else c # collapse_runs P False cs)"

definition normalizeHeader :: "string \<Rightarrow> string" where
  "normalizeHeader h =
     collapse_runs is_space False (collapse_runs (\<lambda>c. c = CHR ''_'' \<or> c = CHR ''-'') False (toLowerCase (trim h)))"

text \<open>The inner loop over the columns of one row; a cell past the end of the row is \<open>undefined\<close>.\<close>

fun map_columns ::
  "nat \<Rightarrow> column_role option list \<Rightarrow> string list \<Rightarrow> mapped_row \<Rightarrow> normalize_issue list \<Rightarrow> normalize_issue list \<times> mapped_row" where
  "map_columns r [] cells m found = (found, m)"
| "map_columns r (role # roles) [] m found = map_columns r roles [] m found"
| "map_columns r (None # roles) (raw # cells) m found = map_columns r roles cells m found"
| "map_columns r (Some role # roles) (raw # cells) m found =
     (case boundField (JStr raw) of
        (v, truncated) \<Rightarrow>
          map_columns r roles cells (case v of None \<Rightarrow> m | Some s \<Rightarrow> set_role role s m)
            (if truncated then found @ [issue r (''field '' @ [CHR 0x27] @ role_name role @ [CHR 0x27] @ '' truncated to size limit'')]
             else found))"

definition row_title :: "mapped_row \<Rightarrow> string option" where
  "row_title m =
     (case m_title m of Some t \<Rightarrow> Some t | None \<Rightarrow> (case m_username m of Some u \<Rightarrow> Some u | None \<Rightarrow> m_url m))"

definition csv_row :: "column_role option list \<Rightarrow> string list record_step" where
  "csv_row columnRoles r row =
     (case map_columns r columnRoles row empty_row [] of
        (found, m) \<Rightarrow>
          (case row_title m of
             None \<Rightarrow> (found @ [issue r ''row has no title, username, or url; skipped''], None)
           | Some title \<Rightarrow>
               if title = [] then (found @ [issue r ''row has no title, username, or url; skipped''], None)
               else (found, Some
                 \<lparr>n_title = title, n_username = m_username m, n_password = m_password m, n_url = m_url m,
                  n_otherUrls = None, n_notes = m_notes m, n_totp = bare_totp (m_totp m), n_folder = m_folder m,
                  n_source = Src_csv\<rparr>)))"

definition column_roles :: "string list \<Rightarrow> column_role option list" where
  "column_roles header = map (\<lambda>h. map_of HEADER_ALIASES (normalizeHeader h)) header"

definition normalizeCsv :: "string \<Rightarrow> import_error + normalize_result" where
  "normalizeCsv input =
     (case assertInputSize input of
        Some e \<Rightarrow> Inl e
      | None \<Rightarrow>
          (case parseCsv input of
             [] \<Rightarrow> Inr \<lparr>r_items = [], r_issues = []\<rparr>
           | header # rows \<Rightarrow>
               (let columnRoles = column_roles header
                in if Some R_title \<notin> set columnRoles \<and> Some R_username \<notin> set columnRoles
                   then Inr \<lparr>r_items = [],
                     r_issues = [issue 0 ''no recognizable header row (title/username/password/url column)'']\<rparr>
                   else Inr (normalize_loop (csv_row columnRoles) 1 rows [] []))))"

definition normalizeOnePasswordCsv :: "string \<Rightarrow> import_error + normalize_result" where
  "normalizeOnePasswordCsv input =
     (case normalizeCsv input of
        Inl e \<Rightarrow> Inl e
      | Inr res \<Rightarrow>
          Inr \<lparr>r_items = map (\<lambda>i. i\<lparr>n_source := Src_1password\<rparr>) (r_items res), r_issues = r_issues res\<rparr>)"


section \<open>JSON exports\<close>

text \<open>\<open>typeof v === "object" && v !== null\<close>, and a property of such a value; the names read here are no
  properties of an array.\<close>

fun is_object :: "jsval \<Rightarrow> bool" where
  "is_object (JObj _) = True"
| "is_object (JArr _) = True"
| "is_object _ = False"

fun prop_of :: "jsval \<Rightarrow> string \<Rightarrow> jsval" where
  "prop_of (JObj ps) k = jget ps k"
| "prop_of _ k = JUndefined"

fun array_of :: "jsval \<Rightarrow> jsval list option" where
  "array_of (JArr xs) = Some xs"
| "array_of _ = None"

definition bounded_str :: "jsval \<Rightarrow> string option" where
  "bounded_str v = fst (boundField v)"

definition folder_names :: "jsval \<Rightarrow> (string, string) js_map" where
  "folder_names folders =
     (case array_of folders of
        None \<Rightarrow> []
      | Some fs \<Rightarrow>
          fold (\<lambda>f names.
                  case (jstring (prop_of f ''id''), jstring (prop_of f ''name'')) of
                    (Some i, Some n) \<Rightarrow> if is_object f then AList.update i n names else names
                  | _ \<Rightarrow> names) fs [])"

definition bitwarden_uris :: "jsval \<Rightarrow> string list" where
  "bitwarden_uris uris =
     (case array_of uris of
        None \<Rightarrow> []
      | Some us \<Rightarrow> List.map_filter (\<lambda>u. if is_object u then bounded_str (prop_of u ''uri'') else None) us)"

definition bitwarden_item :: "(string, string) js_map \<Rightarrow> jsval record_step" where
  "bitwarden_item folderNameById idx raw =
     (if \<not> is_object raw then ([issue idx ''item is not an object; skipped''], None)
      else
        (case bounded_str (prop_of raw ''name'') of
           None \<Rightarrow> ([issue idx ''item has no name; skipped''], None)
         | Some title \<Rightarrow>
             (let login = prop_of raw ''login'';
                  has_login = is_object login;
                  uris = (if has_login then bitwarden_uris (prop_of login ''uris'') else [])
              in ([], Some
                   \<lparr>n_title = title,
                    n_username = (if has_login then bounded_str (prop_of login ''username'') else None),
                    n_password = (if has_login then bounded_str (prop_of login ''password'') else None),
                    n_url = (case uris of [] \<Rightarrow> None | u # us \<Rightarrow> Some u),
                    n_otherUrls = (case uris of u # v # vs \<Rightarrow> Some (v # vs) | _ \<Rightarrow> None),
                    n_notes = bounded_str (prop_of raw ''notes''),
                    n_totp = (if has_login then bare_totp (bounded_str (prop_of login ''totp'')) else None),
                    n_folder =
                      (case jstring (prop_of raw ''folderId'') of
                         None \<Rightarrow> None
                       | Some i \<Rightarrow> if i = [] then None else map_of folderNameById i),
                    n_source = Src_bitwarden\<rparr>))))"

definition normalizeBitwardenJson :: "(string \<Rightarrow> string + jsval) \<Rightarrow> string \<Rightarrow> import_error + normalize_result" where
  "normalizeBitwardenJson json_parse input =
     (case assertInputSize input of
        Some e \<Rightarrow> Inl e
      | None \<Rightarrow>
          (case json_parse input of
             Inl message \<Rightarrow> Inr \<lparr>r_items = [], r_issues = [issue 0 (''invalid JSON: '' @ message)]\<rparr>
           | Inr doc \<Rightarrow>
               (case array_of (prop_of doc ''items'') of
                  None \<Rightarrow> Inr \<lparr>r_items = [], r_issues = [issue 0
                     (''expected a Bitwarden export object with an '' @ [CHR 0x27] @ ''items'' @ [CHR 0x27] @ '' array'')]\<rparr>
                | Some rawItems \<Rightarrow>
                    Inr (normalize_loop (bitwarden_item (folder_names (prop_of doc ''folders''))) 0 rawItems [] []))))"

record enpass_fields =
  e_username :: "string option"
  e_url :: "string option"
  e_otherUrls :: "string list"
  e_password :: "string option"
  e_totpSecret :: "string option"

definition no_fields :: enpass_fields where
  "no_fields = \<lparr>e_username = None, e_url = None, e_otherUrls = [], e_password = None, e_totpSecret = None\<rparr>"

definition enpass_field :: "jsval \<Rightarrow> enpass_fields \<Rightarrow> enpass_fields" where
  "enpass_field f a =
     (if \<not> is_object f then a
      else
        (case (jstring (prop_of f ''type''), bounded_str (prop_of f ''value'')) of
           (Some t, Some v) \<Rightarrow>
             (let type = toLowerCase t
              in if type = [] then a
                 else if type = ''username'' \<and> e_username a = None then a\<lparr>e_username := Some v\<rparr>
                 else if type = ''password'' \<and> e_password a = None then a\<lparr>e_password := Some v\<rparr>
                 else if type = ''url''
                 then (if e_url a = None then a\<lparr>e_url := Some v\<rparr> else a\<lparr>e_otherUrls := e_otherUrls a @ [v]\<rparr>)
                 else if type = ''totp'' \<and> e_totpSecret a = None then a\<lparr>e_totpSecret := Some v\<rparr>
                 else a)
         | _ \<Rightarrow> a))"

definition enpass_item :: "jsval record_step" where
  "enpass_item idx raw =
     (if \<not> is_object raw then ([issue idx ''item is not an object; skipped''], None)
      else
        (case bounded_str (prop_of raw ''title'') of
           None \<Rightarrow> ([issue idx ''item has no title; skipped''], None)
         | Some title \<Rightarrow>
             (let a = (case array_of (prop_of raw ''fields'') of None \<Rightarrow> no_fields | Some fs \<Rightarrow> fold enpass_field fs no_fields)
              in ([], Some
                   \<lparr>n_title = title, n_username = e_username a, n_password = e_password a, n_url = e_url a,
                    n_otherUrls = (if e_otherUrls a = [] then None else Some (e_otherUrls a)),
                    n_notes = bounded_str (prop_of raw ''note''), n_totp = bare_totp (e_totpSecret a),
                    n_folder = None, n_source = Src_enpass\<rparr>))))"

definition normalizeEnpassJson :: "(string \<Rightarrow> string + jsval) \<Rightarrow> string \<Rightarrow> import_error + normalize_result" where
  "normalizeEnpassJson json_parse input =
     (case assertInputSize input of
        Some e \<Rightarrow> Inl e
      | None \<Rightarrow>
          (case json_parse input of
             Inl message \<Rightarrow> Inr \<lparr>r_items = [], r_issues = [issue 0 (''invalid JSON: '' @ message)]\<rparr>
           | Inr doc \<Rightarrow>
               (case array_of (prop_of doc ''items'') of
                  None \<Rightarrow> Inr \<lparr>r_items = [], r_issues = [issue 0
                     (''expected an Enpass export object with an '' @ [CHR 0x27] @ ''items'' @ [CHR 0x27] @ '' array'')]\<rparr>
                | Some rawItems \<Rightarrow> Inr (normalize_loop enpass_item 0 rawItems [] []))))"

end
