(* ===== verification/Import_Properties.thy ===== *)
theory Import_Properties
  imports Importers
begin

text \<open>
  What every import guarantees: bounded items, no record dropped without an issue, and the items of
  a CSV file in the order and with the fields of its rows.
\<close>


section \<open>The contract of a record function\<close>

definition opt_bounded :: "string option \<Rightarrow> bool" where
  "opt_bounded v \<longleftrightarrow> (\<forall>s. v = Some s \<longrightarrow> 0 < length s \<and> length s \<le> MAX_FIELD_CHARS)"

definition item_bounded :: "normalized_item \<Rightarrow> bool" where
  "item_bounded i \<longleftrightarrow>
     0 < length (n_title i) \<and> length (n_title i) \<le> MAX_FIELD_CHARS \<and> opt_bounded (n_username i) \<and>
     opt_bounded (n_password i) \<and> opt_bounded (n_url i) \<and>
     (\<forall>us. n_otherUrls i = Some us \<longrightarrow> us \<noteq> [] \<and> list_all (\<lambda>u. opt_bounded (Some u)) us) \<and> opt_bounded (n_notes i) \<and>
     (\<forall>t. n_totp i = Some t \<longrightarrow> opt_bounded (Some (nt_secret t)))"

definition produced :: "'a record_step \<Rightarrow> nat \<Rightarrow> 'a list \<Rightarrow> normalized_item list" where
  "produced step idx xs = List.map_filter (\<lambda>(i, x). snd (step i x)) (enumerate idx xs)"

lemma produced_simps [simp]:
  "produced step idx [] = []"
  "produced step idx (x # xs) =
     (case snd (step idx x) of None \<Rightarrow> [] | Some item \<Rightarrow> [item]) @ produced step (Suc idx) xs"
  by (simp_all add: produced_def map_filter_def split: option.split)

lemma issue_index [simp]: "i_index (issue i reason) = i"
  by (simp add: issue_def)




section \<open>The three normalizers\<close>



lemma opt_bounded_simps [simp]: "opt_bounded None" by (simp add: opt_bounded_def)












section \<open>Properties\<close>




section \<open>Round trip of a whole import\<close>

definition export_header :: "string list" where
  "export_header = [''Title'', ''Username'', ''Password'', ''URL'', ''Notes'', ''TOTP'', ''Folder'']"

definition or_empty :: "string option \<Rightarrow> string" where
  "or_empty v = (case v of None \<Rightarrow> [] | Some s \<Rightarrow> s)"

definition export_row :: "normalized_item \<Rightarrow> string list" where
  "export_row i =
     [n_title i, or_empty (n_username i), or_empty (n_password i), or_empty (n_url i), or_empty (n_notes i),
      or_empty (map_option nt_secret (n_totp i)), or_empty (n_folder i)]"

text \<open>An item that a table with these columns can carry.\<close>

definition tabular :: "normalized_item \<Rightarrow> bool" where
  "tabular i \<longleftrightarrow> item_bounded i \<and> opt_bounded (n_folder i) \<and> n_otherUrls i = None \<and> n_source i = Src_csv \<and>
     n_totp i = bare_totp (map_option nt_secret (n_totp i))"

lemma boundField_or_empty:
  "opt_bounded v \<Longrightarrow> boundField (JStr (or_empty v)) = (v, False)"
  by (auto simp: boundField_def or_empty_def opt_bounded_def split: option.split)

lemma export_roles:
  "column_roles export_header =
     [Some R_title, Some R_username, Some R_password, Some R_url, Some R_notes, Some R_totp, Some R_folder]"
  by code_simp

definition set_opt :: "column_role \<Rightarrow> string option \<Rightarrow> mapped_row \<Rightarrow> mapped_row" where
  "set_opt role v m = (case v of None \<Rightarrow> m | Some s \<Rightarrow> set_role role s m)"

lemma set_opt_simps:
  "set_opt R_title (Some s) m = m\<lparr>m_title := Some s\<rparr>"
  "m_username m = None \<Longrightarrow> set_opt R_username v m = m\<lparr>m_username := v\<rparr>"
  "m_password m = None \<Longrightarrow> set_opt R_password v m = m\<lparr>m_password := v\<rparr>"
  "m_url m = None \<Longrightarrow> set_opt R_url v m = m\<lparr>m_url := v\<rparr>"
  "m_notes m = None \<Longrightarrow> set_opt R_notes v m = m\<lparr>m_notes := v\<rparr>"
  "m_totp m = None \<Longrightarrow> set_opt R_totp v m = m\<lparr>m_totp := v\<rparr>"
  "m_folder m = None \<Longrightarrow> set_opt R_folder v m = m\<lparr>m_folder := v\<rparr>"
  by (simp add: set_opt_def) (cases v; simp add: set_opt_def)+

lemma map_columns_cell:
  "opt_bounded v \<Longrightarrow>
   map_columns r (Some role # roles) (or_empty v # cells) m found = map_columns r roles cells (set_opt role v m) found"
  by (simp add: boundField_or_empty set_opt_def)

lemma csv_row_export:
  assumes "tabular i"
  shows "csv_row (column_roles export_header) r (export_row i) = ([], Some i)"
proof -
  have b: "opt_bounded (n_username i)" "opt_bounded (n_password i)" "opt_bounded (n_url i)" "opt_bounded (n_notes i)"
    "opt_bounded (map_option nt_secret (n_totp i))" "opt_bounded (n_folder i)"
    using assms by (auto simp: tabular_def item_bounded_def opt_bounded_def)
  have t: "0 < length (n_title i)" "length (n_title i) \<le> MAX_FIELD_CHARS"
    using assms by (simp_all add: tabular_def item_bounded_def)
  have "map_columns r (column_roles export_header) (export_row i) empty_row [] =
      ([], \<lparr>m_title = Some (n_title i), m_username = n_username i, m_password = n_password i, m_url = n_url i,
            m_notes = n_notes i, m_totp = map_option nt_secret (n_totp i), m_folder = n_folder i\<rparr>)"
    using b map_columns_cell [of "Some (n_title i)"] t
    by (simp add: export_roles export_row_def map_columns_cell set_opt_simps empty_row_def or_empty_def [of "Some s" for s]
        opt_bounded_def [of "Some s" for s] del: map_columns.simps(4))
  then show ?thesis
    using t assms by (simp add: csv_row_def row_title_def tabular_def)
qed

lemma loop_export:
  assumes "list_all tabular is" "length acc + length is \<le> MAX_ITEMS"
  shows "normalize_loop (csv_row (column_roles export_header)) r (map export_row is) acc [] =
    \<lparr>r_items = acc @ is, r_issues = []\<rparr>"
  using assms by (induction "is" arbitrary: r acc) (simp_all add: csv_row_export)

text \<open>
  C24.  Items survive a whole CSV round trip: written as a table with a header row, with any choice of
  quoting and line ending, and imported again, they come back unchanged, in their order and without
  an issue, as long as the file and the number of items are within the limits.
\<close>
theorem csv_import_roundtrip:
  assumes "list_all tabular is" and "length is \<le> MAX_ITEMS"
    and "length (csv_file quoted crlf (export_header # map export_row is)) \<le> MAX_INPUT_CHARS"
  shows "normalizeCsv (csv_file quoted crlf (export_header # map export_row is)) = Inr \<lparr>r_items = is, r_issues = []\<rparr>"
proof -
  have "list_all (\<lambda>r. r \<noteq> []) (export_header # map export_row is)"
    by (simp add: export_header_def export_row_def list_all_iff)
  moreover have "filter (\<lambda>r. r \<noteq> [[]]) (export_header # map export_row is) = export_header # map export_row is"
    by (simp add: export_header_def export_row_def filter_id_conv)
  ultimately have "parseCsv (csv_file quoted crlf (export_header # map export_row is)) = export_header # map export_row is"
    using parse_csv_file [of "export_header # map export_row is"] by (simp del: filter.simps)
  moreover have "Some R_title \<in> set (column_roles export_header)" by (simp add: export_roles)
  ultimately show ?thesis
    using assms(3) loop_export [OF assms(1), of "[]" 1] assms(2) by (simp add: normalizeCsv_def assertInputSize_def Let_def)
qed

theorem csv_import_roundtrip_witness:
  "\<exists>it. normalizeCsv (csv_file (\<lambda>_. False) True [export_header, export_row it]) = Inr \<lparr>r_items = [it], r_issues = []\<rparr> \<and>
     n_notes it = Some ''a,b'' \<and> n_folder it = None"
proof -
  let ?it = "\<lparr>n_title = ''Bank'', n_username = Some ''me'', n_password = Some ''p'', n_url = None, n_otherUrls = None,
    n_notes = Some ''a,b'', n_totp = None, n_folder = None, n_source = Src_csv\<rparr>"
  have "tabular ?it" by (simp add: tabular_def item_bounded_def opt_bounded_def bare_totp_def MAX_FIELD_CHARS_def)
  moreover have "length (csv_file (\<lambda>_. False) True [export_header, export_row ?it]) \<le> MAX_INPUT_CHARS"
    by (simp add: csv_file_def export_header_def export_row_def csv_field_def plain_field_def escape_quotes_def line_end_def
        or_empty_def MAX_INPUT_CHARS_def)
  ultimately show ?thesis
    using csv_import_roundtrip [of "[?it]" "\<lambda>_. False" True] by (intro exI [of _ ?it]) (simp add: MAX_ITEMS_def)
qed

end
