(* ===== verification/Crypto_Worker.thy ===== *)
theory Crypto_Worker
  imports Js_Value "HOL-Library.Monad_Syntax"
begin

text \<open>
  The crypto worker (\<open>packages/crypto-worker/src\<close>): its protocol, \<open>CryptoWorkerHost\<close> and the copy its
  entry point makes of a response.

  The WASM backend is third-party code: it is an argument, a record of functions on a state \<open>'w\<close> of
  its own.  A call may throw; \<open>thrown\<close> is what the host can tell of an exception.
\<close>


section \<open>Messages\<close>

text \<open>
  A structured clone carries byte arrays and bigints besides JSON values.  A message that is not an
  object, or is an array, has no property \<open>id\<close>.
\<close>

datatype clone_val = CV_bytes bytes | CV_big int | CV_js jsval

datatype clone_msg = Msg_object "(string \<times> clone_val) list" | Msg_other

record unlock_request =
  u_password :: bytes
  u_kdfParametersCbor :: bytes
  u_reportedPhysicalMemoryKiB :: int
  u_accountId :: id
  u_vaultId :: id
  u_itemId :: id
  u_accountKeyVersion :: int
  u_vaultKeyVersion :: int
  u_itemKeyVersion :: int
  u_wrappedAccountKey :: bytes
  u_wrappedVaultKey :: bytes
  u_wrappedItemKey :: bytes

record setup_request =
  s_password :: bytes
  s_reportedPhysicalMemoryKiB :: int
  s_accountId :: id
  s_vaultId :: id
  s_itemId :: id

record recovery_request =
  rc_recoveryKey :: bytes
  rc_accountId :: id
  rc_vaultId :: id
  rc_itemId :: id
  rc_accountKeyVersion :: int
  rc_vaultKeyVersion :: int
  rc_itemKeyVersion :: int
  rc_wrappedAccountKey :: bytes
  rc_wrappedVaultKey :: bytes
  rc_wrappedItemKey :: bytes

record payload_request =
  p_session :: int
  p_accountId :: id
  p_vaultId :: id
  p_itemId :: id
  p_keyVersion :: int
  p_payload :: bytes

datatype crypto_request =
    Unlock_item_session string unlock_request
  | Create_account_setup string setup_request
  | Unlock_with_recovery string recovery_request
  | Seal_item_payload string payload_request
  | Open_item_payload string payload_request
  | Inspect_envelope string bytes
  | Lock_worker string

fun request_id :: "crypto_request \<Rightarrow> string" where
  "request_id (Unlock_item_session i _) = i"
| "request_id (Create_account_setup i _) = i"
| "request_id (Unlock_with_recovery i _) = i"
| "request_id (Seal_item_payload i _) = i"
| "request_id (Open_item_payload i _) = i"
| "request_id (Inspect_envelope i _) = i"
| "request_id (Lock_worker i) = i"

record envelope_metadata =
  em_accountId :: id
  em_vaultId :: "id option"
  em_itemId :: "id option"
  em_recordKind :: string
  em_keyVersion :: int

record account_setup_result =
  as_accountId :: id
  as_vaultId :: id
  as_itemId :: id
  as_session :: int
  as_kdfParametersCbor :: bytes
  as_wrappedAccountKey :: bytes
  as_wrappedVaultKey :: bytes
  as_wrappedItemKey :: bytes
  as_wrappedRecoveryKey :: bytes
  as_recoveryKey :: bytes

datatype crypto_error_code =
    InvalidEncoding | UnsupportedVersion | NonCanonicalCbor | UnknownField | InvalidContext | InvalidNonce
  | AuthenticationFailed | InvalidKdfParameters | KdfResourceLimit | InvalidKeyLength | InvalidRecoveryKit
  | Locked_code | Internal

datatype response_body =
    Res_session int
  | Res_bytes bytes
  | Res_metadata envelope_metadata
  | Res_locked
  | Res_account_setup account_setup_result

datatype crypto_response = Ok_response string response_body | Error_response string crypto_error_code

fun response_id :: "crypto_response \<Rightarrow> string" where
  "response_id (Ok_response i _) = i"
| "response_id (Error_response i _) = i"


section \<open>Validation\<close>

definition MAX_ITEM_BYTES :: int where "MAX_ITEM_BYTES = 1024 * 1024"
definition MAX_ENVELOPE_BYTES :: int where "MAX_ENVELOPE_BYTES = MAX_ITEM_BYTES + 1024 + 16"

type_synonym clone_fields = "(string \<times> clone_val) list"

definition exact_keys :: "clone_fields \<Rightarrow> string list \<Rightarrow> bool" where
  "exact_keys r keys \<longleftrightarrow> length r = length keys \<and> list_all (\<lambda>k. map_of r k \<noteq> None) keys"

definition string_field :: "clone_fields \<Rightarrow> string \<Rightarrow> string option" where
  "string_field r k = (case map_of r k of Some (CV_js (JStr s)) \<Rightarrow> Some s | _ \<Rightarrow> None)"

definition payload_field :: "clone_fields \<Rightarrow> string \<Rightarrow> int \<Rightarrow> bytes option" where
  "payload_field r k cap =
     (case map_of r k of Some (CV_bytes b) \<Rightarrow> if int (length b) \<le> cap then Some b else None | _ \<Rightarrow> None)"

definition positive_big :: "clone_fields \<Rightarrow> string \<Rightarrow> int option" where
  "positive_big r k = (case map_of r k of Some (CV_big n) \<Rightarrow> if n > 0 then Some n else None | _ \<Rightarrow> None)"

definition session_field :: "clone_fields \<Rightarrow> int option" where
  "session_field r =
     (case map_of r ''session'' of
        Some (CV_js (JInt n)) \<Rightarrow> if 0 \<le> n \<and> n \<le> 9007199254740991 then Some n else None
      | _ \<Rightarrow> None)"

text \<open>The checks of \<open>isRequest\<close> for each type, with the fields they establish.\<close>

definition parse_unlock :: "clone_fields \<Rightarrow> unlock_request option" where
  "parse_unlock r =
     (if \<not> exact_keys r [''id'', ''type'', ''password'', ''kdfParametersCbor'', ''reportedPhysicalMemoryKiB'', ''accountId'',
          ''vaultId'', ''itemId'', ''accountKeyVersion'', ''vaultKeyVersion'', ''itemKeyVersion'', ''wrappedAccountKey'',
          ''wrappedVaultKey'', ''wrappedItemKey''] then None
      else do {
        password \<leftarrow> payload_field r ''password'' MAX_ITEM_BYTES;
        kdf \<leftarrow> payload_field r ''kdfParametersCbor'' (64 * 1024);
        wa \<leftarrow> payload_field r ''wrappedAccountKey'' (64 * 1024);
        wv \<leftarrow> payload_field r ''wrappedVaultKey'' (64 * 1024);
        wi \<leftarrow> payload_field r ''wrappedItemKey'' (64 * 1024);
        memory \<leftarrow> positive_big r ''reportedPhysicalMemoryKiB'';
        a \<leftarrow> string_field r ''accountId'';
        v \<leftarrow> string_field r ''vaultId'';
        i \<leftarrow> string_field r ''itemId'';
        ka \<leftarrow> positive_big r ''accountKeyVersion'';
        kv \<leftarrow> positive_big r ''vaultKeyVersion'';
        ki \<leftarrow> positive_big r ''itemKeyVersion'';
        Some \<lparr>u_password = password, u_kdfParametersCbor = kdf, u_reportedPhysicalMemoryKiB = memory, u_accountId = a,
          u_vaultId = v, u_itemId = i, u_accountKeyVersion = ka, u_vaultKeyVersion = kv, u_itemKeyVersion = ki,
          u_wrappedAccountKey = wa, u_wrappedVaultKey = wv, u_wrappedItemKey = wi\<rparr>
      })"

definition parse_setup :: "clone_fields \<Rightarrow> setup_request option" where
  "parse_setup r =
     (if \<not> exact_keys r [''id'', ''type'', ''password'', ''reportedPhysicalMemoryKiB'', ''accountId'', ''vaultId'', ''itemId'']
      then None
      else do {
        password \<leftarrow> payload_field r ''password'' MAX_ITEM_BYTES;
        memory \<leftarrow> positive_big r ''reportedPhysicalMemoryKiB'';
        a \<leftarrow> string_field r ''accountId'';
        v \<leftarrow> string_field r ''vaultId'';
        i \<leftarrow> string_field r ''itemId'';
        Some \<lparr>s_password = password, s_reportedPhysicalMemoryKiB = memory, s_accountId = a, s_vaultId = v, s_itemId = i\<rparr>
      })"

definition parse_recovery :: "clone_fields \<Rightarrow> recovery_request option" where
  "parse_recovery r =
     (if \<not> exact_keys r [''id'', ''type'', ''recoveryKey'', ''accountId'', ''vaultId'', ''itemId'', ''accountKeyVersion'',
          ''vaultKeyVersion'', ''itemKeyVersion'', ''wrappedAccountKey'', ''wrappedVaultKey'', ''wrappedItemKey'']
      then None
      else do {
        key \<leftarrow> payload_field r ''recoveryKey'' 64;
        wa \<leftarrow> payload_field r ''wrappedAccountKey'' (64 * 1024);
        wv \<leftarrow> payload_field r ''wrappedVaultKey'' (64 * 1024);
        wi \<leftarrow> payload_field r ''wrappedItemKey'' (64 * 1024);
        a \<leftarrow> string_field r ''accountId'';
        v \<leftarrow> string_field r ''vaultId'';
        i \<leftarrow> string_field r ''itemId'';
        ka \<leftarrow> positive_big r ''accountKeyVersion'';
        kv \<leftarrow> positive_big r ''vaultKeyVersion'';
        ki \<leftarrow> positive_big r ''itemKeyVersion'';
        Some \<lparr>rc_recoveryKey = key, rc_accountId = a, rc_vaultId = v, rc_itemId = i, rc_accountKeyVersion = ka,
          rc_vaultKeyVersion = kv, rc_itemKeyVersion = ki, rc_wrappedAccountKey = wa, rc_wrappedVaultKey = wv,
          rc_wrappedItemKey = wi\<rparr>
      })"

definition parse_payload :: "clone_fields \<Rightarrow> string \<Rightarrow> int \<Rightarrow> payload_request option" where
  "parse_payload r field cap =
     (if \<not> exact_keys r [''id'', ''type'', ''session'', ''accountId'', ''vaultId'', ''itemId'', ''keyVersion'', field]
      then None
      else do {
        session \<leftarrow> session_field r;
        a \<leftarrow> string_field r ''accountId'';
        v \<leftarrow> string_field r ''vaultId'';
        i \<leftarrow> string_field r ''itemId'';
        k \<leftarrow> positive_big r ''keyVersion'';
        b \<leftarrow> payload_field r field cap;
        Some \<lparr>p_session = session, p_accountId = a, p_vaultId = v, p_itemId = i, p_keyVersion = k, p_payload = b\<rparr>
      })"

definition isRequest :: "clone_msg \<Rightarrow> crypto_request option" where
  "isRequest msg =
     (case msg of
        Msg_other \<Rightarrow> None
      | Msg_object r \<Rightarrow> do {
          i \<leftarrow> string_field r ''id'';
          t \<leftarrow> string_field r ''type'';
          if t = ''unlock-item-session'' then map_option (Unlock_item_session i) (parse_unlock r)
          else if t = ''create-account-setup'' then map_option (Create_account_setup i) (parse_setup r)
          else if t = ''unlock-item-session-with-recovery'' then map_option (Unlock_with_recovery i) (parse_recovery r)
          else if t = ''lock'' then (if exact_keys r [''id'', ''type''] then Some (Lock_worker i) else None)
          else if t = ''inspect-envelope''
          then (if exact_keys r [''id'', ''type'', ''envelope'']
                then map_option (Inspect_envelope i) (payload_field r ''envelope'' MAX_ENVELOPE_BYTES) else None)
          else if t = ''seal-item-payload'' then map_option (Seal_item_payload i) (parse_payload r ''plaintext'' MAX_ITEM_BYTES)
          else if t = ''open-item-payload'' then map_option (Open_item_payload i) (parse_payload r ''envelope'' MAX_ENVELOPE_BYTES)
          else None
        })"


section \<open>Host\<close>

datatype thrown = Thrown_string string | Thrown_code string | Thrown_other

definition error_codes :: "(string \<times> crypto_error_code) list" where
  "error_codes =
     [(''InvalidEncoding'', InvalidEncoding), (''UnsupportedVersion'', UnsupportedVersion),
      (''NonCanonicalCbor'', NonCanonicalCbor), (''UnknownField'', UnknownField), (''InvalidContext'', InvalidContext),
      (''InvalidNonce'', InvalidNonce), (''AuthenticationFailed'', AuthenticationFailed),
      (''InvalidKdfParameters'', InvalidKdfParameters), (''KdfResourceLimit'', KdfResourceLimit),
      (''InvalidKeyLength'', InvalidKeyLength), (''InvalidRecoveryKit'', InvalidRecoveryKit), (''Locked'', Locked_code),
      (''Internal'', Internal)]"

definition errorCode :: "thrown \<Rightarrow> crypto_error_code" where
  "errorCode e =
     (case e of
        Thrown_string s \<Rightarrow> (case map_of error_codes s of Some c \<Rightarrow> c | None \<Rightarrow> Internal)
      | Thrown_code s \<Rightarrow> (case map_of error_codes s of Some c \<Rightarrow> c | None \<Rightarrow> Internal)
      | Thrown_other \<Rightarrow> Internal)"

record 'w crypto_backend =
  cb_unlockItemSession :: "unlock_request \<Rightarrow> 'w \<Rightarrow> 'w \<times> (thrown + int)"
  cb_createAccountSetup :: "setup_request \<Rightarrow> 'w \<Rightarrow> 'w \<times> (thrown + account_setup_result)"
  cb_unlockWithRecovery :: "recovery_request \<Rightarrow> 'w \<Rightarrow> 'w \<times> (thrown + int)"
  cb_sealItemPayload :: "payload_request \<Rightarrow> 'w \<Rightarrow> 'w \<times> (thrown + bytes)"
  cb_openItemPayload :: "payload_request \<Rightarrow> 'w \<Rightarrow> 'w \<times> (thrown + bytes)"
  cb_inspectEnvelope :: "bytes \<Rightarrow> 'w \<Rightarrow> 'w \<times> (thrown + envelope_metadata)"
  cb_closeSession :: "int \<Rightarrow> 'w \<Rightarrow> 'w \<times> (thrown + unit)"

record 'w crypto_host =
  h_sessions :: "int list"
  h_wasm :: 'w

definition host_add :: "int \<Rightarrow> int list \<Rightarrow> int list" where
  "host_add s ss = (if s \<in> set ss then ss else ss @ [s])"

fun close_all :: "'w crypto_backend \<Rightarrow> int list \<Rightarrow> 'w \<Rightarrow> 'w \<times> bool" where
  "close_all be [] w = (w, False)"
| "close_all be (s # ss) w =
     (case cb_closeSession be s w of
        (w1, r) \<Rightarrow> (case close_all be ss w1 of (w2, failed) \<Rightarrow> (w2, failed \<or> isl r)))"

definition dispose :: "'w crypto_backend \<Rightarrow> 'w crypto_host \<Rightarrow> 'w crypto_host" where
  "dispose be h = \<lparr>h_sessions = [], h_wasm = fst (close_all be (h_sessions h) (h_wasm h))\<rparr>"

definition host_lock :: "'w crypto_backend \<Rightarrow> string \<Rightarrow> 'w crypto_host \<Rightarrow> 'w crypto_host \<times> crypto_response" where
  "host_lock be i h =
     (case close_all be (h_sessions h) (h_wasm h) of
        (w, failed) \<Rightarrow>
          (\<lparr>h_sessions = [], h_wasm = w\<rparr>, if failed then Error_response i Internal else Ok_response i Res_locked))"

text \<open>The Worker-owned message after a request: the secret it carried is overwritten.\<close>

fun wiped :: "crypto_request \<Rightarrow> crypto_request" where
  "wiped (Unlock_item_session i r) = Unlock_item_session i (r\<lparr>u_password := replicate (length (u_password r)) 0\<rparr>)"
| "wiped (Create_account_setup i r) = Create_account_setup i (r\<lparr>s_password := replicate (length (s_password r)) 0\<rparr>)"
| "wiped (Unlock_with_recovery i r) = Unlock_with_recovery i (r\<lparr>rc_recoveryKey := replicate (length (rc_recoveryKey r)) 0\<rparr>)"
| "wiped req = req"

text \<open>\<open>handle\<close> after validation: the new host, the response and the message as it is left behind.\<close>

fun handle_request ::
  "'w crypto_backend \<Rightarrow> crypto_request \<Rightarrow> 'w crypto_host \<Rightarrow> 'w crypto_host \<times> crypto_response \<times> crypto_request" where
  "handle_request be (Unlock_item_session i r) h =
     (case cb_unlockItemSession be r (h_wasm h) of
        (w, Inl e) \<Rightarrow> (h\<lparr>h_wasm := w\<rparr>, Error_response i (errorCode e), wiped (Unlock_item_session i r))
      | (w, Inr s) \<Rightarrow> (h\<lparr>h_wasm := w, h_sessions := host_add s (h_sessions h)\<rparr>, Ok_response i (Res_session s),
          wiped (Unlock_item_session i r)))"
| "handle_request be (Create_account_setup i r) h =
     (case cb_createAccountSetup be r (h_wasm h) of
        (w, Inl e) \<Rightarrow> (h\<lparr>h_wasm := w\<rparr>, Error_response i (errorCode e), wiped (Create_account_setup i r))
      | (w, Inr x) \<Rightarrow> (h\<lparr>h_wasm := w, h_sessions := host_add (as_session x) (h_sessions h)\<rparr>, Ok_response i (Res_account_setup x),
          wiped (Create_account_setup i r)))"
| "handle_request be (Unlock_with_recovery i r) h =
     (case cb_unlockWithRecovery be r (h_wasm h) of
        (w, Inl e) \<Rightarrow> (h\<lparr>h_wasm := w\<rparr>, Error_response i (errorCode e), wiped (Unlock_with_recovery i r))
      | (w, Inr s) \<Rightarrow> (h\<lparr>h_wasm := w, h_sessions := host_add s (h_sessions h)\<rparr>, Ok_response i (Res_session s),
          wiped (Unlock_with_recovery i r)))"
| "handle_request be (Seal_item_payload i r) h =
     (if p_session r \<notin> set (h_sessions h) then (h, Error_response i Locked_code, Seal_item_payload i r)
      else (case cb_sealItemPayload be r (h_wasm h) of
              (w, Inl e) \<Rightarrow> (h\<lparr>h_wasm := w\<rparr>, Error_response i (errorCode e), Seal_item_payload i r)
            | (w, Inr b) \<Rightarrow> (h\<lparr>h_wasm := w\<rparr>, Ok_response i (Res_bytes b), Seal_item_payload i r)))"
| "handle_request be (Open_item_payload i r) h =
     (if p_session r \<notin> set (h_sessions h) then (h, Error_response i Locked_code, Open_item_payload i r)
      else (case cb_openItemPayload be r (h_wasm h) of
              (w, Inl e) \<Rightarrow> (h\<lparr>h_wasm := w\<rparr>, Error_response i (errorCode e), Open_item_payload i r)
            | (w, Inr b) \<Rightarrow> (h\<lparr>h_wasm := w\<rparr>, Ok_response i (Res_bytes b), Open_item_payload i r)))"
| "handle_request be (Inspect_envelope i b) h =
     (case cb_inspectEnvelope be b (h_wasm h) of
        (w, Inl e) \<Rightarrow> (h\<lparr>h_wasm := w\<rparr>, Error_response i (errorCode e), Inspect_envelope i b)
      | (w, Inr m) \<Rightarrow> (h\<lparr>h_wasm := w\<rparr>, Ok_response i (Res_metadata m), Inspect_envelope i b))"
| "handle_request be (Lock_worker i) h = (case host_lock be i h of (h', r) \<Rightarrow> (h', r, Lock_worker i))"

definition handle ::
  "'w crypto_backend \<Rightarrow> clone_msg \<Rightarrow> 'w crypto_host \<Rightarrow> 'w crypto_host \<times> crypto_response \<times> crypto_request option" where
  "handle be msg h =
     (case isRequest msg of
        None \<Rightarrow> (h, Error_response [] InvalidEncoding, None)
      | Some req \<Rightarrow> (case handle_request be req h of (h', r, left) \<Rightarrow> (h', r, Some left)))"

text \<open>The response the entry point posts is a copy; values have no identity here, so it is the response.\<close>

definition copyResponse :: "crypto_response \<Rightarrow> crypto_response" where
  "copyResponse r =
     (case r of
        Ok_response i (Res_bytes b) \<Rightarrow> Ok_response i (Res_bytes (take (length b) b))
      | Ok_response i (Res_account_setup x) \<Rightarrow>
          Ok_response i (Res_account_setup
            (x\<lparr>as_kdfParametersCbor := take (length (as_kdfParametersCbor x)) (as_kdfParametersCbor x),
               as_wrappedAccountKey := take (length (as_wrappedAccountKey x)) (as_wrappedAccountKey x),
               as_wrappedVaultKey := take (length (as_wrappedVaultKey x)) (as_wrappedVaultKey x),
               as_wrappedItemKey := take (length (as_wrappedItemKey x)) (as_wrappedItemKey x),
               as_wrappedRecoveryKey := take (length (as_wrappedRecoveryKey x)) (as_wrappedRecoveryKey x),
               as_recoveryKey := take (length (as_recoveryKey x)) (as_recoveryKey x)\<rparr>))
      | _ \<Rightarrow> r)"

lemma copyResponse_id [simp]: "copyResponse r = r"
  by (simp add: copyResponse_def split: crypto_response.split response_body.split)

text \<open>The events of the worker scope.\<close>

datatype scope_event = Message_event clone_msg | Close_event

definition worker_event :: "'w crypto_backend \<Rightarrow> scope_event \<Rightarrow> 'w crypto_host \<Rightarrow> 'w crypto_host \<times> crypto_response option" where
  "worker_event be ev h =
     (case ev of
        Message_event msg \<Rightarrow> (case handle be msg h of (h', r, _) \<Rightarrow> (h', Some (copyResponse r)))
      | Close_event \<Rightarrow> (dispose be h, None))"

end
