(* ===== verification/Worker_Client.thy ===== *)
theory Worker_Client
  imports Crypto_Worker
begin

text \<open>
  \<open>CryptoWorkerClient\<close> (\<open>apps/web/src/crypto/worker-client.ts\<close>), the request/response layer over the
  worker, and the system of the two with their message queues.
\<close>


section \<open>Requests on the wire\<close>

abbreviation cv_str :: "string \<Rightarrow> clone_val" where "cv_str s \<equiv> CV_js (JStr s)"

fun request_fields :: "crypto_request \<Rightarrow> clone_fields" where
  "request_fields (Unlock_item_session i r) =
     [(''id'', cv_str i), (''type'', cv_str ''unlock-item-session''), (''password'', CV_bytes (u_password r)),
      (''kdfParametersCbor'', CV_bytes (u_kdfParametersCbor r)),
      (''reportedPhysicalMemoryKiB'', CV_big (u_reportedPhysicalMemoryKiB r)), (''accountId'', cv_str (u_accountId r)),
      (''vaultId'', cv_str (u_vaultId r)), (''itemId'', cv_str (u_itemId r)), (''accountKeyVersion'', CV_big (u_accountKeyVersion r)),
      (''vaultKeyVersion'', CV_big (u_vaultKeyVersion r)), (''itemKeyVersion'', CV_big (u_itemKeyVersion r)),
      (''wrappedAccountKey'', CV_bytes (u_wrappedAccountKey r)), (''wrappedVaultKey'', CV_bytes (u_wrappedVaultKey r)),
      (''wrappedItemKey'', CV_bytes (u_wrappedItemKey r))]"
| "request_fields (Create_account_setup i r) =
     [(''id'', cv_str i), (''type'', cv_str ''create-account-setup''), (''password'', CV_bytes (s_password r)),
      (''reportedPhysicalMemoryKiB'', CV_big (s_reportedPhysicalMemoryKiB r)), (''accountId'', cv_str (s_accountId r)),
      (''vaultId'', cv_str (s_vaultId r)), (''itemId'', cv_str (s_itemId r))]"
| "request_fields (Unlock_with_recovery i r) =
     [(''id'', cv_str i), (''type'', cv_str ''unlock-item-session-with-recovery''), (''recoveryKey'', CV_bytes (rc_recoveryKey r)),
      (''accountId'', cv_str (rc_accountId r)), (''vaultId'', cv_str (rc_vaultId r)), (''itemId'', cv_str (rc_itemId r)),
      (''accountKeyVersion'', CV_big (rc_accountKeyVersion r)), (''vaultKeyVersion'', CV_big (rc_vaultKeyVersion r)),
      (''itemKeyVersion'', CV_big (rc_itemKeyVersion r)), (''wrappedAccountKey'', CV_bytes (rc_wrappedAccountKey r)),
      (''wrappedVaultKey'', CV_bytes (rc_wrappedVaultKey r)), (''wrappedItemKey'', CV_bytes (rc_wrappedItemKey r))]"
| "request_fields (Seal_item_payload i r) =
     [(''id'', cv_str i), (''type'', cv_str ''seal-item-payload''), (''session'', CV_js (JInt (p_session r))),
      (''accountId'', cv_str (p_accountId r)), (''vaultId'', cv_str (p_vaultId r)), (''itemId'', cv_str (p_itemId r)),
      (''keyVersion'', CV_big (p_keyVersion r)), (''plaintext'', CV_bytes (p_payload r))]"
| "request_fields (Open_item_payload i r) =
     [(''id'', cv_str i), (''type'', cv_str ''open-item-payload''), (''session'', CV_js (JInt (p_session r))),
      (''accountId'', cv_str (p_accountId r)), (''vaultId'', cv_str (p_vaultId r)), (''itemId'', cv_str (p_itemId r)),
      (''keyVersion'', CV_big (p_keyVersion r)), (''envelope'', CV_bytes (p_payload r))]"
| "request_fields (Inspect_envelope i b) =
     [(''id'', cv_str i), (''type'', cv_str ''inspect-envelope''), (''envelope'', CV_bytes b)]"
| "request_fields (Lock_worker i) = [(''id'', cv_str i), (''type'', cv_str ''lock'')]"

definition request_msg :: "crypto_request \<Rightarrow> clone_msg" where
  "request_msg req = Msg_object (request_fields req)"

text \<open>What the host demands of the values of a request.\<close>

definition bytes_within :: "int \<Rightarrow> bytes \<Rightarrow> bool" where
  "bytes_within cap b \<longleftrightarrow> int (length b) \<le> cap"

fun request_valid :: "crypto_request \<Rightarrow> bool" where
  "request_valid (Unlock_item_session i r) \<longleftrightarrow>
     bytes_within MAX_ITEM_BYTES (u_password r) \<and> bytes_within 65536 (u_kdfParametersCbor r) \<and>
     bytes_within 65536 (u_wrappedAccountKey r) \<and> bytes_within 65536 (u_wrappedVaultKey r) \<and>
     bytes_within 65536 (u_wrappedItemKey r) \<and> u_reportedPhysicalMemoryKiB r > 0 \<and> u_accountKeyVersion r > 0 \<and>
     u_vaultKeyVersion r > 0 \<and> u_itemKeyVersion r > 0"
| "request_valid (Create_account_setup i r) \<longleftrightarrow>
     bytes_within MAX_ITEM_BYTES (s_password r) \<and> s_reportedPhysicalMemoryKiB r > 0"
| "request_valid (Unlock_with_recovery i r) \<longleftrightarrow>
     bytes_within 64 (rc_recoveryKey r) \<and> bytes_within 65536 (rc_wrappedAccountKey r) \<and>
     bytes_within 65536 (rc_wrappedVaultKey r) \<and> bytes_within 65536 (rc_wrappedItemKey r) \<and>
     rc_accountKeyVersion r > 0 \<and> rc_vaultKeyVersion r > 0 \<and> rc_itemKeyVersion r > 0"
| "request_valid (Seal_item_payload i r) \<longleftrightarrow>
     0 \<le> p_session r \<and> p_session r \<le> 9007199254740991 \<and> p_keyVersion r > 0 \<and> bytes_within MAX_ITEM_BYTES (p_payload r)"
| "request_valid (Open_item_payload i r) \<longleftrightarrow>
     0 \<le> p_session r \<and> p_session r \<le> 9007199254740991 \<and> p_keyVersion r > 0 \<and> bytes_within MAX_ENVELOPE_BYTES (p_payload r)"
| "request_valid (Inspect_envelope i b) \<longleftrightarrow> bytes_within MAX_ENVELOPE_BYTES b"
| "request_valid (Lock_worker i) \<longleftrightarrow> True"

lemmas field_defs = string_field_def payload_field_def positive_big_def session_field_def exact_keys_def bytes_within_def

lemma isRequest_msg: "isRequest (request_msg req) = (if request_valid req then Some req else None)"
  by (cases req)
     (simp_all add: request_msg_def isRequest_def field_defs parse_unlock_def parse_setup_def parse_recovery_def
        parse_payload_def)


section \<open>Client\<close>

text \<open>The arguments of the public methods; the request is built with a fresh id.\<close>

datatype client_args =
    A_createAccountSetup setup_request
  | A_unlockItemSession unlock_request
  | A_unlockItemSessionWithRecovery recovery_request
  | A_sealItemPayload payload_request
  | A_openItemPayload payload_request
  | A_lock

fun client_request :: "string \<Rightarrow> client_args \<Rightarrow> crypto_request" where
  "client_request i (A_createAccountSetup r) = Create_account_setup i r"
| "client_request i (A_unlockItemSession r) = Unlock_item_session i r"
| "client_request i (A_unlockItemSessionWithRecovery r) = Unlock_with_recovery i r"
| "client_request i (A_sealItemPayload r) = Seal_item_payload i r"
| "client_request i (A_openItemPayload r) = Open_item_payload i r"
| "client_request i A_lock = Lock_worker i"

datatype settlement = Resolved crypto_response | Rejected string

record worker_client =
  wc_pending :: "(string, client_args) js_map"
  wc_nextId :: nat
  wc_settled :: "(string \<times> settlement) list"

definition worker_client_new :: worker_client where
  "worker_client_new = \<lparr>wc_pending = [], wc_nextId = 1, wc_settled = []\<rparr>"

text \<open>\<open>id\<close> and \<open>send\<close>: the new client and the message that is posted.\<close>

definition client_send :: "client_args \<Rightarrow> worker_client \<Rightarrow> worker_client \<times> crypto_request" where
  "client_send args c =
     (let i = string_of_nat (wc_nextId c)
      in (c\<lparr>wc_nextId := wc_nextId c + 1, wc_pending := AList.update i args (wc_pending c)\<rparr>, client_request i args))"

definition client_on_message :: "crypto_response \<Rightarrow> worker_client \<Rightarrow> worker_client" where
  "client_on_message r c =
     (case map_of (wc_pending c) (response_id r) of
        None \<Rightarrow> c
      | Some _ \<Rightarrow>
          c\<lparr>wc_pending := AList.delete (response_id r) (wc_pending c),
            wc_settled := (response_id r, Resolved r) # wc_settled c\<rparr>)"

definition reject_pending :: "string \<Rightarrow> worker_client \<Rightarrow> worker_client" where
  "reject_pending msg c =
     c\<lparr>wc_pending := [], wc_settled := rev (map (\<lambda>(i, _). (i, Rejected msg)) (wc_pending c)) @ wc_settled c\<rparr>"

definition client_on_error :: "worker_client \<Rightarrow> worker_client" where
  "client_on_error c = reject_pending ''crypto worker error'' c"

definition client_terminate :: "worker_client \<Rightarrow> worker_client" where
  "client_terminate c = reject_pending ''crypto worker terminated'' c"

text \<open>\<open>call\<close> and the checks of each method: what the promise of the method settles with.\<close>

datatype client_error = CryptoError crypto_error_code | Unexpected_response_type

fun expected_body :: "client_args \<Rightarrow> response_body \<Rightarrow> bool" where
  "expected_body (A_createAccountSetup _) b = (case b of Res_account_setup _ \<Rightarrow> True | _ \<Rightarrow> False)"
| "expected_body (A_unlockItemSession _) b = (case b of Res_session _ \<Rightarrow> True | _ \<Rightarrow> False)"
| "expected_body (A_unlockItemSessionWithRecovery _) b = (case b of Res_session _ \<Rightarrow> True | _ \<Rightarrow> False)"
| "expected_body (A_sealItemPayload _) b = (case b of Res_bytes _ \<Rightarrow> True | _ \<Rightarrow> False)"
| "expected_body (A_openItemPayload _) b = (case b of Res_bytes _ \<Rightarrow> True | _ \<Rightarrow> False)"
| "expected_body A_lock b = True"

definition call_result :: "client_args \<Rightarrow> crypto_response \<Rightarrow> client_error + response_body" where
  "call_result args r =
     (case r of
        Error_response _ code \<Rightarrow> Inl (CryptoError code)
      | Ok_response _ b \<Rightarrow> if expected_body args b then Inr b else Inl Unexpected_response_type)"


section \<open>Client and worker\<close>

text \<open>
  Both channels are queues.  \<open>rp_sent\<close> and \<open>rp_handled\<close> are histories: the calls with the requests they
  posted, and the requests the host has taken with its answers.
\<close>

record 'w rpc_system =
  rp_client :: worker_client
  rp_host :: "'w crypto_host"
  rp_requests :: "crypto_request list"
  rp_responses :: "crypto_response list"
  rp_sent :: "(client_args \<times> crypto_request) list"
  rp_handled :: "(crypto_request \<times> crypto_response) list"

definition rpc_start :: "'w \<Rightarrow> 'w rpc_system" where
  "rpc_start w = \<lparr>rp_client = worker_client_new, rp_host = \<lparr>h_sessions = [], h_wasm = w\<rparr>, rp_requests = [],
     rp_responses = [], rp_sent = [], rp_handled = []\<rparr>"

definition rpc_call :: "client_args \<Rightarrow> 'w rpc_system \<Rightarrow> 'w rpc_system" where
  "rpc_call args s =
     (case client_send args (rp_client s) of
        (c, req) \<Rightarrow> s\<lparr>rp_client := c, rp_requests := rp_requests s @ [req], rp_sent := (args, req) # rp_sent s\<rparr>)"

definition rpc_work :: "'w crypto_backend \<Rightarrow> 'w rpc_system \<Rightarrow> 'w rpc_system" where
  "rpc_work be s =
     (case rp_requests s of
        [] \<Rightarrow> s
      | q # qs \<Rightarrow>
          (case handle be (request_msg q) (rp_host s) of
             (h, r, _) \<Rightarrow>
               s\<lparr>rp_host := h, rp_requests := qs, rp_responses := rp_responses s @ [copyResponse r],
                 rp_handled := (q, copyResponse r) # rp_handled s\<rparr>))"

definition rpc_deliver :: "'w rpc_system \<Rightarrow> 'w rpc_system" where
  "rpc_deliver s =
     (case rp_responses s of
        [] \<Rightarrow> s
      | r # rs \<Rightarrow> s\<lparr>rp_client := client_on_message r (rp_client s), rp_responses := rs\<rparr>)"

definition rpc_error :: "'w rpc_system \<Rightarrow> 'w rpc_system" where
  "rpc_error s = s\<lparr>rp_client := client_on_error (rp_client s)\<rparr>"

definition rpc_terminate :: "'w rpc_system \<Rightarrow> 'w rpc_system" where
  "rpc_terminate s = s\<lparr>rp_client := client_terminate (rp_client s), rp_requests := []\<rparr>"

inductive rpc_reachable :: "'w crypto_backend \<Rightarrow> 'w \<Rightarrow> 'w rpc_system \<Rightarrow> bool" for be w where
  start: "rpc_reachable be w (rpc_start w)"
| call: "rpc_reachable be w s \<Longrightarrow> rpc_reachable be w (rpc_call args s)"
| work: "rpc_reachable be w s \<Longrightarrow> rpc_reachable be w (rpc_work be s)"
| deliver: "rpc_reachable be w s \<Longrightarrow> rpc_reachable be w (rpc_deliver s)"
| error: "rpc_reachable be w s \<Longrightarrow> rpc_reachable be w (rpc_error s)"
| terminate: "rpc_reachable be w s \<Longrightarrow> rpc_reachable be w (rpc_terminate s)"

end
