(* ===== verification/Worker_Properties.thy ===== *)
theory Worker_Properties
  imports Worker_Client
begin

text \<open>
  What the worker and its client guarantee: the discipline of key sessions at the backend, and that
  every call is settled with the answer to its own request.
\<close>


section \<open>Key sessions\<close>

text \<open>
  The same backend with a log of its calls, the latest first: a session it granted, used for a payload,
  or was told to close.
\<close>

datatype backend_call = Granted int | Used int | Closed int

type_synonym 'w logged_state = "'w \<times> backend_call list"

definition with_log :: "('w \<Rightarrow> 'w \<times> (thrown + 'a)) \<Rightarrow> (thrown + 'a \<Rightarrow> backend_call list) \<Rightarrow> 'w logged_state \<Rightarrow>
    'w logged_state \<times> (thrown + 'a)" where
  "with_log f calls wl = (case f (fst wl) of (w, r) \<Rightarrow> ((w, calls r @ snd wl), r))"

definition granted :: "('a \<Rightarrow> int) \<Rightarrow> thrown + 'a \<Rightarrow> backend_call list" where
  "granted f r = (case r of Inl _ \<Rightarrow> [] | Inr x \<Rightarrow> [Granted (f x)])"

definition logged :: "'w crypto_backend \<Rightarrow> 'w logged_state crypto_backend" where
  "logged be =
     \<lparr>cb_unlockItemSession = (\<lambda>r. with_log (cb_unlockItemSession be r) (granted (\<lambda>s. s))),
      cb_createAccountSetup = (\<lambda>r. with_log (cb_createAccountSetup be r) (granted as_session)),
      cb_unlockWithRecovery = (\<lambda>r. with_log (cb_unlockWithRecovery be r) (granted (\<lambda>s. s))),
      cb_sealItemPayload = (\<lambda>r. with_log (cb_sealItemPayload be r) (\<lambda>_. [Used (p_session r)])),
      cb_openItemPayload = (\<lambda>r. with_log (cb_openItemPayload be r) (\<lambda>_. [Used (p_session r)])),
      cb_inspectEnvelope = (\<lambda>b. with_log (cb_inspectEnvelope be b) (\<lambda>_. [])),
      cb_closeSession = (\<lambda>s. with_log (cb_closeSession be s) (\<lambda>_. [Closed s]))\<rparr>"

text \<open>The sessions that are live after the logged calls, and the discipline of the log.\<close>

fun live :: "backend_call list \<Rightarrow> int set" where
  "live [] = {}"
| "live (Granted s # l) = insert s (live l)"
| "live (Used s # l) = live l"
| "live (Closed s # l) = live l - {s}"

fun disciplined :: "backend_call list \<Rightarrow> bool" where
  "disciplined [] = True"
| "disciplined (Granted s # l) = disciplined l"
| "disciplined (Used s # l) = (s \<in> live l \<and> disciplined l)"
| "disciplined (Closed s # l) = (s \<in> live l \<and> disciplined l)"

definition host_inv :: "'w logged_state crypto_host \<Rightarrow> bool" where
  "host_inv h \<longleftrightarrow> distinct (h_sessions h) \<and> set (h_sessions h) = live (snd (h_wasm h)) \<and> disciplined (snd (h_wasm h))"

lemma logged_sel [simp]:
  "cb_unlockItemSession (logged be) r wl = with_log (cb_unlockItemSession be r) (granted (\<lambda>s. s)) wl"
  "cb_createAccountSetup (logged be) sr wl = with_log (cb_createAccountSetup be sr) (granted as_session) wl"
  "cb_unlockWithRecovery (logged be) rr wl = with_log (cb_unlockWithRecovery be rr) (granted (\<lambda>s. s)) wl"
  "cb_sealItemPayload (logged be) p wl = with_log (cb_sealItemPayload be p) (\<lambda>_. [Used (p_session p)]) wl"
  "cb_openItemPayload (logged be) p wl = with_log (cb_openItemPayload be p) (\<lambda>_. [Used (p_session p)]) wl"
  "cb_inspectEnvelope (logged be) b wl = with_log (cb_inspectEnvelope be b) (\<lambda>_. []) wl"
  "cb_closeSession (logged be) s wl = with_log (cb_closeSession be s) (\<lambda>_. [Closed s]) wl"
  by (simp_all add: logged_def)

lemma close_all_log:
  "distinct ss \<Longrightarrow> set ss = live (snd wl) \<Longrightarrow> disciplined (snd wl) \<Longrightarrow> close_all (logged be) ss wl = (wl', b) \<Longrightarrow>
   live (snd wl') = {} \<and> disciplined (snd wl')"
proof (induction ss arbitrary: wl wl' b)
  case (Cons s ss)
  obtain w r where c: "cb_closeSession be s (fst wl) = (w, r)" by (cases "cb_closeSession be s (fst wl)")
  obtain wl2 b' where d: "close_all (logged be) ss (w, Closed s # snd wl) = (wl2, b')"
    by (cases "close_all (logged be) ss (w, Closed s # snd wl)")
  from Cons.prems(4) have "wl2 = wl'" by (simp add: with_log_def c d)
  moreover have "set ss = live (Closed s # snd wl)" "disciplined (Closed s # snd wl)" "distinct ss"
    using Cons.prems(1-3) by (auto simp flip: Cons.prems(2))
  ultimately show ?case using Cons.IH [of "(w, Closed s # snd wl)" wl2 b'] d by simp
qed simp

lemma host_add_set [simp]: "set (host_add s ss) = insert s (set ss)" "distinct (host_add s ss) = distinct ss"
  by (auto simp: host_add_def)

text \<open>A call that leaves the live sessions, and one that grants a session.\<close>

lemma host_inv_calls:
  assumes "host_inv h"
  shows "host_inv (h\<lparr>h_wasm := (w, snd (h_wasm h))\<rparr>)"
    and "host_inv (h\<lparr>h_wasm := (w, Granted s # snd (h_wasm h)), h_sessions := host_add s (h_sessions h)\<rparr>)"
    and "s \<in> set (h_sessions h) \<Longrightarrow> host_inv (h\<lparr>h_wasm := (w, Used s # snd (h_wasm h))\<rparr>)"
  using assms by (simp_all add: host_inv_def)

lemma handle_request_inv:
  assumes "host_inv h"
  shows "host_inv (fst (handle_request (logged be) req h))"
proof (cases req)
  case (Unlock_item_session i r)
  obtain w x where "cb_unlockItemSession be r (fst (h_wasm h)) = (w, x)" by (cases "cb_unlockItemSession be r (fst (h_wasm h))")
  with Unlock_item_session show ?thesis by (cases x) (simp_all add: with_log_def granted_def host_inv_calls [OF assms])
next
  case (Create_account_setup i r)
  obtain w x where "cb_createAccountSetup be r (fst (h_wasm h)) = (w, x)" by (cases "cb_createAccountSetup be r (fst (h_wasm h))")
  with Create_account_setup show ?thesis by (cases x) (simp_all add: with_log_def granted_def host_inv_calls [OF assms])
next
  case (Unlock_with_recovery i r)
  obtain w x where "cb_unlockWithRecovery be r (fst (h_wasm h)) = (w, x)" by (cases "cb_unlockWithRecovery be r (fst (h_wasm h))")
  with Unlock_with_recovery show ?thesis by (cases x) (simp_all add: with_log_def granted_def host_inv_calls [OF assms])
next
  case (Seal_item_payload i r)
  obtain w x where "cb_sealItemPayload be r (fst (h_wasm h)) = (w, x)" by (cases "cb_sealItemPayload be r (fst (h_wasm h))")
  with Seal_item_payload assms show ?thesis by (cases x) (simp_all add: with_log_def host_inv_calls [OF assms])
next
  case (Open_item_payload i r)
  obtain w x where "cb_openItemPayload be r (fst (h_wasm h)) = (w, x)" by (cases "cb_openItemPayload be r (fst (h_wasm h))")
  with Open_item_payload assms show ?thesis by (cases x) (simp_all add: with_log_def host_inv_calls [OF assms])
next
  case (Inspect_envelope i b)
  obtain w x where "cb_inspectEnvelope be b (fst (h_wasm h)) = (w, x)" by (cases "cb_inspectEnvelope be b (fst (h_wasm h))")
  with Inspect_envelope show ?thesis by (cases x) (simp_all add: with_log_def host_inv_calls [OF assms])
next
  case (Lock_worker i)
  obtain wl b where c: "close_all (logged be) (h_sessions h) (h_wasm h) = (wl, b)"
    by (cases "close_all (logged be) (h_sessions h) (h_wasm h)")
  with close_all_log [OF _ _ _ c] assms Lock_worker show ?thesis by (simp add: host_lock_def host_inv_def)
qed

lemma worker_event_inv: "host_inv h \<Longrightarrow> host_inv (fst (worker_event (logged be) ev h))"
proof (cases ev)
  case (Message_event msg)
  assume "host_inv h"
  with handle_request_inv [OF this, of be] Message_event show ?thesis
    by (simp add: worker_event_def handle_def case_prod_unfold split: option.split)
next
  case Close_event
  assume inv: "host_inv h"
  obtain wl b where c: "close_all (logged be) (h_sessions h) (h_wasm h) = (wl, b)"
    by (cases "close_all (logged be) (h_sessions h) (h_wasm h)")
  with close_all_log [OF _ _ _ c] inv Close_event show ?thesis by (simp add: worker_event_def dispose_def host_inv_def)
qed

definition run_events :: "'w crypto_backend \<Rightarrow> scope_event list \<Rightarrow> 'w crypto_host \<Rightarrow> 'w crypto_host" where
  "run_events be evs h = fold (\<lambda>ev h. fst (worker_event be ev h)) evs h"

text \<open>
  C21.  Whatever messages reach the worker, with any backend and any failures of it: a payload is sealed
  or opened, and a session closed, only with a session the backend has granted and that has not been
  closed since; and the host remembers exactly the live sessions, so a lock or dispose closes every
  one of them.
\<close>
theorem worker_session_discipline:
  "let h = run_events (logged be) evs \<lparr>h_sessions = [], h_wasm = (w, [])\<rparr>
   in disciplined (snd (h_wasm h)) \<and> set (h_sessions h) = live (snd (h_wasm h)) \<and>
      h_sessions (dispose (logged be) h) = [] \<and> live (snd (h_wasm (dispose (logged be) h))) = {} \<and>
      (\<forall>i. h_sessions (fst (host_lock (logged be) i h)) = [] \<and> live (snd (h_wasm (fst (host_lock (logged be) i h)))) = {})"
proof -
  have run: "host_inv h \<Longrightarrow> host_inv (run_events (logged be) evs h)" for h
    unfolding run_events_def by (induction evs arbitrary: h) (simp_all add: worker_event_inv)
  define h where "h = run_events (logged be) evs \<lparr>h_sessions = [], h_wasm = (w, [])\<rparr>"
  have inv: "host_inv h" unfolding h_def by (rule run) (simp add: host_inv_def)
  obtain wl b where c: "close_all (logged be) (h_sessions h) (h_wasm h) = (wl, b)"
    by (cases "close_all (logged be) (h_sessions h) (h_wasm h)")
  with close_all_log [OF _ _ _ c] inv
  show ?thesis unfolding h_def [symmetric] Let_def by (simp add: host_inv_def dispose_def host_lock_def)
qed


section \<open>Answers\<close>





lemma client_request_id [simp]: "request_id (client_request i args) = i"
  by (cases args) simp_all



section \<open>The system\<close>
















section \<open>Properties\<close>


text \<open>A backend for the witnesses: session 1 for everyone, the identity as encryption.\<close>

definition sample_backend :: "unit crypto_backend" where
  "sample_backend =
     \<lparr>cb_unlockItemSession = (\<lambda>r w. (w, Inr 1)), cb_createAccountSetup = (\<lambda>r w. (w, Inl Thrown_other)),
      cb_unlockWithRecovery = (\<lambda>r w. (w, Inr 1)), cb_sealItemPayload = (\<lambda>r w. (w, Inr (p_payload r))),
      cb_openItemPayload = (\<lambda>r w. (w, Inr (p_payload r))), cb_inspectEnvelope = (\<lambda>b w. (w, Inl (Thrown_code ''InvalidNonce''))),
      cb_closeSession = (\<lambda>s w. (w, Inr ()))\<rparr>"

definition sample_payload :: payload_request where
  "sample_payload = \<lparr>p_session = 1, p_accountId = ''a'', p_vaultId = ''v'', p_itemId = ''i'', p_keyVersion = 1, p_payload = [7]\<rparr>"



text \<open>
  A call the host refuses to validate hangs: it is answered under the empty id, which no
  promise waits for, so after the worker has done all its work and every answer is delivered the
  promise is pending for ever, neither resolved nor rejected.  Such a call is one with a payload
  over the limit, for instance to open a record whose ciphertext a server made too large.
\<close>
theorem refused_call_hangs:
  assumes "\<not> request_valid (client_request ''1'' args)"
  shows "let s = rpc_deliver (rpc_work be (rpc_call args (rpc_start w)))
    in wc_pending (rp_client s) = [(''1'', args)] \<and> wc_settled (rp_client s) = [] \<and> rp_requests s = [] \<and> rp_responses s = [] \<and>
       rpc_work be s = s \<and> rpc_deliver s = s"
proof -
  have one: "string_of_nat 1 = ''1''" by code_simp
  have refused: "handle be (request_msg (client_request ''1'' args)) h = (h, Error_response [] InvalidEncoding, None)" for h
    using assms by (simp add: handle_def isRequest_msg)
  show ?thesis
    by (simp add: rpc_call_def client_send_def rpc_start_def worker_client_new_def Let_def one [simplified] rpc_work_def refused
        rpc_deliver_def client_on_message_def)
qed

theorem refused_call_hangs_witness:
  "let args = A_openItemPayload (sample_payload\<lparr>p_payload := replicate 1049617 0\<rparr>);
       s = rpc_deliver (rpc_work sample_backend (rpc_call args (rpc_start ())))
   in wc_pending (rp_client s) = [(''1'', args)] \<and> rp_responses s = []"
proof -
  let ?args = "A_openItemPayload (sample_payload\<lparr>p_payload := replicate 1049617 0\<rparr>)"
  have "\<not> request_valid (client_request ''1'' ?args)"
    by (simp add: bytes_within_def MAX_ENVELOPE_BYTES_def MAX_ITEM_BYTES_def)
  from refused_call_hangs [OF this, of sample_backend "()"] show ?thesis by (simp only: Let_def)
qed

end
