(* ===== verification/Api_Client.thy ===== *)
theory Api_Client
  imports Contracts Base64 Js_Value
begin

text \<open>
  The HTTP client (\<open>packages/sdk/src/http-client.ts\<close>), the OPAQUE choreography over it
  (\<open>packages/sdk/src/auth-client.ts\<close>), and the origin pinning of the extension
  (\<open>apps/extension/src/origin.ts\<close>).

  \<open>fetch\<close> is an argument: it answers a request from a state of its own, or rejects.  \<open>json_parse\<close> is
  \<open>JSON.parse\<close>, and the OPAQUE computations are third-party functions.  A method runs its single
  request to the end; the body of an error response is not kept in \<open>HttpError\<close>.
\<close>


section \<open>URL text\<close>

definition upper_hex :: "nat \<Rightarrow> char" where
  "upper_hex n = ''0123456789ABCDEF'' ! n"

definition percent :: "nat \<Rightarrow> string" where
  "percent b = [CHR ''%'', upper_hex (b div 16), upper_hex (b mod 16)]"

definition is_alnum :: "char \<Rightarrow> bool" where
  "is_alnum c \<longleftrightarrow> c \<in> set ''ABCDEFGHIJKLMNOPQRSTUVWXYZabcdefghijklmnopqrstuvwxyz0123456789''"

definition uri_unreserved :: "char \<Rightarrow> bool" where
  "uri_unreserved c \<longleftrightarrow> is_alnum c \<or> c \<in> set ''-_.!~*()'' \<or> c = CHR 0x27"

definition encodeURIComponent :: "string \<Rightarrow> string" where
  "encodeURIComponent s =
     concat (map (\<lambda>c. if uri_unreserved c then [c] else concat (map percent (encode_scalar (of_char c)))) s)"

text \<open>The serializer of \<open>URLSearchParams\<close>.\<close>

definition form_encode :: "string \<Rightarrow> string" where
  "form_encode s =
     concat (map (\<lambda>c. if is_alnum c \<or> c \<in> set ''*-._'' then [c]
                      else if c = CHR '' '' then ''+''
                      else concat (map percent (encode_scalar (of_char c)))) s)"

fun query_string :: "(string \<times> string) list \<Rightarrow> string" where
  "query_string [] = []"
| "query_string [(k, v)] = form_encode k @ ''='' @ form_encode v"
| "query_string ((k, v) # kvs) = form_encode k @ ''='' @ form_encode v @ ''&'' @ query_string kvs"


section \<open>Requests\<close>

record http_request =
  hr_method :: string
  hr_url :: string
  hr_headers :: "(string \<times> string) list"
  hr_body :: "jsval option"

record http_response =
  rs_status :: int
  rs_text :: string

type_synonym 'f fetch = "http_request \<Rightarrow> 'f \<Rightarrow> 'f \<times> http_response option"

record 'f api_client =
  api_token :: "string option"
  api_baseUrl :: string
  api_net :: 'f

text \<open>\<open>baseUrl.replace (/\/$/, "")\<close>\<close>

definition strip_slash :: "string \<Rightarrow> string" where
  "strip_slash s = (if s \<noteq> [] \<and> last s = CHR ''/'' then butlast s else s)"

definition api_client_new :: "string \<Rightarrow> 'f \<Rightarrow> 'f api_client" where
  "api_client_new baseUrl net = \<lparr>api_token = None, api_baseUrl = strip_slash baseUrl, api_net = net\<rparr>"

definition setAccessToken :: "string option \<Rightarrow> 'f api_client \<Rightarrow> 'f api_client" where
  "setAccessToken t c = c\<lparr>api_token := t\<rparr>"

record request_options =
  ro_body :: "jsval option"
  ro_auth :: bool
  ro_query :: "(string \<times> string option) list"

definition no_options :: request_options where
  "no_options = \<lparr>ro_body = None, ro_auth = True, ro_query = []\<rparr>"

definition request_url :: "string \<Rightarrow> string \<Rightarrow> (string \<times> string option) list \<Rightarrow> string" where
  "request_url base path query =
     (let qs = query_string (List.map_filter (\<lambda>(k, v). map_option (\<lambda>x. (k, x)) v) query)
      in base @ path @ (if qs = [] then [] else ''?'' @ qs))"

definition build_request :: "'f api_client \<Rightarrow> string \<Rightarrow> string \<Rightarrow> request_options \<Rightarrow> sdk_error + http_request" where
  "build_request c method path opts =
     (if ro_auth opts \<and> (api_token c = None \<or> api_token c = Some [])
      then Inl (JsError ''ApiClient: no access token set for an authenticated request'')
      else Inr
        \<lparr>hr_method = method, hr_url = request_url (api_baseUrl c) path (ro_query opts),
         hr_headers =
           (if ro_body opts \<noteq> None then [(''content-type'', ''application/json'')] else []) @
           (if ro_auth opts then [(''authorization'', ''Bearer '' @ (case api_token c of None \<Rightarrow> [] | Some t \<Rightarrow> t))] else []),
         hr_body = ro_body opts\<rparr>)"

definition read_response :: "(string \<Rightarrow> jsval option) \<Rightarrow> http_response \<Rightarrow> sdk_error + int \<times> jsval" where
  "read_response json_parse r =
     (if rs_status r = 204 then Inr (204, JUndefined)
      else if rs_text r = [] then Inr (rs_status r, JUndefined)
      else (case json_parse (rs_text r) of
              None \<Rightarrow> Inl (JsError ''invalid JSON'')
            | Some v \<Rightarrow> Inr (rs_status r, v)))"

definition api_request ::
  "(string \<Rightarrow> jsval option) \<Rightarrow> 'f fetch \<Rightarrow> string \<Rightarrow> string \<Rightarrow> request_options \<Rightarrow> 'f api_client \<Rightarrow>
   'f api_client \<times> (sdk_error + int \<times> jsval)" where
  "api_request json_parse fetch method path opts c =
     (case build_request c method path opts of
        Inl e \<Rightarrow> (c, Inl e)
      | Inr req \<Rightarrow>
          (case fetch req (api_net c) of
             (n, None) \<Rightarrow> (c\<lparr>api_net := n\<rparr>, Inl NetworkError)
           | (n, Some r) \<Rightarrow> (c\<lparr>api_net := n\<rparr>, read_response json_parse r)))"

definition expectOk ::
  "(string \<Rightarrow> jsval option) \<Rightarrow> 'f fetch \<Rightarrow> string \<Rightarrow> string \<Rightarrow> request_options \<Rightarrow> 'f api_client \<Rightarrow>
   'f api_client \<times> (sdk_error + jsval)" where
  "expectOk json_parse fetch method path opts c =
     (case api_request json_parse fetch method path opts c of
        (c1, Inl e) \<Rightarrow> (c1, Inl e)
      | (c1, Inr (status, body)) \<Rightarrow> (c1, if status < 200 \<or> status \<ge> 300 then Inl (HttpError status) else Inr body))"

text \<open>A property of a response body; reading one of \<open>undefined\<close> or \<open>null\<close> throws.\<close>

definition member :: "jsval \<Rightarrow> string \<Rightarrow> sdk_error + jsval" where
  "member v k =
     (case v of
        JUndefined \<Rightarrow> Inl (JsError ''TypeError'')
      | JNull \<Rightarrow> Inl (JsError ''TypeError'')
      | JObj ps \<Rightarrow> Inr (jget ps k)
      | _ \<Rightarrow> Inr JUndefined)"

definition decode_member :: "jsval \<Rightarrow> string \<Rightarrow> sdk_error + bytes" where
  "decode_member v k =
     (case member v k of
        Inl e \<Rightarrow> Inl e
      | Inr (JStr s) \<Rightarrow> (case decodeB64 s of Inl _ \<Rightarrow> Inl (JsError ''invalid base64'') | Inr b \<Rightarrow> Inr b)
      | Inr _ \<Rightarrow> Inl (JsError ''TypeError''))"


section \<open>Methods\<close>

text \<open>The paths with an identifier.\<close>

definition revoke_path :: "id \<Rightarrow> string" where
  "revoke_path device = ''/devices/'' @ encodeURIComponent device @ ''/revoke''"

definition items_path :: "id \<Rightarrow> string" where
  "items_path vault = ''/vaults/'' @ encodeURIComponent vault @ ''/items''"

definition changes_path :: "id \<Rightarrow> string" where
  "changes_path vault = ''/vaults/'' @ encodeURIComponent vault @ ''/changes''"

definition opaque_body :: "id \<Rightarrow> bytes \<Rightarrow> jsval" where
  "opaque_body account msg = JObj [(''accountId'', JStr account), (''clientMessage'', JStr (encodeB64 msg))]"

definition opaqueRegisterStep ::
  "(string \<Rightarrow> jsval option) \<Rightarrow> 'f fetch \<Rightarrow> id \<Rightarrow> bytes \<Rightarrow> 'f api_client \<Rightarrow> 'f api_client \<times> (sdk_error + bytes)" where
  "opaqueRegisterStep json_parse fetch account msg c =
     (case expectOk json_parse fetch ''POST'' ''/auth/opaque/register''
             (no_options\<lparr>ro_auth := False, ro_body := Some (opaque_body account msg)\<rparr>) c of
        (c1, Inl e) \<Rightarrow> (c1, Inl e)
      | (c1, Inr body) \<Rightarrow> (c1, decode_member body ''message''))"

record api_session =
  ses_accessToken :: string
  ses_expiresAt :: jsval

datatype login_step = Login_message bytes | Login_session api_session

definition opaqueLoginStep ::
  "(string \<Rightarrow> jsval option) \<Rightarrow> 'f fetch \<Rightarrow> id \<Rightarrow> bytes \<Rightarrow> 'f api_client \<Rightarrow> 'f api_client \<times> (sdk_error + login_step)" where
  "opaqueLoginStep json_parse fetch account msg c =
     (case api_request json_parse fetch ''POST'' ''/auth/opaque/login''
             (no_options\<lparr>ro_auth := False, ro_body := Some (opaque_body account msg)\<rparr>) c of
        (c1, Inl e) \<Rightarrow> (c1, Inl e)
      | (c1, Inr (status, body)) \<Rightarrow>
          (c1,
           if status < 200 \<or> status \<ge> 300 then Inl (HttpError status)
           else (case member body ''accessToken'' of
                   Inl e \<Rightarrow> Inl e
                 | Inr (JStr token) \<Rightarrow>
                     (case member body ''expiresAt'' of
                        Inl e \<Rightarrow> Inl e
                      | Inr ex \<Rightarrow> Inr (Login_session \<lparr>ses_accessToken = token, ses_expiresAt = ex\<rparr>))
                 | Inr _ \<Rightarrow>
                     (case decode_member body ''message'' of Inl e \<Rightarrow> Inl e | Inr m \<Rightarrow> Inr (Login_message m)))))"

definition api_refresh ::
  "(string \<Rightarrow> jsval option) \<Rightarrow> 'f fetch \<Rightarrow> 'f api_client \<Rightarrow> 'f api_client \<times> (sdk_error + jsval)" where
  "api_refresh json_parse fetch c = expectOk json_parse fetch ''POST'' ''/auth/refresh'' no_options c"

definition api_logout ::
  "(string \<Rightarrow> jsval option) \<Rightarrow> 'f fetch \<Rightarrow> 'f api_client \<Rightarrow> 'f api_client \<times> (sdk_error + unit)" where
  "api_logout json_parse fetch c =
     (case expectOk json_parse fetch ''POST'' ''/auth/logout'' no_options c of
        (c1, Inl e) \<Rightarrow> (c1, Inl e)
      | (c1, Inr _) \<Rightarrow> (c1\<lparr>api_token := None\<rparr>, Inr ()))"

definition listDevices ::
  "(string \<Rightarrow> jsval option) \<Rightarrow> 'f fetch \<Rightarrow> 'f api_client \<Rightarrow> 'f api_client \<times> (sdk_error + jsval)" where
  "listDevices json_parse fetch c =
     (case expectOk json_parse fetch ''GET'' ''/devices'' no_options c of
        (c1, Inl e) \<Rightarrow> (c1, Inl e)
      | (c1, Inr body) \<Rightarrow> (c1, member body ''devices''))"

definition registerDevice ::
  "(string \<Rightarrow> jsval option) \<Rightarrow> 'f fetch \<Rightarrow> string \<Rightarrow> bytes \<Rightarrow> 'f api_client \<Rightarrow> 'f api_client \<times> (sdk_error + jsval)" where
  "registerDevice json_parse fetch name publicKey c =
     expectOk json_parse fetch ''POST'' ''/devices''
       (no_options\<lparr>ro_body := Some (JObj [(''name'', JStr name), (''publicKey'', JStr (encodeB64 publicKey))])\<rparr>) c"

definition registerBearerSessionDevice ::
  "(string \<Rightarrow> jsval option) \<Rightarrow> 'f fetch \<Rightarrow> string \<Rightarrow> 'f api_client \<Rightarrow> 'f api_client \<times> (sdk_error + jsval)" where
  "registerBearerSessionDevice json_parse fetch name c =
     expectOk json_parse fetch ''POST'' ''/devices''
       (no_options\<lparr>ro_body := Some (JObj [(''name'', JStr name), (''enrollmentMode'', JStr ''bearer-session-v1'')])\<rparr>) c"

definition revokeDevice ::
  "(string \<Rightarrow> jsval option) \<Rightarrow> 'f fetch \<Rightarrow> id \<Rightarrow> 'f api_client \<Rightarrow> 'f api_client \<times> (sdk_error + jsval)" where
  "revokeDevice json_parse fetch device c =
     expectOk json_parse fetch ''POST'' (revoke_path device) no_options c"

datatype key_bundle_outcome = Bundle_200 jsval | Bundle_404

definition getKeyBundle ::
  "(string \<Rightarrow> jsval option) \<Rightarrow> 'f fetch \<Rightarrow> 'f api_client \<Rightarrow> 'f api_client \<times> (sdk_error + key_bundle_outcome)" where
  "getKeyBundle json_parse fetch c =
     (case api_request json_parse fetch ''GET'' ''/account/key-bundle'' no_options c of
        (c1, Inl e) \<Rightarrow> (c1, Inl e)
      | (c1, Inr (status, body)) \<Rightarrow>
          (c1, if status = 200 then Inr (Bundle_200 body) else if status = 404 then Inr Bundle_404 else Inl (HttpError status)))"

datatype put_bundle_outcome = Put_204 | Put_409 jsval

definition putKeyBundle ::
  "(string \<Rightarrow> jsval option) \<Rightarrow> 'f fetch \<Rightarrow> jsval \<Rightarrow> 'f api_client \<Rightarrow> 'f api_client \<times> (sdk_error + put_bundle_outcome)" where
  "putKeyBundle json_parse fetch keyBundle c =
     (case api_request json_parse fetch ''PUT'' ''/account/key-bundle'' (no_options\<lparr>ro_body := Some keyBundle\<rparr>) c of
        (c1, Inl e) \<Rightarrow> (c1, Inl e)
      | (c1, Inr (status, body)) \<Rightarrow>
          (c1, if status = 204 then Inr Put_204 else if status = 409 then Inr (Put_409 body) else Inl (HttpError status)))"

definition mutation_json :: "mutation \<Rightarrow> jsval" where
  "mutation_json m =
     JObj [(''mutationId'', JStr (mut_mutationId m)), (''itemId'', JStr (mut_itemId m)), (''vaultId'', JStr (mut_vaultId m)),
       (''baseRevision'', JInt (mut_baseRevision m)), (''ciphertext'', JStr (mut_ciphertext m)),
       (''envelopeVersion'', JStr (mut_envelopeVersion m)), (''deleted'', JBool (mut_deleted m))]"

datatype mutate_outcome = Mutate_201 jsval | Mutate_409 jsval

definition mutateItem ::
  "(string \<Rightarrow> jsval option) \<Rightarrow> 'f fetch \<Rightarrow> id \<Rightarrow> mutation \<Rightarrow> 'f api_client \<Rightarrow> 'f api_client \<times> (sdk_error + mutate_outcome)" where
  "mutateItem json_parse fetch vault m c =
     (case api_request json_parse fetch ''POST'' (items_path vault)
             (no_options\<lparr>ro_body := Some (mutation_json m)\<rparr>) c of
        (c1, Inl e) \<Rightarrow> (c1, Inl e)
      | (c1, Inr (status, body)) \<Rightarrow>
          (c1, if status = 201 then Inr (Mutate_201 body) else if status = 409 then Inr (Mutate_409 body)
               else Inl (HttpError status)))"

definition listChanges ::
  "(string \<Rightarrow> jsval option) \<Rightarrow> 'f fetch \<Rightarrow> id \<Rightarrow> string option \<Rightarrow> nat option \<Rightarrow> 'f api_client \<Rightarrow>
   'f api_client \<times> (sdk_error + jsval)" where
  "listChanges json_parse fetch vault cursor limit c =
     expectOk json_parse fetch ''GET'' (changes_path vault)
       (no_options\<lparr>ro_query := [(''cursor'', cursor), (''limit'', map_option string_of_nat limit)]\<rparr>) c"


section \<open>OPAQUE choreography\<close>

record opaque_client =
  oc_registrationStart :: "bytes \<Rightarrow> bytes \<times> bytes"
  oc_registrationFinish :: "bytes \<Rightarrow> bytes \<Rightarrow> bytes \<Rightarrow> bytes option"
  oc_loginStart :: "bytes \<Rightarrow> bytes \<times> bytes"
  oc_loginFinish :: "bytes \<Rightarrow> bytes \<Rightarrow> bytes \<Rightarrow> bytes \<Rightarrow> bytes option"

definition OPAQUE_CONTEXT :: bytes where
  "OPAQUE_CONTEXT = map (word_of_nat \<circ> of_char) ''zkpm-opaque-v1''"

text \<open>The start functions return message and state; a finish function may throw.\<close>

definition auth_register ::
  "(string \<Rightarrow> jsval option) \<Rightarrow> 'f fetch \<Rightarrow> opaque_client \<Rightarrow> id \<Rightarrow> bytes \<Rightarrow> 'f api_client \<Rightarrow>
   'f api_client \<times> (sdk_error + unit)" where
  "auth_register json_parse fetch oc account password c =
     (case oc_registrationStart oc password of
        (message, state) \<Rightarrow>
          (case opaqueRegisterStep json_parse fetch account message c of
             (c1, Inl e) \<Rightarrow> (c1, Inl e)
           | (c1, Inr response) \<Rightarrow>
               (case oc_registrationFinish oc state password response of
                  None \<Rightarrow> (c1, Inl (JsError ''OPAQUE''))
                | Some finish \<Rightarrow>
                    (case opaqueRegisterStep json_parse fetch account finish c1 of
                       (c2, Inl e) \<Rightarrow> (c2, Inl e)
                     | (c2, Inr _) \<Rightarrow> (c2, Inr ())))))"

definition auth_login ::
  "(string \<Rightarrow> jsval option) \<Rightarrow> 'f fetch \<Rightarrow> opaque_client \<Rightarrow> id \<Rightarrow> bytes \<Rightarrow> 'f api_client \<Rightarrow>
   'f api_client \<times> (sdk_error + api_session)" where
  "auth_login json_parse fetch oc account password c =
     (case oc_loginStart oc password of
        (message, state) \<Rightarrow>
          (case opaqueLoginStep json_parse fetch account message c of
             (c1, Inl e) \<Rightarrow> (c1, Inl e)
           | (c1, Inr (Login_session _)) \<Rightarrow> (c1, Inl (JsError ''unexpected session response on OPAQUE login leg 1''))
           | (c1, Inr (Login_message response)) \<Rightarrow>
               (case oc_loginFinish oc state password response OPAQUE_CONTEXT of
                  None \<Rightarrow> (c1, Inl (JsError ''OPAQUE''))
                | Some finish \<Rightarrow>
                    (case opaqueLoginStep json_parse fetch account finish c1 of
                       (c2, Inl e) \<Rightarrow> (c2, Inl e)
                     | (c2, Inr (Login_message _)) \<Rightarrow>
                         (c2, Inl (JsError ''unexpected message response on OPAQUE login leg 2''))
                     | (c2, Inr (Login_session s)) \<Rightarrow>
                         (setAccessToken (Some (ses_accessToken s)) c2, Inr s)))))"


section \<open>Pinned origin\<close>

record api_url =
  au_protocol :: string
  au_username :: string
  au_password :: string
  au_search :: string
  au_hash :: string
  au_pathname :: string
  au_hostname :: string
  au_origin :: string

definition confirmApiOrigin :: "(string \<Rightarrow> api_url option) \<Rightarrow> string \<Rightarrow> string option" where
  "confirmApiOrigin url input =
     (if length input = 0 \<or> length input > 512 then None
      else (case url input of
              None \<Rightarrow> None
            | Some u \<Rightarrow>
                if au_protocol u \<noteq> ''https:'' then None
                else if au_username u \<noteq> [] \<or> au_password u \<noteq> [] then None
                else if au_search u \<noteq> [] \<or> au_hash u \<noteq> [] then None
                else if au_pathname u \<noteq> [] \<and> au_pathname u \<noteq> ''/'' then None
                else if au_hostname u = [] then None
                else Some (au_origin u)))"

text \<open>The request is sent with \<open>redirect: "manual"\<close>; an opaque redirect has status 0.\<close>

definition pinnedFetch :: "string \<Rightarrow> 'f fetch \<Rightarrow> 'f fetch" where
  "pinnedFetch origin fetch req n =
     (if \<not> is_prefix origin (hr_url req) then (n, None)
      else (case fetch req n of
              (n1, None) \<Rightarrow> (n1, None)
            | (n1, Some r) \<Rightarrow>
                if rs_status r = 0 \<or> (rs_status r \<ge> 300 \<and> rs_status r < 400) then (n1, None) else (n1, Some r)))"

end
