(* ===== verification/Api_Properties.thy ===== *)
theory Api_Properties
  imports Api_Client
begin

text \<open>
  Which requests the HTTP client can make: their URLs, their credentials, and that the extension's
  stay on the confirmed origin.
\<close>


section \<open>Encoded segments\<close>

definition safe_segment :: "string \<Rightarrow> bool" where
  "safe_segment s \<longleftrightarrow> list_all (\<lambda>c. uri_unreserved c \<or> c = CHR ''%'') s"

lemma percent_safe: "b < 256 \<Longrightarrow> safe_segment (percent b)"
proof -
  have hex: "uri_unreserved (upper_hex n)" if "n < 16" for n
  proof -
    have "list_all (\<lambda>n. uri_unreserved (upper_hex n)) [0..<16]" by code_simp
    with that show ?thesis by (simp add: list_all_iff)
  qed
  assume "b < 256"
  then have "b div 16 < 16" "b mod 16 < 16" by auto
  then show ?thesis by (simp add: safe_segment_def percent_def hex)
qed

lemma safe_concat: "(\<And>x. x \<in> set xs \<Longrightarrow> safe_segment x) \<Longrightarrow> safe_segment (concat xs)"
  by (induction xs) (simp_all add: safe_segment_def)

lemma encodeURIComponent_safe: "safe_segment (encodeURIComponent s)"
proof -
  have "b < 256" if "b \<in> set (encode_scalar (of_char c))" for b and c :: char
  proof -
    have "(of_char c :: nat) < 256" by (rule nat_of_char_less_256)
    then have "scalar_value (of_char c)" unfolding scalar_value_def by linarith
    from encode_scalar_bytes [OF this that] show ?thesis .
  qed
  then have "safe_segment (concat (map percent (encode_scalar (of_char c))))" for c :: char
    by (intro safe_concat) (auto simp: percent_safe)
  then show ?thesis
    unfolding encodeURIComponent_def by (intro safe_concat) (auto simp: safe_segment_def [of "[c]" for c])
qed

lemma safe_segment_no_delimiter: "safe_segment s \<Longrightarrow> set s \<inter> {CHR ''/'', CHR ''?'', CHR ''#''} = {}"
proof -
  have "\<not> uri_unreserved (CHR ''/'')" "\<not> uri_unreserved (CHR ''?'')" "\<not> uri_unreserved (CHR ''#'')" by code_simp+
  then show "safe_segment s \<Longrightarrow> set s \<inter> {CHR ''/'', CHR ''?'', CHR ''#''} = {}"
    by (auto simp: safe_segment_def list_all_iff)
qed


section \<open>Calls\<close>

text \<open>The same \<open>fetch\<close> with a record of the requests it is given, the latest first.\<close>

definition recording :: "'f fetch \<Rightarrow> ('f \<times> http_request list) fetch" where
  "recording fetch req nl = (case fetch req (fst nl) of (n, r) \<Rightarrow> ((n, req # snd nl), r))"

datatype api_op =
    Op_register id bytes
  | Op_login id bytes
  | Op_refresh
  | Op_logout
  | Op_listDevices
  | Op_registerDevice string bytes
  | Op_registerBearer string
  | Op_revoke id
  | Op_getBundle
  | Op_putBundle jsval
  | Op_mutate id mutation
  | Op_changes id "string option" "nat option"
  | Op_setToken "string option"

fun run_op :: "(string \<Rightarrow> jsval option) \<Rightarrow> 'f fetch \<Rightarrow> api_op \<Rightarrow> 'f api_client \<Rightarrow> 'f api_client" where
  "run_op jp f (Op_register a m) c = fst (opaqueRegisterStep jp f a m c)"
| "run_op jp f (Op_login a m) c = fst (opaqueLoginStep jp f a m c)"
| "run_op jp f Op_refresh c = fst (api_refresh jp f c)"
| "run_op jp f Op_logout c = fst (api_logout jp f c)"
| "run_op jp f Op_listDevices c = fst (listDevices jp f c)"
| "run_op jp f (Op_registerDevice n k) c = fst (registerDevice jp f n k c)"
| "run_op jp f (Op_registerBearer n) c = fst (registerBearerSessionDevice jp f n c)"
| "run_op jp f (Op_revoke d) c = fst (revokeDevice jp f d c)"
| "run_op jp f Op_getBundle c = fst (getKeyBundle jp f c)"
| "run_op jp f (Op_putBundle b) c = fst (putKeyBundle jp f b c)"
| "run_op jp f (Op_mutate v m) c = fst (mutateItem jp f v m c)"
| "run_op jp f (Op_changes v cu l) c = fst (listChanges jp f v cu l c)"
| "run_op jp f (Op_setToken t) c = setAccessToken t c"

text \<open>The routes of the server: a fixed path, or one with an encoded identifier as a segment.\<close>

definition open_route :: "string \<Rightarrow> bool" where
  "open_route path \<longleftrightarrow> path \<in> {''/auth/opaque/register'', ''/auth/opaque/login''}"

definition session_route :: "string \<Rightarrow> bool" where
  "session_route path \<longleftrightarrow>
     path \<in> {''/auth/refresh'', ''/auth/logout'', ''/devices'', ''/account/key-bundle''} \<or>
     (\<exists>seg. safe_segment seg \<and>
        path \<in> {''/devices/'' @ seg @ ''/revoke'', ''/vaults/'' @ seg @ ''/items'', ''/vaults/'' @ seg @ ''/changes''})"

text \<open>
  A request of a client at \<open>base\<close> that holds \<open>token\<close>: it goes to an open route without credentials, or
  to a session route with the token; a query follows a question mark.
\<close>

definition request_ok :: "string \<Rightarrow> string option \<Rightarrow> http_request \<Rightarrow> bool" where
  "request_ok base token req \<longleftrightarrow>
     (\<exists>path q. hr_url req = base @ path @ q \<and> (q = [] \<or> (\<exists>s. q = ''?'' @ s)) \<and>
        (open_route path \<and> map_of (hr_headers req) ''authorization'' = None \<or>
         session_route path \<and> (\<exists>t. token = Some t \<and> t \<noteq> [] \<and>
           map_of (hr_headers req) ''authorization'' = Some (''Bearer '' @ t))))"

lemma build_request_ok:
  assumes "build_request c method path opts = Inr req"
    and "if ro_auth opts then session_route path else open_route path"
  shows "request_ok (api_baseUrl c) (api_token c) req"
proof -
  obtain q where url: "hr_url req = api_baseUrl c @ path @ q" and q: "q = [] \<or> (\<exists>s. q = ''?'' @ s)"
    using assms(1) by (auto simp: build_request_def request_url_def Let_def split: if_splits)
  moreover have "map_of (hr_headers req) ''authorization'' = None" if "\<not> ro_auth opts"
    using assms(1) that by (auto simp: build_request_def split: if_splits)
  moreover have "\<exists>t. api_token c = Some t \<and> t \<noteq> [] \<and> map_of (hr_headers req) ''authorization'' = Some (''Bearer '' @ t)"
    if "ro_auth opts"
    using assms(1) that by (cases "api_token c") (auto simp: build_request_def split: if_splits)
  ultimately show ?thesis using assms(2) unfolding request_ok_def by (metis (full_types))
qed

lemma api_request_log:
  assumes "if ro_auth opts then session_route path else open_route path"
  shows "\<exists>reqs. snd (api_net (fst (api_request jp (recording f) method path opts c))) = reqs @ snd (api_net c) \<and>
    list_all (request_ok (api_baseUrl c) (api_token c)) reqs \<and>
    api_baseUrl (fst (api_request jp (recording f) method path opts c)) = api_baseUrl c \<and>
    api_token (fst (api_request jp (recording f) method path opts c)) = api_token c"
proof (cases "build_request c method path opts")
  case (Inl e)
  then show ?thesis by (simp add: api_request_def)
next
  case (Inr req)
  have "snd (api_net (fst (api_request jp (recording f) method path opts c))) = [req] @ snd (api_net c)"
    by (simp add: api_request_def Inr recording_def case_prod_unfold split: option.split)
  moreover have "request_ok (api_baseUrl c) (api_token c) req" by (rule build_request_ok [OF Inr assms])
  moreover have "api_baseUrl (fst (api_request jp (recording f) method path opts c)) = api_baseUrl c \<and>
      api_token (fst (api_request jp (recording f) method path opts c)) = api_token c"
    by (simp add: api_request_def Inr recording_def case_prod_unfold split: option.split)
  ultimately show ?thesis by (intro exI [of _ "[req]"]) simp
qed

lemma fst_expectOk: "fst (expectOk jp f method path opts c) = fst (api_request jp f method path opts c)"
  by (simp add: expectOk_def case_prod_unfold split: sum.split)

text \<open>The one request of each operation.\<close>

fun op_request :: "api_op \<Rightarrow> string \<times> string \<times> request_options" where
  "op_request (Op_register a m) =
     (''POST'', ''/auth/opaque/register'', no_options\<lparr>ro_auth := False, ro_body := Some (opaque_body a m)\<rparr>)"
| "op_request (Op_login a m) =
     (''POST'', ''/auth/opaque/login'', no_options\<lparr>ro_auth := False, ro_body := Some (opaque_body a m)\<rparr>)"
| "op_request Op_refresh = (''POST'', ''/auth/refresh'', no_options)"
| "op_request Op_logout = (''POST'', ''/auth/logout'', no_options)"
| "op_request Op_listDevices = (''GET'', ''/devices'', no_options)"
| "op_request (Op_registerDevice n k) =
     (''POST'', ''/devices'', no_options\<lparr>ro_body := Some (JObj [(''name'', JStr n), (''publicKey'', JStr (encodeB64 k))])\<rparr>)"
| "op_request (Op_registerBearer n) =
     (''POST'', ''/devices'',
      no_options\<lparr>ro_body := Some (JObj [(''name'', JStr n), (''enrollmentMode'', JStr ''bearer-session-v1'')])\<rparr>)"
| "op_request (Op_revoke d) = (''POST'', revoke_path d, no_options)"
| "op_request Op_getBundle = (''GET'', ''/account/key-bundle'', no_options)"
| "op_request (Op_putBundle b) = (''PUT'', ''/account/key-bundle'', no_options\<lparr>ro_body := Some b\<rparr>)"
| "op_request (Op_mutate v m) =
     (''POST'', items_path v, no_options\<lparr>ro_body := Some (mutation_json m)\<rparr>)"
| "op_request (Op_changes v cu l) =
     (''GET'', changes_path v,
      no_options\<lparr>ro_query := [(''cursor'', cu), (''limit'', map_option string_of_nat l)]\<rparr>)"
| "op_request (Op_setToken t) = (''GET'', [], no_options)"

lemma routes:
  "open_route ''/auth/opaque/register''" "open_route ''/auth/opaque/login''"
  "session_route ''/auth/refresh''" "session_route ''/auth/logout''" "session_route ''/devices''"
  "session_route ''/account/key-bundle''"
  by (simp_all add: open_route_def session_route_def)

lemma segment_routes: "session_route (revoke_path d)" "session_route (items_path v)" "session_route (changes_path v)"
  unfolding session_route_def revoke_path_def items_path_def changes_path_def
  using encodeURIComponent_safe by blast+

lemma op_route:
  assumes "op_request op = (method, path, opts)" and "\<And>t. op \<noteq> Op_setToken t"
  shows "if ro_auth opts then session_route path else open_route path"
  using assms by (cases op) (auto simp: no_options_def routes segment_routes)

lemma fst_case:
  "fst (case x of (c1, Inl e) \<Rightarrow> (c1, Inl e) | (c1, Inr b) \<Rightarrow> (c1, g b)) = fst x"
  "fst (case y of (c1, Inl e) \<Rightarrow> (c1, Inl e) | (c1, Inr (s, b)) \<Rightarrow> (c1, h s b)) = fst y"
  by (simp_all add: case_prod_unfold split: sum.split)

lemma run_op_net:
  assumes "op_request op = (method, path, opts)" and "\<And>t. op \<noteq> Op_setToken t"
  shows "api_net (run_op jp f op c) = api_net (fst (api_request jp f method path opts c)) \<and>
    api_baseUrl (run_op jp f op c) = api_baseUrl (fst (api_request jp f method path opts c))"
proof (cases op)
  case Op_logout
  with assms(1) have req: "(method, path, opts) = (''POST'', ''/auth/logout'', no_options)" by simp
  show ?thesis
    using req Op_logout by (cases "expectOk jp f ''POST'' ''/auth/logout'' no_options c")
      (auto simp: api_logout_def fst_expectOk [of jp f "''POST''" "''/auth/logout''" no_options c, symmetric] split: sum.split)
next
  case Op_register
  with assms(1) show ?thesis by (auto simp: opaqueRegisterStep_def fst_case fst_expectOk)
next
  case Op_login
  with assms(1) show ?thesis by (auto simp: opaqueLoginStep_def fst_case)
next
  case Op_listDevices
  with assms(1) show ?thesis by (auto simp: listDevices_def fst_case fst_expectOk)
next
  case Op_getBundle
  with assms(1) show ?thesis by (auto simp: getKeyBundle_def fst_case)
next
  case Op_putBundle
  with assms(1) show ?thesis by (auto simp: putKeyBundle_def fst_case)
next
  case Op_mutate
  with assms(1) show ?thesis by (auto simp: mutateItem_def fst_case)
qed (use assms in \<open>auto simp: api_refresh_def registerDevice_def registerBearerSessionDevice_def revokeDevice_def
    listChanges_def fst_expectOk\<close>)


section \<open>Properties\<close>

lemma run_op_log:
  "\<exists>reqs. snd (api_net (run_op jp (recording f) op c)) = reqs @ snd (api_net c) \<and>
     list_all (request_ok (api_baseUrl c) (api_token c)) reqs \<and> api_baseUrl (run_op jp (recording f) op c) = api_baseUrl c"
proof (cases "\<exists>t. op = Op_setToken t")
  case True
  then show ?thesis by (auto simp: setAccessToken_def)
next
  case False
  obtain verb path opts where req: "op_request op = (verb, path, opts)" by (cases "op_request op")
  with False have "if ro_auth opts then session_route path else open_route path" by (intro op_route) auto
  from api_request_log [OF this, of jp f verb c] run_op_net [OF req, of jp "recording f" c] False
  show ?thesis by auto
qed

text \<open>The requests of a sequence of operations, each with the token held when it was made.\<close>

fun op_trace ::
  "(string \<Rightarrow> jsval option) \<Rightarrow> 'f fetch \<Rightarrow> api_op list \<Rightarrow> ('f \<times> http_request list) api_client \<Rightarrow>
   (string option \<times> http_request) list" where
  "op_trace jp f [] c = []"
| "op_trace jp f (op # ops) c =
     (let c1 = run_op jp (recording f) op (c\<lparr>api_net := (fst (api_net c), [])\<rparr>)
      in map (Pair (api_token c)) (snd (api_net c1)) @ op_trace jp f ops c1)"

lemma op_trace_ok:
  "api_baseUrl c = base \<Longrightarrow> (token, req) \<in> set (op_trace jp f ops c) \<Longrightarrow> request_ok base token req"
proof (induction ops arbitrary: c)
  case (Cons op ops)
  let ?c = "c\<lparr>api_net := (fst (api_net c), [])\<rparr>"
  from run_op_log [of jp f op ?c] obtain reqs where reqs: "snd (api_net (run_op jp (recording f) op ?c)) = reqs"
    "list_all (request_ok base (api_token c)) reqs" "api_baseUrl (run_op jp (recording f) op ?c) = base"
    using Cons.prems(1) by auto
  with Cons.prems(2) consider "token = api_token c" "req \<in> set reqs"
    | "(token, req) \<in> set (op_trace jp f ops (run_op jp (recording f) op ?c))"
    by (auto simp: Let_def)
  then show ?case
  proof cases
    case 1
    with reqs(2) show ?thesis by (simp add: list_all_iff)
  next
    case 2
    with Cons.IH [OF reqs(3)] show ?thesis by blast
  qed
qed simp

text \<open>
  Whatever operations are called and whatever the server answers, every request the client makes
  goes to a known route under its base URL: an identifier stays within its path segment, the OPAQUE
  steps carry no credentials, and every other request carries the access token held at that moment,
  so none is made without one.
\<close>
theorem api_requests_confined:
  "list_all (\<lambda>(token, req). request_ok base token req)
     (op_trace jp f ops \<lparr>api_token = None, api_baseUrl = base, api_net = (n, [])\<rparr>)"
  using op_trace_ok [of "\<lparr>api_token = None, api_baseUrl = base, api_net = (n, [])\<rparr>" base]
  by (auto simp: list_all_iff)



end
