(* ===== verification/Extension_Vault.thy ===== *)
theory Extension_Vault
  imports Vault_Item Account_Bundle Worker_Client Api_Client Sync_Engine Fill_Policy Totp
begin

text \<open>
  \<open>ExtensionVaultManager\<close> of \<open>apps/extension/src/vault-manager.ts\<close>, with the item validation of
  \<open>apps/extension/src/item-codec.ts\<close>.

  The methods are \<open>async\<close> and other calls run at every \<open>await\<close>: a method is cut there.  The part up
  to the first one is a definition on the state, what follows is the continuation of a task, run by
  \<open>ev_resume\<close> with the value the promise settles with.  The code tells sessions apart by the identity of
  the object in \<open>#state\<close>; here every unlock gets a number of its own, which names its API client, its
  worker host and its state.  The server answers anything.  \<open>ev_checks\<close> records, for the statements
  only, when the server has answered an authenticated request that counts as a fresh check.
\<close>


section \<open>State\<close>

definition KEY_VERSION :: int where "KEY_VERSION = 1"
definition EXTENSION_ENVELOPE_VERSION :: string where "EXTENSION_ENVELOPE_VERSION = ''crypto-envelope/v1''"
definition DEFAULT_REPORTED_MEMORY_KIB :: int where "DEFAULT_REPORTED_MEMORY_KIB = 262144"
definition FRESH_CHECK_INTERVAL_MS :: int where "FRESH_CHECK_INTERVAL_MS = 30000"
definition NETWORK_DEADLINE_MS :: int where "NETWORK_DEADLINE_MS = 5000"
definition REFRESH_MARGIN_MS :: int where "REFRESH_MARGIN_MS = 30000"

record item_entry =
  ie_itemId :: id
  ie_revision :: int
  ie_data :: item_data

record unlocked_state =
  us_ref :: nat
  us_session :: int
  us_accountId :: id
  us_vaultId :: id
  us_expiresAt :: jsval
  us_items :: "(id, item_entry) js_map"

record ext_api =
  xa_origin :: string
  xa_token :: "string option"

record 'w ext_vault =
  ev_state :: "unlocked_state option"
  ev_lastFresh :: epoch_ms
  ev_refresh :: "nat option"
  ev_idCounter :: nat
  ev_nextRef :: nat
  ev_apis :: "(nat, ext_api) js_map"
  ev_hosts :: "(nat, 'w crypto_host) js_map"
  ev_authFailures :: nat
  ev_checks :: "(nat \<times> epoch_ms) list"

text \<open>
  The injected dependencies and what the code takes from the platform: the crypto backend,
  \<open>JSON.parse\<close>, the URL parser (as origin matching and as \<open>confirmApiOrigin\<close> read it), \<open>Date.parse\<close>
  (\<open>None\<close>: \<open>NaN\<close>), the item codec (\<open>None\<close>: it throws) and the HMAC.
\<close>

record 'w ext_env =
  ee_backend :: "'w crypto_backend"
  ee_json_parse :: "ustring \<Rightarrow> jsval option"
  ee_api_url :: "string \<Rightarrow> api_url option"
  ee_url :: url_parser
  ee_date_parse :: "jsval \<Rightarrow> int option"
  ee_decode :: "bytes \<Rightarrow> item_data option"
  ee_encode :: "item_data \<Rightarrow> bytes"
  ee_hmac :: "totp_algorithm \<Rightarrow> bytes \<Rightarrow> bytes \<Rightarrow> bytes"
  ee_memoryKiB :: int

definition ext_vault_new :: "'w ext_vault" where
  "ext_vault_new = \<lparr>ev_state = None, ev_lastFresh = 0, ev_refresh = None, ev_idCounter = 0, ev_nextRef = 0,
     ev_apis = [], ev_hosts = [], ev_authFailures = 0, ev_checks = []\<rparr>"

definition nextId :: "'w ext_vault \<Rightarrow> 'w ext_vault \<times> string" where
  "nextId s = (s\<lparr>ev_idCounter := ev_idCounter s + 1\<rparr>, string_of_nat (ev_idCounter s + 1))"

text \<open>
  A promise settles after some milliseconds, or never.  \<open>withDeadline\<close> races it against a timer; a
  value that comes later is not seen.
\<close>

type_synonym 'a net_settlement = "(int \<times> (sdk_error + 'a)) option"

definition withDeadline :: "'a net_settlement \<Rightarrow> int \<Rightarrow> sdk_error + 'a" where
  "withDeadline p ms =
     (case p of
        None \<Rightarrow> Inl (JsError ''network deadline exceeded'')
      | Some (t, r) \<Rightarrow> if t < ms then r else Inl (JsError ''network deadline exceeded''))"

definition is_current :: "'w ext_vault \<Rightarrow> nat \<Rightarrow> bool" where
  "is_current s r \<longleftrightarrow> (case ev_state s of None \<Rightarrow> False | Some st \<Rightarrow> us_ref st = r)"

definition ev_isUnlocked :: "'w ext_vault \<Rightarrow> bool" where
  "ev_isUnlocked s \<longleftrightarrow> ev_state s \<noteq> None"


section \<open>Results and tasks\<close>

record ext_save_input =
  in_itemId :: "id option"
  in_data :: item_data

record totp_display =
  td_code :: string
  td_secondsRemaining :: int

text \<open>What waits for a \<open>checkFresh\<close>: its caller outside, or a method of the manager.\<close>

datatype ev_cont = K_check | K_fields id string | K_totp id | K_save ext_save_input

record unlock_ctx =
  uc_ref :: nat
  uc_accountId :: id
  uc_password :: bytes

record ev_load_ctx =
  lx_unlock :: unlock_ctx
  lx_expiresAt :: jsval
  lx_session :: int
  lx_accountId :: id
  lx_vaultId :: id

datatype ev_task =
    U_opaque unlock_ctx
  | U_login unlock_ctx
  | U_register unlock_ctx jsval
  | U_bundle unlock_ctx jsval
  | U_backend unlock_ctx jsval account_bundle_fields
  | U_page ev_load_ctx "string option" "(id, item_entry) js_map"
  | T_join ev_cont nat
  | T_refresh ev_cont nat nat
  | T_attempt ev_cont nat nat bool
  | T_refreshed ev_cont nat bool
  | T_devices ev_cont nat
  | T_cont ev_cont nat bool
  | T_totp_fill nat fill_fields "totp_error + string"
  | T_totp_show nat "totp_error + string"
  | T_mutate nat id item_data mutation
  | T_logout

datatype ev_outcome =
    E_unlock bool bytes
  | E_bool bool
  | E_fields "fill_fields option"
  | E_totp "totp_display option"
  | E_save save_result
  | E_unit
  | E_await ev_task

datatype 'w ev_answer =
    A_opaque bool
  | A_session "api_session net_settlement"
  | A_unit "unit net_settlement"
  | A_bundle "key_bundle_outcome net_settlement"
  | A_backend "'w option"
  | A_page "change_page net_settlement"
  | A_settled bool
  | A_mutate "Sync_Engine.mutate_outcome net_settlement"
  | A_ready


section \<open>Teardown\<close>

definition host_of :: "'w ext_vault \<Rightarrow> nat \<Rightarrow> 'w crypto_host option" where
  "host_of s r = map_of (ev_hosts s) r"

definition set_host :: "nat \<Rightarrow> 'w crypto_host \<Rightarrow> 'w ext_vault \<Rightarrow> 'w ext_vault" where
  "set_host r h s = s\<lparr>ev_hosts := AList.update r h (ev_hosts s)\<rparr>"

definition set_token :: "nat \<Rightarrow> string option \<Rightarrow> 'w ext_vault \<Rightarrow> 'w ext_vault" where
  "set_token r t s =
     (case map_of (ev_apis s) r of
        None \<Rightarrow> s
      | Some a \<Rightarrow> s\<lparr>ev_apis := AList.update r (a\<lparr>xa_token := t\<rparr>) (ev_apis s)\<rparr>)"

definition dispose_host :: "'w ext_env \<Rightarrow> nat \<Rightarrow> 'w ext_vault \<Rightarrow> 'w ext_vault" where
  "dispose_host env r s =
     (case host_of s r of None \<Rightarrow> s | Some h \<Rightarrow> set_host r (dispose (ee_backend env) h) s)"

definition ev_dispose :: "'w ext_env \<Rightarrow> 'w ext_vault \<Rightarrow> 'w ext_vault" where
  "ev_dispose env s =
     (let s1 = s\<lparr>ev_state := None, ev_lastFresh := 0, ev_refresh := None\<rparr>
      in case ev_state s of
           None \<Rightarrow> s1
         | Some st \<Rightarrow> set_token (us_ref st) None (dispose_host env (us_ref st) s1))"

definition handleAuthFailure :: "'w ext_env \<Rightarrow> 'w ext_vault \<Rightarrow> 'w ext_vault" where
  "handleAuthFailure env s = (let s1 = ev_dispose env s in s1\<lparr>ev_authFailures := ev_authFailures s1 + 1\<rparr>)"

definition ev_lock :: "'w ext_env \<Rightarrow> 'w ext_vault \<Rightarrow> 'w ext_vault" where
  "ev_lock env s = ev_dispose env s"

definition ev_logout :: "'w ext_env \<Rightarrow> 'w ext_vault \<Rightarrow> 'w ext_vault \<times> ev_outcome" where
  "ev_logout env s = (if ev_state s = None then (ev_dispose env s, E_unit) else (s, E_await T_logout))"

text \<open>
  Whether the server revoked the session or not, the \<open>finally\<close> block disposes of whatever state there
  is at that moment.
\<close>

definition logout_resume :: "'w ext_env \<Rightarrow> unit net_settlement \<Rightarrow> 'w ext_vault \<Rightarrow> 'w ext_vault \<times> ev_outcome" where
  "logout_resume env answer s =
     (case withDeadline answer NETWORK_DEADLINE_MS of
        Inl _ \<Rightarrow> (ev_dispose env s, E_unit)
      | Inr _ \<Rightarrow> (ev_dispose env s, E_unit))"


section \<open>Unlock\<close>

definition unlock_returns :: "unlock_ctx \<Rightarrow> bool \<Rightarrow> 'w ext_vault \<Rightarrow> 'w ext_vault \<times> ev_outcome" where
  "unlock_returns c ok s = (s, E_unlock ok (replicate (length (uc_password c)) 0))"

definition unlock_catch :: "'w ext_env \<Rightarrow> unlock_ctx \<Rightarrow> 'w ext_vault \<Rightarrow> 'w ext_vault \<times> ev_outcome" where
  "unlock_catch env c s = unlock_returns c False (ev_dispose env s)"

definition ev_unlock :: "'w ext_env \<Rightarrow> id \<Rightarrow> string \<Rightarrow> bytes \<Rightarrow> 'w ext_vault \<Rightarrow> 'w ext_vault \<times> ev_outcome" where
  "ev_unlock env account apiOrigin password s =
     (let s1 = ev_dispose env s;
          c = \<lparr>uc_ref = ev_nextRef s1, uc_accountId = account, uc_password = password\<rparr>
      in if length account = 0 \<or> length account > 256 then unlock_returns c False s1
         else (case confirmApiOrigin (ee_api_url env) apiOrigin of
                 None \<Rightarrow> unlock_returns c False s1
               | Some origin \<Rightarrow>
                   (s1\<lparr>ev_nextRef := ev_nextRef s1 + 1,
                       ev_apis := AList.update (ev_nextRef s1) \<lparr>xa_origin = origin, xa_token = None\<rparr> (ev_apis s1)\<rparr>,
                    E_await (U_opaque c))))"

definition opaque_resume :: "'w ext_env \<Rightarrow> unlock_ctx \<Rightarrow> bool \<Rightarrow> 'w ext_vault \<Rightarrow> 'w ext_vault \<times> ev_outcome" where
  "opaque_resume env c ok s = (if ok then (s, E_await (U_login c)) else unlock_catch env c s)"

text \<open>\<open>AuthClient.login\<close> puts the token into the API client before it returns.\<close>

definition login_resume ::
  "'w ext_env \<Rightarrow> unlock_ctx \<Rightarrow> api_session net_settlement \<Rightarrow> 'w ext_vault \<Rightarrow> 'w ext_vault \<times> ev_outcome" where
  "login_resume env c answer s =
     (case withDeadline answer NETWORK_DEADLINE_MS of
        Inl _ \<Rightarrow> unlock_catch env c s
      | Inr session \<Rightarrow>
          (set_token (uc_ref c) (Some (ses_accessToken session)) s, E_await (U_register c (ses_expiresAt session))))"

definition register_resume ::
  "'w ext_env \<Rightarrow> unlock_ctx \<Rightarrow> jsval \<Rightarrow> unit net_settlement \<Rightarrow> 'w ext_vault \<Rightarrow> 'w ext_vault \<times> ev_outcome" where
  "register_resume env c expires answer s =
     (case withDeadline answer NETWORK_DEADLINE_MS of
        Inl _ \<Rightarrow> unlock_catch env c s
      | Inr _ \<Rightarrow> (s, E_await (U_bundle c expires)))"

definition bundle_resume ::
  "'w ext_env \<Rightarrow> unlock_ctx \<Rightarrow> jsval \<Rightarrow> key_bundle_outcome net_settlement \<Rightarrow> 'w ext_vault \<Rightarrow> 'w ext_vault \<times> ev_outcome" where
  "bundle_resume env c expires answer s =
     (case withDeadline answer NETWORK_DEADLINE_MS of
        Inl _ \<Rightarrow> unlock_catch env c s
      | Inr Bundle_404 \<Rightarrow> unlock_returns c False s
      | Inr (Bundle_200 keyBundle) \<Rightarrow>
          (case member keyBundle ''bundle'' of
             Inl _ \<Rightarrow> unlock_catch env c s
           | Inr (JStr wire) \<Rightarrow>
               (case parseAccountBundle (ee_json_parse env) wire of
                  None \<Rightarrow> unlock_returns c False s
                | Some parsed \<Rightarrow>
                    if bf_accountId parsed \<noteq> uc_accountId c then unlock_returns c False s
                    else (s, E_await (U_backend c expires parsed)))
           | Inr _ \<Rightarrow> unlock_returns c False s))"

definition unlock_message :: "'w ext_env \<Rightarrow> unlock_ctx \<Rightarrow> account_bundle_fields \<Rightarrow> string \<Rightarrow> crypto_request option" where
  "unlock_message env c f i = do {
     kdf \<leftarrow> safeDecode (bf_kdfParametersCbor f);
     wa \<leftarrow> safeDecode (bf_wrappedAccountKey f);
     wv \<leftarrow> safeDecode (bf_wrappedVaultKey f);
     wi \<leftarrow> safeDecode (bf_wrappedItemKey f);
     Some (Unlock_item_session i
       \<lparr>u_password = uc_password c, u_kdfParametersCbor = kdf, u_reportedPhysicalMemoryKiB = ee_memoryKiB env,
        u_accountId = bf_accountId f, u_vaultId = bf_vaultId f, u_itemId = bf_itemId f, u_accountKeyVersion = KEY_VERSION,
        u_vaultKeyVersion = KEY_VERSION, u_itemKeyVersion = KEY_VERSION, u_wrappedAccountKey = wa, u_wrappedVaultKey = wv,
        u_wrappedItemKey = wi\<rparr>)
   }"

definition host_new :: "'w \<Rightarrow> 'w crypto_host" where
  "host_new w = \<lparr>h_sessions = [], h_wasm = w\<rparr>"

definition backend_resume ::
  "'w ext_env \<Rightarrow> unlock_ctx \<Rightarrow> jsval \<Rightarrow> account_bundle_fields \<Rightarrow> 'w option \<Rightarrow> 'w ext_vault \<Rightarrow> 'w ext_vault \<times> ev_outcome" where
  "backend_resume env c expires f answer s =
     (case answer of
        None \<Rightarrow> unlock_catch env c s
      | Some w \<Rightarrow>
          (case nextId s of
             (s1, i) \<Rightarrow>
               (case unlock_message env c f i of
                  None \<Rightarrow> unlock_catch env c (set_host (uc_ref c) (host_new w) s1)
                | Some req \<Rightarrow>
                    (case handle (ee_backend env) (request_msg req) (host_new w) of
                       (h, Ok_response _ (Res_session session), _) \<Rightarrow>
                         (set_host (uc_ref c) h s1,
                          E_await (U_page
                            \<lparr>lx_unlock = c\<lparr>uc_password := replicate (length (uc_password c)) 0\<rparr>, lx_expiresAt = expires,
                             lx_session = session, lx_accountId = bf_accountId f, lx_vaultId = bf_vaultId f\<rparr> None []))
                     | (h, _, _) \<Rightarrow>
                         unlock_returns c False (set_host (uc_ref c) (dispose (ee_backend env) h) s1)))))"


section \<open>Loading the items\<close>

text \<open>A request to the host of an unlock.\<close>

definition host_call ::
  "'w ext_env \<Rightarrow> nat \<Rightarrow> crypto_request \<Rightarrow> 'w ext_vault \<Rightarrow> 'w ext_vault \<times> crypto_response" where
  "host_call env r req s =
     (case host_of s r of
        None \<Rightarrow> (s, Error_response [] Internal)
      | Some h \<Rightarrow> (case handle (ee_backend env) (request_msg req) h of (h1, res, _) \<Rightarrow> (set_host r h1 s, res)))"

text \<open>
  The loop over the records of a page.  \<open>decodeB64\<close> of the ciphertext stands outside the \<open>try\<close>: when
  it throws, the loop ends without a result.
\<close>

fun load_page ::
  "'w ext_env \<Rightarrow> ev_load_ctx \<Rightarrow> item_record list \<Rightarrow> (id, item_entry) js_map \<Rightarrow> 'w ext_vault \<Rightarrow>
   'w ext_vault \<times> (id, item_entry) js_map option" where
  "load_page env c [] items s = (s, Some items)"
| "load_page env c (r # rs) items s =
     (if deleted r then load_page env c rs (AList.delete (itemId r) items) s
      else (case nextId s of
              (s1, i) \<Rightarrow>
                (case decodeB64 (ciphertext r) of
                   Inl _ \<Rightarrow> (s1, None)
                 | Inr envelope \<Rightarrow>
                     (case host_call env (uc_ref (lx_unlock c))
                             (Open_item_payload i
                               \<lparr>p_session = lx_session c, p_accountId = lx_accountId c, p_vaultId = lx_vaultId c,
                                p_itemId = itemId r, p_keyVersion = KEY_VERSION, p_payload = envelope\<rparr>) s1 of
                        (s2, Ok_response _ (Res_bytes b)) \<Rightarrow>
                          (case ee_decode env b of
                             None \<Rightarrow> load_page env c rs items s2
                           | Some d \<Rightarrow>
                               load_page env c rs
                                 (AList.update (itemId r) \<lparr>ie_itemId = itemId r, ie_revision = revision r, ie_data = d\<rparr> items) s2)
                      | (s2, _) \<Rightarrow> load_page env c rs items s2))))"

definition unlock_finish ::
  "epoch_ms \<Rightarrow> ev_load_ctx \<Rightarrow> (id, item_entry) js_map \<Rightarrow> 'w ext_vault \<Rightarrow> 'w ext_vault \<times> ev_outcome" where
  "unlock_finish now c items s =
     unlock_returns (lx_unlock c) True
       (s\<lparr>ev_state := Some \<lparr>us_ref = uc_ref (lx_unlock c), us_session = lx_session c, us_accountId = lx_accountId c,
            us_vaultId = lx_vaultId c, us_expiresAt = lx_expiresAt c, us_items = items\<rparr>,
          ev_lastFresh := now, ev_checks := (uc_ref (lx_unlock c), now) # ev_checks s\<rparr>)"

definition last_page :: "change_page \<Rightarrow> bool" where
  "last_page p \<longleftrightarrow> changes p = [] \<or> \<not> truthy (nextCursor p)"

definition page_resume ::
  "'w ext_env \<Rightarrow> epoch_ms \<Rightarrow> ev_load_ctx \<Rightarrow> string option \<Rightarrow> (id, item_entry) js_map \<Rightarrow> change_page net_settlement \<Rightarrow>
   'w ext_vault \<Rightarrow> 'w ext_vault \<times> ev_outcome" where
  "page_resume env now c cursor items answer s =
     (case withDeadline answer NETWORK_DEADLINE_MS of
        Inl e \<Rightarrow>
          if e = HttpError 404 \<and> cursor = None then unlock_finish now c items s else unlock_catch env (lx_unlock c) s
      | Inr page \<Rightarrow>
          (case load_page env c (changes page) items s of
             (s1, None) \<Rightarrow> unlock_catch env (lx_unlock c) s1
           | (s1, Some items1) \<Rightarrow>
               if last_page page then unlock_finish now c items1 s1
               else (s1, E_await (U_page c (nextCursor page) items1))))"


section \<open>Fresh checks\<close>

text \<open>A value an \<open>async\<close> method returns reaches a waiting method of the manager in a later step.\<close>

definition fresh_returns :: "ev_cont \<Rightarrow> nat \<Rightarrow> bool \<Rightarrow> ev_outcome" where
  "fresh_returns k r b = (case k of K_check \<Rightarrow> E_bool b | _ \<Rightarrow> E_await (T_cont k r b))"

definition maybeRefresh ::
  "'w ext_env \<Rightarrow> epoch_ms \<Rightarrow> ev_cont \<Rightarrow> unlocked_state \<Rightarrow> 'w ext_vault \<Rightarrow> 'w ext_vault \<times> ev_outcome" where
  "maybeRefresh env now k st s =
     (case ev_refresh s of
        Some _ \<Rightarrow> (s, E_await (T_join k (us_ref st)))
      | None \<Rightarrow>
          (case ee_date_parse env (us_expiresAt st) of
             None \<Rightarrow> (s, E_await (T_refreshed k (us_ref st) True))
           | Some t \<Rightarrow>
               if t - now > REFRESH_MARGIN_MS then (s, E_await (T_refreshed k (us_ref st) True))
               else (s\<lparr>ev_nextRef := ev_nextRef s + 1, ev_refresh := Some (ev_nextRef s)\<rparr>,
                     E_await (T_refresh k (us_ref st) (ev_nextRef s)))))"

text \<open>The result of joining another call's attempt is left open: it may settle either way.\<close>

definition join_resume :: "ev_cont \<Rightarrow> nat \<Rightarrow> bool \<Rightarrow> 'w ext_vault \<Rightarrow> 'w ext_vault \<times> ev_outcome" where
  "join_resume k r ok s =
     (if ok then (s, E_await (T_refreshed k r (is_current s r))) else (s, E_await (T_refreshed k r False)))"

definition rotate_token :: "nat \<Rightarrow> api_session \<Rightarrow> 'w ext_vault \<Rightarrow> 'w ext_vault" where
  "rotate_token r session s =
     (let s1 = set_token r (Some (ses_accessToken session)) s
      in s1\<lparr>ev_state := map_option (\<lambda>st. st\<lparr>us_expiresAt := ses_expiresAt session\<rparr>) (ev_state s1)\<rparr>)"

definition refresh_resume ::
  "ev_cont \<Rightarrow> nat \<Rightarrow> nat \<Rightarrow> api_session net_settlement \<Rightarrow> 'w ext_vault \<Rightarrow> 'w ext_vault \<times> ev_outcome" where
  "refresh_resume k r a answer s =
     (case withDeadline answer NETWORK_DEADLINE_MS of
        Inl _ \<Rightarrow> (s, E_await (T_attempt k r a False))
      | Inr session \<Rightarrow>
          if \<not> is_current s r then (s, E_await (T_attempt k r a True))
          else (rotate_token r session s, E_await (T_attempt k r a True)))"

definition attempt_resume ::
  "'w ext_env \<Rightarrow> ev_cont \<Rightarrow> nat \<Rightarrow> nat \<Rightarrow> bool \<Rightarrow> 'w ext_vault \<Rightarrow> 'w ext_vault \<times> ev_outcome" where
  "attempt_resume env k r a ok s =
     (let s1 = (if \<not> ok \<and> is_current s r then handleAuthFailure env s else s);
          s2 = (if ev_refresh s1 = Some a then s1\<lparr>ev_refresh := None\<rparr> else s1)
      in (s2, E_await (T_refreshed k r (ok \<and> is_current s r))))"

definition fresh_start ::
  "'w ext_env \<Rightarrow> epoch_ms \<Rightarrow> ev_cont \<Rightarrow> unlocked_state \<Rightarrow> 'w ext_vault \<Rightarrow> 'w ext_vault \<times> ev_outcome" where
  "fresh_start env now k st s =
     (if now - ev_lastFresh s \<le> FRESH_CHECK_INTERVAL_MS then (s, fresh_returns k (us_ref st) True)
      else maybeRefresh env now k st s)"

definition checkFresh :: "'w ext_env \<Rightarrow> epoch_ms \<Rightarrow> 'w ext_vault \<Rightarrow> 'w ext_vault \<times> ev_outcome" where
  "checkFresh env now s =
     (case ev_state s of None \<Rightarrow> (s, E_bool False) | Some st \<Rightarrow> fresh_start env now K_check st s)"

definition refreshed_resume :: "ev_cont \<Rightarrow> nat \<Rightarrow> bool \<Rightarrow> 'w ext_vault \<Rightarrow> 'w ext_vault \<times> ev_outcome" where
  "refreshed_resume k r b s =
     (if \<not> b then (s, fresh_returns k r False)
      else if \<not> is_current s r then (s, fresh_returns k r False)
      else (s, E_await (T_devices k r)))"

definition devices_resume ::
  "'w ext_env \<Rightarrow> epoch_ms \<Rightarrow> ev_cont \<Rightarrow> nat \<Rightarrow> unit net_settlement \<Rightarrow> 'w ext_vault \<Rightarrow> 'w ext_vault \<times> ev_outcome" where
  "devices_resume env now k r answer s =
     (case withDeadline answer NETWORK_DEADLINE_MS of
        Inl _ \<Rightarrow> (if is_current s r then handleAuthFailure env s else s, fresh_returns k r False)
      | Inr _ \<Rightarrow>
          if \<not> is_current s r then (s, fresh_returns k r False)
          else (s\<lparr>ev_lastFresh := now, ev_checks := (r, now) # ev_checks s\<rparr>, fresh_returns k r True))"


section \<open>Candidates, fields and codes\<close>

definition url_matches :: "'w ext_env \<Rightarrow> item_data \<Rightarrow> string \<Rightarrow> bool" where
  "url_matches env d pageOrigin \<longleftrightarrow>
     (case d_url d of None \<Rightarrow> False | Some u \<Rightarrow> u \<noteq> [] \<and> om_matches (matchOrigin (ee_url env) u pageOrigin))"

definition candidatesFor :: "'w ext_env \<Rightarrow> string \<Rightarrow> 'w ext_vault \<Rightarrow> login_candidate list" where
  "candidatesFor env pageOrigin s =
     (case ev_state s of
        None \<Rightarrow> []
      | Some st \<Rightarrow>
          map (\<lambda>(i, e). \<lparr>lc_id = i, lc_title = d_title (ie_data e), lc_origin = pageOrigin\<rparr>)
            (filter (\<lambda>(i, e). is_login (ie_data e) \<and> url_matches env (ie_data e) pageOrigin) (us_items st)))"

definition fieldsFor :: "'w ext_env \<Rightarrow> epoch_ms \<Rightarrow> id \<Rightarrow> string \<Rightarrow> 'w ext_vault \<Rightarrow> 'w ext_vault \<times> ev_outcome" where
  "fieldsFor env now i pageOrigin s =
     (case ev_state s of
        None \<Rightarrow> (s, E_fields None)
      | Some st \<Rightarrow> fresh_start env now (K_fields i pageOrigin) st s)"

definition fill_of :: "item_data \<Rightarrow> fill_fields" where
  "fill_of d =
     \<lparr>ff_username = (case d_username d of None \<Rightarrow> [] | Some u \<Rightarrow> u),
      ff_password = (case d_password d of None \<Rightarrow> [] | Some p \<Rightarrow> p), ff_totp = None\<rparr>"

text \<open>The secret of a TOTP login, if it is one and has a nonempty secret.\<close>

definition totp_secret :: "item_data \<Rightarrow> string option" where
  "totp_secret d = (if d_type d = ''totp-login'' \<and> truthy (d_totpSecret d) then d_totpSecret d else None)"

definition entry_of :: "'w ext_vault \<Rightarrow> id \<Rightarrow> item_entry option" where
  "entry_of s i = (case ev_state s of None \<Rightarrow> None | Some st \<Rightarrow> map_of (us_items st) i)"

definition fields_cont ::
  "'w ext_env \<Rightarrow> epoch_ms \<Rightarrow> id \<Rightarrow> string \<Rightarrow> nat \<Rightarrow> bool \<Rightarrow> 'w ext_vault \<Rightarrow> 'w ext_vault \<times> ev_outcome" where
  "fields_cont env now i pageOrigin r fresh s =
     (if \<not> fresh \<or> \<not> is_current s r then (s, E_fields None)
      else (case entry_of s i of
              None \<Rightarrow> (s, E_fields None)
            | Some e \<Rightarrow>
                if \<not> url_matches env (ie_data e) pageOrigin then (s, E_fields None)
                else (case totp_secret (ie_data e) of
                        Some secret \<Rightarrow>
                          (s, E_await (T_totp_fill r (fill_of (ie_data e)) (computeTotp (ee_hmac env) secret TOTP_DEFAULTS now)))
                      | None \<Rightarrow> (s, E_fields (Some (fill_of (ie_data e)))))))"

definition totp_fill_resume ::
  "nat \<Rightarrow> fill_fields \<Rightarrow> totp_error + string \<Rightarrow> 'w ext_vault \<Rightarrow> 'w ext_vault \<times> ev_outcome" where
  "totp_fill_resume r f code s =
     (let f1 = (case code of Inl _ \<Rightarrow> f | Inr c \<Rightarrow> f\<lparr>ff_totp := Some c\<rparr>)
      in (s, E_fields (if is_current s r then Some f1 else None)))"

definition getTotp :: "'w ext_env \<Rightarrow> epoch_ms \<Rightarrow> id \<Rightarrow> 'w ext_vault \<Rightarrow> 'w ext_vault \<times> ev_outcome" where
  "getTotp env now i s =
     (case ev_state s of None \<Rightarrow> (s, E_totp None) | Some st \<Rightarrow> fresh_start env now (K_totp i) st s)"

definition totp_cont ::
  "'w ext_env \<Rightarrow> epoch_ms \<Rightarrow> id \<Rightarrow> nat \<Rightarrow> bool \<Rightarrow> 'w ext_vault \<Rightarrow> 'w ext_vault \<times> ev_outcome" where
  "totp_cont env now i r fresh s =
     (if \<not> fresh \<or> \<not> is_current s r then (s, E_totp None)
      else (case entry_of s i of
              None \<Rightarrow> (s, E_totp None)
            | Some e \<Rightarrow>
                (case totp_secret (ie_data e) of
                   None \<Rightarrow> (s, E_totp None)
                 | Some secret \<Rightarrow> (s, E_await (T_totp_show r (computeTotp (ee_hmac env) secret TOTP_DEFAULTS now))))))"

definition totp_show_resume ::
  "epoch_ms \<Rightarrow> nat \<Rightarrow> totp_error + string \<Rightarrow> 'w ext_vault \<Rightarrow> 'w ext_vault \<times> ev_outcome" where
  "totp_show_resume now r code s =
     (case code of
        Inl _ \<Rightarrow> (s, E_totp None)
      | Inr c \<Rightarrow>
          if \<not> is_current s r then (s, E_totp None)
          else (s, E_totp (Some \<lparr>td_code = c, td_secondsRemaining = secondsRemaining 30 now\<rparr>)))"

definition ev_listItems :: "'w ext_vault \<Rightarrow> search_entry list" where
  "ev_listItems s =
     (case ev_state s of
        None \<Rightarrow> []
      | Some st \<Rightarrow>
          map (\<lambda>e. \<lparr>se_itemId = ie_itemId e, se_title = d_title (ie_data e), se_username = d_username (ie_data e),
                    se_url = d_url (ie_data e), se_type = d_type (ie_data e)\<rparr>) (map_values (us_items st)))"


section \<open>Saving\<close>

definition ext_validateItemData :: "item_data \<Rightarrow> string list" where
  "ext_validateItemData data =
     (let p1 = (if d_title data = [] \<or> length (trim (d_title data)) = 0 then [''Title is required.''] else []);
          p2 = (if d_title data \<noteq> [] \<and> length (d_title data) > 500 then p1 @ [''Title is too long.''] else p1);
          p3 = (if d_type data = ''login'' \<or> d_type data = ''totp-login''
                then if \<not> truthy (d_username data) \<and> \<not> truthy (d_password data)
                     then p2 @ [''A login needs a username or a password.''] else p2
                else p2);
          p4 = (if d_type data = ''totp-login'' \<and> \<not> truthy (d_totpSecret data)
                then p3 @ [''A TOTP login needs a secret.''] else p3)
      in case d_notes data of
           None \<Rightarrow> p4
         | Some n \<Rightarrow> if n \<noteq> [] \<and> length n > 100000 then p4 @ [''Notes are too long.''] else p4)"

definition ev_saveItem :: "'w ext_env \<Rightarrow> epoch_ms \<Rightarrow> ext_save_input \<Rightarrow> 'w ext_vault \<Rightarrow> 'w ext_vault \<times> ev_outcome" where
  "ev_saveItem env now inp s =
     (case ev_state s of
        None \<Rightarrow> (s, E_save Save_locked)
      | Some st \<Rightarrow>
          (let problems = ext_validateItemData (in_data inp)
           in if length problems > 0 then (s, E_save (Save_validation problems))
              else fresh_start env now (K_save inp) st s))"

definition save_base_revision :: "ext_save_input \<Rightarrow> unlocked_state \<Rightarrow> int" where
  "save_base_revision inp st =
     (if truthy (in_itemId inp)
      then (case map_of (us_items st) (case in_itemId inp of None \<Rightarrow> [] | Some i \<Rightarrow> i) of
              None \<Rightarrow> 0
            | Some e \<Rightarrow> ie_revision e)
      else 0)"

text \<open>\<open>u1\<close> and \<open>u2\<close> are the two results of \<open>crypto.randomUUID ()\<close>.\<close>

definition save_cont ::
  "'w ext_env \<Rightarrow> ext_save_input \<Rightarrow> id \<Rightarrow> id \<Rightarrow> nat \<Rightarrow> bool \<Rightarrow> 'w ext_vault \<Rightarrow> 'w ext_vault \<times> ev_outcome" where
  "save_cont env inp u1 u2 r fresh s =
     (case ev_state s of
        None \<Rightarrow> (s, E_save Save_network)
      | Some st \<Rightarrow>
          if \<not> fresh \<or> us_ref st \<noteq> r then (s, E_save Save_network)
          else
            (let item = (case in_itemId inp of None \<Rightarrow> u1 | Some i \<Rightarrow> i)
             in case nextId s of
                  (s1, i) \<Rightarrow>
                    (case host_call env r
                            (Seal_item_payload i
                              \<lparr>p_session = us_session st, p_accountId = us_accountId st, p_vaultId = us_vaultId st,
                               p_itemId = item, p_keyVersion = KEY_VERSION, p_payload = ee_encode env (in_data inp)\<rparr>) s1 of
                       (s2, Ok_response _ (Res_bytes envelope)) \<Rightarrow>
                         (s2, E_await (T_mutate r item (in_data inp)
                            \<lparr>mut_mutationId = u2, mut_itemId = item, mut_vaultId = us_vaultId st,
                             mut_baseRevision = save_base_revision inp st, mut_ciphertext = encodeB64 envelope,
                             mut_envelopeVersion = EXTENSION_ENVELOPE_VERSION, mut_deleted = False\<rparr>))
                     | (s2, _) \<Rightarrow> (s2, E_save Save_locked))))"

definition put_entry :: "item_entry \<Rightarrow> 'w ext_vault \<Rightarrow> 'w ext_vault" where
  "put_entry e s = s\<lparr>ev_state := map_option (\<lambda>st. st\<lparr>us_items := AList.update (ie_itemId e) e (us_items st)\<rparr>) (ev_state s)\<rparr>"

definition mutate_resume ::
  "'w ext_env \<Rightarrow> nat \<Rightarrow> id \<Rightarrow> item_data \<Rightarrow> Sync_Engine.mutate_outcome net_settlement \<Rightarrow> 'w ext_vault \<Rightarrow>
   'w ext_vault \<times> ev_outcome" where
  "mutate_resume env r i d answer s =
     (case withDeadline answer NETWORK_DEADLINE_MS of
        Inl e \<Rightarrow>
          (if is_current s r \<and> e = HttpError 401 then handleAuthFailure env s else s, E_save Save_network)
      | Inr outcome \<Rightarrow>
          if \<not> is_current s r then (s, E_save Save_locked)
          else (case outcome of
                  Mutate_conflict _ \<Rightarrow> (s, E_save Save_conflict)
                | Mutated item \<Rightarrow>
                    (put_entry \<lparr>ie_itemId = i, ie_revision = revision item, ie_data = d\<rparr> s, E_save (Save_ok i))))"


section \<open>Calls and continuations\<close>

datatype ev_call =
    Call_unlock id string bytes
  | Call_lock
  | Call_logout
  | Call_fresh
  | Call_fields id string
  | Call_totp id
  | Call_save ext_save_input

fun ev_start :: "'w ext_env \<Rightarrow> epoch_ms \<Rightarrow> ev_call \<Rightarrow> 'w ext_vault \<Rightarrow> 'w ext_vault \<times> ev_outcome" where
  "ev_start env now (Call_unlock a origin password) s = ev_unlock env a origin password s"
| "ev_start env now Call_lock s = (ev_lock env s, E_unit)"
| "ev_start env now Call_logout s = ev_logout env s"
| "ev_start env now Call_fresh s = checkFresh env now s"
| "ev_start env now (Call_fields i origin) s = fieldsFor env now i origin s"
| "ev_start env now (Call_totp i) s = getTotp env now i s"
| "ev_start env now (Call_save inp) s = ev_saveItem env now inp s"

text \<open>\<open>None\<close>: the answer is not one the task waits for.\<close>

definition ev_resume ::
  "'w ext_env \<Rightarrow> epoch_ms \<Rightarrow> id \<Rightarrow> id \<Rightarrow> ev_task \<Rightarrow> 'w ev_answer \<Rightarrow> 'w ext_vault \<Rightarrow> ('w ext_vault \<times> ev_outcome) option" where
  "ev_resume env now u1 u2 task answer s =
     (case task of
        U_opaque c \<Rightarrow> (case answer of A_opaque ok \<Rightarrow> Some (opaque_resume env c ok s) | _ \<Rightarrow> None)
      | U_login c \<Rightarrow> (case answer of A_session p \<Rightarrow> Some (login_resume env c p s) | _ \<Rightarrow> None)
      | U_register c x \<Rightarrow> (case answer of A_unit p \<Rightarrow> Some (register_resume env c x p s) | _ \<Rightarrow> None)
      | U_bundle c x \<Rightarrow> (case answer of A_bundle p \<Rightarrow> Some (bundle_resume env c x p s) | _ \<Rightarrow> None)
      | U_backend c x f \<Rightarrow> (case answer of A_backend w \<Rightarrow> Some (backend_resume env c x f w s) | _ \<Rightarrow> None)
      | U_page c cursor items \<Rightarrow>
          (case answer of A_page p \<Rightarrow> Some (page_resume env now c cursor items p s) | _ \<Rightarrow> None)
      | T_join k r \<Rightarrow> (case answer of A_settled ok \<Rightarrow> Some (join_resume k r ok s) | _ \<Rightarrow> None)
      | T_refresh k r a \<Rightarrow> (case answer of A_session p \<Rightarrow> Some (refresh_resume k r a p s) | _ \<Rightarrow> None)
      | T_attempt k r a ok \<Rightarrow> (case answer of A_ready \<Rightarrow> Some (attempt_resume env k r a ok s) | _ \<Rightarrow> None)
      | T_refreshed k r b \<Rightarrow> (case answer of A_ready \<Rightarrow> Some (refreshed_resume k r b s) | _ \<Rightarrow> None)
      | T_devices k r \<Rightarrow> (case answer of A_unit p \<Rightarrow> Some (devices_resume env now k r p s) | _ \<Rightarrow> None)
      | T_cont k r b \<Rightarrow>
          (case answer of
             A_ready \<Rightarrow>
               (case k of
                  K_check \<Rightarrow> None
                | K_fields i origin \<Rightarrow> Some (fields_cont env now i origin r b s)
                | K_totp i \<Rightarrow> Some (totp_cont env now i r b s)
                | K_save inp \<Rightarrow> Some (save_cont env inp u1 u2 r b s))
           | _ \<Rightarrow> None)
      | T_totp_fill r f code \<Rightarrow> (case answer of A_ready \<Rightarrow> Some (totp_fill_resume r f code s) | _ \<Rightarrow> None)
      | T_totp_show r code \<Rightarrow> (case answer of A_ready \<Rightarrow> Some (totp_show_resume now r code s) | _ \<Rightarrow> None)
      | T_mutate r i d m \<Rightarrow> (case answer of A_mutate p \<Rightarrow> Some (mutate_resume env r i d p s) | _ \<Rightarrow> None)
      | T_logout \<Rightarrow> (case answer of A_unit p \<Rightarrow> Some (logout_resume env p s) | _ \<Rightarrow> None))"

text \<open>Both clients accept the same items: the copy of the validation agrees with the one of the web client.\<close>

lemma if_snoc: "(if b then xs @ ys else xs) = xs @ (if b then ys else [])"
  by simp

lemma if_nested: "(if b then (if c then x else y) else y) = (if b \<and> c then x else y)"
  by simp

lemma ext_validation_agrees: "ext_validateItemData d = validateItemData d"
proof (cases "d_notes d")
  case None
  then show ?thesis
    unfolding ext_validateItemData_def validateItemData_def Let_def is_login_def if_nested unfolding if_snoc
    by (simp only: length_0_conv append_assoc option.case truthy_def simp_thms if_False append_Nil2 not_True_eq_False)
next
  case (Some n)
  then show ?thesis
    unfolding ext_validateItemData_def validateItemData_def Let_def is_login_def if_nested unfolding if_snoc
    by (simp only: length_0_conv append_assoc option.case truthy_def simp_thms option.inject option.distinct)
qed
end
