(* ===== verification/Extension_Vault_Safety.thy ===== *)
theory Extension_Vault_Safety
  imports Extension_Vault
begin

text \<open>
  Runs of the extension's vault manager: calls arrive and promises settle in any order, at a clock
  that does not go back.  The effect of every handler on the sessions other than its own, and the
  invariants that tie what a pending call may release to a session and to a fresh check.
\<close>


section \<open>Runs\<close>

text \<open>
  A call under way: when it was made, the session it found, and what it waits for.  \<open>sy_past\<close> keeps the
  earlier states of the manager, for the statements only.
\<close>

record pending =
  pd_call :: ev_call
  pd_time :: epoch_ms
  pd_ref :: "nat option"
  pd_task :: ev_task

record 'w ev_sys =
  sy_vault :: "'w ext_vault"
  sy_clock :: epoch_ms
  sy_pool :: "pending list"
  sy_past :: "'w ext_vault list"

definition current_ref :: "'w ext_vault \<Rightarrow> nat option" where
  "current_ref s = map_option us_ref (ev_state s)"

definition awaited :: "pending \<Rightarrow> ev_outcome \<Rightarrow> pending list" where
  "awaited p o' = (case o' of E_await t \<Rightarrow> [p\<lparr>pd_task := t\<rparr>] | _ \<Rightarrow> [])"

inductive ev_trans :: "'w ext_env \<Rightarrow> 'w ev_sys \<Rightarrow> pending \<Rightarrow> epoch_ms \<Rightarrow> ev_outcome \<Rightarrow> 'w ev_sys \<Rightarrow> bool"
  for env where
  call:
    "sy_clock y \<le> now \<Longrightarrow> ev_start env now c (sy_vault y) = (s, out) \<Longrightarrow>
     p = \<lparr>pd_call = c, pd_time = now, pd_ref = current_ref (sy_vault y), pd_task = T_logout\<rparr> \<Longrightarrow>
     ev_trans env y p now out \<lparr>sy_vault = s, sy_clock = now, sy_pool = sy_pool y @ awaited p out, sy_past = sy_vault y # sy_past y\<rparr>"
| settle:
    "sy_clock y \<le> now \<Longrightarrow> sy_pool y = xs @ p # ys \<Longrightarrow>
     ev_resume env now u1 u2 (pd_task p) answer (sy_vault y) = Some (s, out) \<Longrightarrow>
     ev_trans env y p now out \<lparr>sy_vault = s, sy_clock = now, sy_pool = xs @ awaited p out @ ys, sy_past = sy_vault y # sy_past y\<rparr>"

inductive ev_steps :: "'w ext_env \<Rightarrow> 'w ev_sys \<Rightarrow> 'w ev_sys \<Rightarrow> bool" for env where
  ev_refl: "ev_steps env y y"
| ev_step: "ev_steps env y y1 \<Longrightarrow> ev_trans env y1 p now out y2 \<Longrightarrow> ev_steps env y y2"

definition ev_sys_new :: "'w ev_sys" where
  "ev_sys_new = \<lparr>sy_vault = ext_vault_new, sy_clock = 0, sy_pool = [], sy_past = []\<rparr>"

definition ev_reachable :: "'w ext_env \<Rightarrow> 'w ev_sys \<Rightarrow> bool" where
  "ev_reachable env y \<longleftrightarrow> ev_steps env ev_sys_new y"


section \<open>Effects\<close>

fun unlock_ref :: "ev_task \<Rightarrow> nat option" where
  "unlock_ref (U_opaque c) = Some (uc_ref c)"
| "unlock_ref (U_login c) = Some (uc_ref c)"
| "unlock_ref (U_register c _) = Some (uc_ref c)"
| "unlock_ref (U_bundle c _) = Some (uc_ref c)"
| "unlock_ref (U_backend c _ _) = Some (uc_ref c)"
| "unlock_ref (U_page c _ _) = Some (uc_ref (lx_unlock c))"
| "unlock_ref _ = None"

text \<open>The objects of a session are torn down: no worker session, no token.\<close>

definition cleared :: "nat \<Rightarrow> 'w ext_vault \<Rightarrow> bool" where
  "cleared r s \<longleftrightarrow>
     (\<forall>h. host_of s r = Some h \<longrightarrow> h_sessions h = []) \<and> (\<forall>a. map_of (ev_apis s) r = Some a \<longrightarrow> xa_token a = None)"

definition untouched :: "nat \<Rightarrow> 'w ext_vault \<Rightarrow> 'w ext_vault \<Rightarrow> bool" where
  "untouched r s s' \<longleftrightarrow> host_of s' r = host_of s r \<and> map_of (ev_apis s') r = map_of (ev_apis s) r"

text \<open>
  What a step may do, \<open>u\<close> being the unlock it belongs to: no session but that one becomes current,
  only the objects of that one, of the current session and new ones change, and where the manager
  is left without a session the one it had is torn down.
\<close>

definition ev_effect :: "nat option \<Rightarrow> 'w ext_vault \<Rightarrow> 'w ext_vault \<Rightarrow> bool" where
  "ev_effect u s s' \<longleftrightarrow>
     ev_nextRef s \<le> ev_nextRef s' \<and> set (ev_checks s) \<subseteq> set (ev_checks s') \<and>
     (\<forall>r. is_current s' r \<longrightarrow> is_current s r \<or> u = Some r) \<and>
     (\<forall>r. r < ev_nextRef s \<longrightarrow> \<not> is_current s r \<longrightarrow> u \<noteq> Some r \<longrightarrow> untouched r s s') \<and>
     (\<forall>r. is_current s r \<longrightarrow> ev_state s' = None \<longrightarrow> cleared r s')"

lemma is_current_iff: "is_current s r \<longleftrightarrow> current_ref s = Some r"
  by (simp add: is_current_def current_ref_def split: option.splits)

lemma current_None: "ev_state s = None \<Longrightarrow> \<not> is_current s r"
  by (simp add: is_current_def)

lemma is_current_cong: "ev_state s' = ev_state s \<Longrightarrow> is_current s' r = is_current s r"
  by (simp add: is_current_def)

lemma untouched_refl [simp]: "untouched r s s"
  by (simp add: untouched_def)

lemma effect_refl [simp]: "ev_effect u s s"
  by (auto simp: ev_effect_def is_current_def)

lemma effect_trans:
  assumes "ev_effect u s s1" "ev_state s1 = ev_state s" "ev_effect u s1 s2"
  shows "ev_effect u s s2"
  using assms is_current_cong [OF assms(2)]
  by (auto simp: ev_effect_def untouched_def intro: order_trans)

text \<open>Changes to fields that no session's objects live in.\<close>

lemma effect_same:
  assumes "current_ref s' = current_ref s \<or> (u \<noteq> None \<and> current_ref s' = u)" "ev_hosts s' = ev_hosts s" "ev_apis s' = ev_apis s"
    "ev_nextRef s \<le> ev_nextRef s'" "set (ev_checks s) \<subseteq> set (ev_checks s')"
  shows "ev_effect u s s'"
  using assms
  by (cases "ev_state s"; cases "ev_state s'")
     (auto simp: ev_effect_def is_current_iff untouched_def host_of_def current_ref_def)

lemma set_token_simps [simp]:
  "ev_state (set_token r t s) = ev_state s" "ev_nextRef (set_token r t s) = ev_nextRef s"
  "ev_checks (set_token r t s) = ev_checks s" "ev_hosts (set_token r t s) = ev_hosts s"
  "ev_lastFresh (set_token r t s) = ev_lastFresh s" "host_of (set_token r t s) q = host_of s q"
  "map_of (ev_apis (set_token r t s)) q =
     (if q = r then map_option (\<lambda>a. a\<lparr>xa_token := t\<rparr>) (map_of (ev_apis s) r) else map_of (ev_apis s) q)"
  by (auto simp: set_token_def host_of_def split: option.split)

lemma set_host_simps [simp]:
  "ev_state (set_host r h s) = ev_state s" "ev_nextRef (set_host r h s) = ev_nextRef s"
  "ev_checks (set_host r h s) = ev_checks s" "ev_apis (set_host r h s) = ev_apis s"
  "ev_lastFresh (set_host r h s) = ev_lastFresh s"
  "host_of (set_host r h s) q = (if q = r then Some h else host_of s q)"
  by (simp_all add: set_host_def host_of_def)

lemma dispose_host_simps [simp]:
  "ev_state (dispose_host env r s) = ev_state s" "ev_nextRef (dispose_host env r s) = ev_nextRef s"
  "ev_checks (dispose_host env r s) = ev_checks s" "ev_apis (dispose_host env r s) = ev_apis s"
  "host_of (dispose_host env r s) q =
     (if q = r then map_option (dispose (ee_backend env)) (host_of s r) else host_of s q)"
  by (auto simp: dispose_host_def split: option.split)

lemma dispose_simps [simp]:
  "ev_state (ev_dispose env s) = None" "ev_nextRef (ev_dispose env s) = ev_nextRef s"
  "ev_checks (ev_dispose env s) = ev_checks s"
  by (simp_all add: ev_dispose_def Let_def split: option.split)

lemma dispose_untouched: "\<not> is_current s r \<Longrightarrow> untouched r s (ev_dispose env s)"
  by (auto simp: ev_dispose_def Let_def is_current_def untouched_def host_of_def [symmetric] split: option.splits)
     (simp_all add: host_of_def)

lemma dispose_clears: "is_current s r \<Longrightarrow> cleared r (ev_dispose env s)"
  by (auto simp: ev_dispose_def Let_def is_current_def cleared_def dispose_def split: option.splits)

lemma effect_dispose [simp]: "ev_effect u s (ev_dispose env s)"
  by (auto simp: ev_effect_def current_None dispose_untouched dispose_clears)

lemma auth_failure_simps [simp]:
  "ev_state (handleAuthFailure env s) = None" "ev_nextRef (handleAuthFailure env s) = ev_nextRef s"
  "ev_checks (handleAuthFailure env s) = ev_checks s"
  by (simp_all add: handleAuthFailure_def Let_def)

lemma effect_auth_failure [simp]: "ev_effect u s (handleAuthFailure env s)"
  using effect_dispose [of u s env]
  by (simp add: handleAuthFailure_def Let_def ev_effect_def is_current_def untouched_def cleared_def host_of_def)

lemma effect_set_host: "u = Some r \<or> is_current s r \<Longrightarrow> ev_effect u s (set_host r h s)"
  by (auto simp: ev_effect_def is_current_def untouched_def)

lemma effect_set_token: "u = Some r \<or> is_current s r \<Longrightarrow> ev_effect u s (set_token r t s)"
  by (auto simp: ev_effect_def is_current_def untouched_def)

lemma nextId_simps [simp]:
  "ev_state (fst (nextId s)) = ev_state s" "ev_nextRef (fst (nextId s)) = ev_nextRef s"
  "ev_checks (fst (nextId s)) = ev_checks s" "ev_lastFresh (fst (nextId s)) = ev_lastFresh s"
  "ev_hosts (fst (nextId s)) = ev_hosts s" "ev_apis (fst (nextId s)) = ev_apis s"
  by (simp_all add: nextId_def)

lemma effect_nextId [simp]: "ev_effect u s (fst (nextId s))"
  by (rule effect_same) (simp_all add: current_ref_def)

lemma host_call_simps [simp]:
  "ev_state (fst (host_call env r req s)) = ev_state s" "ev_nextRef (fst (host_call env r req s)) = ev_nextRef s"
  "ev_checks (fst (host_call env r req s)) = ev_checks s" "ev_lastFresh (fst (host_call env r req s)) = ev_lastFresh s"
  by (simp_all add: host_call_def split: option.split prod.split)

lemma effect_host_call: "u = Some r \<or> is_current s r \<Longrightarrow> ev_effect u s (fst (host_call env r req s))"
  by (auto simp: host_call_def effect_set_host split: option.split prod.split)


section \<open>Effects of the handlers\<close>

lemma effect_unlock_catch [simp]: "ev_effect u s (fst (unlock_catch env c s))"
  by (simp add: unlock_catch_def unlock_returns_def)

text \<open>A session torn down stays so when its objects are replaced by new ones.\<close>

lemma effect_alloc:
  assumes "ev_effect u s s1" "ev_state s1 = None" "ev_nextRef s1 = ev_nextRef s" "xa_token api = None"
  shows "ev_effect u s (s1\<lparr>ev_nextRef := ev_nextRef s1 + 1, ev_apis := AList.update (ev_nextRef s1) api (ev_apis s1)\<rparr>)"
  using assms by (auto simp: ev_effect_def is_current_def untouched_def cleared_def host_of_def)

lemma effect_unlock: "ev_effect None s (fst (ev_unlock env a origin pw s))"
  using effect_alloc [OF effect_dispose, of env s]
  by (auto simp: ev_unlock_def Let_def unlock_returns_def split: option.split)

text \<open>Steps that leave the current session and the record of checks as they are.\<close>

definition silent :: "nat option \<Rightarrow> 'w ext_vault \<Rightarrow> 'w ext_vault \<Rightarrow> bool" where
  "silent u s s' \<longleftrightarrow> ev_effect u s s' \<and> ev_state s' = ev_state s \<and> ev_lastFresh s' = ev_lastFresh s \<and>
     ev_nextRef s' = ev_nextRef s \<and> ev_checks s' = ev_checks s"

lemma silent_refl [simp]: "silent u s s"
  by (simp add: silent_def)

lemma silent_trans [trans]: "silent u s s1 \<Longrightarrow> silent u s1 s2 \<Longrightarrow> silent u s s2"
  by (auto simp: silent_def intro: effect_trans)

lemma silent_effect: "silent u s s1 \<Longrightarrow> ev_effect u s1 s2 \<Longrightarrow> ev_effect u s s2"
  by (auto simp: silent_def intro: effect_trans)

lemma silent_nextId: "nextId s = (s1, i) \<Longrightarrow> silent u s s1"
  using nextId_simps [of s] effect_nextId [of u s] by (simp add: silent_def)

lemma silent_host_call:
  "host_call env r req s = (s1, res) \<Longrightarrow> u = Some r \<or> is_current s r \<Longrightarrow> silent u s s1"
  using host_call_simps [of env r req s] effect_host_call [of u r s env req] by (simp add: silent_def)

lemma silent_load_page: "silent (Some (uc_ref (lx_unlock c))) s (fst (load_page env c rs items s))"
proof (induction rs arbitrary: items s)
  case Nil
  show ?case by simp
next
  case (Cons r rs)
  let ?u = "Some (uc_ref (lx_unlock c))"
  obtain s1 i where id: "nextId s = (s1, i)" by (cases "nextId s")
  note s1 = silent_nextId [OF id, of ?u]
  show ?case
  proof (cases "deleted r")
    case True
    then show ?thesis using Cons.IH by simp
  next
    case alive: False
    show ?thesis
    proof (cases "decodeB64 (ciphertext r)")
      case (Inl e)
      then show ?thesis using alive id s1 by simp
    next
      case (Inr envelope)
      let ?req = "Open_item_payload i \<lparr>p_session = lx_session c, p_accountId = lx_accountId c, p_vaultId = lx_vaultId c,
        p_itemId = itemId r, p_keyVersion = KEY_VERSION, p_payload = envelope\<rparr>"
      obtain s2 res where call: "host_call env (uc_ref (lx_unlock c)) ?req s1 = (s2, res)"
        by (cases "host_call env (uc_ref (lx_unlock c)) ?req s1")
      have s2: "silent ?u s s2" using s1 silent_host_call [OF call, of ?u] by (auto intro: silent_trans)
      have "\<exists>items'. load_page env c (r # rs) items s = load_page env c rs items' s2"
        using alive Inr id call by (auto split: crypto_response.split response_body.split option.split)
      then show ?thesis using Cons.IH [of s2] silent_trans [OF s2] by auto
    qed
  qed
qed

lemma effect_login: "ev_effect (Some (uc_ref c)) s (fst (login_resume env c p s))"
  by (auto simp: login_resume_def effect_set_token split: sum.split)

lemma effect_bundle: "ev_effect u s (fst (bundle_resume env c x p s))"
  by (auto simp: bundle_resume_def unlock_returns_def
      split: sum.split key_bundle_outcome.split jsval.split option.split)

lemma effect_unlock_finish: "ev_effect (Some (uc_ref (lx_unlock c))) s (fst (unlock_finish now c items s))"
  unfolding unlock_finish_def unlock_returns_def fst_conv by (rule effect_same) (auto simp: current_ref_def)

lemma effect_page: "ev_effect (Some (uc_ref (lx_unlock c))) s (fst (page_resume env now c cursor items p s))"
proof (cases "withDeadline p NETWORK_DEADLINE_MS")
  case (Inl e)
  then show ?thesis by (simp add: page_resume_def effect_unlock_finish)
next
  case (Inr page)
  obtain s1 r where load: "load_page env c (changes page) items s = (s1, r)"
    by (cases "load_page env c (changes page) items s")
  then have "silent (Some (uc_ref (lx_unlock c))) s s1" using silent_load_page [of c s env "changes page" items] by simp
  note through = silent_effect [OF this]
  show ?thesis
    using Inr load through [OF effect_refl] through [OF effect_unlock_catch] through [OF effect_unlock_finish]
    by (cases r) (simp_all add: page_resume_def)
qed

lemma effect_backend: "ev_effect (Some (uc_ref c)) s (fst (backend_resume env c x f w s))"
proof (cases w)
  case None
  then show ?thesis by (simp add: backend_resume_def)
next
  case (Some w')
  obtain s1 i where id: "nextId s = (s1, i)" by (cases "nextId s")
  have host: "silent (Some (uc_ref c)) s (set_host (uc_ref c) h s1)" for h
    using silent_nextId [OF id, of "Some (uc_ref c)"]
    by (rule silent_trans) (simp add: silent_def effect_set_host)
  show ?thesis
  proof (cases "unlock_message env c f i")
    case None
    then show ?thesis
      using Some id silent_effect [OF host effect_unlock_catch] by (simp add: backend_resume_def)
  next
    case (Some req)
    obtain h res left where "handle (ee_backend env) (request_msg req) (host_new w') = (h, res, left)"
      by (cases "handle (ee_backend env) (request_msg req) (host_new w')")
    then show ?thesis
      using \<open>w = Some w'\<close> Some id host
      by (cases res; cases "case res of Ok_response _ b \<Rightarrow> b")
         (simp_all add: backend_resume_def unlock_returns_def silent_def)
  qed
qed

lemma effect_attempt: "ev_effect None s (fst (attempt_resume env k r a ok s))"
proof -
  have "ev_effect None s s1 \<Longrightarrow> ev_effect None s (s1\<lparr>ev_refresh := None\<rparr>)" for s1
    by (simp add: ev_effect_def is_current_def untouched_def cleared_def host_of_def)
  then show ?thesis by (simp add: attempt_resume_def Let_def)
qed

lemma effect_refresh: "ev_effect None s (fst (refresh_resume k r a p s))"
proof -
  have "ev_effect None s (rotate_token r x s)" if "is_current s r" for x
  proof (rule effect_trans [OF effect_set_token [of None r s "Some (ses_accessToken x)"]])
    show "ev_effect None (set_token r (Some (ses_accessToken x)) s) (rotate_token r x s)"
      unfolding rotate_token_def Let_def
      by (rule effect_same) (auto simp: current_ref_def option.map_comp comp_def)
  qed (use that in simp_all)
  then show ?thesis by (auto simp: refresh_resume_def split: sum.split)
qed

lemma effect_devices: "ev_effect None s (fst (devices_resume env now k r p s))"
proof -
  have "ev_effect None s (s\<lparr>ev_lastFresh := now, ev_checks := (r, now) # ev_checks s\<rparr>)"
    by (rule effect_same) (auto simp: current_ref_def)
  then show ?thesis by (auto simp: devices_resume_def split: sum.split)
qed

lemma effect_fields: "fst (fields_cont env now i origin r b s) = s" "fst (totp_cont env now i r b s) = s"
  "fst (totp_fill_resume r f code s) = s" "fst (totp_show_resume now r code s) = s"
  "fst (join_resume k r ok s) = s" "fst (refreshed_resume k r b s) = s"
  by (auto simp: fields_cont_def totp_cont_def totp_fill_resume_def totp_show_resume_def join_resume_def
      refreshed_resume_def Let_def split: option.split sum.split)

lemma silent_save: "silent None s (fst (save_cont env inp u1 u2 r b s))"
proof (cases "ev_state s")
  case None
  then show ?thesis by (simp add: save_cont_def)
next
  case (Some st)
  obtain s1 i where id: "nextId s = (s1, i)" by (cases "nextId s")
  note s1 = silent_nextId [OF id, of None]
  have "silent None s (fst (host_call env r req s1))" if "us_ref st = r" for req
  proof -
    have "is_current s1 r" using s1 Some that by (simp add: silent_def is_current_def)
    then show ?thesis
      using silent_host_call [of env r req s1 _ _ None] silent_trans [OF s1] by (cases "host_call env r req s1") auto
  qed
  then show ?thesis
    using Some id
    by (auto simp: save_cont_def Let_def split: prod.split crypto_response.split response_body.split) (metis fst_conv)+
qed

lemma effect_mutate: "ev_effect None s (fst (mutate_resume env r i d p s))"
proof -
  have "ev_effect None s (put_entry e s)" for e
    unfolding put_entry_def by (rule effect_same) (auto simp: current_ref_def option.map_comp comp_def)
  then show ?thesis by (auto simp: mutate_resume_def split: sum.split Sync_Engine.mutate_outcome.split)
qed

lemma effect_resume:
  assumes "ev_resume env now u1 u2 t answer s = Some (s', out)"
  shows "ev_effect (unlock_ref t) s s'"
proof -
  have simple: "ev_effect u s (fst (opaque_resume env c ok s))" "ev_effect u s (fst (register_resume env c x p s))"
    "ev_effect u s (fst (logout_resume env p s))" for u c ok x p
    by (simp_all add: opaque_resume_def register_resume_def logout_resume_def split: sum.split)
  note effects = simple effect_login effect_bundle effect_backend effect_page effect_attempt effect_refresh effect_devices
    effect_mutate silent_save [unfolded silent_def, THEN conjunct1]
  show ?thesis
    using assms
    by (cases t; cases answer; (simp add: ev_resume_def)?)
       (auto dest!: arg_cong [where f = fst] simp: effects effect_fields split: ev_cont.splits)
qed

lemma effect_start:
  assumes "ev_start env now c s = (s', out)"
  shows "ev_effect None s s'"
proof -
  have "ev_effect None s (fst (fresh_start env now k st s))" for k st
  proof -
    have "ev_effect None s (s\<lparr>ev_nextRef := Suc (ev_nextRef s), ev_refresh := x\<rparr>)" for x
      by (rule effect_same) (auto simp: current_ref_def)
    then show ?thesis by (auto simp: fresh_start_def maybeRefresh_def split: option.split)
  qed
  then have "ev_effect None s (fst (ev_start env now c s))"
    by (cases c)
       (auto simp: effect_unlock ev_lock_def ev_logout_def checkFresh_def fieldsFor_def getTotp_def ev_saveItem_def Let_def
          split: option.split)
  then show ?thesis by (simp add: assms)
qed


section \<open>Checks\<close>

text \<open>The time of the last check is that of a recorded check of the current session.\<close>

definition anchored :: "'w ext_vault \<Rightarrow> bool" where
  "anchored s \<longleftrightarrow> (\<forall>st. ev_state s = Some st \<longrightarrow> (us_ref st, ev_lastFresh s) \<in> set (ev_checks s))"

definition checked_at :: "epoch_ms \<Rightarrow> 'w ext_vault \<Rightarrow> 'w ext_vault \<Rightarrow> bool" where
  "checked_at now s s' \<longleftrightarrow>
     (anchored s \<longrightarrow> anchored s') \<and> (\<forall>x \<in> set (ev_checks s'). x \<in> set (ev_checks s) \<or> snd x = now)"

lemma checked_refl [simp]: "checked_at now s s"
  by (simp add: checked_at_def)

lemma checked_locked: "ev_state s' = None \<Longrightarrow> ev_checks s' = ev_checks s \<Longrightarrow> checked_at now s s'"
  by (simp add: checked_at_def anchored_def)

lemma checked_same:
  "map_option us_ref (ev_state s') = map_option us_ref (ev_state s) \<Longrightarrow> ev_lastFresh s' = ev_lastFresh s \<Longrightarrow>
   ev_checks s' = ev_checks s \<Longrightarrow> checked_at now s s'"
  by (cases "ev_state s"; cases "ev_state s'") (auto simp: checked_at_def anchored_def)

lemma checked_silent: "silent u s s' \<Longrightarrow> checked_at now s s'"
  by (rule checked_same) (simp_all add: silent_def)

lemma checked_trans: "checked_at now s s1 \<Longrightarrow> checked_at now s1 s2 \<Longrightarrow> checked_at now s s2"
  by (auto simp: checked_at_def)

lemma checked_dispose [simp]: "checked_at now s (ev_dispose env s)" "checked_at now s (handleAuthFailure env s)"
  "checked_at now s (fst (unlock_catch env c s))"
  by (simp_all add: checked_locked unlock_catch_def unlock_returns_def)

lemma checked_finish: "checked_at now s (fst (unlock_finish now c items s))"
  by (auto simp: checked_at_def anchored_def unlock_finish_def unlock_returns_def)

lemma checked_page: "checked_at now s (fst (page_resume env now c cursor items p s))"
proof (cases "withDeadline p NETWORK_DEADLINE_MS")
  case (Inl e)
  then show ?thesis by (simp add: page_resume_def checked_finish)
next
  case (Inr page)
  obtain s1 r where load: "load_page env c (changes page) items s = (s1, r)"
    by (cases "load_page env c (changes page) items s")
  then have "silent (Some (uc_ref (lx_unlock c))) s s1" using silent_load_page [of c s env "changes page" items] by simp
  note through = checked_trans [OF checked_silent [OF this, of now]]
  show ?thesis
    using Inr load through [OF checked_refl] through [OF checked_dispose(3)] through [OF checked_finish]
    by (cases r) (simp_all add: page_resume_def)
qed

lemma checked_backend: "checked_at now s (fst (backend_resume env c x f w s))"
proof (cases w)
  case None
  then show ?thesis by (simp add: backend_resume_def)
next
  case (Some w')
  obtain s1 i where id: "nextId s = (s1, i)" by (cases "nextId s")
  have host: "checked_at now s (set_host (uc_ref c) h s1)" for h
    using silent_nextId [OF id, of None] by (intro checked_same) (simp_all add: silent_def)
  then show ?thesis
    using Some id checked_trans [OF host checked_dispose(3)]
    by (auto simp: backend_resume_def unlock_returns_def split: option.split prod.split crypto_response.split response_body.split)
qed

lemma checked_refresh: "checked_at now s (fst (refresh_resume k r a p s))"
proof -
  have "checked_at now s (rotate_token r x s)" for x
    by (rule checked_same) (auto simp: rotate_token_def Let_def option.map_comp comp_def)
  then show ?thesis by (auto simp: refresh_resume_def split: sum.split)
qed

lemma checked_attempt: "checked_at now s (fst (attempt_resume env k r a ok s))"
proof -
  have "checked_at now s s1 \<Longrightarrow> checked_at now s (s1\<lparr>ev_refresh := None\<rparr>)" for s1
    by (simp add: checked_at_def anchored_def)
  then show ?thesis by (simp add: attempt_resume_def Let_def)
qed

lemma checked_devices: "checked_at now s (fst (devices_resume env now k r p s))"
proof -
  have "checked_at now s (s\<lparr>ev_lastFresh := now, ev_checks := (r, now) # ev_checks s\<rparr>)" if "is_current s r"
    using that by (auto simp: checked_at_def anchored_def is_current_def split: option.splits)
  then show ?thesis by (auto simp: devices_resume_def split: sum.split)
qed

lemma checked_mutate: "checked_at now s (fst (mutate_resume env r i d p s))"
proof -
  have "checked_at now s (put_entry e s)" for e
    by (rule checked_same) (auto simp: put_entry_def option.map_comp comp_def)
  then show ?thesis by (auto simp: mutate_resume_def split: sum.split Sync_Engine.mutate_outcome.split)
qed

lemma checked_login: "checked_at now s (fst (login_resume env c p s))"
  by (auto simp: login_resume_def checked_same split: sum.split)

lemma checked_bundle: "checked_at now s (fst (bundle_resume env c x p s))"
  by (auto simp: bundle_resume_def unlock_returns_def split: sum.split key_bundle_outcome.split jsval.split option.split)

lemma checked_resume:
  assumes "ev_resume env now u1 u2 t answer s = Some (s', out)"
  shows "checked_at now s s'"
proof -
  have simple: "checked_at now s (fst (opaque_resume env c ok s))" "checked_at now s (fst (register_resume env c x p s))"
    "checked_at now s (fst (logout_resume env p s))" for c ok x p
    by (simp_all add: opaque_resume_def register_resume_def logout_resume_def split: sum.split)
  note checked = simple checked_login checked_bundle checked_backend checked_page checked_attempt checked_refresh
    checked_devices checked_mutate silent_save [THEN checked_silent]
  show ?thesis
    using assms
    by (cases t; cases answer; (simp add: ev_resume_def)?)
       (auto dest!: arg_cong [where f = fst] simp: checked effect_fields split: ev_cont.splits)
qed

lemma checked_start:
  assumes "ev_start env now c s = (s', out)"
  shows "checked_at now s s'"
proof -
  have fresh: "checked_at now s (fst (fresh_start env now k st s))" for k st
    by (auto simp: fresh_start_def maybeRefresh_def checked_same split: option.split)
  have unlock: "checked_at now s (fst (ev_unlock env a origin pw s))" for a origin pw
    by (rule checked_locked) (auto simp: ev_unlock_def Let_def unlock_returns_def split: option.split)
  have "checked_at now s (fst (ev_start env now c s))"
    by (cases c)
       (auto simp: unlock fresh ev_lock_def ev_logout_def checkFresh_def fieldsFor_def getTotp_def ev_saveItem_def Let_def
          split: option.split)
  then show ?thesis by (simp add: assms)
qed


section \<open>Pending calls\<close>

fun call_cont :: "ev_call \<Rightarrow> ev_cont option" where
  "call_cont Call_fresh = Some K_check"
| "call_cont (Call_fields i origin) = Some (K_fields i origin)"
| "call_cont (Call_totp i) = Some (K_totp i)"
| "call_cont (Call_save inp) = Some (K_save inp)"
| "call_cont _ = None"

text \<open>A check of the session within the interval before the call, or later.\<close>

definition fresh_since :: "'w ext_vault \<Rightarrow> nat \<Rightarrow> epoch_ms \<Rightarrow> bool" where
  "fresh_since s r t0 \<longleftrightarrow> (\<exists>t. (r, t) \<in> set (ev_checks s) \<and> t0 - FRESH_CHECK_INTERVAL_MS \<le> t)"

text \<open>
  The fields are those of the item that was asked for, as session \<open>r\<close> held it in one of the states \<open>H\<close>, and
  its address matches the page.
\<close>

definition filled_from :: "'w ext_env \<Rightarrow> 'w ext_vault set \<Rightarrow> nat \<Rightarrow> ev_call \<Rightarrow> fill_fields \<Rightarrow> bool" where
  "filled_from env H r c f \<longleftrightarrow>
     (\<exists>v i origin e. v \<in> H \<and> is_current v r \<and> c = Call_fields i origin \<and> entry_of v i = Some e \<and>
        url_matches env (ie_data e) origin \<and> f\<lparr>ff_totp := None\<rparr> = fill_of (ie_data e))"

text \<open>
  What a task of a call rests on: it belongs to the session the call found, and where it is about to
  release something, a check of that session backs it.
\<close>

definition task_backed :: "'w ext_env \<Rightarrow> 'w ext_vault set \<Rightarrow> 'w ext_vault \<Rightarrow> pending \<Rightarrow> ev_task \<Rightarrow> bool" where
  "task_backed env H s p task \<longleftrightarrow>
     (case task of
        T_join k r \<Rightarrow> pd_ref p = Some r \<and> call_cont (pd_call p) = Some k
      | T_refresh k r _ \<Rightarrow> pd_ref p = Some r \<and> call_cont (pd_call p) = Some k
      | T_attempt k r _ _ \<Rightarrow> pd_ref p = Some r \<and> call_cont (pd_call p) = Some k
      | T_refreshed k r _ \<Rightarrow> pd_ref p = Some r \<and> call_cont (pd_call p) = Some k
      | T_devices k r \<Rightarrow> pd_ref p = Some r \<and> call_cont (pd_call p) = Some k
      | T_cont k r b \<Rightarrow> pd_ref p = Some r \<and> call_cont (pd_call p) = Some k \<and> (b \<longrightarrow> fresh_since s r (pd_time p))
      | T_totp_fill r f _ \<Rightarrow> pd_ref p = Some r \<and> fresh_since s r (pd_time p) \<and> filled_from env H r (pd_call p) f
      | T_totp_show r _ \<Rightarrow> pd_ref p = Some r \<and> fresh_since s r (pd_time p)
      | T_mutate r _ _ _ \<Rightarrow> pd_ref p = Some r \<and> fresh_since s r (pd_time p)
      | _ \<Rightarrow> True)"

definition outcome_ok :: "'w ext_env \<Rightarrow> 'w ext_vault set \<Rightarrow> 'w ext_vault \<Rightarrow> pending \<Rightarrow> ev_outcome \<Rightarrow> bool" where
  "outcome_ok env H s p out \<longleftrightarrow> (case out of E_await t \<Rightarrow> task_backed env H s p t | _ \<Rightarrow> True)"

lemma outcome_ok_simps [simp]:
  "outcome_ok env H s p (E_unlock ok pw)" "outcome_ok env H s p (E_bool b)" "outcome_ok env H s p (E_fields f)"
  "outcome_ok env H s p (E_totp c)" "outcome_ok env H s p (E_save r)" "outcome_ok env H s p E_unit"
  "outcome_ok env H s p (E_await t) = task_backed env H s p t"
  by (simp_all add: outcome_ok_def)

lemma fresh_mono: "ev_effect u s s' \<Longrightarrow> fresh_since s r t0 \<Longrightarrow> fresh_since s' r t0"
  by (auto simp: fresh_since_def ev_effect_def)

lemma task_backed_mono: "ev_effect u s s' \<Longrightarrow> task_backed env H s p t \<Longrightarrow> task_backed env (insert v H) s' p t"
  using fresh_mono [of u s s'] by (cases t) (fastforce simp: task_backed_def filled_from_def)+

lemma task_backed_past: "task_backed env H s p t \<Longrightarrow> task_backed env (insert v H) s p t"
  using task_backed_mono [OF effect_refl] .

lemma outcome_fresh_returns:
  "pd_ref p = Some r \<Longrightarrow> call_cont (pd_call p) = Some k \<Longrightarrow> (b \<Longrightarrow> fresh_since s r (pd_time p)) \<Longrightarrow>
   outcome_ok env H s p (fresh_returns k r b)"
  by (auto simp: fresh_returns_def task_backed_def split: ev_cont.split)

lemma start_outcome:
  assumes "ev_start env now c s = (s', out)" "anchored s"
    "pd_call p = c" "pd_time p = now" "pd_ref p = current_ref s"
  shows "outcome_ok env H s' p out"
proof -
  have fresh: "outcome_ok env H s' p out"
    if "call_cont c = Some k" "ev_state s = Some st" "fresh_start env now k st s = (s', out)" for k st
  proof (cases "now - ev_lastFresh s \<le> FRESH_CHECK_INTERVAL_MS")
    case True
    then have "fresh_since s (us_ref st) now"
      using assms(2) that(2) by (auto simp: fresh_since_def anchored_def intro!: exI [of _ "ev_lastFresh s"])
    with True that show ?thesis
      using assms by (auto simp: fresh_start_def outcome_fresh_returns current_ref_def)
  next
    case False
    with that show ?thesis
      using assms by (auto simp: fresh_start_def maybeRefresh_def task_backed_def current_ref_def split: option.splits if_splits)
  qed
  show ?thesis
  proof (cases "call_cont c")
    case None
    then show ?thesis
      using assms
      by (cases c)
         (auto simp: ev_logout_def ev_unlock_def Let_def unlock_returns_def task_backed_def split: if_splits option.splits)
  next
    case (Some k)
    then show ?thesis
      using assms fresh [OF Some]
      by (cases c; cases "ev_state s")
         (auto simp: checkFresh_def fieldsFor_def getTotp_def ev_saveItem_def Let_def split: if_splits)
  qed
qed

text \<open>The outcome of a handler, judged in the state it leaves.\<close>

definition pair_ok :: "'w ext_env \<Rightarrow> 'w ext_vault set \<Rightarrow> pending \<Rightarrow> 'w ext_vault \<times> ev_outcome \<Rightarrow> bool" where
  "pair_ok env H p x \<longleftrightarrow> outcome_ok env H (fst x) p (snd x)"

lemma pair_ok_conv [simp]: "pair_ok env H p (s, out) = outcome_ok env H s p out"
  by (simp add: pair_ok_def)

lemma pair_unlock [simp]: "pair_ok env H p (unlock_catch env c s)" "pair_ok env H p (unlock_returns c ok s)"
  by (simp_all add: unlock_catch_def unlock_returns_def)

lemma pair_unlock_steps:
  "pair_ok env H p (opaque_resume env c ok s)" "pair_ok env H p (login_resume env c ses s)"
  "pair_ok env H p (register_resume env c x reg s)" "pair_ok env H p (bundle_resume env c x q s)"
  "pair_ok env H p (logout_resume env reg s)"
  by (auto simp: opaque_resume_def login_resume_def register_resume_def bundle_resume_def logout_resume_def task_backed_def
      split: sum.split key_bundle_outcome.split jsval.split option.split)

lemma pair_backend: "pair_ok env H p (backend_resume env c x f w s)"
  by (auto simp: backend_resume_def task_backed_def split: option.split prod.split crypto_response.split response_body.split)

lemma pair_page: "pair_ok env H p (page_resume env now c cursor items q s)"
  by (auto simp: page_resume_def unlock_finish_def task_backed_def split: sum.split option.split prod.split)

lemma pair_refreshes:
  "task_backed env H s p (T_join k r) \<Longrightarrow> pair_ok env H p (join_resume k r ok s)"
  "task_backed env H s p (T_refresh k r a) \<Longrightarrow> pair_ok env H p (refresh_resume k r a q s)"
  "task_backed env H s p (T_attempt k r a ok) \<Longrightarrow> pair_ok env H p (attempt_resume env k r a ok s)"
  "task_backed env H s p (T_refreshed k r b) \<Longrightarrow> pair_ok env H p (refreshed_resume k r b s)"
  by (auto simp: join_resume_def refresh_resume_def attempt_resume_def refreshed_resume_def Let_def task_backed_def
      outcome_fresh_returns split: sum.split)

lemma pair_devices:
  assumes "task_backed env H s p (T_devices k r)" "pd_time p \<le> now"
  shows "pair_ok env H p (devices_resume env now k r q s)"
proof -
  have "fresh_since (s\<lparr>ev_lastFresh := now, ev_checks := (r, now) # ev_checks s\<rparr>) r (pd_time p)"
    using assms(2) by (auto simp: fresh_since_def FRESH_CHECK_INTERVAL_MS_def)
  then show ?thesis
    using assms(1)
    by (auto simp: devices_resume_def task_backed_def intro!: outcome_fresh_returns split: sum.split)
qed

lemma pair_fields:
  assumes "task_backed env H s p (T_cont (K_fields i origin) r b)" "s \<in> H"
  shows "pair_ok env H p (fields_cont env now i origin r b s)"
proof -
  have "filled_from env H r (Call_fields i origin) (fill_of (ie_data e))"
    if "is_current s r" "entry_of s i = Some e" "url_matches env (ie_data e) origin" for e
    using that assms(2) by (auto simp: filled_from_def fill_of_def)
  moreover have "pd_call p = Call_fields i origin" using assms by (cases "pd_call p") (simp_all add: task_backed_def)
  ultimately show ?thesis
    using assms by (auto simp: fields_cont_def task_backed_def split: option.split)
qed

lemma pair_totp:
  "task_backed env H s p (T_cont (K_totp i) r b) \<Longrightarrow> pair_ok env H p (totp_cont env now i r b s)"
  "pair_ok env H p (totp_fill_resume r f code s)" "pair_ok env H p (totp_show_resume now r code s)"
  by (auto simp: totp_cont_def totp_fill_resume_def totp_show_resume_def Let_def task_backed_def split: option.split sum.split)

lemma pair_save:
  assumes "task_backed env H s p (T_cont (K_save inp) r b)"
  shows "pair_ok env H p (save_cont env inp u1 u2 r b s)"
proof -
  let ?x = "save_cont env inp u1 u2 r b s"
  have "ev_effect None s (fst ?x)" using silent_save [of s env inp u1 u2 r b] by (simp add: silent_def)
  then have "fresh_since (fst ?x) r (pd_time p)" if b using fresh_mono assms that by (auto simp: task_backed_def)
  then have "task_backed env H (fst ?x) p (T_mutate r i d m)" if b for i d m using assms that by (auto simp: task_backed_def)
  moreover have "(\<exists>i d m. b \<and> snd ?x = E_await (T_mutate r i d m)) \<or> (\<exists>y. snd ?x = E_save y)"
    by (auto simp: save_cont_def Let_def split: option.split prod.split crypto_response.split response_body.split)
  ultimately show ?thesis by (auto simp: pair_ok_def)
qed

lemma pair_mutate: "pair_ok env H p (mutate_resume env r i d q s)"
  by (auto simp: mutate_resume_def split: sum.split Sync_Engine.mutate_outcome.split)

lemmas pair_steps = pair_unlock_steps pair_backend pair_page pair_refreshes pair_devices pair_fields pair_totp pair_save pair_mutate

lemma resume_outcome:
  assumes "ev_resume env now u1 u2 t answer s = Some x" "task_backed env H s p t" "s \<in> H" "pd_time p \<le> now"
  shows "pair_ok env H p x"
proof (cases t)
  case (T_cont k r b)
  then show ?thesis using assms by (cases answer; cases k) (auto simp: ev_resume_def pair_steps)
qed (use assms in \<open>cases answer; auto simp: ev_resume_def pair_steps\<close>)+


section \<open>Releases\<close>

text \<open>The results and requests that carry secrets of a session.\<close>

fun sends_mutation :: "ev_task \<Rightarrow> bool" where
  "sends_mutation (T_mutate _ _ _ _) = True"
| "sends_mutation _ = False"

fun hands_out :: "ev_outcome \<Rightarrow> bool" where
  "hands_out (E_fields f) = (f \<noteq> None)"
| "hands_out (E_totp d) = (d \<noteq> None)"
| "hands_out (E_await t) = sends_mutation t"
| "hands_out _ = False"

definition quiet :: "'w ext_vault \<times> ev_outcome \<Rightarrow> bool" where
  "quiet x \<longleftrightarrow> \<not> hands_out (snd x)"

lemma quiet_conv [simp]: "quiet (s, out) \<longleftrightarrow> \<not> hands_out out"
  by (simp add: quiet_def)

lemma quiet_returns [simp]:
  "\<not> hands_out (fresh_returns k r b)" "quiet (unlock_catch env c s)" "quiet (unlock_returns c ok s)"
  by (simp_all add: fresh_returns_def unlock_catch_def unlock_returns_def split: ev_cont.split)

lemma start_quiet: "quiet (ev_start env now c s)"
proof -
  have "quiet (fresh_start env now k st s)" for k st
    by (auto simp: fresh_start_def maybeRefresh_def split: option.split)
  then show ?thesis
    by (cases c)
       (auto simp: ev_unlock_def ev_logout_def checkFresh_def fieldsFor_def getTotp_def ev_saveItem_def Let_def
         split: option.split)
qed

lemma unlock_quiet:
  "quiet (opaque_resume env c ok s)" "quiet (login_resume env c ses s)" "quiet (register_resume env c x reg s)"
  "quiet (bundle_resume env c x q s)" "quiet (logout_resume env reg s)"
  by (auto simp: opaque_resume_def login_resume_def register_resume_def bundle_resume_def logout_resume_def
      split: sum.split key_bundle_outcome.split jsval.split option.split)

lemma load_quiet: "quiet (backend_resume env c x f w s)" "quiet (page_resume env now l cursor items pg s)"
  by (auto simp: backend_resume_def page_resume_def unlock_finish_def
      split: sum.split option.split prod.split crypto_response.split response_body.split)

lemma refresh_quiet:
  "quiet (join_resume k r ok s)" "quiet (refresh_resume k r a q s)" "quiet (attempt_resume env k r a ok s)"
  "quiet (refreshed_resume k r b s)" "quiet (devices_resume env now k r reg s)" "quiet (mutate_resume env r i d m s)"
  by (auto simp: join_resume_def refresh_resume_def attempt_resume_def refreshed_resume_def devices_resume_def
      mutate_resume_def Let_def split: sum.split Sync_Engine.mutate_outcome.split)

text \<open>
  The tasks that release something do so only while the session of the call is still the current one,
  after a successful check.
\<close>

definition backed :: "'w ext_env \<Rightarrow> 'w ext_vault set \<Rightarrow> 'w ext_vault \<Rightarrow> pending \<Rightarrow> 'w ext_vault \<times> ev_outcome \<Rightarrow> bool" where
  "backed env H s p x \<longleftrightarrow>
     (hands_out (snd x) \<longrightarrow>
        (\<exists>r. pd_ref p = Some r \<and> is_current s r \<and> fresh_since s r (pd_time p) \<and>
             (\<forall>f. snd x = E_fields (Some f) \<longrightarrow> filled_from env H r (pd_call p) f)))"

lemma backed_quiet: "quiet x \<Longrightarrow> backed env H s p x"
  by (cases "snd x") (auto simp: backed_def quiet_def)

lemma backed_fields:
  assumes "task_backed env H s p (T_cont (K_fields i origin) r b)" "s \<in> H"
  shows "backed env H s p (fields_cont env now i origin r b s)"
proof -
  have "filled_from env H r (Call_fields i origin) (fill_of (ie_data e))"
    if "is_current s r" "entry_of s i = Some e" "url_matches env (ie_data e) origin" for e
    using that assms(2) by (auto simp: filled_from_def fill_of_def)
  moreover have "pd_call p = Call_fields i origin" using assms by (cases "pd_call p") (simp_all add: task_backed_def)
  ultimately show ?thesis
    using assms by (auto simp: fields_cont_def task_backed_def backed_def split: option.splits if_splits)
qed

lemma backed_totp:
  "task_backed env H s p (T_cont (K_totp i) r b) \<Longrightarrow> backed env H s p (totp_cont env now i r b s)"
  "task_backed env H s p (T_totp_fill r f code) \<Longrightarrow> backed env H s p (totp_fill_resume r f code s)"
  "task_backed env H s p (T_totp_show r code) \<Longrightarrow> backed env H s p (totp_show_resume now r code s)"
  by (auto simp: totp_cont_def totp_fill_resume_def totp_show_resume_def Let_def task_backed_def backed_def filled_from_def
      split: option.split sum.splits if_splits)

lemma backed_save:
  assumes "task_backed env H s p (T_cont (K_save inp) r b)"
  shows "backed env H s p (save_cont env inp u1 u2 r b s)"
proof -
  let ?x = "save_cont env inp u1 u2 r b s"
  have "hands_out (snd ?x) \<longrightarrow> b \<and> is_current s r" "\<forall>f. snd ?x \<noteq> E_fields f"
    by (auto simp: save_cont_def Let_def is_current_def
        split: option.split prod.split crypto_response.split response_body.split)
  then show ?thesis using assms by (auto simp: backed_def task_backed_def)
qed

lemmas backed_steps = backed_quiet [OF unlock_quiet(1)] backed_quiet [OF unlock_quiet(2)] backed_quiet [OF unlock_quiet(3)]
  backed_quiet [OF unlock_quiet(4)] backed_quiet [OF unlock_quiet(5)] backed_quiet [OF load_quiet(1)] backed_quiet [OF load_quiet(2)]
  backed_quiet [OF refresh_quiet(1)] backed_quiet [OF refresh_quiet(2)] backed_quiet [OF refresh_quiet(3)]
  backed_quiet [OF refresh_quiet(4)] backed_quiet [OF refresh_quiet(5)] backed_quiet [OF refresh_quiet(6)]
  backed_fields backed_totp backed_save

lemma resume_backed:
  assumes "ev_resume env now u1 u2 t answer s = Some x" "task_backed env H s p t" "s \<in> H"
  shows "backed env H s p x"
proof (cases t)
  case (T_cont k r b)
  then show ?thesis using assms by (cases answer; cases k) (auto simp: ev_resume_def backed_steps)
qed (use assms in \<open>cases answer; auto simp: ev_resume_def backed_steps\<close>)+


section \<open>Invariants\<close>

definition unlock_refs :: "'w ev_sys \<Rightarrow> nat list" where
  "unlock_refs y = List.map_filter (\<lambda>p. unlock_ref (pd_task p)) (sy_pool y)"

definition check_inv :: "'w ext_env \<Rightarrow> 'w ev_sys \<Rightarrow> bool" where
  "check_inv env y \<longleftrightarrow>
     anchored (sy_vault y) \<and> (\<forall>x \<in> set (ev_checks (sy_vault y)). snd x \<le> sy_clock y) \<and>
     (\<forall>p \<in> set (sy_pool y). pd_time p \<le> sy_clock y \<and> task_backed env (set (sy_past y)) (sy_vault y) p (pd_task p))"

text \<open>The numbers of unlocks under way are distinct, in use, and none is that of the current session.\<close>

definition ref_inv :: "'w ev_sys \<Rightarrow> bool" where
  "ref_inv y \<longleftrightarrow>
     distinct (unlock_refs y) \<and> (\<forall>r \<in> set (unlock_refs y). r < ev_nextRef (sy_vault y) \<and> \<not> is_current (sy_vault y) r) \<and>
     (\<forall>r. is_current (sy_vault y) r \<longrightarrow> r < ev_nextRef (sy_vault y))"

lemma check_inv_step:
  assumes "ev_trans env y p now out y'" "check_inv env y"
  shows "check_inv env y'"
  using assms(1)
proof cases
  case (call c s)
  have eff: "ev_effect None (sy_vault y) s" "checked_at now (sy_vault y) s"
    using effect_start checked_start call by blast+
  have "outcome_ok env (set (sy_past y')) s p out"
    using assms(2) call by (intro start_outcome) (auto simp: check_inv_def)
  then have "\<forall>q \<in> set (awaited p out). pd_time q \<le> now \<and> task_backed env (set (sy_past y')) s q (pd_task q)"
    using call by (cases out) (auto simp: awaited_def task_backed_def split: ev_task.splits)
  moreover have "\<forall>q \<in> set (sy_pool y). pd_time q \<le> now \<and> task_backed env (set (sy_past y')) s q (pd_task q)"
    using assms(2) call(1,2) task_backed_mono [OF eff(1)] by (force simp: check_inv_def)
  moreover have "\<forall>x \<in> set (ev_checks s). snd x \<le> now" "anchored s"
    using assms(2) call(2) eff(2) by (force simp: check_inv_def checked_at_def)+
  ultimately show ?thesis using call(1) by (auto simp: check_inv_def)
next
  case (settle xs ys u1 u2 answer s)
  have eff: "ev_effect (unlock_ref (pd_task p)) (sy_vault y) s" "checked_at now (sy_vault y) s"
    using effect_resume checked_resume settle by blast+
  have old: "\<forall>q \<in> set (sy_pool y). pd_time q \<le> now \<and> task_backed env (set (sy_past y')) s q (pd_task q)"
    using assms(2) settle(1,2) task_backed_mono [OF eff(1)] by (force simp: check_inv_def)
  have "pair_ok env (set (sy_past y')) p (s, out)"
    using assms(2) settle by (intro resume_outcome [OF settle(4)]) (auto simp: check_inv_def intro: task_backed_past)
  then have "\<forall>q \<in> set (awaited p out). pd_time q \<le> now \<and> task_backed env (set (sy_past y')) s q (pd_task q)"
    using old settle(3) by (cases out) (auto simp: awaited_def task_backed_def split: ev_task.splits)
  moreover have "\<forall>x \<in> set (ev_checks s). snd x \<le> now" "anchored s"
    using assms(2) settle(2) eff(2) by (force simp: check_inv_def checked_at_def)+
  ultimately show ?thesis using settle(1,3) old by (auto simp: check_inv_def)
qed

text \<open>A task goes on with the unlock it belongs to, if any, and then leaves the current session alone.\<close>

definition follows :: "nat option \<Rightarrow> 'w ext_vault \<Rightarrow> 'w ext_vault \<times> ev_outcome \<Rightarrow> bool" where
  "follows u s x \<longleftrightarrow>
     (\<forall>t. snd x = E_await t \<longrightarrow> unlock_ref t = None \<or> unlock_ref t = u \<and> ev_state (fst x) = ev_state s)"

lemma follows_simps [simp]:
  "follows u s (s', E_unlock ok pw)" "follows u s (s', E_bool b)" "follows u s (s', E_fields f)" "follows u s (s', E_totp td)"
  "follows u s (s', E_save r)" "follows u s (s', E_unit)" "follows u s (s', fresh_returns k q b)"
  "follows u s (s', E_await t) \<longleftrightarrow> unlock_ref t = None \<or> unlock_ref t = u \<and> ev_state s' = ev_state s"
  "follows u s (unlock_catch env c s')" "follows u s (unlock_returns c ok s')"
  by (auto simp: follows_def fresh_returns_def unlock_catch_def unlock_returns_def split: ev_cont.split)

lemma follows_unlock:
  "follows (Some (uc_ref c)) s (opaque_resume env c ok s)" "follows (Some (uc_ref c)) s (login_resume env c ses s)"
  "follows (Some (uc_ref c)) s (register_resume env c x reg s)" "follows (Some (uc_ref c)) s (bundle_resume env c x q s)"
  "follows u s (logout_resume env reg s)"
  by (auto simp: opaque_resume_def login_resume_def register_resume_def bundle_resume_def logout_resume_def
      split: sum.split key_bundle_outcome.split jsval.split option.split)

lemma follows_backend: "follows (Some (uc_ref c)) s (backend_resume env c x f w s)"
  using nextId_simps(1) [of s]
  by (cases "nextId s")
     (auto simp: backend_resume_def split: option.split prod.split crypto_response.split response_body.split)

lemma follows_page: "follows (Some (uc_ref (lx_unlock c))) s (page_resume env now c cursor items q s)"
proof (cases "withDeadline q NETWORK_DEADLINE_MS")
  case (Inl e)
  then show ?thesis by (simp add: page_resume_def unlock_finish_def)
next
  case (Inr page)
  obtain s1 r where load: "load_page env c (changes page) items s = (s1, r)"
    by (cases "load_page env c (changes page) items s")
  moreover have "ev_state (fst (load_page env c (changes page) items s)) = ev_state s"
    using silent_load_page [of c s env "changes page" items] by (simp add: silent_def)
  ultimately show ?thesis using Inr by (cases r) (simp_all add: page_resume_def unlock_finish_def)
qed

lemma follows_session:
  "follows u s (join_resume k r ok s)" "follows u s (refresh_resume k r a q s)" "follows u s (attempt_resume env k r a ok s)"
  "follows u s (refreshed_resume k r b s)" "follows u s (devices_resume env now k r reg s)"
  "follows u s (mutate_resume env r i d m s)" "follows u s (fields_cont env now i origin r b s)"
  "follows u s (totp_cont env now i r b s)" "follows u s (totp_fill_resume r f code s)"
  "follows u s (totp_show_resume now r code s)" "follows u s (save_cont env inp u1 u2 r b s)"
  by (auto simp: join_resume_def refresh_resume_def attempt_resume_def refreshed_resume_def devices_resume_def
      mutate_resume_def fields_cont_def totp_cont_def totp_fill_resume_def totp_show_resume_def save_cont_def Let_def
      split: sum.split Sync_Engine.mutate_outcome.split option.split prod.split crypto_response.split response_body.split)

lemmas follows_steps = follows_unlock follows_backend follows_page follows_session

lemma resume_follows:
  assumes "ev_resume env now u1 u2 t answer s = Some x"
  shows "follows (unlock_ref t) s x"
proof (cases t)
  case (T_cont k r b)
  then show ?thesis using assms by (cases answer; cases k) (auto simp: ev_resume_def follows_steps)
qed (use assms in \<open>cases answer; auto simp: ev_resume_def follows_steps\<close>)+

lemma start_follows:
  assumes "ev_start env now c s = (s', E_await t)" "unlock_ref t = Some r"
  shows "r = ev_nextRef s \<and> ev_nextRef s' = Suc r \<and> ev_state s' = None"
proof -
  have "\<not> (fresh_start env now k st s = (s', E_await t))" for k st
    using assms(2)
    by (auto simp: fresh_start_def maybeRefresh_def fresh_returns_def split: option.splits if_splits ev_cont.splits)
  then show ?thesis
    using assms
    by (cases c)
       (auto simp: ev_unlock_def unlock_returns_def ev_logout_def checkFresh_def fieldsFor_def getTotp_def ev_saveItem_def
         Let_def split: option.splits if_splits)
qed

lemma map_filter_append: "List.map_filter f (xs @ ys) = List.map_filter f xs @ List.map_filter f ys"
  by (simp add: List.map_filter_def)

lemma ref_inv_step:
  assumes "ev_trans env y p now out y'" "ref_inv y"
  shows "ref_inv y'"
  using assms(1)
proof cases
  case (call c s)
  have eff: "ev_effect None (sy_vault y) s" using effect_start call by blast
  let ?f = "\<lambda>p. unlock_ref (pd_task p)"
  have old: "ref_inv (y\<lparr>sy_vault := s, sy_clock := now\<rparr>)"
    using assms(2) eff by (force simp: ref_inv_def ev_effect_def unlock_refs_def)
  show ?thesis
  proof (cases "List.map_filter ?f (awaited p out)")
    case Nil
    then show ?thesis using old call(1) by (simp add: ref_inv_def unlock_refs_def map_filter_append)
  next
    case (Cons r rs)
    then obtain t where t: "out = E_await t" "unlock_ref t = Some r" "rs = []"
      by (cases out) (auto simp: awaited_def List.map_filter_def split: if_splits)
    have "r = ev_nextRef (sy_vault y) \<and> ev_nextRef s = Suc r \<and> ev_state s = None"
      using start_follows call(3) t by metis
    then show ?thesis
      using old call(1) Cons t assms(2)
      by (auto simp: ref_inv_def unlock_refs_def map_filter_append current_None less_Suc_eq)
  qed
next
  case (settle xs ys u1 u2 answer s)
  have eff: "ev_effect (unlock_ref (pd_task p)) (sy_vault y) s" using effect_resume settle by blast
  have fol: "follows (unlock_ref (pd_task p)) (sy_vault y) (s, out)" using resume_follows settle(4) by blast
  let ?f = "\<lambda>p. unlock_ref (pd_task p)"
  let ?rest = "List.map_filter ?f xs @ List.map_filter ?f ys"
  have refs: "unlock_refs y = List.map_filter ?f xs @ (case unlock_ref (pd_task p) of None \<Rightarrow> [] | Some r \<Rightarrow> [r]) @ List.map_filter ?f ys"
    using settle(3) by (simp add: unlock_refs_def map_filter_append split: option.split)
  have cur: "is_current s r \<Longrightarrow> is_current (sy_vault y) r \<or> unlock_ref (pd_task p) = Some r" for r
    using eff unfolding ev_effect_def by blast
  have mono: "ev_nextRef (sy_vault y) \<le> ev_nextRef s" using eff unfolding ev_effect_def by blast
  have inv: "distinct (unlock_refs y)" "r \<in> set (unlock_refs y) \<Longrightarrow> r < ev_nextRef (sy_vault y) \<and> \<not> is_current (sy_vault y) r"
    "is_current (sy_vault y) r \<Longrightarrow> r < ev_nextRef (sy_vault y)" for r
    using assms(2) unfolding ref_inv_def by blast+
  have apart: "r \<in> set ?rest \<Longrightarrow> r \<in> set (unlock_refs y) \<and> unlock_ref (pd_task p) \<noteq> Some r" for r
    using inv(1) unfolding refs by auto
  have own: "unlock_ref (pd_task p) = Some r \<Longrightarrow> r \<in> set (unlock_refs y)" for r unfolding refs by simp
  have others: "\<forall>r \<in> set ?rest. r < ev_nextRef s \<and> \<not> is_current s r"
    using apart inv(2) cur mono by (meson order_less_le_trans)
  have new: "\<forall>r. is_current s r \<longrightarrow> r < ev_nextRef s"
    using cur own inv(2,3) mono by (meson order_less_le_trans)
  show ?thesis
  proof (cases "List.map_filter ?f (awaited p out)")
    case Nil
    then show ?thesis
      using assms(2) settle(1) refs others new by (auto simp: ref_inv_def unlock_refs_def map_filter_append)
  next
    case (Cons r rs)
    then obtain t where t: "out = E_await t" "unlock_ref t = Some r" "rs = []"
      by (cases out) (auto simp: awaited_def List.map_filter_def split: if_splits)
    then have "unlock_ref (pd_task p) = Some r" "ev_state s = ev_state (sy_vault y)" using fol by auto
    then show ?thesis
      using assms(2) settle(1) refs others new Cons t eff is_current_cong [of s "sy_vault y"]
      by (auto simp: ref_inv_def unlock_refs_def map_filter_append ev_effect_def)
  qed
qed

lemma ref_inv_reachable:
  assumes "ev_reachable env y"
  shows "check_inv env y \<and> ref_inv y"
proof -
  have "ev_steps env y0 y \<Longrightarrow> check_inv env y0 \<Longrightarrow> ref_inv y0 \<Longrightarrow> check_inv env y \<and> ref_inv y" for y0
    by (induction rule: ev_steps.induct) (blast intro: check_inv_step ref_inv_step)+
  moreover have "check_inv env ev_sys_new" "ref_inv ev_sys_new"
    by (simp_all add: check_inv_def ref_inv_def ev_sys_new_def ext_vault_new_def anchored_def unlock_refs_def is_current_def
        List.map_filter_def)
  ultimately show ?thesis using assms by (simp add: ev_reachable_def)
qed

text \<open>A session that is over: it is not current and no unlock that could make it so is under way.\<close>

definition gone :: "nat \<Rightarrow> 'w ev_sys \<Rightarrow> bool" where
  "gone r y \<longleftrightarrow> r < ev_nextRef (sy_vault y) \<and> \<not> is_current (sy_vault y) r \<and> r \<notin> set (unlock_refs y)"

lemma awaited_refs: "set (List.map_filter (\<lambda>p. unlock_ref (pd_task p)) (awaited p out)) = {r. \<exists>t. out = E_await t \<and> unlock_ref t = Some r}"
  by (cases out) (auto simp: awaited_def List.map_filter_def)

lemma gone_step:
  assumes "ev_trans env y p now out y'" "gone r y"
  shows "gone r y' \<and> untouched r (sy_vault y) (sy_vault y')"
  using assms(1)
proof cases
  case (call c s)
  have eff: "ev_effect None (sy_vault y) s" using effect_start call by blast
  moreover have "out = E_await t \<Longrightarrow> unlock_ref t \<noteq> Some r" for t
    using start_follows [of env now c "sy_vault y" s t r] call(3) assms(2) by (auto simp: gone_def)
  ultimately show ?thesis
    using assms(2) call(1) by (auto simp: gone_def ev_effect_def unlock_refs_def map_filter_append awaited_refs)
next
  case (settle xs ys u1 u2 answer s)
  have eff: "ev_effect (unlock_ref (pd_task p)) (sy_vault y) s" using effect_resume settle by blast
  have fol: "follows (unlock_ref (pd_task p)) (sy_vault y) (s, out)" using resume_follows settle(4) by blast
  have "unlock_ref (pd_task p) \<noteq> Some r"
    using assms(2) settle(3) by (auto simp: gone_def unlock_refs_def map_filter_append)
  then show ?thesis
    using assms(2) settle(1,3) eff fol
    by (auto simp: gone_def ev_effect_def unlock_refs_def map_filter_append awaited_refs split: option.splits)
qed

lemma gone_steps:
  assumes "ev_steps env y y'" "gone r y"
  shows "gone r y' \<and> untouched r (sy_vault y) (sy_vault y')"
  using assms by (induction rule: ev_steps.induct) (auto simp: untouched_def dest: gone_step)

lemma reachable_trans:
  assumes "ev_reachable env y" "ev_steps env y y'"
  shows "ev_reachable env y'"
  using assms(2,1) by (induction rule: ev_steps.induct) (auto simp: ev_reachable_def intro: ev_steps.intros)

lemma release_backed:
  assumes "ev_reachable env y" "ev_trans env y p now out y'"
  shows "backed env (set (sy_past y')) (sy_vault y) p (sy_vault y', out)"
  using assms(2)
proof cases
  case (call c s)
  then show ?thesis using start_quiet [of env now c "sy_vault y"] by (intro backed_quiet) (simp add: quiet_def)
next
  case (settle xs ys u1 u2 answer s)
  then show ?thesis
    using resume_backed [OF settle(4), of "set (sy_past y')" p] ref_inv_reachable [OF assms(1)]
    by (auto simp: check_inv_def intro: task_backed_past)
qed

end
