(* ===== verification/Extension_Vault_Properties.thy ===== *)
theory Extension_Vault_Properties
  imports Extension_Vault_Safety
begin

text \<open>
  What the extension's vault manager guarantees: secrets leave it only for a session that is still the
  one the caller saw and has just been confirmed by the server, a session that was locked is over, and
  the one way in which a worker session survives unnoticed.
\<close>


section \<open>A concrete run\<close>

text \<open>A backend whose sealed payloads are the plaintexts, and a vault of one login.\<close>

definition ev_sample_backend :: "unit crypto_backend" where
  "ev_sample_backend =
     \<lparr>cb_unlockItemSession = \<lambda>_ w. (w, Inr 7), cb_createAccountSetup = \<lambda>_ w. (w, Inl Thrown_other),
      cb_unlockWithRecovery = \<lambda>_ w. (w, Inl Thrown_other), cb_sealItemPayload = \<lambda>r w. (w, Inr (p_payload r)),
      cb_openItemPayload = \<lambda>r w. (w, Inr (p_payload r)), cb_inspectEnvelope = \<lambda>_ w. (w, Inl Thrown_other),
      cb_closeSession = \<lambda>_ w. (w, Inr ())\<rparr>"

definition sample_login :: item_data where
  "sample_login = \<lparr>d_type = ''login'', d_title = ''x'', d_username = Some ''u'', d_password = Some ''p'',
     d_url = Some ''https://x'', d_notes = None, d_totpSecret = None\<rparr>"

definition sample_env :: "unit ext_env" where
  "sample_env =
     \<lparr>ee_backend = ev_sample_backend,
      ee_json_parse = \<lambda>_. Some (string_object (ordered_fields (encoded_fields sample_account))),
      ee_api_url = \<lambda>_. Some \<lparr>au_protocol = ''https:'', au_username = [], au_password = [], au_search = [], au_hash = [],
        au_pathname = ''/'', au_hostname = ''h'', au_origin = ''https://h''\<rparr>,
      ee_url = \<lambda>_. Some \<lparr>url_protocol = ''https:'', url_hostname = ''x'', url_port = [], url_origin = ''https://x''\<rparr>,
      ee_date_parse = \<lambda>_. None, ee_decode = \<lambda>_. Some sample_login, ee_encode = \<lambda>_. [9],
      ee_hmac = \<lambda>_ _ _. [], ee_memoryKiB = DEFAULT_REPORTED_MEMORY_KIB\<rparr>"

definition sample_call :: pending where
  "sample_call = \<lparr>pd_call = Call_unlock ''a'' ''https://h'' [1], pd_time = 0, pd_ref = None, pd_task = T_logout\<rparr>"

definition sample_ctx :: unlock_ctx where
  "sample_ctx = \<lparr>uc_ref = 0, uc_accountId = ''a'', uc_password = [1]\<rparr>"

definition sample_load :: ev_load_ctx where
  "sample_load = \<lparr>lx_unlock = sample_ctx\<lparr>uc_password := [0]\<rparr>, lx_expiresAt = JStr ''later'', lx_session = 7,
     lx_accountId = ''a'', lx_vaultId = ''v''\<rparr>"

definition sample_loading :: "unit ext_vault" where
  "sample_loading = ext_vault_new\<lparr>ev_nextRef := 1, ev_idCounter := 1,
     ev_apis := [(0, \<lparr>xa_origin = ''https://h'', xa_token = Some ''t''\<rparr>)],
     ev_hosts := [(0, \<lparr>h_sessions = [7], h_wasm = ()\<rparr>)]\<rparr>"

definition sample_called :: "unit ext_vault" where
  "sample_called = ext_vault_new\<lparr>ev_nextRef := 1, ev_apis := [(0, \<lparr>xa_origin = ''https://h'', xa_token = None\<rparr>)]\<rparr>"

definition sample_logged_in :: "unit ext_vault" where
  "sample_logged_in = ext_vault_new\<lparr>ev_nextRef := 1, ev_apis := [(0, \<lparr>xa_origin = ''https://h'', xa_token = Some ''t''\<rparr>)]\<rparr>"

definition loading_past :: "unit ext_vault list" where
  "loading_past = [sample_logged_in, sample_logged_in, sample_logged_in, sample_called, sample_called, ext_vault_new]"

definition loading_sys :: "unit ev_sys" where
  "loading_sys = \<lparr>sy_vault = sample_loading, sy_clock = 0, sy_pool = [sample_call\<lparr>pd_task := U_page sample_load None []\<rparr>],
     sy_past = loading_past\<rparr>"

lemma settle_single:
  assumes "ev_steps env y0 \<lparr>sy_vault = s, sy_clock = t, sy_pool = [p], sy_past = vs\<rparr>" "t \<le> now"
    "ev_resume env now u1 u2 (pd_task p) answer s = Some (s', out)"
  shows "ev_steps env y0 \<lparr>sy_vault = s', sy_clock = now, sy_pool = awaited p out, sy_past = s # vs\<rparr>"
proof -
  let ?y = "\<lparr>sy_vault = s, sy_clock = t, sy_pool = [p], sy_past = vs\<rparr>"
  have "ev_trans env ?y p now out
      \<lparr>sy_vault = s', sy_clock = now, sy_pool = [] @ awaited p out @ [], sy_past = sy_vault ?y # sy_past ?y\<rparr>"
    by (rule settle) (use assms in simp_all)
  then show ?thesis using assms(1) by (auto intro: ev_step)
qed

definition sample_session :: api_session where
  "sample_session = \<lparr>ses_accessToken = ''t'', ses_expiresAt = JStr ''later''\<rparr>"

abbreviation in_time :: "'a \<Rightarrow> 'a net_settlement" where
  "in_time x \<equiv> Some (0, Inr x)"

lemma in_time_deadline [simp]: "withDeadline (in_time x) NETWORK_DEADLINE_MS = Inr x"
  by (simp add: withDeadline_def NETWORK_DEADLINE_MS_def)

lemma handle_valid:
  "request_valid req \<Longrightarrow> handle be (request_msg req) h = (case handle_request be req h of (h', r, left) \<Rightarrow> (h', r, Some left))"
  by (simp add: handle_def isRequest_msg)

lemma loading_reachable: "ev_reachable sample_env loading_sys"
proof -
  let ?x = "JStr ''later''"
  have "ev_start sample_env 0 (Call_unlock ''a'' ''https://h'' [1]) (sy_vault ev_sys_new) = (sample_called, E_await (U_opaque sample_ctx))"
    by (simp add: ev_sys_new_def ev_unlock_def ev_dispose_def Let_def ext_vault_new_def confirmApiOrigin_def sample_env_def sample_ctx_def
        sample_called_def)
  from ev_trans.call [OF _ this, of sample_call]
  have "ev_trans sample_env ev_sys_new sample_call 0 (E_await (U_opaque sample_ctx))
      \<lparr>sy_vault = sample_called, sy_clock = 0, sy_pool = [sample_call\<lparr>pd_task := U_opaque sample_ctx\<rparr>],
        sy_past = [ext_vault_new]\<rparr>"
    by (simp add: ev_sys_new_def sample_call_def current_ref_def ext_vault_new_def awaited_def)
  then have "ev_steps sample_env ev_sys_new \<lparr>sy_vault = sample_called, sy_clock = 0, sy_pool = [sample_call\<lparr>pd_task := U_opaque sample_ctx\<rparr>],
        sy_past = [ext_vault_new]\<rparr>"
    by (rule ev_step [OF ev_refl])
  from settle_single [OF this, of 0 _ _ "A_opaque True" sample_called "E_await (U_login sample_ctx)"]
  have "ev_steps sample_env ev_sys_new \<lparr>sy_vault = sample_called, sy_clock = 0, sy_pool = [sample_call\<lparr>pd_task := U_login sample_ctx\<rparr>],
        sy_past = [sample_called, ext_vault_new]\<rparr>"
    by (simp add: ev_resume_def opaque_resume_def awaited_def)
  from settle_single [OF this, of 0 _ _ "A_session (in_time sample_session)" sample_logged_in "E_await (U_register sample_ctx ?x)"]
  have "ev_steps sample_env ev_sys_new \<lparr>sy_vault = sample_logged_in, sy_clock = 0, sy_pool = [sample_call\<lparr>pd_task := U_register sample_ctx ?x\<rparr>],
        sy_past = [sample_called, sample_called, ext_vault_new]\<rparr>"
    by (simp add: ev_resume_def login_resume_def awaited_def set_token_def sample_session_def sample_ctx_def sample_called_def
        sample_logged_in_def)
  from settle_single [OF this, of 0 _ _ "A_unit (in_time ())" sample_logged_in "E_await (U_bundle sample_ctx ?x)"]
  have "ev_steps sample_env ev_sys_new \<lparr>sy_vault = sample_logged_in, sy_clock = 0, sy_pool = [sample_call\<lparr>pd_task := U_bundle sample_ctx ?x\<rparr>],
        sy_past = [sample_logged_in, sample_called, sample_called, ext_vault_new]\<rparr>"
    by (simp add: ev_resume_def register_resume_def awaited_def)
  moreover have "bundle_resume sample_env sample_ctx ?x
      (in_time (Bundle_200 (JObj [(''bundle'', JStr (buildAccountBundle sample_account))]))) sample_logged_in =
      (sample_logged_in, E_await (U_backend sample_ctx ?x (encoded_fields sample_account)))"
    using parseAccountBundle_build [OF publishable_sample, of "ee_json_parse sample_env"]
    by (simp add: bundle_resume_def member_def jget_def sample_env_def)
       (simp add: encoded_fields_def sample_account_def sample_ctx_def)
  ultimately have "ev_steps sample_env ev_sys_new
      \<lparr>sy_vault = sample_logged_in, sy_clock = 0, sy_pool = [sample_call\<lparr>pd_task := U_backend sample_ctx ?x (encoded_fields sample_account)\<rparr>],
        sy_past = [sample_logged_in, sample_logged_in, sample_called, sample_called, ext_vault_new]\<rparr>"
    using settle_single [of sample_env ev_sys_new sample_logged_in 0 "sample_call\<lparr>pd_task := U_bundle sample_ctx ?x\<rparr>" _ 0 _ _
        "A_bundle (in_time (Bundle_200 (JObj [(''bundle'', JStr (buildAccountBundle sample_account))])))"]
    by (simp add: ev_resume_def awaited_def)
  moreover have "backend_resume sample_env sample_ctx ?x (encoded_fields sample_account) (Some ()) sample_logged_in =
      (sample_loading, E_await (U_page sample_load None []))"
    by (simp add: backend_resume_def nextId_def unlock_message_def encoded_fields_def sample_account_def safeDecode_def
        decode_encode_B64 sample_env_def sample_ctx_def sample_load_def handle_valid bytes_within_def MAX_ITEM_BYTES_def
        KEY_VERSION_def DEFAULT_REPORTED_MEMORY_KIB_def ev_sample_backend_def host_new_def host_add_def sample_loading_def
        sample_logged_in_def set_host_def ext_vault_new_def)
  ultimately have "ev_steps sample_env ev_sys_new loading_sys"
    using settle_single [of sample_env ev_sys_new sample_logged_in 0
        "sample_call\<lparr>pd_task := U_backend sample_ctx ?x (encoded_fields sample_account)\<rparr>" _ 0 _ _ "A_backend (Some ())"]
    by (simp add: ev_resume_def awaited_def loading_sys_def loading_past_def)
  then show ?thesis by (simp add: ev_reachable_def)
qed

definition sample_record :: item_record where
  "sample_record = \<lparr>itemId = ''i'', vaultId = ''v'', ciphertext = encodeB64 [9], envelopeVersion = ''crypto-envelope/v1'',
     revision = 1, deleted = False, createdAt = [], updatedAt = []\<rparr>"

definition sample_open :: "unit ext_vault" where
  "sample_open = sample_loading\<lparr>ev_idCounter := 2,
     ev_state := Some \<lparr>us_ref = 0, us_session = 7, us_accountId = ''a'', us_vaultId = ''v'', us_expiresAt = JStr ''later'',
       us_items = [(''i'', \<lparr>ie_itemId = ''i'', ie_revision = 1, ie_data = sample_login\<rparr>)]\<rparr>,
     ev_checks := [(0, 0)]\<rparr>"

definition fields_call :: pending where
  "fields_call = \<lparr>pd_call = Call_fields ''i'' ''https://x'', pd_time = 0, pd_ref = Some 0,
     pd_task = T_cont (K_fields ''i'' ''https://x'') 0 True\<rparr>"

definition open_sys :: "unit ev_sys" where
  "open_sys = \<lparr>sy_vault = sample_open, sy_clock = 0, sy_pool = [fields_call],
     sy_past = sample_open # sample_loading # loading_past\<rparr>"

lemma open_reachable: "ev_reachable sample_env open_sys"
proof -
  let ?page = "\<lparr>changes = [sample_record], nextCursor = None\<rparr>" and ?y = "\<lparr>sy_vault = sample_open, sy_clock = 0, sy_pool = [],
      sy_past = sample_loading # loading_past\<rparr>"
  let ?p = "\<lparr>pd_call = Call_fields ''i'' ''https://x'', pd_time = 0, pd_ref = Some 0, pd_task = T_logout\<rparr>"
  have "page_resume sample_env 0 sample_load None [] (in_time ?page) sample_loading = (sample_open, E_unlock True [0])"
    by (simp add: page_resume_def sample_record_def nextId_def decode_encode_B64 host_call_def host_of_def sample_loading_def
        ext_vault_new_def handle_valid sample_load_def sample_ctx_def bytes_within_def MAX_ENVELOPE_BYTES_def MAX_ITEM_BYTES_def
        KEY_VERSION_def sample_env_def ev_sample_backend_def last_page_def truthy_def unlock_finish_def unlock_returns_def
        sample_open_def set_host_def)
  then have "ev_steps sample_env ev_sys_new ?y"
    using loading_reachable
      settle_single [of sample_env ev_sys_new sample_loading 0 "sample_call\<lparr>pd_task := U_page sample_load None []\<rparr>" _ 0 _ _
        "A_page (in_time ?page)"]
    by (simp add: ev_reachable_def loading_sys_def ev_resume_def awaited_def)
  moreover have "ev_start sample_env 0 (Call_fields ''i'' ''https://x'') (sy_vault ?y) =
      (sample_open, E_await (T_cont (K_fields ''i'' ''https://x'') 0 True))"
    by (simp add: fieldsFor_def sample_open_def fresh_start_def sample_loading_def ext_vault_new_def
        FRESH_CHECK_INTERVAL_MS_def fresh_returns_def)
  from call [OF _ this, of ?p]
  have "ev_trans sample_env ?y ?p 0 (E_await (T_cont (K_fields ''i'' ''https://x'') 0 True)) open_sys"
    by (simp add: open_sys_def fields_call_def awaited_def current_ref_def sample_open_def)
  ultimately show ?thesis by (auto simp: ev_reachable_def intro: ev_step)
qed

lemma fields_released:
  "ev_trans sample_env open_sys fields_call 0 (E_fields (Some \<lparr>ff_username = ''u'', ff_password = ''p'', ff_totp = None\<rparr>))
     \<lparr>sy_vault = sample_open, sy_clock = 0, sy_pool = [], sy_past = sample_open # sy_past open_sys\<rparr>"
proof -
  have "ev_resume sample_env 0 [] [] (pd_task fields_call) A_ready (sy_vault open_sys) =
      Some (sample_open, E_fields (Some \<lparr>ff_username = ''u'', ff_password = ''p'', ff_totp = None\<rparr>))"
    by (simp add: fields_call_def open_sys_def ev_resume_def fields_cont_def is_current_def sample_open_def entry_of_def
        url_matches_def sample_login_def sample_env_def matchOrigin_def parseOrigin_def toLowerCase_def totp_secret_def fill_of_def)
  from settle [OF _ _ this, of "[]" "[]"] show ?thesis by (simp add: open_sys_def awaited_def)
qed


section \<open>Properties\<close>

lemma new_unlock_refs:
  assumes "ev_trans env y p now out y'" "r \<in> set (unlock_refs y')"
  shows "r \<in> set (unlock_refs y) \<or> ev_nextRef (sy_vault y) \<le> r"
  using assms(1)
proof cases
  case (call c s)
  then show ?thesis
    using assms(2) start_follows [of env now c "sy_vault y" s _ r]
    by (auto simp: unlock_refs_def map_filter_append awaited_refs)
next
  case (settle xs ys u1 u2 answer s)
  then show ?thesis
    using assms(2) resume_follows [OF settle(4)]
    by (auto simp: unlock_refs_def map_filter_append awaited_refs split: option.splits)
qed

lemma lost_session:
  assumes "ev_trans env y p now out y1" "ref_inv y" "is_current (sy_vault y) r" "ev_state (sy_vault y1) = None"
  shows "gone r y1 \<and> cleared r (sy_vault y1)"
proof -
  obtain u where "ev_effect u (sy_vault y) (sy_vault y1)"
    using assms(1) by cases (auto dest: effect_start effect_resume)
  then have "cleared r (sy_vault y1)" "ev_nextRef (sy_vault y) \<le> ev_nextRef (sy_vault y1)"
    using assms(3,4) by (simp_all add: ev_effect_def)
  then show ?thesis
    using assms(2,3) new_unlock_refs [OF assms(1), of r] current_None [OF assms(4), of r] by (auto simp: gone_def ref_inv_def)
qed

text \<open>
  C26.  Secrets need a live, freshly confirmed session.  Whenever, in any interleaving of calls, locks
  and network answers, the manager hands out fill fields or a TOTP code, or sends a sealed item to the
  server, the session the call found when it was made is still the current one, and the server has
  answered an authenticated request of that very session at most 30 seconds before the call, or since;
  fill fields are those of the item that was asked for, as that session held it, and the origin of its
  address is exactly the page origin that was asked for.
\<close>
theorem secrets_need_fresh_session:
  assumes "ev_reachable env y" "ev_trans env y p now out y'" "hands_out out"
  shows "\<exists>r t. pd_ref p = Some r \<and> is_current (sy_vault y) r \<and> (r, t) \<in> set (ev_checks (sy_vault y)) \<and>
      pd_time p - 30000 \<le> t \<and> t \<le> now \<and> (\<forall>f. out = E_fields (Some f) \<longrightarrow> filled_from env (set (sy_past y')) r (pd_call p) f)"
proof -
  have "sy_clock y \<le> now" using assms(2) by cases simp_all
  then have "\<forall>x \<in> set (ev_checks (sy_vault y)). snd x \<le> now"
    using ref_inv_reachable [OF assms(1)] by (fastforce simp: check_inv_def)
  then show ?thesis
    using release_backed [OF assms(1,2)] assms(3)
    by (fastforce simp: backed_def fresh_since_def FRESH_CHECK_INTERVAL_MS_def)
qed

theorem secrets_need_fresh_session_witness:
  "\<exists>r. pd_ref fields_call = Some r \<and> is_current (sy_vault open_sys) r \<and>
     filled_from sample_env (set (sample_open # sy_past open_sys)) r (pd_call fields_call)
       \<lparr>ff_username = ''u'', ff_password = ''p'', ff_totp = None\<rparr>"
  using secrets_need_fresh_session [OF open_reachable fields_released] by auto

text \<open>
  C27.  A locked session is over.  Once a step has left the manager without a session (a lock, a logout,
  a failed check or a new unlock), the session it had never becomes current again, its worker host
  keeps no session and its API client no token, whatever happens later, and no call that was made
  while it was current releases anything any more.
\<close>
theorem locked_session_is_over:
  assumes "ev_reachable env y" "ev_trans env y p now out y1" "is_current (sy_vault y) r" "ev_state (sy_vault y1) = None"
    and "ev_steps env y1 y2"
  shows "\<not> is_current (sy_vault y2) r \<and> cleared r (sy_vault y2) \<and>
    (\<forall>q t out' y3. ev_trans env y2 q t out' y3 \<and> pd_ref q = Some r \<longrightarrow> \<not> hands_out out')"
proof -
  have over: "gone r y1 \<and> cleared r (sy_vault y1)"
    using lost_session [OF assms(2) _ assms(3,4)] ref_inv_reachable [OF assms(1)] by blast
  have reach: "ev_reachable env y2"
    using reachable_trans [OF _ assms(5)] assms(1,2) by (auto simp: ev_reachable_def intro: ev_step)
  have "\<not> is_current (sy_vault y2) r \<and> cleared r (sy_vault y2)"
    using gone_steps [OF assms(5), of r] over by (auto simp: gone_def cleared_def untouched_def)
  then show ?thesis using release_backed [OF reach] unfolding backed_def by fastforce
qed

theorem locked_session_is_over_witness:
  "is_current (sy_vault open_sys) 0 \<and> \<not> is_current (ev_lock sample_env (sy_vault open_sys)) 0 \<and>
   cleared 0 (ev_lock sample_env (sy_vault open_sys))"
proof -
  let ?p = "\<lparr>pd_call = Call_lock, pd_time = 0, pd_ref = current_ref (sy_vault open_sys), pd_task = T_logout\<rparr>"
  have "ev_trans sample_env open_sys ?p 0 E_unit
      \<lparr>sy_vault = ev_lock sample_env (sy_vault open_sys), sy_clock = 0, sy_pool = sy_pool open_sys @ awaited ?p E_unit,
       sy_past = sy_vault open_sys # sy_past open_sys\<rparr>"
    by (rule ev_trans.call) (simp_all add: open_sys_def)
  from locked_session_is_over [OF open_reachable this _ _ ev_refl, of 0]
  show ?thesis by (auto simp: ev_lock_def open_sys_def is_current_def sample_open_def)
qed

text \<open>
  A failed load leaves its worker session open.  When the first or a later page of items cannot be
  fetched (any failure but the 404 of a vault without items), the unlock fails and the manager is
  locked, but the host of that unlock is not disposed of: it keeps the sessions it has, with the keys
  behind them, through every later lock, logout and unlock.
\<close>
theorem failed_load_keeps_worker_session:
  assumes "ev_reachable env y" "sy_pool y = xs @ p # ys" "pd_task p = U_page c cursor items" "sy_clock y \<le> now"
    and "withDeadline answer NETWORK_DEADLINE_MS = Inl e" "e \<noteq> HttpError 404 \<or> cursor \<noteq> None"
  shows "\<exists>s out. ev_resume env now u1 u2 (pd_task p) (A_page answer) (sy_vault y) = Some (s, out) \<and>
    (\<exists>pw. out = E_unlock False pw) \<and> \<not> ev_isUnlocked s \<and>
    (\<forall>y2. ev_steps env \<lparr>sy_vault = s, sy_clock = now, sy_pool = xs @ ys, sy_past = sy_vault y # sy_past y\<rparr> y2 \<longrightarrow>
       host_of (sy_vault y2) (uc_ref (lx_unlock c)) = host_of (sy_vault y) (uc_ref (lx_unlock c)))"
proof -
  let ?r = "uc_ref (lx_unlock c)" and ?s = "ev_dispose env (sy_vault y)"
  let ?out = "E_unlock False (replicate (length (uc_password (lx_unlock c))) 0)"
  let ?y1 = "\<lparr>sy_vault = ?s, sy_clock = now, sy_pool = xs @ ys, sy_past = sy_vault y # sy_past y\<rparr>"
  have resume: "ev_resume env now u1 u2 (pd_task p) (A_page answer) (sy_vault y) = Some (?s, ?out)"
    using assms(3,5,6) by (auto simp: ev_resume_def page_resume_def unlock_catch_def unlock_returns_def)
  have inv: "distinct (unlock_refs y)" "?r \<in> set (unlock_refs y)" "?r < ev_nextRef (sy_vault y)" "\<not> is_current (sy_vault y) ?r"
    using ref_inv_reachable [OF assms(1)] assms(2,3) by (auto simp: ref_inv_def unlock_refs_def map_filter_append)
  have "gone ?r ?y1"
    using inv assms(2,3) by (auto simp: gone_def unlock_refs_def map_filter_append current_None)
  then have "host_of (sy_vault y2) ?r = host_of (sy_vault y) ?r" if "ev_steps env ?y1 y2" for y2
    using gone_steps [OF that] dispose_untouched [OF inv(4), of env] by (auto simp: untouched_def)
  with resume show ?thesis by (auto simp: ev_isUnlocked_def)
qed

theorem failed_load_keeps_worker_session_witness:
  "\<exists>s out. ev_resume sample_env 5000 [] [] (U_page sample_load None []) (A_page None) sample_loading = Some (s, out) \<and>
     \<not> ev_isUnlocked s \<and> host_of s 0 = Some \<lparr>h_sessions = [7], h_wasm = ()\<rparr>"
proof -
  have "withDeadline None NETWORK_DEADLINE_MS = Inl (JsError ''network deadline exceeded'')" by (simp add: withDeadline_def)
  from failed_load_keeps_worker_session [OF loading_reachable, of "[]" "sample_call\<lparr>pd_task := U_page sample_load None []\<rparr>" "[]"
      sample_load None "[]" 5000 None, OF _ _ _ this]
  obtain s out where "ev_resume sample_env 5000 [] [] (U_page sample_load None []) (A_page None) sample_loading = Some (s, out)"
    "\<not> ev_isUnlocked s" "host_of s 0 = host_of sample_loading 0"
    using ev_refl by (fastforce simp: loading_sys_def sample_load_def sample_ctx_def)
  then show ?thesis by (simp add: sample_loading_def host_of_def)
qed

end
