(* ===== verification/Backend_Sync.thy ===== *)
theory Backend_Sync
  imports Account_Bundle Contracts
begin

text \<open>
  The sync service of the backend (\<open>apps/backend/src/sync\<close>): the store over its PostgreSQL tables and
  the two routes, with the base64 codec of \<open>apps/backend/src/auth/codec.mjs\<close>.

  A table is a map from its primary key, in the order of insertion; a query is a function on the
  tables.  In this theory a request runs alone; \<open>Backend_Concurrency\<close> cuts \<open>applyMutation\<close> at its
  queries and interleaves transactions.  \<open>now\<close> is the time of the transaction, \<open>iso_date\<close> is
  \<open>new Date (t).toISOString ()\<close>, and \<open>to_number\<close> is \<open>Number\<close> on a string where the result is an
  integer.  A database error leaves a handler as status 500.
\<close>


section \<open>Codec\<close>

text \<open>
  \<open>Buffer.from (body, "base64")\<close> on a text that passed the check: groups of four characters of the
  alphabet, the last one possibly padded.
\<close>

definition backend_decodeB64 :: "string \<Rightarrow> bytes option" where
  "backend_decodeB64 v =
     (if \<not> is_prefix B64_PREFIX v then None
      else
        (let body = drop (length B64_PREFIX) v; tail = dropWhile b64_digit body
         in if \<not> (length tail \<le> 2 \<and> list_all (\<lambda>c. c = CHR ''='') tail) \<or> length body mod 4 \<noteq> 0 then None
            else (case atob body of None \<Rightarrow> None | Some ns \<Rightarrow> Some (map word_of_nat ns))))"

definition backend_encodeB64 :: "bytes \<Rightarrow> string" where
  "backend_encodeB64 bs = B64_PREFIX @ btoa (map unat bs)"


section \<open>Tables\<close>

record item_row =
  ir_vault_id :: id
  ir_item_id :: id
  ir_ciphertext :: bytes
  ir_envelope_version :: string
  ir_revision :: int
  ir_deleted :: bool
  ir_created_at :: epoch_ms
  ir_updated_at :: epoch_ms
  ir_sequence :: nat

datatype mutation_body = Body_item item_record | Body_conflict conflict

record outcome_row =
  or_vault_id :: id
  or_status_code :: int
  or_response_body :: mutation_body

record sync_db =
  db_vaults :: "(id, id) js_map"
  db_items :: "(id \<times> id, item_row) js_map"
  db_sequence :: nat
  db_outcomes :: "(id \<times> id, outcome_row) js_map"

definition sync_db_empty :: sync_db where
  "sync_db_empty = \<lparr>db_vaults = [], db_items = [], db_sequence = 0, db_outcomes = []\<rparr>"

definition toItemRecord :: "(epoch_ms \<Rightarrow> string) \<Rightarrow> item_row \<Rightarrow> item_record" where
  "toItemRecord iso_date row =
     \<lparr>itemId = ir_item_id row, vaultId = ir_vault_id row, ciphertext = backend_encodeB64 (ir_ciphertext row),
      envelopeVersion = ir_envelope_version row, revision = ir_revision row, deleted = ir_deleted row,
      createdAt = iso_date (ir_created_at row), updatedAt = iso_date (ir_updated_at row)\<rparr>"


section \<open>Queries\<close>

definition ensureVaultOwnership :: "id \<Rightarrow> id \<Rightarrow> sync_db \<Rightarrow> sync_db \<times> bool" where
  "ensureVaultOwnership account vault db =
     (let db1 = (case map_of (db_vaults db) vault of
                   None \<Rightarrow> db\<lparr>db_vaults := AList.update vault account (db_vaults db)\<rparr>
                 | Some _ \<Rightarrow> db)
      in (db1, map_of (db_vaults db1) vault = Some account))"

definition vaultOwnedBy :: "id \<Rightarrow> id \<Rightarrow> sync_db \<Rightarrow> bool" where
  "vaultOwnedBy account vault db \<longleftrightarrow> map_of (db_vaults db) vault = Some account"

definition findMutationOutcome :: "id \<Rightarrow> id \<Rightarrow> sync_db \<Rightarrow> outcome_row option" where
  "findMutationOutcome account mid db = map_of (db_outcomes db) (account, mid)"

text \<open>The primary key makes a second insertion fail.\<close>

definition recordMutationOutcome :: "id \<Rightarrow> id \<Rightarrow> id \<Rightarrow> int \<Rightarrow> mutation_body \<Rightarrow> sync_db \<Rightarrow> sync_db option" where
  "recordMutationOutcome account mid vault status body db =
     (if map_of (db_outcomes db) (account, mid) \<noteq> None then None
      else Some (db\<lparr>db_outcomes := AList.update (account, mid)
        \<lparr>or_vault_id = vault, or_status_code = status, or_response_body = body\<rparr> (db_outcomes db)\<rparr>))"

definition getItemForUpdate :: "id \<Rightarrow> id \<Rightarrow> sync_db \<Rightarrow> item_row option" where
  "getItemForUpdate vault item db = map_of (db_items db) (vault, item)"

text \<open>
  \<open>INSERT ... ON CONFLICT DO UPDATE\<close>: the values of the insertion are computed first, so an update
  draws two numbers from the sequence.
\<close>

definition upsertItem ::
  "epoch_ms \<Rightarrow> id \<Rightarrow> id \<Rightarrow> bytes \<Rightarrow> string \<Rightarrow> int \<Rightarrow> bool \<Rightarrow> sync_db \<Rightarrow> sync_db \<times> item_row" where
  "upsertItem now vault item blob envelope rv del db =
     (let n = db_sequence db + 1;
          fresh = \<lparr>ir_vault_id = vault, ir_item_id = item, ir_ciphertext = blob, ir_envelope_version = envelope,
            ir_revision = rv, ir_deleted = del, ir_created_at = now, ir_updated_at = now, ir_sequence = n\<rparr>;
          (row, m) = (case map_of (db_items db) (vault, item) of
                        None \<Rightarrow> (fresh, n)
                      | Some old \<Rightarrow> (fresh\<lparr>ir_created_at := ir_created_at old, ir_sequence := n + 1\<rparr>, n + 1))
      in (db\<lparr>db_items := AList.update (vault, item) row (db_items db), db_sequence := m\<rparr>, row))"

definition list_changes :: "id \<Rightarrow> nat \<Rightarrow> nat \<Rightarrow> sync_db \<Rightarrow> item_row list" where
  "list_changes vault after limit db =
     take limit (sort_key ir_sequence
       (filter (\<lambda>r. ir_vault_id r = vault \<and> ir_sequence r > after) (map_values (db_items db))))"


section \<open>Validation\<close>

definition isValidMutation :: "jsval \<Rightarrow> mutation option" where
  "isValidMutation body =
     (case body of
        JObj r \<Rightarrow> do {
          m \<leftarrow> jstring (jget r ''mutationId'');
          i \<leftarrow> jstring (jget r ''itemId'');
          v \<leftarrow> jstring (jget r ''vaultId'');
          b \<leftarrow> jint (jget r ''baseRevision'');
          c \<leftarrow> jstring (jget r ''ciphertext'');
          e \<leftarrow> jstring (jget r ''envelopeVersion'');
          d \<leftarrow> jbool (jget r ''deleted'');
          if id_pattern m \<and> id_pattern i \<and> id_pattern v \<and> b \<ge> 0 \<and> b64_pattern c \<and> e = ''crypto-envelope/v1''
          then Some \<lparr>mut_mutationId = m, mut_itemId = i, mut_vaultId = v, mut_baseRevision = b, mut_ciphertext = c,
            mut_envelopeVersion = e, mut_deleted = d\<rparr>
          else None
        }
      | _ \<Rightarrow> None)"

text \<open>\<open>base64url\<close> without padding, and the lenient decoder, which takes both alphabets and skips anything else.\<close>

definition url_char :: "char \<Rightarrow> char" where
  "url_char c = (if c = CHR ''+'' then CHR ''-'' else if c = CHR ''/'' then CHR ''_'' else c)"

definition plain_char :: "char \<Rightarrow> char" where
  "plain_char c = (if c = CHR ''-'' then CHR ''+'' else if c = CHR ''_'' then CHR ''/'' else c)"

definition base64url :: "nat list \<Rightarrow> string" where
  "base64url bs = map (url_char \<circ> sextet_char) (encode_sextets bs)"

text \<open>A single left-over character carries no byte.\<close>

definition whole_sextets :: "nat list \<Rightarrow> nat list" where
  "whole_sextets ns = (if length ns mod 4 = 1 then butlast ns else ns)"

definition from_base64url :: "string \<Rightarrow> nat list" where
  "from_base64url s =
     (case decode_sextets (whole_sextets (List.map_filter (char_sextet \<circ> plain_char) s)) of
        None \<Rightarrow> []
      | Some bs \<Rightarrow> bs)"

definition encodeCursor :: "nat \<Rightarrow> string" where
  "encodeCursor n = base64url (map of_char (string_of_nat n))"

text \<open>Only ASCII digits pass the check, so the text is that of the bytes.\<close>

definition decodeCursor :: "string \<Rightarrow> nat option" where
  "decodeCursor cursor =
     (if length cursor = 0 then None
      else
        (let decoded = from_base64url cursor
         in if decoded \<noteq> [] \<and> list_all (\<lambda>b. 48 \<le> b \<and> b \<le> 57) decoded
            then Some (nat_of_string (map char_of decoded)) else None))"


section \<open>Routes\<close>

datatype apply_outcome =
    Definite int mutation_body
  | Apply_not_found
  | Apply_bad_request

text \<open>
  One mutation in one transaction, alone.  \<open>None\<close>: a query fails and the transaction is rolled back.
  The vault row that \<open>ensureVaultOwnership\<close> may have created is committed also when the mutation is
  then refused as a bad request.
\<close>

definition applyMutation ::
  "(epoch_ms \<Rightarrow> string) \<Rightarrow> epoch_ms \<Rightarrow> id \<Rightarrow> id \<Rightarrow> mutation \<Rightarrow> bytes \<Rightarrow> sync_db \<Rightarrow> (sync_db \<times> apply_outcome) option" where
  "applyMutation iso_date now account vault m blob db =
     (case findMutationOutcome account (mut_mutationId m) db of
        Some r \<Rightarrow> Some (db, Definite (or_status_code r) (or_response_body r))
      | None \<Rightarrow>
          (case ensureVaultOwnership account vault db of
             (db1, owns) \<Rightarrow>
               if \<not> owns then Some (db1, Apply_not_found)
               else
                 (let existing = getItemForUpdate vault (mut_itemId m) db1;
                      currentRevision = (case existing of None \<Rightarrow> 0 | Some row \<Rightarrow> ir_revision row)
                  in if mut_baseRevision m \<noteq> currentRevision
                     then (case existing of
                             None \<Rightarrow> Some (db1, Apply_bad_request)
                           | Some row \<Rightarrow>
                               (let body = Body_conflict \<lparr>cf_mutationId = mut_mutationId m, cf_current = toItemRecord iso_date row,
                                      cf_attempted = m\<rparr>
                                in map_option (\<lambda>db2. (db2, Definite 409 body))
                                     (recordMutationOutcome account (mut_mutationId m) vault 409 body db1)))
                     else (case upsertItem now vault (mut_itemId m) blob (mut_envelopeVersion m) (currentRevision + 1)
                                  (mut_deleted m) db1 of
                             (db2, row) \<Rightarrow>
                               (let body = Body_item (toItemRecord iso_date row)
                                in map_option (\<lambda>db3. (db3, Definite 201 body))
                                     (recordMutationOutcome account (mut_mutationId m) vault 201 body db2))))))"

datatype sync_response =
    Sync_mutation int mutation_body
  | Sync_page change_page
  | Sync_bad_request
  | Sync_not_found
  | Sync_failed

definition post_item ::
  "(epoch_ms \<Rightarrow> string) \<Rightarrow> epoch_ms \<Rightarrow> id \<Rightarrow> id \<Rightarrow> jsval \<Rightarrow> sync_db \<Rightarrow> sync_db \<times> sync_response" where
  "post_item iso_date now account vault body db =
     (case isValidMutation body of
        None \<Rightarrow> (db, Sync_bad_request)
      | Some m \<Rightarrow>
          if \<not> id_pattern vault \<or> mut_vaultId m \<noteq> vault then (db, Sync_bad_request)
          else
            (case backend_decodeB64 (mut_ciphertext m) of
               None \<Rightarrow> (db, Sync_bad_request)
             | Some blob \<Rightarrow>
                 (case findMutationOutcome account (mut_mutationId m) db of
                    Some r \<Rightarrow> (db, Sync_mutation (or_status_code r) (or_response_body r))
                  | None \<Rightarrow>
                      (case applyMutation iso_date now account vault m blob db of
                         None \<Rightarrow> (db, Sync_failed)
                       | Some (db1, Definite status b) \<Rightarrow> (db1, Sync_mutation status b)
                       | Some (db1, Apply_not_found) \<Rightarrow> (db1, Sync_not_found)
                       | Some (db1, Apply_bad_request) \<Rightarrow> (db1, Sync_bad_request)))))"

definition MAX_BIGINT :: nat where "MAX_BIGINT = 2 ^ 63 - 1"

definition next_cursor :: "string option \<Rightarrow> item_row list \<Rightarrow> string" where
  "next_cursor cursor rows =
     (if rows \<noteq> [] then encodeCursor (ir_sequence (last rows))
      else case cursor of Some c \<Rightarrow> c | None \<Rightarrow> encodeCursor 0)"

definition get_changes ::
  "(epoch_ms \<Rightarrow> string) \<Rightarrow> (string \<Rightarrow> int option) \<Rightarrow> id \<Rightarrow> id \<Rightarrow> string option \<Rightarrow> string option \<Rightarrow> sync_db \<Rightarrow> sync_response" where
  "get_changes iso_date to_number account vault cursor limitRaw db =
     (if \<not> id_pattern vault then Sync_bad_request
      else
        (case (case cursor of None \<Rightarrow> Some 0 | Some c \<Rightarrow> decodeCursor c) of
           None \<Rightarrow> Sync_bad_request
         | Some after \<Rightarrow>
             (case (case limitRaw of
                      None \<Rightarrow> Some 100
                    | Some l \<Rightarrow> (case to_number l of
                                 None \<Rightarrow> None
                               | Some n \<Rightarrow> if n < 1 \<or> n > 200 then None else Some (nat n))) of
                None \<Rightarrow> Sync_bad_request
              | Some limit \<Rightarrow>
                  if \<not> vaultOwnedBy account vault db then Sync_not_found
                  else if after > MAX_BIGINT then Sync_failed
                  else
                    (let rows = list_changes vault after limit db
                     in Sync_page \<lparr>changes = map (toItemRecord iso_date) rows, nextCursor = Some (next_cursor cursor rows)\<rparr>))))"


section \<open>Cursors\<close>

lemma plain_url_char: "n < 64 \<Longrightarrow> plain_char (url_char (sextet_char n)) = sextet_char n"
proof -
  have "list_all (\<lambda>n. plain_char (url_char (sextet_char n)) = sextet_char n) [0..<64]" by code_simp
  then show "n < 64 \<Longrightarrow> ?thesis" by (simp add: list_all_iff)
qed

lemma from_base64url_base64url:
  assumes "list_all (\<lambda>b. b < 256) bs"
  shows "from_base64url (base64url bs) = bs"
proof -
  have bound: "list_all (\<lambda>n. n < 64) (encode_sextets bs)" by (rule encode_sextets_bound [OF assms])
  have "List.map_filter (char_sextet \<circ> plain_char) (map (url_char \<circ> sextet_char) ns) = ns"
    if "list_all (\<lambda>n. n < 64) ns" for ns
    using that by (induction ns) (auto simp: plain_url_char)
  from this [OF bound] have "List.map_filter (char_sextet \<circ> plain_char) (base64url bs) = encode_sextets bs"
    by (simp add: base64url_def)
  moreover have "length (encode_sextets bs) mod 4 \<noteq> 1"
    by (induction bs rule: encode_sextets.induct) auto
  ultimately show ?thesis
    by (simp add: from_base64url_def whole_sextets_def decode_encode_sextets [OF assms])
qed

lemma decodeCursor_encodeCursor: "decodeCursor (encodeCursor n) = Some n"
proof -
  let ?bs = "map of_char (string_of_nat n) :: nat list"
  have d: "list_all (\<lambda>b. 48 \<le> b \<and> b \<le> 57) ?bs"
  proof -
    have "list_all (\<lambda>c. 48 \<le> (of_char c :: nat) \<and> (of_char c :: nat) \<le> 57) ''0123456789''" by code_simp
    then show ?thesis using string_of_nat_digits [of n] by (auto simp: list_all_iff)
  qed
  then have "list_all (\<lambda>b. b < 256) ?bs" by (auto simp: list_all_iff)
  from from_base64url_base64url [OF this] have dec: "from_base64url (encodeCursor n) = ?bs"
    by (simp add: encodeCursor_def)
  have ne: "?bs \<noteq> []" by (simp add: string_of_nat_nonempty)
  have "from_base64url [] = []" by (simp add: from_base64url_def whole_sextets_def)
  with dec ne have "encodeCursor n \<noteq> []" by force
  with dec ne d show ?thesis by (simp add: decodeCursor_def Let_def)
qed

end
