(* ===== verification/Backend_Service.thy ===== *)
theory Backend_Service
  imports Backend_Sync Api_Client Sync_Converge
begin

text \<open>
  Runs of the sync service: the invariant of its tables, what every request keeps of them, the change
  feed as the list of pages a client reads, and the service as the network of the sync engine.
\<close>


section \<open>Requests\<close>

datatype sync_request =
    Post_item epoch_ms id id jsval
  | Get_changes id id "string option" "string option"

fun serve ::
  "(epoch_ms \<Rightarrow> string) \<Rightarrow> (string \<Rightarrow> int option) \<Rightarrow> sync_request \<Rightarrow> sync_db \<Rightarrow> sync_db \<times> sync_response" where
  "serve iso_date to_number (Post_item now account vault body) db = post_item iso_date now account vault body db"
| "serve iso_date to_number (Get_changes account vault cursor limit) db =
     (db, get_changes iso_date to_number account vault cursor limit db)"

fun request_account :: "sync_request \<Rightarrow> id" where
  "request_account (Post_item _ a _ _) = a"
| "request_account (Get_changes a _ _ _) = a"

definition serve_all ::
  "(epoch_ms \<Rightarrow> string) \<Rightarrow> (string \<Rightarrow> int option) \<Rightarrow> sync_request list \<Rightarrow> sync_db \<Rightarrow> sync_db" where
  "serve_all iso_date to_number reqs db = foldl (\<lambda>db r. fst (serve iso_date to_number r db)) db reqs"

lemma serve_all_simps [simp]:
  "serve_all iso_date to_number [] db = db"
  "serve_all iso_date to_number (r # rs) db = serve_all iso_date to_number rs (fst (serve iso_date to_number r db))"
  by (simp_all add: serve_all_def)


section \<open>Invariant\<close>

definition row_of :: "sync_db \<Rightarrow> id \<Rightarrow> id \<Rightarrow> item_row option" where
  "row_of db v i = map_of (db_items db) (v, i)"

definition row_ok :: "sync_db \<Rightarrow> id \<Rightarrow> id \<Rightarrow> item_row \<Rightarrow> bool" where
  "row_ok db v i r \<longleftrightarrow>
     ir_vault_id r = v \<and> ir_item_id r = i \<and> ir_revision r \<ge> 1 \<and> 1 \<le> ir_sequence r \<and> ir_sequence r \<le> db_sequence db \<and>
     map_of (db_vaults db) v \<noteq> None"

definition sync_inv :: "sync_db \<Rightarrow> bool" where
  "sync_inv db \<longleftrightarrow>
     map_wf (db_items db) \<and> (\<forall>v i r. row_of db v i = Some r \<longrightarrow> row_ok db v i r) \<and>
     (\<forall>v i r v' i' r'. row_of db v i = Some r \<longrightarrow> row_of db v' i' = Some r' \<longrightarrow> ir_sequence r = ir_sequence r' \<longrightarrow>
        v = v' \<and> i = i')"

text \<open>What the tables keep from one moment to a later one.\<close>

definition advances :: "sync_db \<Rightarrow> sync_db \<Rightarrow> bool" where
  "advances db db' \<longleftrightarrow>
     db_sequence db \<le> db_sequence db' \<and>
     (\<forall>v a. map_of (db_vaults db) v = Some a \<longrightarrow> map_of (db_vaults db') v = Some a) \<and>
     (\<forall>k o'. map_of (db_outcomes db) k = Some o' \<longrightarrow> map_of (db_outcomes db') k = Some o') \<and>
     (\<forall>v i r. row_of db v i = Some r \<longrightarrow> (\<exists>r'. row_of db' v i = Some r' \<and> (r' = r \<or> ir_revision r < ir_revision r'))) \<and>
     (\<forall>v i r'. row_of db' v i = Some r' \<longrightarrow> row_of db v i = Some r' \<or> db_sequence db < ir_sequence r')"

lemma advances_refl [simp]: "advances db db"
  by (auto simp: advances_def)

lemma advancesD:
  assumes "advances db db'"
  shows "db_sequence db \<le> db_sequence db'"
    "\<And>v a. map_of (db_vaults db) v = Some a \<Longrightarrow> map_of (db_vaults db') v = Some a"
    "\<And>k x. map_of (db_outcomes db) k = Some x \<Longrightarrow> map_of (db_outcomes db') k = Some x"
    "\<And>v i r. row_of db v i = Some r \<Longrightarrow> \<exists>r'. row_of db' v i = Some r' \<and> (r' = r \<or> ir_revision r < ir_revision r')"
    "\<And>v i r'. row_of db' v i = Some r' \<Longrightarrow> row_of db v i = Some r' \<or> db_sequence db < ir_sequence r'"
  using assms unfolding advances_def by blast+

lemma advances_trans:
  assumes "advances a b" "advances b c"
  shows "advances a c"
proof -
  note ab = advancesD [OF assms(1)] and bc = advancesD [OF assms(2)]
  have "\<exists>r'. row_of c v i = Some r' \<and> (r' = r \<or> ir_revision r < ir_revision r')" if a: "row_of a v i = Some r" for v i r
  proof -
    from ab(4) [OF a] obtain q where q: "row_of b v i = Some q" "q = r \<or> ir_revision r < ir_revision q" by blast
    from bc(4) [OF q(1)] q(2) show ?thesis by auto
  qed
  moreover have "row_of a v i = Some r' \<or> db_sequence a < ir_sequence r'" if c: "row_of c v i = Some r'" for v i r'
    using bc(5) [OF c] ab(1) ab(5) [of v i r'] by auto
  ultimately show ?thesis
    using order_trans [OF ab(1) bc(1)] ab(2,3) bc(2,3) unfolding advances_def by blast
qed

lemma sync_inv_empty [simp]: "sync_inv sync_db_empty"
  by (simp add: sync_inv_def sync_db_empty_def row_of_def)


section \<open>Effects of the queries\<close>

lemma ensure_effect:
  assumes "ensureVaultOwnership a v db = (db1, owns)"
  shows "db_items db1 = db_items db" "db_sequence db1 = db_sequence db" "db_outcomes db1 = db_outcomes db"
    "\<And>u b. map_of (db_vaults db) u = Some b \<Longrightarrow> map_of (db_vaults db1) u = Some b"
    "map_of (db_vaults db1) v \<noteq> None" "owns \<longleftrightarrow> map_of (db_vaults db1) v = Some a"
    "owns \<longleftrightarrow> map_of (db_vaults db) v \<in> {None, Some a}"
  using assms by (auto simp: ensureVaultOwnership_def Let_def split: option.splits)

lemma record_effect:
  assumes "recordMutationOutcome a m v st b db = Some db1"
  shows "db_items db1 = db_items db" "db_sequence db1 = db_sequence db" "db_vaults db1 = db_vaults db"
    "map_of (db_outcomes db) (a, m) = None"
    "map_of (db_outcomes db1) = (map_of (db_outcomes db))((a, m) \<mapsto> \<lparr>or_vault_id = v, or_status_code = st, or_response_body = b\<rparr>)"
  using assms by (auto simp: recordMutationOutcome_def split: if_splits)

lemma upsert_effect:
  assumes "upsertItem now v i blob env rv del db = (db1, row)"
  shows "db_vaults db1 = db_vaults db" "db_outcomes db1 = db_outcomes db"
    "db_items db1 = AList.update (v, i) row (db_items db)" "db_sequence db < ir_sequence row"
    "ir_sequence row = db_sequence db1" "ir_revision row = rv" "ir_vault_id row = v" "ir_item_id row = i"
    "ir_ciphertext row = blob" "ir_deleted row = del" "ir_envelope_version row = env"
  using assms by (auto simp: upsertItem_def Let_def split: option.splits)

lemma row_of_update: "db_items db1 = AList.update (v, i) row (db_items db) \<Longrightarrow>
  row_of db1 u j = (if u = v \<and> j = i then Some row else row_of db u j)"
  by (auto simp: row_of_def)

lemma sync_inv_tables:
  assumes "sync_inv db" "db_items db1 = db_items db" "db_sequence db1 = db_sequence db"
    "\<And>u b. map_of (db_vaults db) u = Some b \<Longrightarrow> map_of (db_vaults db1) u = Some b"
  shows "sync_inv db1"
proof -
  have "row_ok db1 v i r" if "row_ok db v i r" for v i r
    using that assms(3) assms(4) [of v] by (auto simp: row_ok_def)
  then show ?thesis using assms(1,2) by (auto simp: sync_inv_def row_of_def)
qed

lemma upsert_inv:
  assumes "sync_inv db" "upsertItem now v i blob env rv del db = (db1, row)" "map_of (db_vaults db) v \<noteq> None"
    "rv = (case row_of db v i of None \<Rightarrow> 0 | Some r \<Rightarrow> ir_revision r) + 1"
  shows "sync_inv db1" "advances db db1"
proof -
  note e = upsert_effect [OF assms(2)]
  note rows = row_of_update [OF e(3)]
  have old: "row_of db u j = Some r \<Longrightarrow> row_ok db u j r" for u j r using assms(1) by (simp add: sync_inv_def)
  have rv: "rv \<ge> 1" using assms(4) old by (fastforce simp: row_ok_def split: option.splits)
  have small: "row_of db u j = Some r \<Longrightarrow> ir_sequence r < ir_sequence row" for u j r
    using old [of u j r] e(4) by (simp add: row_ok_def)
  have "row_ok db1 u j r" if "row_of db1 u j = Some r" for u j r
    using that old [of u j r] e rv assms(3) by (auto simp: rows row_ok_def split: if_splits)
  moreover have "u = u' \<and> j = j'"
    if "row_of db1 u j = Some r" "row_of db1 u' j' = Some r'" "ir_sequence r = ir_sequence r'" for u j r u' j' r'
    using that small assms(1) unfolding rows sync_inv_def by (auto split: if_splits) (metis less_irrefl)+
  moreover have "map_wf (db_items db1)" using assms(1) by (simp add: e(3) sync_inv_def)
  ultimately show "sync_inv db1" unfolding sync_inv_def by blast
  show "advances db db1"
    using e assms(4) by (auto simp: advances_def rows split: option.splits)
qed

lemma apply_effect:
  assumes "sync_inv db" "applyMutation iso_date now a v m blob db = Some (db1, out)"
  shows "sync_inv db1 \<and> advances db db1"
proof (cases "findMutationOutcome a (mut_mutationId m) db")
  case (Some r)
  then show ?thesis using assms by (simp add: applyMutation_def)
next
  case None
  obtain db0 owns where ens: "ensureVaultOwnership a v db = (db0, owns)" by (cases "ensureVaultOwnership a v db")
  note e = ensure_effect [OF ens]
  have inv0: "sync_inv db0" using sync_inv_tables [OF assms(1) e(1,2)] e(4) by blast
  have adv0: "advances db db0" using e by (auto simp: advances_def row_of_def)
  have recorded: "sync_inv db' \<and> advances db db'"
    if "recordMutationOutcome a (mut_mutationId m) v st b db2 = Some db'" "sync_inv db2" "advances db db2" for st b db2 db'
  proof -
    note r = record_effect [OF that(1)]
    have "advances db2 db'" using r by (auto simp: advances_def row_of_def)
    moreover have "sync_inv db'" using sync_inv_tables [OF that(2) r(1,2)] r(3) by simp
    ultimately show ?thesis using advances_trans that(3) by blast
  qed
  obtain db2 row where ups:
    "upsertItem now v (mut_itemId m) blob (mut_envelopeVersion m)
       ((case row_of db0 v (mut_itemId m) of None \<Rightarrow> 0 | Some r \<Rightarrow> ir_revision r) + 1) (mut_deleted m) db0 = (db2, row)"
    by (meson surj_pair)
  have "sync_inv db2" "advances db db2"
    using upsert_inv [OF inv0 ups e(5) refl] advances_trans [OF adv0] by blast+
  with assms(2) None ens ups inv0 adv0 recorded show ?thesis
    by (auto simp: applyMutation_def Let_def getItemForUpdate_def row_of_def split: if_splits option.splits)
qed

lemma post_effect:
  assumes "sync_inv db" "post_item iso_date now a v body db = (db1, resp)"
  shows "sync_inv db1 \<and> advances db db1"
proof (cases "db1 = db")
  case True
  then show ?thesis using assms(1) by simp
next
  case False
  then obtain m blob out where "applyMutation iso_date now a v m blob db = Some (db1, out)"
    using assms(2) by (auto simp: post_item_def split: option.splits if_splits apply_outcome.splits)
  from apply_effect [OF assms(1) this] show ?thesis .
qed

lemma serve_effect:
  assumes "sync_inv db"
  shows "sync_inv (fst (serve iso_date to_number r db)) \<and> advances db (fst (serve iso_date to_number r db))"
  using assms post_effect [OF assms]
  by (cases r) (auto split: prod.splits, metis fst_conv prod.exhaust_sel, metis fst_conv prod.exhaust_sel)

lemma serve_all_effect:
  assumes "sync_inv db"
  shows "sync_inv (serve_all iso_date to_number rs db) \<and> advances db (serve_all iso_date to_number rs db)"
  using assms
proof (induction rs arbitrary: db)
  case (Cons r rs)
  then show ?case using serve_effect [OF Cons.prems, of iso_date to_number r] advances_trans by fastforce
qed simp


section \<open>The change feed\<close>

definition PAGE_SIZE :: nat where "PAGE_SIZE = 100"

text \<open>The rows of a vault after a sequence number, oldest change first.\<close>

definition rows_after :: "sync_db \<Rightarrow> id \<Rightarrow> nat \<Rightarrow> item_row list" where
  "rows_after db v n =
     sort_key ir_sequence (filter (\<lambda>r. ir_vault_id r = v \<and> ir_sequence r > n) (map_values (db_items db)))"

lemma list_changes_rows: "list_changes v n k db = take k (rows_after db v n)"
  by (simp add: list_changes_def rows_after_def)

lemma set_rows_after:
  assumes "sync_inv db"
  shows "r \<in> set (rows_after db v n) \<longleftrightarrow> (\<exists>i. row_of db v i = Some r) \<and> ir_sequence r > n"
proof -
  have "map_wf (db_items db)" using assms by (simp add: sync_inv_def)
  from map_values_ran [OF this]
  have "r \<in> set (map_values (db_items db)) \<longleftrightarrow> (\<exists>u i. row_of db u i = Some r)"
    unfolding row_of_def by (auto simp: ran_def)
  moreover have "row_of db u i = Some r \<Longrightarrow> ir_vault_id r = u" for u i
    using assms by (auto simp: sync_inv_def row_ok_def)
  ultimately show ?thesis by (auto simp: rows_after_def)
qed

lemma rows_after_distinct:
  assumes "sync_inv db"
  shows "distinct (map ir_sequence (rows_after db v n))"
proof -
  let ?rs = "map_values (db_items db)"
  have "distinct (map ir_sequence ?rs)"
  proof -
    have wf: "map_wf (db_items db)" using assms by (simp add: sync_inv_def)
    have "inj_on (ir_sequence \<circ> snd) (set (db_items db))"
    proof (rule inj_onI)
      fix x y assume xy: "x \<in> set (db_items db)" "y \<in> set (db_items db)" "(ir_sequence \<circ> snd) x = (ir_sequence \<circ> snd) y"
      then have "row_of db (fst (fst x)) (snd (fst x)) = Some (snd x)" "row_of db (fst (fst y)) (snd (fst y)) = Some (snd y)"
        using map_wf_mem [OF wf] by (simp_all add: row_of_def) (metis prod.collapse)+
      moreover from this xy(3) have "fst (fst x) = fst (fst y) \<and> snd (fst x) = snd (fst y)"
        using assms unfolding sync_inv_def by (metis comp_apply)
      ultimately show "x = y" by (auto simp: prod_eq_iff)
    qed
    moreover have "distinct (db_items db)" using wf by (simp add: map_wf_def distinct_map)
    ultimately show ?thesis by (simp add: distinct_map)
  qed
  then have "distinct (map ir_sequence (filter P ?rs))" for P by (simp add: distinct_map_filter)
  then show ?thesis by (simp add: rows_after_def distinct_map inj_on_def)
qed

lemma rows_after_sorted: "sorted (map ir_sequence (rows_after db v n))"
  by (simp add: rows_after_def)

lemma filter_after:
  assumes "sorted_wrt (<) (map f (ys @ zs))" "ys \<noteq> []"
  shows "filter (\<lambda>x. f (last ys) < (f x :: nat)) (ys @ zs) = zs"
proof -
  from assms(2) obtain us u where ys: "ys = us @ [u]" by (cases ys rule: rev_cases) auto
  have "\<forall>x \<in> set us. f x < f u" "\<forall>z \<in> set zs. f u < f z"
    using assms(1) by (auto simp: ys sorted_wrt_append sorted_wrt_map)
  then show ?thesis by (auto simp: ys filter_empty_conv intro!: filter_True dest: less_asym)
qed

lemma rows_after_strict: "sync_inv db \<Longrightarrow> sorted_wrt (<) (map ir_sequence (rows_after db v n))"
  using rows_after_sorted rows_after_distinct by (simp add: strict_sorted_iff)

lemma rows_after_filter: "n \<le> m \<Longrightarrow> rows_after db v m = filter (\<lambda>r. m < ir_sequence r) (rows_after db v n)"
  by (auto simp: rows_after_def filter_sort intro!: arg_cong [where f = "sort_key ir_sequence"] filter_cong)

lemma rows_after_page:
  assumes "sync_inv db" "rows_after db v n = ys @ zs" "ys \<noteq> []"
  shows "rows_after db v (ir_sequence (last ys)) = zs"
proof -
  have "last ys \<in> set (rows_after db v n)" using assms(2,3) by simp
  then have "n \<le> ir_sequence (last ys)" using set_rows_after [OF assms(1)] by auto
  then show ?thesis
    using rows_after_filter [of n _ db v] filter_after [of ir_sequence ys zs] rows_after_strict [OF assms(1), of v n] assms(2,3)
    by simp
qed


section \<open>The service as a network\<close>

text \<open>
  \<open>ApiClient\<close> with a valid session of \<open>account\<close>: statuses become outcomes or \<open>HttpError\<close>s.  The world is
  the database and the clock.
\<close>

definition server_mutate ::
  "(epoch_ms \<Rightarrow> string) \<Rightarrow> id \<Rightarrow> sync_db \<times> epoch_ms \<Rightarrow> id \<Rightarrow> mutation \<Rightarrow>
   (sync_db \<times> epoch_ms) \<times> (sdk_error + Sync_Engine.mutate_outcome)" where
  "server_mutate iso_date account w v m =
     (case post_item iso_date (snd w) account v (mutation_json m) (fst w) of
        (db, resp) \<Rightarrow>
          ((db, snd w),
           case resp of
             Sync_mutation st (Body_item r) \<Rightarrow> if st = 201 then Inr (Mutated r) else Inl (HttpError st)
           | Sync_mutation st (Body_conflict c) \<Rightarrow> if st = 409 then Inr (Mutate_conflict c) else Inl (HttpError st)
           | Sync_page _ \<Rightarrow> Inl (HttpError 200)
           | Sync_bad_request \<Rightarrow> Inl (HttpError 400)
           | Sync_not_found \<Rightarrow> Inl (HttpError 404)
           | Sync_failed \<Rightarrow> Inl (HttpError 500)))"

definition server_changes ::
  "(epoch_ms \<Rightarrow> string) \<Rightarrow> (string \<Rightarrow> int option) \<Rightarrow> id \<Rightarrow> sync_db \<times> epoch_ms \<Rightarrow> id \<Rightarrow> string option \<Rightarrow>
   (sync_db \<times> epoch_ms) \<times> (sdk_error + change_page)" where
  "server_changes iso_date to_number account w v cursor =
     (w, case get_changes iso_date to_number account v cursor None (fst w) of
           Sync_page p \<Rightarrow> Inr p
         | Sync_not_found \<Rightarrow> Inl (HttpError 404)
         | Sync_failed \<Rightarrow> Inl (HttpError 500)
         | _ \<Rightarrow> Inl (HttpError 400))"

definition server_api ::
  "(epoch_ms \<Rightarrow> string) \<Rightarrow> (string \<Rightarrow> int option) \<Rightarrow> id \<Rightarrow> (sync_db \<times> epoch_ms) sync_api" where
  "server_api iso_date to_number account =
     \<lparr>mutateItem = server_mutate iso_date account, listChanges = server_changes iso_date to_number account\<rparr>"

text \<open>The pages a reader of the feed gets.\<close>

definition page_of :: "(epoch_ms \<Rightarrow> string) \<Rightarrow> item_row list \<Rightarrow> change_page" where
  "page_of iso_date rows =
     \<lparr>changes = map (toItemRecord iso_date) rows, nextCursor = Some (encodeCursor (ir_sequence (last rows)))\<rparr>"

function feed_pages :: "(epoch_ms \<Rightarrow> string) \<Rightarrow> item_row list \<Rightarrow> change_page list" where
  "feed_pages iso_date rows =
     (if rows = [] then []
      else page_of iso_date (take PAGE_SIZE rows) # feed_pages iso_date (drop PAGE_SIZE rows))"
  by pat_completeness auto
termination by (relation "measure (length \<circ> snd)") (auto simp: PAGE_SIZE_def)

declare feed_pages.simps [simp del]

lemma feed_pages_changes: "feed_changes (feed_pages iso_date rows) = map (toItemRecord iso_date) rows"
proof (induction "iso_date" rows rule: feed_pages.induct)
  case (1 iso_date rows)
  show ?case
  proof (cases "rows = []")
    case True
    then show ?thesis by (simp add: feed_pages.simps feed_changes_def)
  next
    case False
    with 1 [OF False] show ?thesis
      by (subst feed_pages.simps) (simp add: feed_changes_def page_of_def flip: map_append)
  qed
qed

lemma feed_pages_length: "length (feed_pages iso_date rows) \<le> length rows"
proof (induction "iso_date" rows rule: feed_pages.induct)
  case (1 iso_date rows)
  show ?case
  proof (cases rows)
    case Nil
    then show ?thesis by (simp add: feed_pages.simps)
  next
    case (Cons r rs)
    with 1 have "length (feed_pages iso_date (drop PAGE_SIZE rows)) \<le> length rs" by (simp add: PAGE_SIZE_def)
    then show ?thesis using Cons by (subst feed_pages.simps) simp
  qed
qed

lemma server_serves:
  assumes "sync_inv db" "db_sequence db \<le> MAX_BIGINT" "vaultOwnedBy account v db" "id_pattern v"
    and "n \<le> db_sequence db" "cur = Some (encodeCursor n) \<or> cur = None \<and> n = 0 \<and> rows_after db v 0 \<noteq> []"
  shows "serves (server_api iso_date to_number account) (db, now) v cur (feed_pages iso_date (rows_after db v n))"
  using assms(5,6)
proof (induction "length (rows_after db v n)" arbitrary: n cur rule: less_induct)
  case less
  have after: "(case cur of None \<Rightarrow> Some 0 | Some c \<Rightarrow> decodeCursor c) = Some n"
    using less.prems(2) by (auto simp: decodeCursor_encodeCursor)
  let ?page = "take PAGE_SIZE (rows_after db v n)"
  have lc: "listChanges (server_api iso_date to_number account) (db, now) v cur =
      ((db, now), Inr \<lparr>changes = map (toItemRecord iso_date) ?page, nextCursor = Some (next_cursor cur ?page)\<rparr>)"
    using assms(2-4) less.prems(1) after
    by (simp add: server_api_def server_changes_def get_changes_def list_changes_rows Let_def PAGE_SIZE_def)
  show ?case
  proof (cases "rows_after db v n = []")
    case True
    then have "cur = Some (encodeCursor n)" using less.prems(2) by auto
    with True lc show ?thesis by (simp add: feed_pages.simps next_cursor_def)
  next
    case False
    then have ne: "?page \<noteq> []" by (simp add: PAGE_SIZE_def)
    let ?m = "ir_sequence (last ?page)"
    have mem: "last ?page \<in> set (rows_after db v n)" using ne by (metis last_in_set in_set_takeD)
    then have m: "n < ?m" "?m \<le> db_sequence db"
      using set_rows_after [OF assms(1)] assms(1) by (auto simp: sync_inv_def row_ok_def)
    have rest: "rows_after db v ?m = drop PAGE_SIZE (rows_after db v n)"
      by (rule rows_after_page [OF assms(1) append_take_drop_id [symmetric] ne])
    have diff: "Some (encodeCursor ?m) \<noteq> cur"
      using less.prems(2) m(1) decodeCursor_encodeCursor by (metis less_irrefl option.distinct(1) option.inject)
    have shorter: "length (rows_after db v ?m) < length (rows_after db v n)"
      unfolding rest using False by (simp add: PAGE_SIZE_def)
    have "serves (server_api iso_date to_number account) (db, now) v (Some (encodeCursor ?m))
        (feed_pages iso_date (rows_after db v ?m))"
      by (rule less.hyps [OF shorter m(2)]) simp
    with lc ne diff False show ?thesis
      by (subst feed_pages.simps) (simp add: page_of_def next_cursor_def rest)
  qed
qed

end
