(* ===== verification/Backend_Properties.thy ===== *)
theory Backend_Properties
  imports Backend_Service Sync_Properties
begin

text \<open>
  What the sync service guarantees when its transactions do not overlap: a mutation takes effect exactly
  once and only against the revision it was made for, a vault is its owner's alone, and the sync
  engine catches up with the service.
\<close>


section \<open>Mutations\<close>

definition current_revision :: "sync_db \<Rightarrow> id \<Rightarrow> id \<Rightarrow> int" where
  "current_revision db v i = (case row_of db v i of None \<Rightarrow> 0 | Some r \<Rightarrow> ir_revision r)"

text \<open>What an accepted or conflicting mutation has done to the rows.\<close>

definition applied ::
  "(epoch_ms \<Rightarrow> string) \<Rightarrow> id \<Rightarrow> mutation \<Rightarrow> sync_db \<Rightarrow> sync_db \<Rightarrow> int \<Rightarrow> mutation_body \<Rightarrow> bool" where
  "applied iso_date v m db db1 st b \<longleftrightarrow>
     (\<forall>u j. (u, j) \<noteq> (v, mut_itemId m) \<longrightarrow> row_of db1 u j = row_of db u j) \<and>
     (if mut_baseRevision m = current_revision db v (mut_itemId m)
      then st = 201 \<and> (\<exists>row. row_of db1 v (mut_itemId m) = Some row \<and> b = Body_item (toItemRecord iso_date row) \<and>
             ir_revision row = mut_baseRevision m + 1 \<and> ir_deleted row = mut_deleted m \<and>
             backend_decodeB64 (mut_ciphertext m) = Some (ir_ciphertext row))
      else st = 409 \<and> row_of db1 v (mut_itemId m) = row_of db v (mut_itemId m) \<and>
           (\<exists>row. row_of db v (mut_itemId m) = Some row \<and>
              b = Body_conflict \<lparr>cf_mutationId = mut_mutationId m, cf_current = toItemRecord iso_date row, cf_attempted = m\<rparr>))"

definition conflict_body :: "(epoch_ms \<Rightarrow> string) \<Rightarrow> mutation \<Rightarrow> item_row \<Rightarrow> mutation_body" where
  "conflict_body iso_date m row =
     Body_conflict \<lparr>cf_mutationId = mut_mutationId m, cf_current = toItemRecord iso_date row, cf_attempted = m\<rparr>"

lemma apply_cases:
  assumes "applyMutation iso_date now a v m blob db = Some (db1, out)"
    "findMutationOutcome a (mut_mutationId m) db = None" "ensureVaultOwnership a v db = (db0, owns)"
  obtains (refused) "db1 = db0" "out = Apply_not_found \<or> out = Apply_bad_request"
  | (conflict) row where owns "row_of db v (mut_itemId m) = Some row" "mut_baseRevision m \<noteq> ir_revision row"
      "recordMutationOutcome a (mut_mutationId m) v 409 (conflict_body iso_date m row) db0 = Some db1"
      "out = Definite 409 (conflict_body iso_date m row)"
  | (stored) db2 row where owns "mut_baseRevision m = current_revision db v (mut_itemId m)"
      "upsertItem now v (mut_itemId m) blob (mut_envelopeVersion m) (mut_baseRevision m + 1) (mut_deleted m) db0 = (db2, row)"
      "recordMutationOutcome a (mut_mutationId m) v 201 (Body_item (toItemRecord iso_date row)) db2 = Some db1"
      "out = Definite 201 (Body_item (toItemRecord iso_date row))"
proof (cases owns)
  case False
  then show ?thesis
    using assms(1) refused unfolding applyMutation_def assms(2,3) option.case prod.case by simp
next
  case True
  have get: "getItemForUpdate v (mut_itemId m) db0 = row_of db v (mut_itemId m)"
    using ensure_effect(1) [OF assms(3)] by (simp add: getItemForUpdate_def row_of_def)
  have cur: "(case row_of db v (mut_itemId m) of None \<Rightarrow> 0 | Some row \<Rightarrow> ir_revision row) =
      current_revision db v (mut_itemId m)" by (simp add: current_revision_def)
  note eq = assms(1) [unfolded applyMutation_def assms(2,3) option.case prod.case Let_def get cur]
  show ?thesis
  proof (cases "mut_baseRevision m = current_revision db v (mut_itemId m)")
    case base: True
    obtain db2 row where ups: "upsertItem now v (mut_itemId m) blob (mut_envelopeVersion m)
        (mut_baseRevision m + 1) (mut_deleted m) db0 = (db2, row)" by (meson surj_pair)
    have "map_option (\<lambda>db3. (db3, Definite 201 (Body_item (toItemRecord iso_date row))))
        (recordMutationOutcome a (mut_mutationId m) v 201 (Body_item (toItemRecord iso_date row)) db2) = Some (db1, out)"
      using eq True base ups by simp
    then show ?thesis using stored [OF True base ups] by auto
  next
    case False
    show ?thesis
    proof (cases "row_of db v (mut_itemId m)")
      case None
      then show ?thesis using eq True False refused by simp
    next
      case (Some row)
      then have "map_option (\<lambda>db2. (db2, Definite 409 (conflict_body iso_date m row)))
          (recordMutationOutcome a (mut_mutationId m) v 409 (conflict_body iso_date m row) db0) = Some (db1, out)"
        using eq True False by (simp add: conflict_body_def)
      moreover have "mut_baseRevision m \<noteq> ir_revision row" using Some False by (simp add: current_revision_def)
      ultimately show ?thesis using conflict [OF True Some] by auto
    qed
  qed
qed

lemma apply_applied:
  assumes "applyMutation iso_date now a v m blob db = Some (db1, Definite st b)"
    "findMutationOutcome a (mut_mutationId m) db = None" "backend_decodeB64 (mut_ciphertext m) = Some blob"
  shows "applied iso_date v m db db1 st b"
proof -
  obtain db0 owns where ens: "ensureVaultOwnership a v db = (db0, owns)" by (cases "ensureVaultOwnership a v db")
  have rows0: "row_of db0 = row_of db" using ensure_effect(1) [OF ens] by (simp add: row_of_def fun_eq_iff)
  from assms(1,2) ens show ?thesis
  proof (cases rule: apply_cases)
    case (conflict row)
    have "row_of db1 = row_of db" using record_effect(1) [OF conflict(4)] rows0 by (simp add: row_of_def fun_eq_iff)
    then show ?thesis using conflict(2,3,5) by (simp add: applied_def current_revision_def conflict_body_def)
  next
    case (stored db2 row)
    note u = upsert_effect [OF stored(3)]
    have "row_of db1 = row_of db2" using record_effect(1) [OF stored(4)] by (simp add: row_of_def fun_eq_iff)
    then show ?thesis
      using stored(2,5) u assms(3) row_of_update [OF u(3)] rows0 by (simp add: applied_def)
  qed auto
qed

lemma apply_recorded:
  assumes "applyMutation iso_date now a v m blob db = Some (db1, Definite st b)"
  shows "\<exists>r. findMutationOutcome a (mut_mutationId m) db1 = Some r \<and> or_status_code r = st \<and> or_response_body r = b"
proof (cases "findMutationOutcome a (mut_mutationId m) db")
  case (Some r)
  then show ?thesis using assms by (simp add: applyMutation_def)
next
  case None
  obtain db0 owns where ens: "ensureVaultOwnership a v db = (db0, owns)" by (cases "ensureVaultOwnership a v db")
  from assms None ens show ?thesis
    by (cases rule: apply_cases) (auto simp: findMutationOutcome_def dest!: record_effect(5))
qed

lemma post_mutationD:
  assumes "post_item iso_date now a v body db = (db1, Sync_mutation st b)"
  shows "\<exists>m blob. isValidMutation body = Some m \<and> id_pattern v \<and> mut_vaultId m = v \<and>
    backend_decodeB64 (mut_ciphertext m) = Some blob \<and>
    (case findMutationOutcome a (mut_mutationId m) db of
       None \<Rightarrow> applyMutation iso_date now a v m blob db = Some (db1, Definite st b)
     | Some r \<Rightarrow> db1 = db \<and> st = or_status_code r \<and> b = or_response_body r)"
  using assms by (auto simp: post_item_def split: option.splits if_splits apply_outcome.splits)

lemma post_replay:
  assumes "isValidMutation body = Some m" "id_pattern v" "mut_vaultId m = v" "backend_decodeB64 (mut_ciphertext m) = Some blob"
    "findMutationOutcome a (mut_mutationId m) db = Some r"
  shows "post_item iso_date now a v body db = (db, Sync_mutation (or_status_code r) (or_response_body r))"
  using assms by (simp add: post_item_def)

text \<open>
  C28.  A mutation takes effect exactly once.  The first time the service answers a mutation, it has
  either stored the new version, one revision above the one the client named and with the bytes it
  sent, because that was the current revision, or it has changed nothing and returned the current
  record as a conflict; in both cases no other row changes.  Whatever other requests, of anyone,
  follow, sending the same request again changes nothing and gets the very same answer.
\<close>
theorem mutation_exactly_once:
  assumes "sync_inv db" "post_item iso_date now a v body db = (db1, Sync_mutation st b)"
    and "isValidMutation body = Some m" "findMutationOutcome a (mut_mutationId m) db = None"
  shows "applied iso_date v m db db1 st b \<and>
    (\<forall>reqs now'. post_item iso_date now' a v body (serve_all iso_date to_number reqs db1) =
       (serve_all iso_date to_number reqs db1, Sync_mutation st b))"
proof -
  obtain blob where p: "id_pattern v" "mut_vaultId m = v" "backend_decodeB64 (mut_ciphertext m) = Some blob"
    "applyMutation iso_date now a v m blob db = Some (db1, Definite st b)"
    using post_mutationD [OF assms(2)] assms(3,4) by auto
  obtain r where r: "findMutationOutcome a (mut_mutationId m) db1 = Some r" "or_status_code r = st" "or_response_body r = b"
    using apply_recorded [OF p(4)] by blast
  have "findMutationOutcome a (mut_mutationId m) (serve_all iso_date to_number reqs db1) = Some r" for reqs
    using advancesD(3) [OF conjunct2 [OF serve_all_effect [OF conjunct1 [OF apply_effect [OF assms(1) p(4)]]]]] r(1)
    by (simp add: findMutationOutcome_def)
  from post_replay [OF assms(3) p(1-3) this] r(2,3) have
    "post_item iso_date now' a v body (serve_all iso_date to_number reqs db1) =
       (serve_all iso_date to_number reqs db1, Sync_mutation st b)" for reqs now' by blast
  then show ?thesis using apply_applied [OF p(4) assms(4) p(3)] by blast
qed

definition backend_mutation :: mutation where
  "backend_mutation = \<lparr>mut_mutationId = ''m'', mut_itemId = ''i'', mut_vaultId = ''v'', mut_baseRevision = 0,
     mut_ciphertext = encodeB64 [7], mut_envelopeVersion = ''crypto-envelope/v1'', mut_deleted = False\<rparr>"

definition backend_iso :: "epoch_ms \<Rightarrow> string" where
  "backend_iso t = string_of_int t"

definition backend_stored :: "sync_db \<times> sync_response" where
  "backend_stored = post_item backend_iso 5 ''a'' ''v'' (mutation_json backend_mutation) sync_db_empty"

lemma backend_mutation_valid: "isValidMutation (mutation_json backend_mutation) = Some backend_mutation"
  by code_simp

lemma backend_stored_eq:
  "snd backend_stored = Sync_mutation 201 (Body_item \<lparr>itemId = ''i'', vaultId = ''v'', ciphertext = encodeB64 [7],
     envelopeVersion = ''crypto-envelope/v1'', revision = 1, deleted = False, createdAt = ''5'', updatedAt = ''5''\<rparr>)"
  by code_simp

theorem mutation_exactly_once_witness:
  "post_item backend_iso 9 ''a'' ''v'' (mutation_json backend_mutation) (fst backend_stored) = backend_stored"
proof -
  have "post_item backend_iso 5 ''a'' ''v'' (mutation_json backend_mutation) sync_db_empty =
      (fst backend_stored, snd backend_stored)" by (simp add: backend_stored_def)
  from mutation_exactly_once [OF sync_inv_empty this [unfolded backend_stored_eq] backend_mutation_valid, of "\<lambda>_. None"]
  have "\<forall>reqs now'. post_item backend_iso now' ''a'' ''v'' (mutation_json backend_mutation)
      (serve_all backend_iso (\<lambda>_. None) reqs (fst backend_stored)) =
      (serve_all backend_iso (\<lambda>_. None) reqs (fst backend_stored), snd backend_stored)"
    by (simp add: backend_stored_eq findMutationOutcome_def sync_db_empty_def)
  from spec [OF spec [OF this, of "[]"], of 9] show ?thesis by simp
qed


section \<open>Catching up\<close>

text \<open>
  A device whose cursor is \<open>n\<close>: it has the rows up to \<open>n\<close>, and no record of it is newer than its row.
\<close>

definition in_step :: "(epoch_ms \<Rightarrow> string) \<Rightarrow> sync_db \<Rightarrow> id \<Rightarrow> (id \<rightharpoonup> item_record) \<Rightarrow> nat \<Rightarrow> bool" where
  "in_step iso_date db v L n \<longleftrightarrow>
     n \<le> db_sequence db \<and>
     (\<forall>i r. row_of db v i = Some r \<longrightarrow> ir_sequence r \<le> n \<longrightarrow> L i = Some (toItemRecord iso_date r)) \<and>
     (\<forall>i x. L i = Some x \<longrightarrow> (\<exists>r. row_of db v i = Some r \<and> supersedes (toItemRecord iso_date r) x))"

lemma in_stepD:
  assumes "in_step iso_date db v L n"
  shows "n \<le> db_sequence db"
    "row_of db v i = Some r \<Longrightarrow> ir_sequence r \<le> n \<Longrightarrow> L i = Some (toItemRecord iso_date r)"
    "L i = Some x \<Longrightarrow> \<exists>r. row_of db v i = Some r \<and> supersedes (toItemRecord iso_date r) x"
  using assms unfolding in_step_def by blast+

lemma in_step_advances:
  assumes "in_step iso_date db v L n" "advances db db'"
  shows "in_step iso_date db' v L n"
proof -
  note d = in_stepD [OF assms(1)] and a = advancesD [OF assms(2)]
  have "L i = Some (toItemRecord iso_date r)" if "row_of db' v i = Some r" "ir_sequence r \<le> n" for i r
    using a(5) [OF that(1)] d(1) d(2) [of i r] that(2) by auto
  moreover have "\<exists>r. row_of db' v i = Some r \<and> supersedes (toItemRecord iso_date r) x" if "L i = Some x" for i x
  proof -
    from d(3) [OF that] obtain r where r: "row_of db v i = Some r" "supersedes (toItemRecord iso_date r) x" by blast
    from a(4) [OF r(1)] obtain r' where r': "row_of db' v i = Some r'" "r' = r \<or> ir_revision r < ir_revision r'" by blast
    from r(2) r'(2) have "supersedes (toItemRecord iso_date r') x" by (auto simp: supersedes_def toItemRecord_def)
    with r'(1) show ?thesis by blast
  qed
  ultimately show ?thesis unfolding in_step_def using d(1) a(1) by auto
qed

lemma feed_apply_other: "i \<notin> itemId ` set cs \<Longrightarrow> feed_apply m cs i = m i"
  by (induction cs arbitrary: m) (auto simp: feed_apply_def)

lemma feed_apply_mem:
  "distinct (map itemId cs) \<Longrightarrow> c \<in> set cs \<Longrightarrow> feed_apply m cs (itemId c) = Some c"
proof (induction cs arbitrary: m)
  case (Cons d cs)
  then show ?case using feed_apply_other [of "itemId d" cs "m(itemId d \<mapsto> d)"] by (auto simp: feed_apply_def)
qed simp

lemma mono_feed_distinct:
  assumes "distinct (map itemId cs)"
    "\<And>c. c \<in> set cs \<Longrightarrow> vaultId c = v \<and> (\<forall>old. m (itemId c) = Some old \<longrightarrow> supersedes c old)"
  shows "mono_feed v m cs"
  using assms
proof (induction cs arbitrary: m)
  case (Cons c cs)
  have "mono_feed v (m(itemId c \<mapsto> c)) cs"
    by (rule Cons.IH) (use Cons.prems in \<open>auto split: if_splits simp: image_iff\<close>)
  then show ?case using Cons.prems(2) [of c] by (auto split: option.splits)
qed simp

lemma rows_after_items:
  assumes "sync_inv db"
  shows "distinct (map itemId (map (toItemRecord iso_date) (rows_after db v n)))"
proof -
  have "inj_on (itemId \<circ> toItemRecord iso_date) (set (rows_after db v n))"
    using assms by (auto simp: inj_on_def set_rows_after toItemRecord_def sync_inv_def row_ok_def)
  moreover have "distinct (rows_after db v n)"
    using rows_after_distinct [OF assms] distinct_map by blast
  ultimately show ?thesis by (simp add: distinct_map)
qed

lemma in_step_feed:
  assumes "sync_inv db" "in_step iso_date db v L n"
  defines "cs \<equiv> map (toItemRecord iso_date) (rows_after db v n)"
  shows "mono_feed v L cs" "feed_apply L cs = (\<lambda>i. map_option (toItemRecord iso_date) (row_of db v i))"
proof -
  note d = in_stepD [OF assms(2)]
  have ids: "row_of db v i = Some r \<Longrightarrow> ir_item_id r = i \<and> ir_vault_id r = v" for i r
    using assms(1) by (auto simp: sync_inv_def row_ok_def)
  have dist: "distinct (map itemId cs)" unfolding cs_def by (rule rows_after_items [OF assms(1)])
  show "mono_feed v L cs"
  proof (rule mono_feed_distinct [OF dist])
    fix c assume "c \<in> set cs"
    then obtain r i where r: "c = toItemRecord iso_date r" "row_of db v i = Some r"
      by (auto simp: cs_def set_rows_after [OF assms(1)])
    then show "vaultId c = v \<and> (\<forall>old. L (itemId c) = Some old \<longrightarrow> supersedes c old)"
      using ids [OF r(2)] d(3) [of i] by (auto simp: toItemRecord_def)
  qed
  show "feed_apply L cs = (\<lambda>i. map_option (toItemRecord iso_date) (row_of db v i))"
  proof
    fix i
    show "feed_apply L cs i = map_option (toItemRecord iso_date) (row_of db v i)"
    proof (cases "\<exists>r. row_of db v i = Some r \<and> n < ir_sequence r")
      case True
      then obtain r where r: "row_of db v i = Some r" "n < ir_sequence r" by blast
      then have "r \<in> set (rows_after db v n)" using set_rows_after [OF assms(1)] by blast
      then have "toItemRecord iso_date r \<in> set cs" by (simp add: cs_def)
      from feed_apply_mem [OF dist this] r ids [OF r(1)] show ?thesis by (simp add: toItemRecord_def)
    next
      case False
      then have "i \<notin> itemId ` set cs" using ids by (auto simp: cs_def set_rows_after [OF assms(1)] toItemRecord_def)
      from feed_apply_other [OF this] False d(2) [of i] d(3) [of i] show ?thesis
        by (cases "row_of db v i") (auto simp: not_less, metis option.exhaust)
    qed
  qed
qed

lemma in_step_exact:
  "n \<le> db_sequence db \<Longrightarrow> in_step iso_date db v (\<lambda>i. map_option (toItemRecord iso_date) (row_of db v i)) n"
  by (auto simp: in_step_def supersedes_def)

lemma feed_pages_Nil [simp]: "feed_pages iso_date rows = [] \<longleftrightarrow> rows = []"
  by (subst feed_pages.simps) simp

lemma feed_pages_empty [simp]: "feed_pages iso_date [] = []"
  by simp

lemma feed_pages_cursor:
  "rows \<noteq> [] \<Longrightarrow> feed_cursor cur (feed_pages iso_date rows) = Some (encodeCursor (ir_sequence (last rows)))"
proof (induction "iso_date" rows rule: feed_pages.induct)
  case (1 iso_date rows)
  show ?case
  proof (cases "drop PAGE_SIZE rows = []")
    case True
    then show ?thesis using 1(2) by (subst feed_pages.simps) (simp add: feed_cursor_def page_of_def)
  next
    case False
    from 1(1) [OF 1(2) False] False 1(2) show ?thesis
      by (subst feed_pages.simps) (auto simp: feed_cursor_def)
  qed
qed

lemma feed_pages_count: "length (feed_pages iso_date rows) * PAGE_SIZE < length rows + PAGE_SIZE"
proof (induction "iso_date" rows rule: feed_pages.induct)
  case (1 iso_date rows)
  show ?case
  proof (cases "length rows \<le> PAGE_SIZE")
    case True
    then have "length (feed_pages iso_date (drop PAGE_SIZE rows)) = 0" by simp
    then show ?thesis by (subst feed_pages.simps) (auto simp: PAGE_SIZE_def)
  next
    case False
    then show ?thesis using 1 by (subst feed_pages.simps) (auto simp: PAGE_SIZE_def)
  qed
qed

lemma pull_first_empty:
  assumes "vaultOwnedBy a v db" "id_pattern v" "rows_after db v 0 = []" "idb_invar s" "idb_up s"
    "idb_getCursor s v = None" "0 < maxPages"
  shows "\<exists>s'. pull (server_api iso_date to_number a) IndexedDBLocalRepository v maxPages (db, now) s =
      ((db, now), s', Inr (Pull_applied 1 0 (Some (encodeCursor 0)))) \<and>
    idb_getItem s' v = idb_getItem s v \<and> idb_getCursor s' v = Some (encodeCursor 0)"
proof -
  from assms(7) obtain k where k: "maxPages = Suc k" by (cases maxPages) auto
  have "get_changes iso_date to_number a v None None db = Sync_page \<lparr>changes = [], nextCursor = Some (encodeCursor 0)\<rparr>"
    using assms(1-3) by (simp add: get_changes_def list_changes_rows next_cursor_def)
  moreover from idb.cursor_succeeds [OF assms(4,5)] obtain s'
    where s': "setCursor IndexedDBLocalRepository s v (encodeCursor 0) = Inr s'" by blast
  ultimately show ?thesis
    using assms(6) idb.cursor_set [OF assms(4) s']
    by (simp add: k pull_def IndexedDBLocalRepository_def server_api_def server_changes_def cursor_or_def Let_def)
qed

text \<open>
  C32.  A device catches up with the service.  Take a device that has the rows up to its cursor and
  nothing newer than the service has, and let any requests of any devices and accounts follow.  A pull
  with enough pages then ends without an error, and the device's copy of the vault is exactly the
  service's: every item at its current revision, deleted ones included, and no other.  Its cursor is
  then one from which the next pull starts in the same position.
\<close>
theorem pull_catches_up:
  assumes "sync_inv db" "in_step iso_date db v (idb_getItem s v) n" "idb_invar s" "idb_up s"
    and "idb_getCursor s v = Some (encodeCursor n) \<or> idb_getCursor s v = None \<and> n = 0"
    and "db' = serve_all iso_date to_number reqs db"
    and "vaultOwnedBy a v db'" "id_pattern v" "db_sequence db' \<le> MAX_BIGINT"
    and "length (rows_after db' v n) + PAGE_SIZE \<le> maxPages * PAGE_SIZE"
  shows "\<exists>s' k n'. pull (server_api iso_date to_number a) IndexedDBLocalRepository v maxPages (db', now) s =
      ((db', now), s', Inr (Pull_applied k (length (rows_after db' v n)) (Some (encodeCursor n')))) \<and>
    idb_getItem s' v = (\<lambda>i. map_option (toItemRecord iso_date) (row_of db' v i)) \<and>
    idb_getCursor s' v = Some (encodeCursor n') \<and> in_step iso_date db' v (idb_getItem s' v) n'"
proof -
  have run: "sync_inv db'" "advances db db'" using serve_all_effect [OF assms(1)] assms(6) by blast+
  note step = in_step_advances [OF assms(2) run(2)]
  note feed = in_step_feed [OF run(1) step]
  let ?rows = "rows_after db' v n"
  have exact: "idb_getItem s' v = (\<lambda>i. map_option (toItemRecord iso_date) (row_of db' v i)) \<Longrightarrow> n' \<le> db_sequence db' \<Longrightarrow>
      in_step iso_date db' v (idb_getItem s' v) n'" for s' n'
    using in_step_exact by simp
  show ?thesis
  proof (cases "?rows = [] \<and> idb_getCursor s v = None")
    case True
    then have z: "n = 0" "idb_getCursor s v = None" "rows_after db' v 0 = []" using assms(5) by auto
    have "0 < maxPages" using assms(10) by (cases maxPages) (auto simp: PAGE_SIZE_def)
    from pull_first_empty [OF assms(7,8) z(3) assms(3,4) z(2) this, of iso_date to_number now] obtain s' where
      "pull (server_api iso_date to_number a) IndexedDBLocalRepository v maxPages (db', now) s =
        ((db', now), s', Inr (Pull_applied 1 0 (Some (encodeCursor 0))))"
      "idb_getItem s' v = idb_getItem s v" "idb_getCursor s' v = Some (encodeCursor 0)" by blast
    moreover have "idb_getItem s v = (\<lambda>i. map_option (toItemRecord iso_date) (row_of db' v i))"
      using feed(2) z by (simp add: feed_apply_def)
    ultimately show ?thesis using exact [of s' 0] z by fastforce
  next
    case False
    let ?n = "if ?rows = [] then n else ir_sequence (last ?rows)"
    have cur: "idb_getCursor s v = Some (encodeCursor n) \<or> idb_getCursor s v = None \<and> n = 0 \<and> rows_after db' v 0 \<noteq> []"
      using False assms(5) by auto
    have served: "serves (server_api iso_date to_number a) (db', now) v (idb_getCursor s v) (feed_pages iso_date ?rows)"
      by (rule server_serves [OF run(1) assms(9,7,8) in_stepD(1) [OF step] cur])
    have enough: "length (feed_pages iso_date ?rows) < maxPages"
      using feed_pages_count [of iso_date ?rows] assms(10) by (simp add: PAGE_SIZE_def)
    have last: "feed_cursor (idb_getCursor s v) (feed_pages iso_date ?rows) = Some (encodeCursor ?n)"
    proof (cases "?rows = []")
      case True
      then show ?thesis using cur by (auto simp: feed_cursor_def)
    qed (simp add: feed_pages_cursor)
    have "last ?rows \<in> set ?rows" if "?rows \<noteq> []" using that by simp
    then have bound: "?n \<le> db_sequence db'"
      using in_stepD(1) [OF step] set_rows_after [OF run(1)] run(1) by (auto simp: sync_inv_def row_ok_def)
    have "mono_feed v (getItem IndexedDBLocalRepository s v) (feed_changes (feed_pages iso_date ?rows))"
      using feed(1) by (simp add: feed_pages_changes IndexedDBLocalRepository_def)
    from idb.pull_loop_converges [OF assms(3,4) TrueI served this enough, of 0 0] feed(2)
    obtain s' where s': "pull (server_api iso_date to_number a) IndexedDBLocalRepository v maxPages (db', now) s =
        ((db', now), s', Inr (Pull_applied (length (feed_pages iso_date ?rows) + 1) (length ?rows) (Some (encodeCursor ?n))))"
      "idb_getItem s' v = (\<lambda>i. map_option (toItemRecord iso_date) (row_of db' v i))"
      "idb_getCursor s' v = Some (encodeCursor ?n)"
      by (auto simp: pull_def IndexedDBLocalRepository_def feed_pages_changes last)
    with exact [OF s'(2) bound] show ?thesis by blast
  qed
qed

definition backend_requests :: "sync_request list" where
  "backend_requests = [Post_item 5 ''a'' ''v'' (mutation_json backend_mutation)]"

lemma backend_requests_served: "serve_all backend_iso (\<lambda>_. None) backend_requests sync_db_empty = fst backend_stored"
  by (simp add: backend_requests_def backend_stored_def)

theorem pull_catches_up_witness:
  "\<exists>s' k n'. pull (server_api backend_iso (\<lambda>_. None) ''a'') IndexedDBLocalRepository ''v'' 100 (fst backend_stored, 7) idb_empty =
      ((fst backend_stored, 7), s', Inr (Pull_applied k 1 (Some (encodeCursor n')))) \<and>
    idb_getItem s' ''v'' ''i'' = Some \<lparr>itemId = ''i'', vaultId = ''v'', ciphertext = encodeB64 [7],
     envelopeVersion = ''crypto-envelope/v1'', revision = 1, deleted = False, createdAt = ''5'', updatedAt = ''5''\<rparr>"
proof -
  have up: "idb_up idb_empty" "idb_getItem idb_empty v = (\<lambda>_. None)" "idb_getCursor idb_empty v = None" for v
    by (simp_all add: idb_up_def idb_empty_def idb_getItem_def idb_getCursor_def fun_eq_iff)
  have start: "in_step backend_iso sync_db_empty ''v'' (idb_getItem idb_empty ''v'') 0"
    by (simp add: in_step_def up row_of_def sync_db_empty_def)
  have rows: "vaultOwnedBy ''a'' ''v'' (fst backend_stored)" "id_pattern ''v''"
    "length (rows_after (fst backend_stored) ''v'' 0) = 1" "db_sequence (fst backend_stored) = 1"
    by code_simp+
  have item: "map_option (toItemRecord backend_iso) (row_of (fst backend_stored) ''v'' ''i'') =
      Some \<lparr>itemId = ''i'', vaultId = ''v'', ciphertext = encodeB64 [7], envelopeVersion = ''crypto-envelope/v1'',
        revision = 1, deleted = False, createdAt = ''5'', updatedAt = ''5''\<rparr>" by code_simp
  have small: "db_sequence (fst backend_stored) \<le> MAX_BIGINT"
    "length (rows_after (fst backend_stored) ''v'' 0) + PAGE_SIZE \<le> 100 * PAGE_SIZE"
    using rows by (simp_all add: MAX_BIGINT_def PAGE_SIZE_def)
  from pull_catches_up [OF sync_inv_empty start idb_empty_invar up(1) disjI2 [OF conjI [OF up(3) refl]]
      backend_requests_served [symmetric] rows(1,2) small, of 7]
  show ?thesis unfolding rows(3) by (auto simp: item)
qed


section \<open>Isolation\<close>

fun body_vault :: "mutation_body \<Rightarrow> id" where
  "body_vault (Body_item r) = vaultId r"
| "body_vault (Body_conflict c) = vaultId (cf_current c)"

fun response_vaults :: "sync_response \<Rightarrow> id set" where
  "response_vaults (Sync_mutation st b) = {body_vault b}"
| "response_vaults (Sync_page p) = vaultId ` set (changes p)"
| "response_vaults _ = {}"

text \<open>A recorded answer is about a vault of the account it was given to.\<close>

definition outcomes_owned :: "sync_db \<Rightarrow> bool" where
  "outcomes_owned db \<longleftrightarrow>
     (\<forall>a mid r. map_of (db_outcomes db) (a, mid) = Some r \<longrightarrow> map_of (db_vaults db) (body_vault (or_response_body r)) = Some a)"

definition changes_owned :: "id \<Rightarrow> sync_db \<Rightarrow> sync_db \<Rightarrow> bool" where
  "changes_owned a db db1 \<longleftrightarrow>
     (\<forall>v i. row_of db1 v i \<noteq> row_of db v i \<longrightarrow> map_of (db_vaults db1) v = Some a)"

lemma conflict_body_vault [simp]: "body_vault (conflict_body iso_date m row) = ir_vault_id row"
  by (simp add: conflict_body_def toItemRecord_def)

lemma record_owned:
  assumes "recordMutationOutcome a mid v st b db = Some db1" "outcomes_owned db" "map_of (db_vaults db) (body_vault b) = Some a"
  shows "outcomes_owned db1"
  using assms(2,3) record_effect(3,5) [OF assms(1)] by (auto simp: outcomes_owned_def)

lemma apply_owned:
  assumes "sync_inv db" "outcomes_owned db" "applyMutation iso_date now a v m blob db = Some (db1, out)"
    "findMutationOutcome a (mut_mutationId m) db = None"
  shows "outcomes_owned db1 \<and> changes_owned a db db1 \<and>
    (\<forall>st b. out = Definite st b \<longrightarrow> map_of (db_vaults db1) (body_vault b) = Some a)"
proof -
  obtain db0 owns where ens: "ensureVaultOwnership a v db = (db0, owns)" by (cases "ensureVaultOwnership a v db")
  note e = ensure_effect [OF ens]
  have own0: "outcomes_owned db0" using assms(2) e(3,4) by (simp add: outcomes_owned_def)
  have rows0: "row_of db0 = row_of db" using e(1) by (simp add: row_of_def fun_eq_iff)
  from assms(3,4) ens show ?thesis
  proof (cases rule: apply_cases)
    case refused
    then show ?thesis using own0 rows0 by (auto simp: changes_owned_def)
  next
    case (conflict row)
    have v: "map_of (db_vaults db0) (ir_vault_id row) = Some a"
      using conflict(1,2) e(6) assms(1) by (auto simp: sync_inv_def row_ok_def)
    note r = record_effect [OF conflict(4)]
    have "row_of db1 = row_of db" using r(1) rows0 by (simp add: row_of_def fun_eq_iff)
    then show ?thesis using record_owned [OF conflict(4) own0] v conflict(5) r(3) by (simp add: changes_owned_def)
  next
    case (stored db2 row)
    note u = upsert_effect [OF stored(3)] and r = record_effect [OF stored(4)]
    have v: "map_of (db_vaults db1) v = Some a" using stored(1) e(6) u(1) r(3) by simp
    have "outcomes_owned db2" using own0 u(1,2) by (simp add: outcomes_owned_def)
    then have "outcomes_owned db1" using record_owned [OF stored(4)] v u(7) r(3) by (simp add: toItemRecord_def)
    moreover have "row_of db1 = row_of db2" using r(1) by (simp add: row_of_def fun_eq_iff)
    ultimately show ?thesis
      using v stored(5) u(7) row_of_update [OF u(3)] rows0 by (auto simp: changes_owned_def toItemRecord_def)
  qed
qed

lemma post_cases:
  assumes "post_item iso_date now a v body db = (db1, resp)"
  obtains (refused) "db1 = db" "resp = Sync_bad_request \<or> resp = Sync_failed"
  | (replayed) mid r where "findMutationOutcome a mid db = Some r" "db1 = db"
      "resp = Sync_mutation (or_status_code r) (or_response_body r)"
  | (attempted) m blob out where "findMutationOutcome a (mut_mutationId m) db = None"
      "applyMutation iso_date now a v m blob db = Some (db1, out)"
      "resp = (case out of Definite st b \<Rightarrow> Sync_mutation st b | Apply_not_found \<Rightarrow> Sync_not_found
               | Apply_bad_request \<Rightarrow> Sync_bad_request)"
      "isValidMutation body = Some m" "id_pattern v" "backend_decodeB64 (mut_ciphertext m) = Some blob"
proof (cases "\<exists>m blob. isValidMutation body = Some m \<and> id_pattern v \<and> mut_vaultId m = v \<and>
    backend_decodeB64 (mut_ciphertext m) = Some blob")
  case False
  then show ?thesis
    using assms refused by (auto simp: post_item_def split: option.splits if_splits)
next
  case True
  then obtain m blob where m: "isValidMutation body = Some m" "id_pattern v" "mut_vaultId m = v"
    "backend_decodeB64 (mut_ciphertext m) = Some blob" by blast
  show ?thesis
  proof (cases "findMutationOutcome a (mut_mutationId m) db")
    case None
    then show ?thesis
      using assms m(1-3) refused attempted [OF None _ _ m(1,2,4)] m(4)
      by (auto simp: post_item_def split: option.splits apply_outcome.splits)
  next
    case (Some r)
    then show ?thesis using assms m replayed [OF Some] by (simp add: post_item_def)
  qed
qed

lemma post_owned:
  assumes "sync_inv db" "outcomes_owned db" "post_item iso_date now a v body db = (db1, resp)"
  shows "outcomes_owned db1 \<and> changes_owned a db db1 \<and>
    (\<forall>u \<in> response_vaults resp. map_of (db_vaults db1) u = Some a)"
  using assms(3)
proof (cases rule: post_cases)
  case refused
  then show ?thesis using assms(2) by (auto simp: changes_owned_def)
next
  case (replayed mid r)
  then show ?thesis using assms(2) by (auto simp: outcomes_owned_def changes_owned_def findMutationOutcome_def)
next
  case (attempted m blob out)
  from apply_owned [OF assms(1,2) attempted(2,1)] attempted(3) show ?thesis
    by (cases out) auto
qed

lemma changes_vault:
  assumes "sync_inv db" "get_changes iso_date to_number a v cursor limit db = Sync_page p"
  shows "vaultOwnedBy a v db \<and> (\<forall>c \<in> set (changes p). vaultId c = v)"
proof -
  have "r \<in> set (list_changes v n k db) \<Longrightarrow> ir_vault_id r = v" for r n k
    by (auto simp: list_changes_def dest!: in_set_takeD)
  then show ?thesis using assms(2)
    by (auto simp: get_changes_def toItemRecord_def Let_def split: if_splits option.splits)
qed

lemma get_changes_shape:
  "(\<exists>p. get_changes iso_date to_number a v cursor limit db = Sync_page p) \<or>
   get_changes iso_date to_number a v cursor limit db \<in> {Sync_bad_request, Sync_not_found, Sync_failed}"
  by (simp add: get_changes_def Let_def split: option.split)

lemma serve_owned:
  assumes "sync_inv db" "outcomes_owned db" "serve iso_date to_number r db = (db1, resp)"
  shows "outcomes_owned db1 \<and> changes_owned (request_account r) db db1 \<and>
    (\<forall>u \<in> response_vaults resp. map_of (db_vaults db1) u = Some (request_account r))"
proof (cases r)
  case (Post_item now a v body)
  then show ?thesis using post_owned [OF assms(1,2)] assms(3) by simp
next
  case (Get_changes a v cursor limit)
  moreover have "response_vaults resp \<subseteq> {v} \<and> (response_vaults resp \<noteq> {} \<longrightarrow> map_of (db_vaults db) v = Some a)"
    if "resp = get_changes iso_date to_number a v cursor limit db"
    using that changes_vault [OF assms(1), of iso_date to_number a v cursor limit]
      get_changes_shape [of iso_date to_number a v cursor limit db]
    by (auto simp: vaultOwnedBy_def)
  ultimately show ?thesis using assms(2,3) by (auto simp: changes_owned_def)
qed

lemma serve_all_owned:
  assumes "sync_inv db" "outcomes_owned db"
  shows "outcomes_owned (serve_all iso_date to_number reqs db)"
  using assms
proof (induction reqs arbitrary: db)
  case (Cons r rs)
  then show ?case
    using serve_owned [OF Cons.prems, of iso_date to_number r "fst (serve iso_date to_number r db)"] serve_effect [OF Cons.prems(1)]
    by (simp add: prod_eq_iff)
qed simp

text \<open>
  C33.  A vault is its owner's alone.  After any requests of any accounts, whatever request one
  account makes next, every record in the answer (an accepted version, a conflict, a recorded answer
  given again, a page of the feed) is of a vault that this account owns, and so is every row that the
  request changes; and no vault that has an owner changes hands.
\<close>
theorem vault_isolation:
  fixes reqs
  assumes "db = serve_all iso_date to_number reqs sync_db_empty"
    and "serve iso_date to_number r db = (db1, resp)"
  shows "(\<forall>u \<in> response_vaults resp. map_of (db_vaults db1) u = Some (request_account r)) \<and>
    (\<forall>v i. row_of db1 v i \<noteq> row_of db v i \<longrightarrow> map_of (db_vaults db1) v = Some (request_account r)) \<and>
    (\<forall>v a. map_of (db_vaults db) v = Some a \<longrightarrow> map_of (db_vaults db1) v = Some a)"
proof -
  have inv: "sync_inv db" using serve_all_effect [OF sync_inv_empty] assms(1) by simp
  have "outcomes_owned sync_db_empty" by (simp add: outcomes_owned_def sync_db_empty_def)
  then have "outcomes_owned db" using serve_all_owned [OF sync_inv_empty] assms(1) by simp
  from serve_owned [OF inv this assms(2)] advancesD(2) [OF conjunct2 [OF serve_effect [OF inv, of iso_date to_number r]]] assms(2)
  show ?thesis by (simp add: changes_owned_def)
qed

theorem vault_isolation_witness:
  "response_vaults (snd backend_stored) = {''v''} \<and> map_of (db_vaults (fst backend_stored)) ''v'' = Some ''a''"
proof -
  have "sync_db_empty = serve_all backend_iso (\<lambda>_. None) [] sync_db_empty" by simp
  moreover have "serve backend_iso (\<lambda>_. None) (Post_item 5 ''a'' ''v'' (mutation_json backend_mutation)) sync_db_empty =
      (fst backend_stored, snd backend_stored)" by (simp add: backend_stored_def)
  ultimately have "\<forall>u \<in> response_vaults (snd backend_stored). map_of (db_vaults (fst backend_stored)) u =
      Some (request_account (Post_item 5 ''a'' ''v'' (mutation_json backend_mutation)))"
    using vault_isolation by blast
  then show ?thesis by (simp add: backend_stored_eq)
qed

end
