(* ===== verification/Backend_Wire.thy ===== *)
theory Backend_Wire
  imports Backend_Properties
begin

text \<open>
  What the sync service sends: every answer has the shape \<open>docs/contracts\<close> and \<open>openapi.yaml\<close> give to it, and
  a reader who follows the cursors gets the whole feed in finitely many pages.
\<close>


section \<open>Shapes\<close>









section \<open>A checked ciphertext has bytes\<close>





section \<open>Preservation\<close>











section \<open>Reading the feed to its end\<close>

text \<open>A reader that follows \<open>nextCursor\<close> until a page is empty; \<open>fuel\<close> bounds the pages.\<close>

fun read_feed :: "(string option \<Rightarrow> sync_response) \<Rightarrow> nat \<Rightarrow> string option \<Rightarrow> item_record list option" where
  "read_feed ask 0 cursor = None"
| "read_feed ask (Suc fuel) cursor =
     (case ask cursor of
        Sync_page p \<Rightarrow> if changes p = [] then Some [] else map_option ((@) (changes p)) (read_feed ask fuel (nextCursor p))
      | _ \<Rightarrow> None)"

lemma read_feed_end:
  assumes "sync_inv db" "db_sequence db \<le> MAX_BIGINT" "vaultOwnedBy a v db" "id_pattern v"
    and "0 < k" "(case limit of None \<Rightarrow> k = 100 | Some l \<Rightarrow> to_number l = Some (int k) \<and> k \<le> 200)"
    and "(case cur of None \<Rightarrow> Some 0 | Some c \<Rightarrow> decodeCursor c) = Some n" "n \<le> db_sequence db"
    and "length (rows_after db v n) + k \<le> fuel * k"
  shows "read_feed (\<lambda>c. get_changes iso_date to_number a v c limit db) fuel cur = Some (map (toItemRecord iso_date) (rows_after db v n))"
  using assms(7-)
proof (induction fuel arbitrary: cur n)
  case (Suc fuel)
  let ?page = "take k (rows_after db v n)"
  have lim: "(case limit of None \<Rightarrow> Some 100 | Some l \<Rightarrow>
      (case to_number l of None \<Rightarrow> None | Some n \<Rightarrow> if n < 1 \<or> n > 200 then None else Some (nat n))) = Some k"
    using assms(5,6) by (auto split: option.splits)
  have ask: "get_changes iso_date to_number a v cur limit db =
      Sync_page \<lparr>changes = map (toItemRecord iso_date) ?page, nextCursor = Some (next_cursor cur ?page)\<rparr>"
    using assms(2-4) Suc.prems(1,2) by (simp add: get_changes_def lim list_changes_rows Let_def)
  show ?case
  proof (cases "rows_after db v n = []")
    case True
    then show ?thesis using ask by simp
  next
    case False
    then have ne: "?page \<noteq> []" using assms(5) by simp
    let ?m = "ir_sequence (last ?page)"
    have "last ?page \<in> set (rows_after db v n)" using ne by (metis last_in_set in_set_takeD)
    then have m: "?m \<le> db_sequence db" using set_rows_after [OF assms(1)] assms(1) by (auto simp: sync_inv_def row_ok_def)
    have rest: "rows_after db v ?m = drop k (rows_after db v n)"
      by (rule rows_after_page [OF assms(1) append_take_drop_id [symmetric] ne])
    have "length (rows_after db v ?m) + k \<le> fuel * k"
    proof (cases fuel)
      case 0
      then show ?thesis using Suc.prems(3) False by simp
    next
      case (Suc j)
      then show ?thesis using Suc.prems(3) unfolding rest by simp
    qed
    from Suc.IH [of "Some (encodeCursor ?m)" ?m, OF _ m this]
    have "read_feed (\<lambda>c. get_changes iso_date to_number a v c limit db) fuel (Some (encodeCursor ?m)) =
        Some (map (toItemRecord iso_date) (drop k (rows_after db v n)))"
      by (simp add: decodeCursor_encodeCursor rest)
    then show ?thesis using ask ne False by (simp add: next_cursor_def flip: map_append)
  qed
qed (use assms(5) in simp)

text \<open>
  C35.  Reading the feed ends.  From any cursor the service has given out, a reader that asks for pages of
  \<open>k\<close> records (100 when it does not say) and follows the cursors reaches the empty page after at most one page per
  \<open>k\<close> changes and two more, and has then got every change after its cursor, tombstones included, once and in the order
  of the changes.
\<close>
theorem feed_read_to_end:
  fixes to_number :: "string \<Rightarrow> int option"
  assumes "db = serve_all iso_date to_number reqs sync_db_empty" "db_sequence db \<le> MAX_BIGINT"
    and "vaultOwnedBy a v db" "id_pattern v" "0 < k"
    and "case limit of None \<Rightarrow> k = 100 | Some l \<Rightarrow> to_number l = Some (int k) \<and> k \<le> 200"
    and "(case cur of None \<Rightarrow> Some 0 | Some c \<Rightarrow> decodeCursor c) = Some n" "n \<le> db_sequence db"
  shows "\<exists>rs. read_feed (\<lambda>c. get_changes iso_date to_number a v c limit db) (length rs div k + 2) cur =
      Some (map (toItemRecord iso_date) rs) \<and> sorted_wrt (<) (map ir_sequence rs) \<and>
    set rs = {r. (\<exists>i. row_of db v i = Some r) \<and> n < ir_sequence r}"
proof -
  have inv: "sync_inv db" using serve_all_effect [OF sync_inv_empty] assms(1) by simp
  let ?rs = "rows_after db v n"
  have "length ?rs \<le> k + k * (length ?rs div k)"
    using dividend_less_times_div [OF assms(5), of "length ?rs"] by (rule less_imp_le)
  then have "length ?rs + k \<le> (length ?rs div k + 2) * k" by (simp add: algebra_simps)
  from read_feed_end [OF inv assms(2-8) this] rows_after_strict [OF inv] set_rows_after [OF inv] show ?thesis by blast
qed

theorem feed_read_to_end_witness:
  "\<exists>rs. read_feed (\<lambda>c. get_changes backend_iso (\<lambda>_. None) ''a'' ''v'' c None (fst backend_stored)) (length rs div 100 + 2) None =
      Some (map (toItemRecord backend_iso) rs) \<and> sorted_wrt (<) (map ir_sequence rs) \<and>
    set rs = {r. (\<exists>i. row_of (fst backend_stored) ''v'' i = Some r) \<and> 0 < ir_sequence r}"
proof -
  have "db_sequence (fst backend_stored) = 1" by code_simp
  then have seq: "db_sequence (fst backend_stored) \<le> MAX_BIGINT" by (simp add: MAX_BIGINT_def)
  have own: "vaultOwnedBy ''a'' ''v'' (fst backend_stored)" "id_pattern ''v''" by code_simp+
  show ?thesis
    by (rule feed_read_to_end [OF backend_requests_served [symmetric] seq own]) simp_all
qed

end
