(* ===== verification/Backend_Auth.thy ===== *)
theory Backend_Auth
  imports Backend_Sync
begin

text \<open>
  The authentication store of the backend (\<open>apps/backend/src/auth\<close>, \<open>devices/store.mjs\<close> and
  \<open>account/store.mjs\<close>): accounts, credentials, sessions, devices, rate limits and key bundles, with the
  two in-process stores for pending logins and for admission.

  A query, or a transaction that locks the rows it decides on, is one function on the tables; \<open>None\<close>: a
  constraint of \<open>db/migrations\<close> is violated and the query throws.  Random tokens and identifiers are arguments:
  nothing assumes that they are fresh, the unique keys are checked as the database does.  \<open>now\<close> is the time,
  in milliseconds, and \<open>hash\<close> is SHA-256.
\<close>


section \<open>Tables\<close>

datatype issued_via = Opaque_login | Refresh

datatype enrollment_mode = Legacy_public_key | Bearer_session_v1

record session_row =
  s_account_id :: id
  s_token_hash :: bytes
  s_expires_at :: epoch_ms
  s_revoked_at :: "epoch_ms option"
  s_device_id :: "id option"
  s_issued_via :: issued_via

record device_row =
  d_account_id :: id
  d_name :: string
  d_public_key :: "bytes option"
  d_enrollment_mode :: enrollment_mode
  d_created_at :: epoch_ms
  d_last_seen_at :: "epoch_ms option"
  d_revoked_at :: "epoch_ms option"

record auth_db =
  au_accounts :: "(id, epoch_ms) js_map"
  au_credentials :: "(id, bytes) js_map"
  au_sessions :: "(id, session_row) js_map"
  au_devices :: "(id, device_row) js_map"
  au_rate_limits :: "(id \<times> string \<times> epoch_ms, int) js_map"
  au_key_bundles :: "(id, bytes \<times> int) js_map"

definition auth_db_empty :: auth_db where
  "auth_db_empty =
     \<lparr>au_accounts = [], au_credentials = [], au_sessions = [], au_devices = [], au_rate_limits = [], au_key_bundles = []\<rparr>"

text \<open>\<open>UPDATE ... SET ... WHERE\<close>\<close>

definition update_where :: "('k \<Rightarrow> 'v \<Rightarrow> bool) \<Rightarrow> ('v \<Rightarrow> 'v) \<Rightarrow> ('k, 'v) js_map \<Rightarrow> ('k, 'v) js_map" where
  "update_where P f m = map (\<lambda>(k, v). (k, if P k v then f v else v)) m"

lemma map_of_update_where [simp]:
  "map_of (update_where P f m) k = map_option (\<lambda>v. if P k v then f v else v) (map_of m k)"
  by (induction m) (auto simp: update_where_def)

lemma update_where_keys [simp]: "map fst (update_where P f m) = map fst m"
  by (auto simp: update_where_def)

abbreviation account_exists :: "id \<Rightarrow> auth_db \<Rightarrow> bool" where
  "account_exists a db \<equiv> map_of (au_accounts db) a \<noteq> None"


section \<open>Accounts and credentials\<close>

definition ensureAccount :: "epoch_ms \<Rightarrow> id \<Rightarrow> auth_db \<Rightarrow> auth_db" where
  "ensureAccount now a db =
     (if account_exists a db then db else db\<lparr>au_accounts := AList.update a now (au_accounts db)\<rparr>)"

definition getCredentialRecord :: "id \<Rightarrow> auth_db \<Rightarrow> bytes option" where
  "getCredentialRecord a db = map_of (au_credentials db) a"

definition saveCredentialRecordIfAbsent :: "id \<Rightarrow> bytes \<Rightarrow> auth_db \<Rightarrow> auth_db option" where
  "saveCredentialRecordIfAbsent a rec db =
     (if map_of (au_credentials db) a \<noteq> None then Some db
      else if \<not> account_exists a db then None
      else Some (db\<lparr>au_credentials := AList.update a rec (au_credentials db)\<rparr>))"


section \<open>Sessions\<close>

definition insert_session :: "id \<Rightarrow> session_row \<Rightarrow> auth_db \<Rightarrow> auth_db option" where
  "insert_session sid row db =
     (if map_of (au_sessions db) sid \<noteq> None \<or> list_ex (\<lambda>s. s_token_hash s = s_token_hash row) (map_values (au_sessions db)) \<or>
         \<not> account_exists (s_account_id row) db
      then None else Some (db\<lparr>au_sessions := AList.update sid row (au_sessions db)\<rparr>))"

definition session_expiry :: "epoch_ms \<Rightarrow> int \<Rightarrow> epoch_ms" where
  "session_expiry now ttlSeconds = now + ttlSeconds * 1000"

definition issueSession ::
  "(string \<Rightarrow> bytes) \<Rightarrow> epoch_ms \<Rightarrow> int \<Rightarrow> issued_via \<Rightarrow> string \<Rightarrow> id \<Rightarrow> id \<Rightarrow> auth_db \<Rightarrow> auth_db option" where
  "issueSession hash now ttlSeconds via token sid a db =
     insert_session sid \<lparr>s_account_id = a, s_token_hash = hash token, s_expires_at = session_expiry now ttlSeconds,
       s_revoked_at = None, s_device_id = None, s_issued_via = via\<rparr> db"

text \<open>The \<open>LEFT JOIN\<close>: the revocation of the device a session is bound to.\<close>

definition device_revoked :: "session_row \<Rightarrow> auth_db \<Rightarrow> bool" where
  "device_revoked s db \<longleftrightarrow>
     (case s_device_id s of
        None \<Rightarrow> False
      | Some d \<Rightarrow> (case map_of (au_devices db) d of None \<Rightarrow> False | Some row \<Rightarrow> d_revoked_at row \<noteq> None))"

definition resolveSession :: "(string \<Rightarrow> bytes) \<Rightarrow> epoch_ms \<Rightarrow> string \<Rightarrow> auth_db \<Rightarrow> (id \<times> session_row) option" where
  "resolveSession hash now token db =
     (case find (\<lambda>(sid, s). s_token_hash s = hash token) (au_sessions db) of
        None \<Rightarrow> None
      | Some (sid, s) \<Rightarrow>
          if s_revoked_at s \<noteq> None then None
          else if device_revoked s db then None
          else if s_expires_at s \<le> now then None
          else Some (sid, s))"

definition bindSessionToDevice :: "id \<Rightarrow> id \<Rightarrow> auth_db \<Rightarrow> auth_db option" where
  "bindSessionToDevice sid d db =
     (if map_of (au_devices db) d = None \<and> map_of (au_sessions db) sid \<noteq> None then None
      else Some (db\<lparr>au_sessions := update_where (\<lambda>k _. k = sid) (\<lambda>s. s\<lparr>s_device_id := Some d\<rparr>) (au_sessions db)\<rparr>))"

text \<open>\<open>Some None\<close>: no row was updated, and the transaction is rolled back.\<close>

definition rotatable :: "epoch_ms \<Rightarrow> session_row \<Rightarrow> auth_db \<Rightarrow> bool" where
  "rotatable now s db \<longleftrightarrow>
     s_revoked_at s = None \<and> s_expires_at s > now \<and>
     (case s_device_id s of
        None \<Rightarrow> False
      | Some d \<Rightarrow> (case map_of (au_devices db) d of None \<Rightarrow> False | Some row \<Rightarrow> d_revoked_at row = None))"

definition rotateSession ::
  "(string \<Rightarrow> bytes) \<Rightarrow> epoch_ms \<Rightarrow> int \<Rightarrow> string \<Rightarrow> id \<Rightarrow> id \<Rightarrow> auth_db \<Rightarrow> auth_db option option" where
  "rotateSession hash now ttlSeconds token newid sid db =
     (case map_of (au_sessions db) sid of
        None \<Rightarrow> Some None
      | Some s \<Rightarrow>
          if \<not> rotatable now s db then Some None
          else
            (let db1 = db\<lparr>au_sessions := update_where (\<lambda>k _. k = sid) (\<lambda>s. s\<lparr>s_revoked_at := Some now\<rparr>) (au_sessions db)\<rparr>
             in case insert_session newid \<lparr>s_account_id = s_account_id s, s_token_hash = hash token,
                    s_expires_at = session_expiry now ttlSeconds, s_revoked_at = None, s_device_id = s_device_id s,
                    s_issued_via = Refresh\<rparr> db1 of
                  None \<Rightarrow> None
                | Some db2 \<Rightarrow> Some (Some db2)))"

definition revokeSession :: "epoch_ms \<Rightarrow> id \<Rightarrow> auth_db \<Rightarrow> auth_db" where
  "revokeSession now sid db =
     db\<lparr>au_sessions := update_where (\<lambda>k _. k = sid) (\<lambda>s. s\<lparr>s_revoked_at := Some now\<rparr>) (au_sessions db)\<rparr>"

definition revokeAllSessionsForAccount :: "epoch_ms \<Rightarrow> id \<Rightarrow> auth_db \<Rightarrow> auth_db" where
  "revokeAllSessionsForAccount now a db =
     db\<lparr>au_sessions := update_where (\<lambda>_ s. s_account_id s = a \<and> s_revoked_at s = None)
       (\<lambda>s. s\<lparr>s_revoked_at := Some now\<rparr>) (au_sessions db)\<rparr>"


section \<open>Devices\<close>

definition store_listDevices :: "id \<Rightarrow> auth_db \<Rightarrow> (id \<times> device_row) list" where
  "store_listDevices a db = sort_key (\<lambda>(d, row). d_created_at row) (filter (\<lambda>(d, row). d_account_id row = a) (au_devices db))"

text \<open>A \<open>text\<close> value cannot hold the null character.\<close>

definition insert_device :: "id \<Rightarrow> device_row \<Rightarrow> auth_db \<Rightarrow> auth_db option" where
  "insert_device d row db =
     (if map_of (au_devices db) d \<noteq> None \<or> \<not> account_exists (d_account_id row) db \<or> CHR 0x00 \<in> set (d_name row) then None
      else Some (db\<lparr>au_devices := AList.update d row (au_devices db)\<rparr>))"

definition new_device :: "epoch_ms \<Rightarrow> id \<Rightarrow> string \<Rightarrow> bytes option \<Rightarrow> enrollment_mode \<Rightarrow> device_row" where
  "new_device now a name key mode =
     \<lparr>d_account_id = a, d_name = name, d_public_key = key, d_enrollment_mode = mode, d_created_at = now,
      d_last_seen_at = None, d_revoked_at = None\<rparr>"

definition createDevice :: "epoch_ms \<Rightarrow> id \<Rightarrow> id \<Rightarrow> string \<Rightarrow> bytes \<Rightarrow> auth_db \<Rightarrow> auth_db option" where
  "createDevice now d a name key db = insert_device d (new_device now a name (Some key) Legacy_public_key) db"

datatype enroll_error = Session_invalid | Already_bound | Not_freshly_issued

definition enrollBearerSessionDevice ::
  "epoch_ms \<Rightarrow> id \<Rightarrow> id \<Rightarrow> string \<Rightarrow> auth_db \<Rightarrow> (enroll_error + auth_db \<times> device_row) option" where
  "enrollBearerSessionDevice now d sid name db =
     (case map_of (au_sessions db) sid of
        None \<Rightarrow> Some (Inl Session_invalid)
      | Some s \<Rightarrow>
          if s_revoked_at s \<noteq> None \<or> s_expires_at s \<le> now then Some (Inl Session_invalid)
          else if s_device_id s \<noteq> None then Some (Inl Already_bound)
          else if s_issued_via s \<noteq> Opaque_login then Some (Inl Not_freshly_issued)
          else
            (let row = new_device now (s_account_id s) name None Bearer_session_v1
             in case insert_device d row db of
                  None \<Rightarrow> None
                | Some db1 \<Rightarrow> map_option (\<lambda>db2. Inr (db2, row)) (bindSessionToDevice sid d db1)))"

definition store_revokeDevice :: "epoch_ms \<Rightarrow> id \<Rightarrow> id \<Rightarrow> auth_db \<Rightarrow> auth_db \<times> bool" where
  "store_revokeDevice now a d db =
     (case map_of (au_devices db) d of
        None \<Rightarrow> (db, False)
      | Some row \<Rightarrow>
          if d_account_id row \<noteq> a \<or> d_revoked_at row \<noteq> None then (db, False)
          else (db\<lparr>au_devices := update_where (\<lambda>k _. k = d) (\<lambda>r. r\<lparr>d_revoked_at := Some now\<rparr>) (au_devices db),
                  au_sessions := update_where (\<lambda>_ s. s_device_id s = Some d \<and> s_revoked_at s = None)
                    (\<lambda>s. s\<lparr>s_revoked_at := Some now\<rparr>) (au_sessions db)\<rparr>, True))"


section \<open>Rate limits\<close>

definition window_start :: "epoch_ms \<Rightarrow> int \<Rightarrow> epoch_ms" where
  "window_start now windowMs = now div windowMs * windowMs"

definition checkAndIncrement :: "epoch_ms \<Rightarrow> int \<Rightarrow> int \<Rightarrow> id \<Rightarrow> string \<Rightarrow> auth_db \<Rightarrow> (auth_db \<times> bool) option" where
  "checkAndIncrement now mx windowSeconds a scope db =
     (let key = (a, scope, window_start now (windowSeconds * 1000));
          n = (case map_of (au_rate_limits db) key of None \<Rightarrow> 1 | Some c \<Rightarrow> c + 1)
      in if map_of (au_rate_limits db) key = None \<and> \<not> account_exists a db then None
         else Some (db\<lparr>au_rate_limits := AList.update key n (au_rate_limits db)\<rparr>, n \<le> mx))"

definition RETENTION_MS :: int where "RETENTION_MS = 24 * 60 * 60 * 1000"

definition cleanup_windows :: "epoch_ms \<Rightarrow> auth_db \<Rightarrow> auth_db" where
  "cleanup_windows now db =
     db\<lparr>au_rate_limits := filter (\<lambda>((a, scope, start), c). \<not> start < now - RETENTION_MS) (au_rate_limits db)\<rparr>"

text \<open>\<open>referenced\<close>: a vault or a recorded mutation names the account.\<close>

definition account_in_use :: "(id \<Rightarrow> bool) \<Rightarrow> id \<Rightarrow> auth_db \<Rightarrow> bool" where
  "account_in_use referenced a db \<longleftrightarrow>
     map_of (au_credentials db) a \<noteq> None \<or> list_ex (\<lambda>s. s_account_id s = a) (map_values (au_sessions db)) \<or>
     list_ex (\<lambda>d. d_account_id d = a) (map_values (au_devices db)) \<or> map_of (au_key_bundles db) a \<noteq> None \<or>
     referenced a \<or> list_ex (\<lambda>((b, _, _), _). b = a) (au_rate_limits db)"

definition cleanup_accounts :: "epoch_ms \<Rightarrow> (id \<Rightarrow> bool) \<Rightarrow> auth_db \<Rightarrow> auth_db" where
  "cleanup_accounts now referenced db =
     db\<lparr>au_accounts := filter (\<lambda>(a, created). \<not> (created < now - RETENTION_MS \<and> \<not> account_in_use referenced a db)) (au_accounts db)\<rparr>"


section \<open>Pending logins\<close>

datatype login_entry = Login_real bytes epoch_ms | Login_fake epoch_ms

type_synonym login_store = "(id, login_entry) js_map"

fun entry_expiresAt :: "login_entry \<Rightarrow> epoch_ms" where
  "entry_expiresAt (Login_real _ t) = t"
| "entry_expiresAt (Login_fake t) = t"

definition LOGIN_TTL_MS :: int where "LOGIN_TTL_MS = 60000"

definition login_evictExpired :: "epoch_ms \<Rightarrow> login_store \<Rightarrow> login_store" where
  "login_evictExpired now st = filter (\<lambda>(a, e). \<not> entry_expiresAt e \<le> now) st"

definition setReal :: "epoch_ms \<Rightarrow> id \<Rightarrow> bytes \<Rightarrow> login_store \<Rightarrow> login_store" where
  "setReal now a stateBytes st = AList.update a (Login_real stateBytes (now + LOGIN_TTL_MS)) (login_evictExpired now st)"

definition setFake :: "epoch_ms \<Rightarrow> id \<Rightarrow> login_store \<Rightarrow> login_store" where
  "setFake now a st = AList.update a (Login_fake (now + LOGIN_TTL_MS)) (login_evictExpired now st)"

definition hasPending :: "epoch_ms \<Rightarrow> id \<Rightarrow> login_store \<Rightarrow> login_store \<times> bool" where
  "hasPending now a st = (let st1 = login_evictExpired now st in (st1, map_of st1 a \<noteq> None))"

definition take_login :: "epoch_ms \<Rightarrow> id \<Rightarrow> login_store \<Rightarrow> login_store \<times> login_entry option" where
  "take_login now a st =
     (let st1 = login_evictExpired now st
      in case map_of st1 a of None \<Rightarrow> (st1, None) | Some e \<Rightarrow> (AList.delete a st1, Some e))"


section \<open>Admission\<close>

record bucket =
  bk_count :: nat
  bk_windowEnd :: epoch_ms

type_synonym buckets = "(string, bucket) js_map"

definition ADMISSION_MAX :: nat where "ADMISSION_MAX = 20"
definition ADMISSION_WINDOW_MS :: int where "ADMISSION_WINDOW_MS = 60000"

definition bucket_evictExpired :: "epoch_ms \<Rightarrow> buckets \<Rightarrow> buckets" where
  "bucket_evictExpired now bs = filter (\<lambda>(k, b). \<not> bk_windowEnd b \<le> now) bs"

definition allow :: "nat \<Rightarrow> int \<Rightarrow> epoch_ms \<Rightarrow> string \<Rightarrow> buckets \<Rightarrow> buckets \<times> bool" where
  "allow mx windowMs now key bs =
     (let bs1 = bucket_evictExpired now bs;
          b = (case map_of bs1 key of None \<Rightarrow> \<lparr>bk_count = 0, bk_windowEnd = now + windowMs\<rparr> | Some b \<Rightarrow> b);
          b1 = b\<lparr>bk_count := bk_count b + 1\<rparr>
      in (AList.update key b1 bs1, bk_count b1 \<le> mx))"

definition admissionKey :: "string option \<Rightarrow> string" where
  "admissionKey ip = (case ip of None \<Rightarrow> ''unknown'' | Some s \<Rightarrow> if s = [] then ''unknown'' else s)"


section \<open>Key bundles\<close>

text \<open>
  Text of bytes that are not UTF-8 has replacement characters, so it can never reproduce the bytes and
  the validation ends with null; \<open>None\<close> stands for it.
\<close>

definition buffer_text :: "bytes \<Rightarrow> ustring option" where
  "buffer_text bs = map_option (\<lambda>ns. concat (map scalar_units ns)) (utf8_scalars (map unat bs))"

definition server_bounded_b64 :: "int \<Rightarrow> string \<Rightarrow> bool" where
  "server_bounded_b64 cap v \<longleftrightarrow>
     b64_pattern v \<and> (case backend_decodeB64 v of None \<Rightarrow> False | Some b \<Rightarrow> b \<noteq> [] \<and> int (length b) \<le> cap)"

definition server_fields_ok :: "account_bundle_fields \<Rightarrow> bool" where
  "server_fields_ok f \<longleftrightarrow>
     bf_format f = ACCOUNT_BUNDLE_FORMAT \<and> id_pattern (bf_accountId f) \<and> id_pattern (bf_vaultId f) \<and>
     id_pattern (bf_itemId f) \<and> server_bounded_b64 MAX_KDF_PARAMS_BYTES (bf_kdfParametersCbor f) \<and>
     list_all (server_bounded_b64 MAX_WRAPPER_BYTES)
       [bf_wrappedAccountKey f, bf_wrappedVaultKey f, bf_wrappedItemKey f, bf_wrappedRecoveryKey f]"

definition validateAccountBundleBytes :: "(ustring \<Rightarrow> jsval option) \<Rightarrow> bytes \<Rightarrow> account_bundle_fields option" where
  "validateAccountBundleBytes json_parse outerBytes =
     (if outerBytes = [] \<or> int (length outerBytes) > MAX_OUTER_BYTES then None
      else do {
        text \<leftarrow> buffer_text outerBytes;
        parsed \<leftarrow> json_parse text;
        f \<leftarrow> bundle_record parsed;
        if server_fields_ok f \<and> canonical_bytes f = outerBytes then Some f else None
      })"

definition store_getKeyBundle :: "id \<Rightarrow> auth_db \<Rightarrow> (bytes \<times> int) option" where
  "store_getKeyBundle a db = map_of (au_key_bundles db) a"

datatype publish_outcome = Created | Idempotent | Replaced | Publish_conflict "int option"

text \<open>
  The first query of an attempt and, when there is a row, the rest of the transaction, which holds its
  lock.  Without a row nothing is locked, and the insertion is a step of its own.
\<close>

datatype publish_next = Published publish_outcome | Publish_insert

definition publish_select :: "id \<Rightarrow> bytes \<Rightarrow> int \<Rightarrow> auth_db \<Rightarrow> auth_db \<times> publish_next" where
  "publish_select a bytes version db =
     (case map_of (au_key_bundles db) a of
        None \<Rightarrow> if version \<noteq> 1 then (db, Published (Publish_conflict None)) else (db, Publish_insert)
      | Some (bundle, current) \<Rightarrow>
          if current = version
          then (db, Published (if bundle = bytes then Idempotent else Publish_conflict (Some current)))
          else if version \<noteq> current + 1 then (db, Published (Publish_conflict (Some current)))
          else (db\<lparr>au_key_bundles := AList.update a (bytes, version) (au_key_bundles db)\<rparr>, Published Replaced))"

text \<open>\<open>Some None\<close>: the unique key is violated, and the attempt is repeated.\<close>

definition publish_insert :: "id \<Rightarrow> bytes \<Rightarrow> int \<Rightarrow> auth_db \<Rightarrow> auth_db option option" where
  "publish_insert a bytes version db =
     (if map_of (au_key_bundles db) a \<noteq> None then Some None
      else if \<not> account_exists a db then None
      else Some (Some (db\<lparr>au_key_bundles := AList.update a (bytes, version) (au_key_bundles db)\<rparr>)))"

definition PUBLISH_ATTEMPTS :: nat where "PUBLISH_ATTEMPTS = 5"

end
