(* ===== verification/Backend_Routes.thy ===== *)
theory Backend_Routes
  imports Backend_Auth
begin

text \<open>
  The routes for authentication, devices and the key bundle (\<open>auth/routes.mjs\<close>, \<open>auth/authenticate.mjs\<close>,
  \<open>auth/validation.mjs\<close>, \<open>devices/routes.mjs\<close>, \<open>account/routes.mjs\<close> under \<open>apps/backend/src\<close>).

  A handler is cut at its \<open>await\<close>s: \<open>auth_start\<close> runs a request up to its first suspension, with the query of
  \<open>requireSession\<close>, and \<open>auth_resume\<close> runs a suspended one to the next; between the two, other requests run.  The
  OPAQUE server of \<open>packages/crypto-server\<close>, SHA-256 and \<open>JSON.parse\<close> are arguments.
\<close>


section \<open>Requests\<close>

datatype registration_step = Reg_response bytes | Reg_record bytes

record auth_env =
  en_hash :: "string \<Rightarrow> bytes"
  en_json_parse :: "ustring \<Rightarrow> jsval option"
  en_registrationStep :: "id \<Rightarrow> bytes \<Rightarrow> registration_step option"
  en_loginStart :: "bytes \<Rightarrow> id \<Rightarrow> bytes \<Rightarrow> (bytes \<times> bytes) option"
  en_loginFinish :: "bytes \<Rightarrow> bytes \<Rightarrow> bool"
  en_sessionTtlSeconds :: int
  en_authRateLimitMax :: int
  en_authRateLimitWindowSeconds :: int

record auth_random =
  rn_token :: string
  rn_sessionId :: id
  rn_deviceId :: id
  rn_decoy :: bytes

datatype auth_request =
    Post_register "string option" jsval
  | Post_login "string option" jsval
  | Post_refresh "string option"
  | Post_logout "string option"
  | Get_devices "string option"
  | Post_devices "string option" jsval
  | Post_revoke "string option" id
  | Get_key_bundle "string option"
  | Put_key_bundle "string option" jsval

datatype auth_response =
    Unauthorized
  | Bad_request
  | Not_found
  | Server_error
  | Opaque_message int string
  | Session_granted string epoch_ms
  | No_content
  | Devices "(id \<times> device_row) list"
  | Device_created id device_row
  | Key_bundle string int
  | Key_bundle_conflict "int option" int

datatype auth_task =
    T_register_account id registration_step
  | T_register_limit id registration_step
  | T_register_save id bytes
  | T_login_account id bytes bool
  | T_login_limit id bytes bool
  | T_login_record id bytes
  | T_login_finish id bytes
  | T_login_issue id
  | T_refresh id
  | T_logout id
  | T_devices id
  | T_create_device id id string bytes
  | T_bind_device id id device_row
  | T_enroll_device id string
  | T_revoke_device id id
  | T_get_bundle id
  | T_put_bundle id bytes int nat
  | T_insert_bundle id bytes int nat

record auth_state =
  as_db :: auth_db
  as_logins :: login_store
  as_buckets :: buckets

datatype auth_next = Reply auth_response | Wait auth_task


section \<open>Validation\<close>

definition isValidAccountId :: "jsval \<Rightarrow> id option" where
  "isValidAccountId v =
     (case v of
        JStr s \<Rightarrow>
          if s \<noteq> [] \<and> length s \<le> 128 \<and> list_all (\<lambda>c. alnum c \<or> c = CHR ''.'' \<or> c = CHR ''_'' \<or> c = CHR ''-'') s
          then Some s else None
      | _ \<Rightarrow> None)"

definition body_get :: "jsval \<Rightarrow> string \<Rightarrow> jsval" where
  "body_get body k = (case body of JObj r \<Rightarrow> jget r k | _ \<Rightarrow> JUndefined)"

definition decode_b64_field :: "jsval \<Rightarrow> bytes option" where
  "decode_b64_field v = (case v of JStr s \<Rightarrow> backend_decodeB64 s | _ \<Rightarrow> None)"

text \<open>\<open>header.split (' ')\<close>, of which the first two parts are used.\<close>

definition bearer_token :: "string option \<Rightarrow> string option" where
  "bearer_token header =
     (case header of
        None \<Rightarrow> None
      | Some h \<Rightarrow>
          (let scheme = takeWhile (\<lambda>c. c \<noteq> CHR '' '') h;
               token = takeWhile (\<lambda>c. c \<noteq> CHR '' '') (drop (length scheme + 1) h)
           in if scheme \<noteq> ''Bearer'' \<or> token = [] then None else Some token))"

definition requireSession :: "auth_env \<Rightarrow> epoch_ms \<Rightarrow> string option \<Rightarrow> auth_db \<Rightarrow> (id \<times> session_row) option" where
  "requireSession env now header db =
     (case bearer_token header of None \<Rightarrow> None | Some token \<Rightarrow> resolveSession (en_hash env) now token db)"

definition NAME_MAX_LENGTH :: nat where "NAME_MAX_LENGTH = 128"

definition isValidName :: "jsval \<Rightarrow> string option" where
  "isValidName v = (case v of JStr s \<Rightarrow> if s \<noteq> [] \<and> length s \<le> NAME_MAX_LENGTH then Some s else None | _ \<Rightarrow> None)"

datatype device_create = Create_bearer jsval | Create_legacy jsval jsval

definition classifyDeviceCreate :: "jsval \<Rightarrow> device_create option" where
  "classifyDeviceCreate body =
     (case body of
        JObj r \<Rightarrow>
          (let hasPublicKey = jhas r ''publicKey''; hasMode = jhas r ''enrollmentMode''
           in if hasPublicKey = hasMode then None
              else if hasMode then
                (if jget r ''enrollmentMode'' \<noteq> JStr ''bearer-session-v1'' then None
                 else if \<not> list_all (\<lambda>(k, _). k = ''name'' \<or> k = ''enrollmentMode'') r then None
                 else Some (Create_bearer (jget r ''name'')))
              else if \<not> list_all (\<lambda>(k, _). k = ''name'' \<or> k = ''publicKey'') r then None
              else Some (Create_legacy (jget r ''name'') (jget r ''publicKey'')))
      | _ \<Rightarrow> None)"

definition KE1_LEN :: nat where "KE1_LEN = 96"
definition KE2_LEN :: nat where "KE2_LEN = 320"
definition REGISTRATION_ACK :: bytes where "REGISTRATION_ACK = [1]"
definition MAX_OUTER_B64_LENGTH :: int where "MAX_OUTER_B64_LENGTH = (MAX_OUTER_BYTES + 2) div 3 * 4 + 16"
definition MAX_VERSION :: int where "MAX_VERSION = 2147483647"

definition checked_publish :: "auth_env \<Rightarrow> id \<Rightarrow> jsval \<Rightarrow> (bytes \<times> int) option" where
  "checked_publish env account body = do {
     bundle \<leftarrow> jstring (body_get body ''bundle'');
     version \<leftarrow> jint (body_get body ''version'');
     if bundle = [] \<or> int (length bundle) > MAX_OUTER_B64_LENGTH \<or> version < 1 \<or> version > MAX_VERSION then None
     else do {
       bytes \<leftarrow> backend_decodeB64 bundle;
       f \<leftarrow> validateAccountBundleBytes (en_json_parse env) bytes;
       if bf_accountId f \<noteq> account then None else Some (bytes, version)
     }
   }"


section \<open>Requests up to their first suspension\<close>

definition start_register :: "auth_env \<Rightarrow> epoch_ms \<Rightarrow> string option \<Rightarrow> jsval \<Rightarrow> auth_state \<Rightarrow> auth_state \<times> auth_next" where
  "start_register env now ip body s =
     (case (isValidAccountId (body_get body ''accountId''), decode_b64_field (body_get body ''clientMessage'')) of
        (Some a, Some msg) \<Rightarrow>
          (case allow ADMISSION_MAX ADMISSION_WINDOW_MS now (admissionKey ip) (as_buckets s) of
             (bs, ok) \<Rightarrow>
               (let s1 = s\<lparr>as_buckets := bs\<rparr>
                in if \<not> ok then (s1, Reply Bad_request)
                   else (case en_registrationStep env a msg of
                           None \<Rightarrow> (s1, Reply Bad_request)
                         | Some step \<Rightarrow> (s1, Wait (T_register_account a step)))))
      | _ \<Rightarrow> (s, Reply Bad_request))"

definition start_login :: "auth_env \<Rightarrow> epoch_ms \<Rightarrow> string option \<Rightarrow> jsval \<Rightarrow> auth_state \<Rightarrow> auth_state \<times> auth_next" where
  "start_login env now ip body s =
     (case (isValidAccountId (body_get body ''accountId''), decode_b64_field (body_get body ''clientMessage'')) of
        (Some a, Some msg) \<Rightarrow>
          (case hasPending now a (as_logins s) of
             (ls, pending) \<Rightarrow>
               (let s1 = s\<lparr>as_logins := ls\<rparr>
                in if \<not> pending \<and> length msg \<noteq> KE1_LEN then (s1, Reply Unauthorized)
                   else (case allow ADMISSION_MAX ADMISSION_WINDOW_MS now (admissionKey ip) (as_buckets s) of
                           (bs, ok) \<Rightarrow>
                             if \<not> ok then (s1\<lparr>as_buckets := bs\<rparr>, Reply Unauthorized)
                             else (s1\<lparr>as_buckets := bs\<rparr>, Wait (T_login_account a msg pending)))))
      | _ \<Rightarrow> (s, Reply Unauthorized))"

definition start_create :: "jsval \<Rightarrow> id \<Rightarrow> session_row \<Rightarrow> auth_next" where
  "start_create body sid row =
     (case classifyDeviceCreate body of
        None \<Rightarrow> Reply Bad_request
      | Some (Create_legacy name key) \<Rightarrow>
          (case (isValidName name, decode_b64_field key) of
             (Some n, Some k) \<Rightarrow> Wait (T_create_device sid (s_account_id row) n k)
           | _ \<Rightarrow> Reply Bad_request)
      | Some (Create_bearer name) \<Rightarrow>
          (case isValidName name of None \<Rightarrow> Reply Bad_request | Some n \<Rightarrow> Wait (T_enroll_device sid n)))"

fun auth_start :: "auth_env \<Rightarrow> epoch_ms \<Rightarrow> auth_request \<Rightarrow> auth_state \<Rightarrow> auth_state \<times> auth_next" where
  "auth_start env now (Post_register ip body) s = start_register env now ip body s"
| "auth_start env now (Post_login ip body) s = start_login env now ip body s"
| "auth_start env now (Post_refresh h) s =
     (s, case requireSession env now h (as_db s) of
           None \<Rightarrow> Reply Unauthorized
         | Some (sid, row) \<Rightarrow> if s_device_id row = None then Reply Unauthorized else Wait (T_refresh sid))"
| "auth_start env now (Post_logout h) s =
     (s, case requireSession env now h (as_db s) of None \<Rightarrow> Reply Unauthorized | Some (sid, row) \<Rightarrow> Wait (T_logout sid))"
| "auth_start env now (Get_devices h) s =
     (s, case requireSession env now h (as_db s) of None \<Rightarrow> Reply Unauthorized | Some (sid, row) \<Rightarrow> Wait (T_devices (s_account_id row)))"
| "auth_start env now (Post_devices h body) s =
     (s, case requireSession env now h (as_db s) of None \<Rightarrow> Reply Unauthorized | Some (sid, row) \<Rightarrow> start_create body sid row)"
| "auth_start env now (Post_revoke h d) s =
     (s, case requireSession env now h (as_db s) of
           None \<Rightarrow> Reply Unauthorized | Some (sid, row) \<Rightarrow> Wait (T_revoke_device (s_account_id row) d))"
| "auth_start env now (Get_key_bundle h) s =
     (s, case requireSession env now h (as_db s) of None \<Rightarrow> Reply Unauthorized | Some (sid, row) \<Rightarrow> Wait (T_get_bundle (s_account_id row)))"
| "auth_start env now (Put_key_bundle h body) s =
     (s, case requireSession env now h (as_db s) of
           None \<Rightarrow> Reply Unauthorized
         | Some (sid, row) \<Rightarrow>
             (case checked_publish env (s_account_id row) body of
                None \<Rightarrow> Reply Bad_request
              | Some (bytes, version) \<Rightarrow> Wait (T_put_bundle (s_account_id row) bytes version PUBLISH_ATTEMPTS)))"


section \<open>From one suspension to the next\<close>

definition resume_limit ::
  "auth_env \<Rightarrow> epoch_ms \<Rightarrow> id \<Rightarrow> string \<Rightarrow> auth_response \<Rightarrow> auth_next \<Rightarrow> auth_state \<Rightarrow> auth_state \<times> auth_next" where
  "resume_limit env now a scope refusal next s =
     (case checkAndIncrement now (en_authRateLimitMax env) (en_authRateLimitWindowSeconds env) a scope (as_db s) of
        None \<Rightarrow> (s, Reply Server_error)
      | Some (db, ok) \<Rightarrow> (s\<lparr>as_db := db\<rparr>, if ok then next else Reply refusal))"

definition resume_record :: "auth_env \<Rightarrow> epoch_ms \<Rightarrow> auth_random \<Rightarrow> id \<Rightarrow> bytes \<Rightarrow> auth_state \<Rightarrow> auth_state \<times> auth_next" where
  "resume_record env now rnd a msg s =
     (case getCredentialRecord a (as_db s) of
        None \<Rightarrow> (s\<lparr>as_logins := setFake now a (as_logins s)\<rparr>, Reply (Opaque_message 200 (backend_encodeB64 (rn_decoy rnd))))
      | Some rec \<Rightarrow>
          (case en_loginStart env rec a msg of
             None \<Rightarrow> (s, Reply Unauthorized)
           | Some (st, ke2) \<Rightarrow> (s\<lparr>as_logins := setReal now a st (as_logins s)\<rparr>, Reply (Opaque_message 200 (backend_encodeB64 ke2)))))"

definition resume_finish :: "auth_env \<Rightarrow> epoch_ms \<Rightarrow> id \<Rightarrow> bytes \<Rightarrow> auth_state \<Rightarrow> auth_state \<times> auth_next" where
  "resume_finish env now a msg s =
     (case take_login now a (as_logins s) of
        (ls, entry) \<Rightarrow>
          (s\<lparr>as_logins := ls\<rparr>,
           case entry of
             Some (Login_real st _) \<Rightarrow> if en_loginFinish env st msg then Wait (T_login_issue a) else Reply Unauthorized
           | _ \<Rightarrow> Reply Unauthorized))"

definition publish_reply :: "int \<Rightarrow> publish_outcome \<Rightarrow> auth_response" where
  "publish_reply version out = (case out of Publish_conflict current \<Rightarrow> Key_bundle_conflict current version | _ \<Rightarrow> No_content)"

fun auth_resume :: "auth_env \<Rightarrow> epoch_ms \<Rightarrow> auth_random \<Rightarrow> auth_task \<Rightarrow> auth_state \<Rightarrow> auth_state \<times> auth_next" where
  "auth_resume env now rnd (T_register_account a step) s =
     (s\<lparr>as_db := ensureAccount now a (as_db s)\<rparr>, Wait (T_register_limit a step))"
| "auth_resume env now rnd (T_register_limit a step) s =
     resume_limit env now a ''register'' Bad_request
       (case step of
          Reg_response m \<Rightarrow> Reply (Opaque_message 201 (backend_encodeB64 m))
        | Reg_record rec \<Rightarrow> Wait (T_register_save a rec)) s"
| "auth_resume env now rnd (T_register_save a rec) s =
     (case saveCredentialRecordIfAbsent a rec (as_db s) of
        None \<Rightarrow> (s, Reply Server_error)
      | Some db \<Rightarrow> (s\<lparr>as_db := db\<rparr>, Reply (Opaque_message 201 (backend_encodeB64 REGISTRATION_ACK))))"
| "auth_resume env now rnd (T_login_account a msg pending) s =
     (s\<lparr>as_db := ensureAccount now a (as_db s)\<rparr>, Wait (T_login_limit a msg pending))"
| "auth_resume env now rnd (T_login_limit a msg pending) s =
     resume_limit env now a ''login'' Unauthorized
       (Wait (if pending then T_login_finish a msg else T_login_record a msg)) s"
| "auth_resume env now rnd (T_login_record a msg) s = resume_record env now rnd a msg s"
| "auth_resume env now rnd (T_login_finish a msg) s = resume_finish env now a msg s"
| "auth_resume env now rnd (T_login_issue a) s =
     (case issueSession (en_hash env) now (en_sessionTtlSeconds env) Opaque_login (rn_token rnd) (rn_sessionId rnd) a (as_db s) of
        None \<Rightarrow> (s, Reply Server_error)
      | Some db \<Rightarrow> (s\<lparr>as_db := db\<rparr>, Reply (Session_granted (rn_token rnd) (session_expiry now (en_sessionTtlSeconds env)))))"
| "auth_resume env now rnd (T_refresh sid) s =
     (case rotateSession (en_hash env) now (en_sessionTtlSeconds env) (rn_token rnd) (rn_sessionId rnd) sid (as_db s) of
        None \<Rightarrow> (s, Reply Server_error)
      | Some None \<Rightarrow> (s, Reply Unauthorized)
      | Some (Some db) \<Rightarrow> (s\<lparr>as_db := db\<rparr>, Reply (Session_granted (rn_token rnd) (session_expiry now (en_sessionTtlSeconds env)))))"
| "auth_resume env now rnd (T_logout sid) s = (s\<lparr>as_db := revokeSession now sid (as_db s)\<rparr>, Reply No_content)"
| "auth_resume env now rnd (T_devices a) s = (s, Reply (Devices (store_listDevices a (as_db s))))"
| "auth_resume env now rnd (T_create_device sid a name key) s =
     (case createDevice now (rn_deviceId rnd) a name key (as_db s) of
        None \<Rightarrow> (s, Reply Server_error)
      | Some db \<Rightarrow> (s\<lparr>as_db := db\<rparr>, Wait (T_bind_device sid (rn_deviceId rnd) (new_device now a name (Some key) Legacy_public_key))))"
| "auth_resume env now rnd (T_bind_device sid d row) s =
     (case bindSessionToDevice sid d (as_db s) of
        None \<Rightarrow> (s, Reply Server_error)
      | Some db \<Rightarrow> (s\<lparr>as_db := db\<rparr>, Reply (Device_created d row)))"
| "auth_resume env now rnd (T_enroll_device sid name) s =
     (case enrollBearerSessionDevice now (rn_deviceId rnd) sid name (as_db s) of
        None \<Rightarrow> (s, Reply Server_error)
      | Some (Inl e) \<Rightarrow> (s, Reply Bad_request)
      | Some (Inr (db, row)) \<Rightarrow> (s\<lparr>as_db := db\<rparr>, Reply (Device_created (rn_deviceId rnd) row)))"
| "auth_resume env now rnd (T_revoke_device a d) s =
     (case store_revokeDevice now a d (as_db s) of
        (db, ok) \<Rightarrow> (s\<lparr>as_db := db\<rparr>, Reply (if ok then No_content else Not_found)))"
| "auth_resume env now rnd (T_get_bundle a) s =
     (s, Reply (case store_getKeyBundle a (as_db s) of None \<Rightarrow> Not_found | Some (b, v) \<Rightarrow> Key_bundle (backend_encodeB64 b) v))"
| "auth_resume env now rnd (T_put_bundle a bytes version n) s =
     (if n = 0 then (s, Reply Server_error)
      else (case publish_select a bytes version (as_db s) of
              (db, Published out) \<Rightarrow> (s\<lparr>as_db := db\<rparr>, Reply (publish_reply version out))
            | (db, Publish_insert) \<Rightarrow> (s\<lparr>as_db := db\<rparr>, Wait (T_insert_bundle a bytes version n))))"
| "auth_resume env now rnd (T_insert_bundle a bytes version n) s =
     (case publish_insert a bytes version (as_db s) of
        None \<Rightarrow> (s, Reply Server_error)
      | Some None \<Rightarrow> (s, Wait (T_put_bundle a bytes version (n - 1)))
      | Some (Some db) \<Rightarrow> (s\<lparr>as_db := db\<rparr>, Reply (publish_reply version Created)))"


section \<open>Runs\<close>

text \<open>
  The state, the suspended requests, and the answers of resumed requests, latest first.  Time and random
  values are arbitrary at every step; the sweep of \<open>cleanup.mjs\<close> may run at any moment.
\<close>

type_synonym auth_world = "auth_state \<times> auth_task list \<times> (auth_task \<times> auth_response) list"

inductive auth_step :: "auth_env \<Rightarrow> auth_world \<Rightarrow> auth_world \<Rightarrow> bool" for env where
  arrive_reply: "auth_start env now req s = (s', Reply r) \<Longrightarrow> auth_step env (s, ts, l) (s', ts, l)"
| arrive_wait: "auth_start env now req s = (s', Wait t) \<Longrightarrow> auth_step env (s, ts, l) (s', t # ts, l)"
| resume_reply: "t \<in> set ts \<Longrightarrow> auth_resume env now rnd t s = (s', Reply r) \<Longrightarrow>
    auth_step env (s, ts, l) (s', remove1 t ts, (t, r) # l)"
| resume_wait: "t \<in> set ts \<Longrightarrow> auth_resume env now rnd t s = (s', Wait t') \<Longrightarrow>
    auth_step env (s, ts, l) (s', t' # remove1 t ts, l)"
| sweep_windows: "auth_step env (s, ts, l) (s\<lparr>as_db := cleanup_windows now (as_db s)\<rparr>, ts, l)"
| sweep_accounts: "auth_step env (s, ts, l) (s\<lparr>as_db := cleanup_accounts now referenced (as_db s)\<rparr>, ts, l)"

definition auth_initial :: auth_world where
  "auth_initial = (\<lparr>as_db = auth_db_empty, as_logins = [], as_buckets = []\<rparr>, [], [])"

end
