(* ===== verification/Backend_Bundle.thy ===== *)
theory Backend_Bundle
  imports Backend_Routes
begin

text \<open>
  The two implementations of the key-bundle format, \<open>packages/sdk/src/account-bundle-codec.ts\<close> and
  \<open>apps/backend/src/account/bundle-codec.mjs\<close>: what a client publishes the backend accepts, and what the backend
  stores every client reads back.
\<close>

lemma length_btoa: "length (btoa bs) mod 4 = 0"
  using length_encode_sextets [of bs] by (simp add: btoa_def b64_padding_def)

lemma backend_decode_encode: "bs \<noteq> [] \<Longrightarrow> backend_decodeB64 (encodeB64 bs) = Some bs"
proof -
  assume "bs \<noteq> []"
  from b64_pattern_encode [OF this] have tail: "length (dropWhile b64_digit (btoa (map unat bs))) \<le> 2"
    "list_all (\<lambda>c. c = CHR ''='') (dropWhile b64_digit (btoa (map unat bs)))"
    by (simp_all add: b64_pattern_def encodeB64_def B64_PREFIX_def Let_def)
  have "atob (btoa (map unat bs)) = Some (map unat bs)"
    by (rule atob_btoa) (simp add: list_all_iff unat_byte)
  then show ?thesis
    using tail length_btoa [of "map unat bs"]
    by (simp add: backend_decodeB64_def encodeB64_def is_prefix_iff Let_def comp_def)
qed

lemma backend_decode_safe: "backend_decodeB64 v = Some b \<Longrightarrow> safeDecode v = Some b"
  by (auto simp: backend_decodeB64_def safeDecode_def decodeB64_def Let_def split: if_splits option.splits)

lemma backend_encode_eq: "backend_encodeB64 bs = encodeB64 bs"
  by (simp add: backend_encodeB64_def encodeB64_def)

lemma server_bounded_client: "server_bounded_b64 cap v \<Longrightarrow> bounded_b64 cap v"
  by (auto simp: server_bounded_b64_def bounded_b64_def split: option.splits dest: backend_decode_safe)

lemma server_fields_client: "server_fields_ok f \<Longrightarrow> fields_ok f"
  by (simp add: server_fields_ok_def fields_ok_def server_bounded_client)

lemma buffer_text_canonical: "buffer_text (canonical_bytes f) = Some (units (json_object (ordered_fields f)))"
proof -
  let ?u = "units (json_object (ordered_fields f))"
  have "text_decode (text_encode ?u) = Some ?u" "drop_bom (text_encode ?u) = text_encode ?u"
    using units_well_formed text_decode_encode drop_bom_encode by blast+
  then show ?thesis
    using units_well_formed [of "json_object (ordered_fields f)"]
    by (simp add: buffer_text_def canonical_bytes_def text_decode_def utf8_bytes_def unat_encode del: map_map)
qed

lemma server_fields_encoded: "publishable b \<Longrightarrow> server_fields_ok (encoded_fields b)"
  by (simp add: publishable_def server_fields_ok_def encoded_fields_def server_bounded_b64_def b64_pattern_encode backend_decode_encode)

lemma validate_canonical:
  assumes "publishable b"
    and "json_parse (units (json_object (ordered_fields (encoded_fields b)))) = Some (string_object (ordered_fields (encoded_fields b)))"
  shows "validateAccountBundleBytes json_parse (canonical_bytes (encoded_fields b)) = Some (encoded_fields b)"
  using assms server_fields_encoded [OF assms(1)]
  by (simp add: validateAccountBundleBytes_def buffer_text_canonical canonical_bytes_nonempty bundle_record_ordered publishable_def)

lemma validated_client_reads:
  assumes "validateAccountBundleBytes json_parse bytes = Some f"
  shows "parseAccountBundle json_parse (backend_encodeB64 bytes) = Some f \<and> bytes = canonical_bytes f"
proof -
  from assms have v: "bytes \<noteq> []" "int (length bytes) \<le> MAX_OUTER_BYTES" "server_fields_ok f" "bytes = canonical_bytes f"
    by (auto simp: validateAccountBundleBytes_def split: if_splits bind_splits)
  then obtain parsed where p: "json_parse (units (json_object (ordered_fields f))) = Some parsed" "bundle_record parsed = Some f"
    using assms by (auto simp: validateAccountBundleBytes_def buffer_text_canonical split: if_splits bind_splits)
  have "text_decode (map unat (canonical_bytes f)) = Some (units (json_object (ordered_fields f)))"
    by (simp add: canonical_bytes_def text_decode_units del: map_map)
  with v p show ?thesis
    by (simp add: parseAccountBundle_def backend_encode_eq b64_pattern_encode safeDecode_def decode_encode_B64 server_fields_client)
qed

lemma wire_length:
  assumes "int (length bytes) \<le> MAX_OUTER_BYTES"
  shows "int (length (encodeB64 bytes)) \<le> MAX_OUTER_B64_LENGTH"
proof -
  have "length (btoa (map unat bytes)) = 4 * ((length bytes + 2) div 3)"
    using length_encode_sextets [of "map unat bytes"] by (simp add: btoa_def b64_padding_def)
  moreover have "(length bytes + 2) div 3 \<le> (nat MAX_OUTER_BYTES + 2) div 3" using assms by (intro div_le_mono) simp
  ultimately show ?thesis
    by (simp add: encodeB64_def B64_PREFIX_def MAX_OUTER_B64_LENGTH_def MAX_OUTER_BYTES_def)
qed

definition publish_body :: "string \<Rightarrow> int \<Rightarrow> jsval" where
  "publish_body bundle version = JObj [(''bundle'', JStr bundle), (''version'', JInt version)]"

lemma checked_canonical:
  assumes "publishable b"
    and "en_json_parse env (units (json_object (ordered_fields (encoded_fields b)))) = Some (string_object (ordered_fields (encoded_fields b)))"
    and "1 \<le> version" "version \<le> MAX_VERSION"
  shows "checked_publish env a (publish_body (buildAccountBundle b) version) =
    (if a = ab_accountId b then Some (canonical_bytes (encoded_fields b), version) else None)"
proof -
  let ?f = "encoded_fields b"
  have small: "int (length (buildAccountBundle b)) \<le> MAX_OUTER_B64_LENGTH"
    unfolding buildAccountBundle_def by (rule wire_length) (use assms(1) in \<open>simp add: publishable_def\<close>)
  have ne: "buildAccountBundle b \<noteq> []" by (simp add: buildAccountBundle_def encodeB64_def B64_PREFIX_def)
  have "backend_decodeB64 (buildAccountBundle b) = Some (canonical_bytes ?f)"
    by (simp add: buildAccountBundle_def backend_decode_encode canonical_bytes_nonempty)
  moreover have "validateAccountBundleBytes (en_json_parse env) (canonical_bytes ?f) = Some ?f"
    by (rule validate_canonical [of b "en_json_parse env", OF assms(1,2)])
  moreover have "bf_accountId ?f = ab_accountId b" by (simp add: encoded_fields_def)
  ultimately show ?thesis
    using small ne assms(3,4) by (auto simp: checked_publish_def publish_body_def body_get_def jget_def)
qed

text \<open>
  C40.  The two codecs of the key bundle agree.  A bundle within the limits of the format that a client builds
  passes every check of the publication, byte for byte, under the session of the account it names and no other;
  and whatever bytes the backend accepts for an account, from any client, the client's reader accepts in the answer
  to a later fetch, with that account in it.
\<close>
theorem bundle_codecs_agree:
  assumes "publishable b"
    and "en_json_parse env (units (json_object (ordered_fields (encoded_fields b)))) = Some (string_object (ordered_fields (encoded_fields b)))"
    and "1 \<le> version" "version \<le> MAX_VERSION"
  shows "checked_publish env a (publish_body (buildAccountBundle b) version) =
      (if a = ab_accountId b then Some (canonical_bytes (encoded_fields b), version) else None) \<and>
    (\<forall>body bytes v. checked_publish env a body = Some (bytes, v) \<longrightarrow>
       (\<exists>f. parseAccountBundle (en_json_parse env) (backend_encodeB64 bytes) = Some f \<and> bf_accountId f = a))"
proof -
  have "\<exists>f. parseAccountBundle (en_json_parse env) (backend_encodeB64 bytes) = Some f \<and> bf_accountId f = a"
    if "checked_publish env a body = Some (bytes, v)" for body bytes v
  proof -
    from that obtain f where "validateAccountBundleBytes (en_json_parse env) bytes = Some f" "bf_accountId f = a"
      by (auto simp: checked_publish_def split: bind_splits if_splits)
    with validated_client_reads show ?thesis by blast
  qed
  with checked_canonical [of b env, OF assms] show ?thesis by blast
qed

definition bundle_env :: auth_env where
  "bundle_env = \<lparr>en_hash = map (\<lambda>c. word_of_nat (of_char c)),
     en_json_parse = (\<lambda>_. Some (string_object (ordered_fields (encoded_fields sample_account)))),
     en_registrationStep = (\<lambda>a m. Some (Reg_record m)), en_loginStart = (\<lambda>rec a m. Some ([1], [2])),
     en_loginFinish = (\<lambda>st m. m = [9]), en_sessionTtlSeconds = 900, en_authRateLimitMax = 10, en_authRateLimitWindowSeconds = 300\<rparr>"

lemma bundle_env_parse:
  "en_json_parse bundle_env (units (json_object (ordered_fields (encoded_fields sample_account)))) =
     Some (string_object (ordered_fields (encoded_fields sample_account)))"
  by (simp add: bundle_env_def)

theorem bundle_codecs_agree_witness:
  "checked_publish bundle_env ''a'' (publish_body (buildAccountBundle sample_account) 1) =
     Some (canonical_bytes (encoded_fields sample_account), 1)"
  using bundle_codecs_agree [of sample_account bundle_env, OF publishable_sample bundle_env_parse, of 1 "''a''"]
  by (simp add: MAX_VERSION_def) (simp add: sample_account_def)

lemma checked_sample_bundle:
  "checked_publish bundle_env ''a'' (publish_body (buildAccountBundle sample_account) 1) =
     Some (canonical_bytes (encoded_fields sample_account), 1)"
  using checked_canonical [of sample_account bundle_env, OF publishable_sample bundle_env_parse, of 1 "''a''"]
  by (simp add: MAX_VERSION_def) (simp add: sample_account_def)

end
