(* ===== verification/Backend_Auth_Runs.thy ===== *)
theory Backend_Auth_Runs
  imports Backend_Bundle
begin

text \<open>
  Runs of the authentication routes: what the tables keep over any interleaving, and a sample run.
\<close>


section \<open>What the tables keep\<close>

definition session_kept :: "session_row \<Rightarrow> session_row \<Rightarrow> bool" where
  "session_kept s s' \<longleftrightarrow>
     s_account_id s' = s_account_id s \<and> s_token_hash s' = s_token_hash s \<and> s_expires_at s' = s_expires_at s \<and>
     s_issued_via s' = s_issued_via s \<and> (s_revoked_at s \<noteq> None \<longrightarrow> s_revoked_at s' \<noteq> None)"

definition device_kept :: "device_row \<Rightarrow> device_row \<Rightarrow> bool" where
  "device_kept d d' \<longleftrightarrow>
     d_account_id d' = d_account_id d \<and> d_name d' = d_name d \<and> d_public_key d' = d_public_key d \<and>
     d_enrollment_mode d' = d_enrollment_mode d \<and> (d_revoked_at d \<noteq> None \<longrightarrow> d_revoked_at d' \<noteq> None)"

text \<open>A later table has every row of an earlier one, each at least as recent.\<close>

definition rows_kept :: "('v \<Rightarrow> 'v \<Rightarrow> bool) \<Rightarrow> ('k, 'v) js_map \<Rightarrow> ('k, 'v) js_map \<Rightarrow> bool" where
  "rows_kept R m m' \<longleftrightarrow> (\<forall>k v. map_of m k = Some v \<longrightarrow> (\<exists>v'. map_of m' k = Some v' \<and> R v v'))"

definition bundle_kept :: "bytes \<times> int \<Rightarrow> bytes \<times> int \<Rightarrow> bool" where
  "bundle_kept b b' \<longleftrightarrow> b' = b \<or> snd b < snd b'"

definition keeps :: "auth_db \<Rightarrow> auth_db \<Rightarrow> bool" where
  "keeps db db' \<longleftrightarrow>
     rows_kept session_kept (au_sessions db) (au_sessions db') \<and> rows_kept device_kept (au_devices db) (au_devices db') \<and>
     rows_kept (=) (au_credentials db) (au_credentials db') \<and> rows_kept bundle_kept (au_key_bundles db) (au_key_bundles db')"

lemma kept_refl [simp]: "session_kept s s" "device_kept d d" "bundle_kept b b"
  by (simp_all add: session_kept_def device_kept_def bundle_kept_def)

lemma kept_revoked [simp]:
  "session_kept s (s\<lparr>s_revoked_at := Some t\<rparr>)" "session_kept s (s\<lparr>s_device_id := d\<rparr>)"
  "device_kept r (r\<lparr>d_revoked_at := Some t\<rparr>)"
  by (simp_all add: session_kept_def device_kept_def)

lemma rows_kept_refl: "(\<And>v. R v v) \<Longrightarrow> rows_kept R m m"
  by (simp add: rows_kept_def)

lemma rows_kept_trans:
  assumes "rows_kept R a b" "rows_kept R b c" "\<And>x y z. R x y \<Longrightarrow> R y z \<Longrightarrow> R x z"
  shows "rows_kept R a c"
  using assms unfolding rows_kept_def by metis

lemma rows_kept_update_where: "(\<And>v. R v v) \<Longrightarrow> (\<And>v. R v (f v)) \<Longrightarrow> rows_kept R m (update_where P f m)"
  by (auto simp: rows_kept_def)

lemma rows_kept_insert: "(\<And>v. R v v) \<Longrightarrow> map_of m k = None \<Longrightarrow> rows_kept R m (AList.update k v m)"
  by (auto simp: rows_kept_def update_conv')

lemma rows_kept_replace:
  "(\<And>v. R v v) \<Longrightarrow> map_of m k = Some old \<Longrightarrow> R old v \<Longrightarrow> rows_kept R m (AList.update k v m)"
  by (auto simp: rows_kept_def update_conv')

lemma keeps_refl [simp]: "keeps db db"
  by (simp add: keeps_def rows_kept_refl)

lemma kept_trans:
  "session_kept x y \<Longrightarrow> session_kept y z \<Longrightarrow> session_kept x z"
  "device_kept d e \<Longrightarrow> device_kept e f \<Longrightarrow> device_kept d f"
  "bundle_kept a b \<Longrightarrow> bundle_kept b c \<Longrightarrow> bundle_kept a c"
  by (auto simp: session_kept_def device_kept_def bundle_kept_def)

lemma keeps_trans: "keeps a b \<Longrightarrow> keeps b c \<Longrightarrow> keeps a c"
  unfolding keeps_def
  using rows_kept_trans [where R = session_kept] rows_kept_trans [where R = device_kept]
    rows_kept_trans [where R = "(=)"] rows_kept_trans [where R = bundle_kept] kept_trans
  by (elim conjE) (intro conjI; blast)

lemma keepsD:
  assumes "keeps db db'"
  shows "map_of (au_sessions db) sid = Some s \<Longrightarrow> \<exists>s'. map_of (au_sessions db') sid = Some s' \<and> session_kept s s'"
    "map_of (au_devices db) d = Some r \<Longrightarrow> \<exists>r'. map_of (au_devices db') d = Some r' \<and> device_kept r r'"
    "map_of (au_credentials db) a = Some c \<Longrightarrow> map_of (au_credentials db') a = Some c"
    "map_of (au_key_bundles db) a = Some b \<Longrightarrow> \<exists>b'. map_of (au_key_bundles db') a = Some b' \<and> bundle_kept b b'"
  using assms unfolding keeps_def rows_kept_def by blast+

lemma keepsI:
  assumes "rows_kept session_kept (au_sessions db) (au_sessions db')" "rows_kept device_kept (au_devices db) (au_devices db')"
    "rows_kept (=) (au_credentials db) (au_credentials db')" "rows_kept bundle_kept (au_key_bundles db) (au_key_bundles db')"
  shows "keeps db db'"
  using assms by (simp add: keeps_def)

lemmas rows_kept_rules = rows_kept_refl rows_kept_insert rows_kept_update_where rows_kept_replace


section \<open>Effects of the queries\<close>

text \<open>The tables whose keys are unique, and the unique token.\<close>

definition tables_ok :: "auth_db \<Rightarrow> bool" where
  "tables_ok db \<longleftrightarrow>
     map_wf (au_sessions db) \<and> map_wf (au_devices db) \<and>
     (\<forall>i s j t. map_of (au_sessions db) i = Some s \<longrightarrow> map_of (au_sessions db) j = Some t \<longrightarrow>
        s_token_hash s = s_token_hash t \<longrightarrow> i = j)"

lemma map_wf_update_where [simp]: "map_wf (update_where P f m) = map_wf m"
  by (simp add: map_wf_def)

lemma insert_session_effect:
  assumes "insert_session sid row db = Some db1"
  shows "au_sessions db1 = AList.update sid row (au_sessions db)" "au_devices db1 = au_devices db"
    "au_credentials db1 = au_credentials db" "au_key_bundles db1 = au_key_bundles db"
    "map_of (au_sessions db) sid = None" "account_exists (s_account_id row) db"
    "map_of (au_sessions db) i = Some s \<Longrightarrow> s_token_hash s \<noteq> s_token_hash row"
  using assms by (auto simp: insert_session_def list_ex_iff split: if_splits dest!: map_of_SomeD bspec)

lemma insert_session_keeps: "insert_session sid row db = Some db1 \<Longrightarrow> keeps db db1"
  using insert_session_effect [of sid row db db1] by (auto intro!: keepsI rows_kept_rules)

lemma insert_session_ok:
  assumes "insert_session sid row db = Some db1" "tables_ok db"
  shows "tables_ok db1"
proof -
  note e = insert_session_effect [OF assms(1)]
  show ?thesis
    using assms(2) e(7) unfolding tables_ok_def e(1,2)
    by (auto simp: update_conv' split: if_splits) (metis e(7))+
qed

lemma insert_device_effect:
  assumes "insert_device d row db = Some db1"
  shows "au_devices db1 = AList.update d row (au_devices db)" "au_sessions db1 = au_sessions db"
    "au_credentials db1 = au_credentials db" "au_key_bundles db1 = au_key_bundles db" "map_of (au_devices db) d = None"
  using assms by (auto simp: insert_device_def split: if_splits)

lemma insert_device_keeps: "insert_device d row db = Some db1 \<Longrightarrow> keeps db db1"
  using insert_device_effect [of d row db db1] by (auto intro!: keepsI rows_kept_rules)

lemma insert_device_ok: "insert_device d row db = Some db1 \<Longrightarrow> tables_ok db \<Longrightarrow> tables_ok db1"
  using insert_device_effect [of d row db db1] by (auto simp: tables_ok_def)

lemma tables_ok_update_where:
  assumes "tables_ok db" "\<And>s. s_token_hash (f s) = s_token_hash s"
  shows "tables_ok (db\<lparr>au_sessions := update_where P f (au_sessions db)\<rparr>)"
  using assms by (auto simp: tables_ok_def split: if_splits)

lemma bind_effect:
  assumes "bindSessionToDevice sid d db = Some db1"
  shows "db1 = db\<lparr>au_sessions := update_where (\<lambda>k _. k = sid) (\<lambda>s. s\<lparr>s_device_id := Some d\<rparr>) (au_sessions db)\<rparr>"
  using assms by (auto simp: bindSessionToDevice_def split: if_splits)

lemma sessions_update_keeps:
  "(\<And>s. session_kept s (f s)) \<Longrightarrow> keeps db (db\<lparr>au_sessions := update_where P f (au_sessions db)\<rparr>)"
  by (auto intro!: keepsI rows_kept_rules)

text \<open>A database step of the routes: rows are kept, keys stay unique.\<close>

definition good_step :: "auth_db \<Rightarrow> auth_db \<Rightarrow> bool" where
  "good_step db db1 \<longleftrightarrow> keeps db db1 \<and> (tables_ok db \<longrightarrow> tables_ok db1)"

lemma good_step_refl [simp]: "good_step db db"
  by (simp add: good_step_def)

lemma good_step_trans: "good_step a b \<Longrightarrow> good_step b c \<Longrightarrow> good_step a c"
  unfolding good_step_def using keeps_trans by blast

lemma good_step_other:
  "au_sessions db1 = au_sessions db \<Longrightarrow> au_devices db1 = au_devices db \<Longrightarrow> au_key_bundles db1 = au_key_bundles db \<Longrightarrow>
   rows_kept (=) (au_credentials db) (au_credentials db1) \<Longrightarrow> good_step db db1"
  by (auto simp: good_step_def tables_ok_def intro!: keepsI rows_kept_rules)

lemma good_step_sessions:
  "(\<And>s. session_kept s (f s)) \<Longrightarrow> good_step db (db\<lparr>au_sessions := update_where P f (au_sessions db)\<rparr>)"
  unfolding good_step_def by (auto intro!: sessions_update_keeps tables_ok_update_where) (simp add: session_kept_def)

lemma good_step_revoke [simp]:
  "good_step db (db\<lparr>au_sessions := update_where P (s_revoked_at_update (\<lambda>_. Some t)) (au_sessions db)\<rparr>)"
  by (rule good_step_sessions) simp

lemma good_step_insert_session: "insert_session sid row db = Some db1 \<Longrightarrow> good_step db db1"
  by (simp add: good_step_def insert_session_keeps insert_session_ok)

lemma good_step_insert_device: "insert_device d row db = Some db1 \<Longrightarrow> good_step db db1"
  by (simp add: good_step_def insert_device_keeps insert_device_ok)

lemma good_step_bind: "bindSessionToDevice sid d db = Some db1 \<Longrightarrow> good_step db db1"
  using bind_effect good_step_sessions by fastforce

lemma good_step_issue: "issueSession hash now ttl via token sid a db = Some db1 \<Longrightarrow> good_step db db1"
  unfolding issueSession_def by (rule good_step_insert_session)

lemma rotate_effect:
  assumes "rotateSession hash now ttl token newid sid db = Some (Some db2)"
  obtains s db1 where "map_of (au_sessions db) sid = Some s" "rotatable now s db"
    "db1 = db\<lparr>au_sessions := update_where (\<lambda>k _. k = sid) (\<lambda>s. s\<lparr>s_revoked_at := Some now\<rparr>) (au_sessions db)\<rparr>"
    "insert_session newid \<lparr>s_account_id = s_account_id s, s_token_hash = hash token, s_expires_at = session_expiry now ttl,
       s_revoked_at = None, s_device_id = s_device_id s, s_issued_via = Refresh\<rparr> db1 = Some db2"
  using assms by (auto simp: rotateSession_def Let_def split: option.splits if_splits)

lemma good_step_rotate: "rotateSession hash now ttl token newid sid db = Some (Some db2) \<Longrightarrow> good_step db db2"
  by (erule rotate_effect, rule good_step_trans [OF _ good_step_insert_session]) simp_all

lemma good_step_enroll:
  "enrollBearerSessionDevice now d sid name db = Some (Inr (db2, row)) \<Longrightarrow> good_step db db2"
  by (auto simp: enrollBearerSessionDevice_def Let_def split: option.splits if_splits
      dest!: good_step_insert_device good_step_bind intro: good_step_trans)

lemma good_step_revoke_device: "good_step db (fst (store_revokeDevice now a d db))"
proof -
  let ?f = "\<lambda>s. s\<lparr>s_revoked_at := Some now\<rparr>" and ?P = "\<lambda>_ s. s_device_id s = Some d \<and> s_revoked_at s = None"
  let ?dv = "update_where (\<lambda>k _. k = d) (\<lambda>r. r\<lparr>d_revoked_at := Some now\<rparr>) (au_devices db)"
  have "good_step db (db\<lparr>au_devices := ?dv\<rparr>)"
    by (auto simp: good_step_def tables_ok_def intro!: keepsI rows_kept_rules)
  moreover have "good_step (db\<lparr>au_devices := ?dv\<rparr>)
      (db\<lparr>au_devices := ?dv, au_sessions := update_where ?P ?f (au_sessions db)\<rparr>)"
    using good_step_sessions [of ?f "db\<lparr>au_devices := ?dv\<rparr>" ?P] by simp
  ultimately show ?thesis
    by (auto simp: store_revokeDevice_def split: option.splits intro: good_step_trans)
qed

lemma good_step_limits:
  "good_step db (ensureAccount now a db)" "good_step db (cleanup_windows now db)" "good_step db (cleanup_accounts now referenced db)"
  "checkAndIncrement now mx w a scope db = Some (db1, ok) \<Longrightarrow> good_step db db1"
  "saveCredentialRecordIfAbsent a rec db = Some db1 \<Longrightarrow> good_step db db1"
  by (auto simp: ensureAccount_def cleanup_windows_def cleanup_accounts_def checkAndIncrement_def Let_def
      saveCredentialRecordIfAbsent_def split: if_splits intro!: good_step_other rows_kept_rules)

lemma good_step_bundles:
  assumes "case map_of (au_key_bundles db) a of None \<Rightarrow> True | Some old \<Rightarrow> bundle_kept old b"
  shows "good_step db (db\<lparr>au_key_bundles := AList.update a b (au_key_bundles db)\<rparr>)"
proof -
  have "rows_kept bundle_kept (au_key_bundles db) (AList.update a b (au_key_bundles db))"
    using assms by (cases "map_of (au_key_bundles db) a") (auto intro: rows_kept_rules)
  then show ?thesis by (auto simp: good_step_def tables_ok_def intro!: keepsI rows_kept_refl)
qed

lemma good_step_publish:
  "publish_select a bytes version db = (db1, out) \<Longrightarrow> good_step db db1"
  "publish_insert a bytes version db = Some (Some db1) \<Longrightarrow> good_step db db1"
  by (auto simp: publish_select_def publish_insert_def bundle_kept_def
      split: option.splits if_splits intro!: good_step_bundles)

lemma start_db: "auth_start env now req s = (s', n) \<Longrightarrow> as_db s' = as_db s"
  by (cases req) (auto simp: start_register_def start_login_def Let_def split: option.splits prod.splits if_splits)

lemma resume_good:
  assumes "auth_resume env now rnd t s = (s', n)"
  shows "good_step (as_db s) (as_db s')"
proof (cases t)
  case (T_register_limit a step)
  then show ?thesis using assms
    by (auto simp: resume_limit_def split: option.splits intro: good_step_limits)
next
  case (T_login_limit a msg p)
  then show ?thesis using assms
    by (auto simp: resume_limit_def split: option.splits intro: good_step_limits)
next
  case (T_revoke_device a d)
  then show ?thesis using assms good_step_revoke_device [of "as_db s" now a d] by (auto split: prod.splits)
next
  case (T_put_bundle a b v k)
  then show ?thesis using assms
    by (auto split: prod.splits publish_next.splits if_splits intro: good_step_publish)
next
  case (T_login_record a m)
  then show ?thesis using assms by (auto simp: resume_record_def split: option.splits)
next
  case (T_login_finish a m)
  then show ?thesis using assms by (auto simp: resume_finish_def split: prod.splits)
next
  case (T_create_device sid a name key)
  then show ?thesis using assms
    by (auto simp: createDevice_def split: option.splits intro: good_step_insert_device)
next
  case (T_enroll_device sid name)
  then show ?thesis using assms by (auto split: option.splits sum.splits intro: good_step_enroll)
qed (use assms in \<open>auto simp: revokeSession_def split: option.splits
      intro: good_step_limits good_step_issue good_step_rotate good_step_bind good_step_publish\<close>)

lemma auth_step_good: "auth_step env (s, ts, l) (s', ts', l') \<Longrightarrow> good_step (as_db s) (as_db s')"
  by (erule auth_step.cases) (auto simp: good_step_limits dest: start_db resume_good)

lemma auth_run_good:
  assumes "(auth_step env)\<^sup>*\<^sup>* (s, ts, l) (s', ts', l')"
  shows "good_step (as_db s) (as_db s')"
  using assms
proof (induction "(s', ts', l')" arbitrary: s' ts' l' rule: rtranclp_induct)
  case (step y)
  then show ?case by (cases y) (auto intro: good_step_trans auth_step_good)
qed simp

lemma tables_ok_initial [simp]: "tables_ok auth_db_empty"
  by (simp add: tables_ok_def auth_db_empty_def)



section \<open>A sample run\<close>

datatype auth_move = Arrive epoch_ms auth_request | Resume epoch_ms auth_random auth_task

fun auth_event :: "auth_env \<Rightarrow> auth_move \<Rightarrow> auth_world \<Rightarrow> auth_world" where
  "auth_event env (Arrive now req) (s, ts, l) =
     (case auth_start env now req s of (s', Reply r) \<Rightarrow> (s', ts, l) | (s', Wait t) \<Rightarrow> (s', t # ts, l))"
| "auth_event env (Resume now rnd t) (s, ts, l) =
     (if t \<in> set ts
      then (case auth_resume env now rnd t s of
              (s', Reply r) \<Rightarrow> (s', remove1 t ts, (t, r) # l) | (s', Wait t') \<Rightarrow> (s', t' # remove1 t ts, l))
      else (s, ts, l))"

definition auth_events :: "auth_env \<Rightarrow> auth_move list \<Rightarrow> auth_world \<Rightarrow> auth_world" where
  "auth_events env es w = foldl (\<lambda>w e. auth_event env e w) w es"

lemma auth_event_step: "(auth_step env)\<^sup>*\<^sup>* w (auth_event env e w)"
proof (cases "(env, e, w)" rule: auth_event.cases)
  case (1 env now req s ts l)
  then show ?thesis
    by (cases "auth_start env now req s"; cases "snd (auth_start env now req s)")
      (auto intro: auth_step.intros)
next
  case (2 env now rnd t s ts l)
  then show ?thesis
    by (cases "auth_resume env now rnd t s"; cases "snd (auth_resume env now rnd t s)")
      (auto intro: auth_step.intros)
qed

lemma auth_events_run: "(auth_step env)\<^sup>*\<^sup>* w (auth_events env es w)"
proof (induction es arbitrary: w)
  case (Cons e es)
  have "auth_events env (e # es) w = auth_events env es (auth_event env e w)" by (simp add: auth_events_def)
  with Cons [of "auth_event env e w"] auth_event_step [of env w e] show ?case by (metis rtranclp_trans)
qed (simp add: auth_events_def)

definition sample_random :: "nat \<Rightarrow> auth_random" where
  "sample_random n =
     \<lparr>rn_token = CHR ''t'' # string_of_nat n, rn_sessionId = CHR ''s'' # string_of_nat n, rn_deviceId = CHR ''d'' # string_of_nat n,
      rn_decoy = [0]\<rparr>"

definition leg_body :: "bytes \<Rightarrow> jsval" where
  "leg_body msg = JObj [(''accountId'', JStr ''a''), (''clientMessage'', JStr (backend_encodeB64 msg))]"

definition sample_ke1 :: bytes where
  "sample_ke1 = replicate 96 7"

text \<open>Registration, login, enrolment of a device, two refreshes of the same session, and the revocation of the device.\<close>

definition run_login :: "auth_move list" where
  "run_login =
     [Arrive 1 (Post_register None (leg_body [5])), Resume 1 (sample_random 0) (T_register_account ''a'' (Reg_record [5])),
      Resume 1 (sample_random 0) (T_register_limit ''a'' (Reg_record [5])), Resume 1 (sample_random 0) (T_register_save ''a'' [5]),
      Arrive 2 (Post_login None (leg_body sample_ke1)), Resume 2 (sample_random 0) (T_login_account ''a'' sample_ke1 False),
      Resume 2 (sample_random 0) (T_login_limit ''a'' sample_ke1 False), Resume 2 (sample_random 0) (T_login_record ''a'' sample_ke1),
      Arrive 3 (Post_login None (leg_body [9])), Resume 3 (sample_random 0) (T_login_account ''a'' [9] True),
      Resume 3 (sample_random 0) (T_login_limit ''a'' [9] True), Resume 3 (sample_random 0) (T_login_finish ''a'' [9]),
      Resume 3 (sample_random 1) (T_login_issue ''a'')]"

definition sample_enrol :: "auth_move list" where
  "sample_enrol =
     [Arrive 4 (Post_devices (Some ''Bearer t1'') (JObj [(''name'', JStr ''n''), (''enrollmentMode'', JStr ''bearer-session-v1'')])),
      Resume 4 (sample_random 1) (T_enroll_device ''s1'' ''n'')]"

definition sample_refresh :: "auth_move list" where
  "sample_refresh =
     [Arrive 5 (Post_refresh (Some ''Bearer t1'')), Arrive 5 (Post_refresh (Some ''Bearer t1'')),
      Resume 6 (sample_random 2) (T_refresh ''s1''), Resume 6 (sample_random 3) (T_refresh ''s1'')]"

definition sample_revoke :: "auth_move list" where
  "sample_revoke =
     [Arrive 7 (Post_revoke (Some ''Bearer t2'') ''d1''), Resume 7 (sample_random 0) (T_revoke_device ''a'' ''d1'')]"

definition auth_sample :: auth_world where
  "auth_sample = auth_events bundle_env (run_login @ sample_enrol @ sample_refresh) auth_initial"

definition auth_revoked :: auth_world where
  "auth_revoked = auth_events bundle_env sample_revoke auth_sample"

lemma auth_sample_run: "(auth_step bundle_env)\<^sup>*\<^sup>* auth_initial auth_sample" "(auth_step bundle_env)\<^sup>*\<^sup>* auth_initial auth_revoked"
proof -
  show s: "(auth_step bundle_env)\<^sup>*\<^sup>* auth_initial auth_sample" unfolding auth_sample_def by (rule auth_events_run)
  show "(auth_step bundle_env)\<^sup>*\<^sup>* auth_initial auth_revoked"
    unfolding auth_revoked_def by (rule rtranclp_trans [OF s auth_events_run])
qed

definition run_session :: "id \<Rightarrow> epoch_ms \<Rightarrow> epoch_ms option \<Rightarrow> issued_via \<Rightarrow> session_row" where
  "run_session token expires revoked via =
     \<lparr>s_account_id = ''a'', s_token_hash = en_hash bundle_env token, s_expires_at = expires, s_revoked_at = revoked,
      s_device_id = Some ''d1'', s_issued_via = via\<rparr>"

lemma auth_sample_eq:
  "auth_sample =
     (\<lparr>as_db = \<lparr>au_accounts = [(''a'', 1)], au_credentials = [(''a'', [5])],
         au_sessions = [(''s1'', run_session ''t1'' 900003 (Some 6) Opaque_login), (''s2'', run_session ''t2'' 900006 None Refresh)],
         au_devices = [(''d1'', new_device 4 ''a'' ''n'' None Bearer_session_v1)],
         au_rate_limits = [((''a'', ''register'', 0), 1), ((''a'', ''login'', 0), 2)], au_key_bundles = []\<rparr>,
       as_logins = [], as_buckets = [(''unknown'', \<lparr>bk_count = 3, bk_windowEnd = 60001\<rparr>)]\<rparr>, [],
      [(T_refresh ''s1'', Unauthorized), (T_refresh ''s1'', Session_granted ''t2'' 900006),
       (T_enroll_device ''s1'' ''n'', Device_created ''d1'' (new_device 4 ''a'' ''n'' None Bearer_session_v1)),
       (T_login_issue ''a'', Session_granted ''t1'' 900003), (T_login_record ''a'' sample_ke1, Opaque_message 200 (backend_encodeB64 [2])),
       (T_register_save ''a'' [5], Opaque_message 201 (backend_encodeB64 [1]))])"
  by code_simp

lemma auth_sample_resolves:
  "requireSession bundle_env 7 (Some ''Bearer t2'') (as_db (fst auth_sample)) = Some (''s2'', run_session ''t2'' 900006 None Refresh)"
  unfolding auth_sample_eq by code_simp

lemma auth_revoked_device: "map_option d_revoked_at (map_of (au_devices (as_db (fst auth_revoked))) ''d1'') = Some (Some 7)"
  unfolding auth_revoked_def auth_sample_eq by code_simp

text \<open>The publication of a key bundle, before and after its insertion.\<close>

definition stored_sample :: bytes where
  "stored_sample = canonical_bytes (encoded_fields sample_account)"

definition auth_publishing :: auth_world where
  "auth_publishing = (fst auth_sample, [T_insert_bundle ''a'' stored_sample 1 PUBLISH_ATTEMPTS], snd (snd auth_sample))"

definition auth_published :: auth_world where
  "auth_published =
     ((fst auth_sample)\<lparr>as_db := (as_db (fst auth_sample))\<lparr>au_key_bundles := [(''a'', stored_sample, 1)]\<rparr>\<rparr>, [],
      (T_insert_bundle ''a'' stored_sample 1 PUBLISH_ATTEMPTS, No_content) # snd (snd auth_sample))"

lemma auth_publishing_run: "(auth_step bundle_env)\<^sup>*\<^sup>* auth_initial auth_publishing"
proof -
  let ?s = "fst auth_sample" and ?l = "snd (snd auth_sample)"
  let ?put = "T_put_bundle ''a'' stored_sample 1 PUBLISH_ATTEMPTS" and ?ins = "T_insert_bundle ''a'' stored_sample 1 PUBLISH_ATTEMPTS"
  have start: "auth_start bundle_env 7 (Put_key_bundle (Some ''Bearer t2'') (publish_body (buildAccountBundle sample_account) 1)) ?s =
      (?s, Wait ?put)"
    by (simp add: auth_sample_resolves run_session_def checked_sample_bundle stored_sample_def)
  have select: "auth_resume bundle_env 7 (sample_random 0) ?put ?s = (?s, Wait ?ins)"
    by (simp add: publish_select_def auth_sample_eq PUBLISH_ATTEMPTS_def)
  have tasks: "fst (snd auth_sample) = []" by (simp add: auth_sample_eq)
  have "auth_step bundle_env (?s, [], ?l) (?s, [?put], ?l)" by (rule auth_step.arrive_wait [OF start])
  moreover have "auth_step bundle_env (?s, [?put], ?l) (?s, [?ins], ?l)"
    using auth_step.resume_wait [OF _ select, of "[?put]" ?l] by simp
  moreover have "auth_sample = (?s, [], ?l)" using tasks by (metis prod.collapse)
  ultimately show ?thesis using auth_sample_run(1) unfolding auth_publishing_def by (metis rtranclp.rtrancl_into_rtrancl)
qed

lemma auth_published_run: "(auth_step bundle_env)\<^sup>*\<^sup>* auth_initial auth_published"
proof -
  let ?s = "fst auth_sample" and ?ins = "T_insert_bundle ''a'' stored_sample 1 PUBLISH_ATTEMPTS"
  have "auth_resume bundle_env 7 (sample_random 0) ?ins ?s =
      (?s\<lparr>as_db := (as_db ?s)\<lparr>au_key_bundles := [(''a'', stored_sample, 1)]\<rparr>\<rparr>, Reply No_content)"
    by (simp add: publish_insert_def auth_sample_eq publish_reply_def)
  from auth_step.resume_reply [OF _ this, of "[?ins]" "snd (snd auth_sample)"]
  have "auth_step bundle_env auth_publishing auth_published" by (simp add: auth_publishing_def auth_published_def)
  with auth_publishing_run show ?thesis by (rule rtranclp.rtrancl_into_rtrancl)
qed

text \<open>The sample worlds as triples.\<close>

abbreviation as_triple :: "auth_world \<Rightarrow> auth_world" where
  "as_triple w \<equiv> (fst w, fst (snd w), snd (snd w))"

lemma sample_runs:
  "(auth_step bundle_env)\<^sup>*\<^sup>* auth_initial (as_triple auth_sample)" "(auth_step bundle_env)\<^sup>*\<^sup>* auth_initial (as_triple auth_revoked)"
  "(auth_step bundle_env)\<^sup>*\<^sup>* auth_initial (as_triple auth_publishing)" "(auth_step bundle_env)\<^sup>*\<^sup>* auth_initial (as_triple auth_published)"
  using auth_sample_run auth_publishing_run auth_published_run by simp_all

end
