(* ===== verification/Backend_Auth_Properties.thy ===== *)
theory Backend_Auth_Properties
  imports Backend_Auth_Runs
begin

text \<open>
  What the authentication routes guarantee over every interleaving of requests, at any times and with any
  random values: revocation is final, a session is rotated at most once, every session goes back to an OPAQUE
  login of its account, and key bundles are published by compare and swap.
\<close>


section \<open>Revocation\<close>

lemma resolve_row:
  assumes "tables_ok db" "requireSession env now header db = Some (sid, s)"
  shows "map_of (au_sessions db) sid = Some s \<and> s_revoked_at s = None \<and> \<not> device_revoked s db \<and> now < s_expires_at s"
proof -
  from assms(2) obtain token where "resolveSession (en_hash env) now token db = Some (sid, s)"
    by (auto simp: requireSession_def split: option.splits)
  then have s: "find (\<lambda>(i, r). s_token_hash r = en_hash env token) (au_sessions db) = Some (sid, s)" "s_revoked_at s = None"
    "\<not> device_revoked s db" "now < s_expires_at s"
    by (auto simp: resolveSession_def split: option.splits if_splits)
  then have "(sid, s) \<in> set (au_sessions db)" by (auto simp: find_Some_iff in_set_conv_nth)
  with assms(1) s(2-4) show ?thesis by (simp add: tables_ok_def map_wf_mem)
qed

lemma rotate_revoked:
  assumes "map_of (au_sessions db) sid = Some row" "s_revoked_at row \<noteq> None"
  shows "rotateSession hash now ttl token newid sid db = Some None"
  using assms by (simp add: rotateSession_def rotatable_def)

lemma run_tables_ok: "(auth_step env)\<^sup>*\<^sup>* auth_initial (s, ts, l) \<Longrightarrow> tables_ok (as_db s)"
  using auth_run_good [of env "\<lparr>as_db = auth_db_empty, as_logins = [], as_buckets = []\<rparr>" "[]" "[]" s ts l]
  by (simp add: auth_initial_def good_step_def)

text \<open>
  C36.  Revocation is final.  Once a session is revoked, no header resolves to it and no refresh succeeds with
  it, at whatever time and after whatever requests, including those that were already under way; and once a
  device is revoked, no request is ever authenticated by a session bound to it, not even by one that was
  bound to it or rotated while the revocation ran.
\<close>
theorem revocation_is_final:
  assumes "(auth_step env)\<^sup>*\<^sup>* auth_initial (s, ts, l)" "(auth_step env)\<^sup>*\<^sup>* (s, ts, l) (s', ts', l')"
  shows "(\<forall>sid row. map_of (au_sessions (as_db s)) sid = Some row \<longrightarrow> s_revoked_at row \<noteq> None \<longrightarrow>
      (\<forall>now header r. requireSession env now header (as_db s') \<noteq> Some (sid, r)) \<and>
      (\<forall>now ttl token newid. rotateSession (en_hash env) now ttl token newid sid (as_db s') = Some None)) \<and>
    (\<forall>d row. map_of (au_devices (as_db s)) d = Some row \<longrightarrow> d_revoked_at row \<noteq> None \<longrightarrow>
      (\<forall>now header sid r. requireSession env now header (as_db s') = Some (sid, r) \<longrightarrow> s_device_id r \<noteq> Some d))"
proof -
  have kept: "keeps (as_db s) (as_db s')" using auth_run_good [OF assms(2)] by (simp add: good_step_def)
  have ok: "tables_ok (as_db s')" by (rule run_tables_ok [OF rtranclp_trans [OF assms]])
  have "requireSession env now header (as_db s') \<noteq> Some (sid, r) \<and>
      rotateSession (en_hash env) now ttl token newid sid (as_db s') = Some None"
    if sid: "map_of (au_sessions (as_db s)) sid = Some row" "s_revoked_at row \<noteq> None" for sid row now header r ttl token newid
  proof -
    from keepsD(1) [OF kept sid(1)] sid(2) obtain row' where
      r: "map_of (au_sessions (as_db s')) sid = Some row'" "s_revoked_at row' \<noteq> None" by (auto simp: session_kept_def)
    then show ?thesis using resolve_row [OF ok] rotate_revoked [OF r] by fastforce
  qed
  moreover have "s_device_id r \<noteq> Some d"
    if d: "map_of (au_devices (as_db s)) d = Some row" "d_revoked_at row \<noteq> None"
      and req: "requireSession env now header (as_db s') = Some (sid, r)" for d row now header sid r
  proof -
    from keepsD(2) [OF kept d(1)] d(2) obtain row' where
      "map_of (au_devices (as_db s')) d = Some row'" "d_revoked_at row' \<noteq> None" by (auto simp: device_kept_def)
    then show ?thesis using resolve_row [OF ok req] by (auto simp: device_revoked_def)
  qed
  ultimately show ?thesis by blast
qed


theorem revocation_is_final_witness:
  "\<not> (\<exists>now header sid r. requireSession bundle_env now header (as_db (fst auth_revoked)) = Some (sid, r) \<and> s_device_id r = Some ''d1'')"
proof -
  from auth_revoked_device obtain row where
    "map_of (au_devices (as_db (fst auth_revoked))) ''d1'' = Some row" "d_revoked_at row \<noteq> None" by auto
  with conjunct2 [OF revocation_is_final [OF sample_runs(2) rtranclp.rtrancl_refl]] show ?thesis by blast
qed


section \<open>Rotation\<close>

fun session_grant :: "auth_response \<Rightarrow> bool" where
  "session_grant (Session_granted _ _) = True"
| "session_grant _ = False"

definition successors :: "id \<Rightarrow> (auth_task \<times> auth_response) list \<Rightarrow> nat" where
  "successors sid l = length (filter (\<lambda>(t, r). t = T_refresh sid \<and> session_grant r) l)"

definition rotated_revoked :: "auth_db \<Rightarrow> (auth_task \<times> auth_response) list \<Rightarrow> bool" where
  "rotated_revoked db l \<longleftrightarrow>
     (\<forall>sid. successors sid l \<le> 1 \<and>
        (successors sid l \<noteq> 0 \<longrightarrow> (\<exists>row. map_of (au_sessions db) sid = Some row \<and> s_revoked_at row \<noteq> None)))"

lemma successors_Cons [simp]:
  "successors sid ((t, r) # l) = (if t = T_refresh sid \<and> session_grant r then 1 else 0) + successors sid l"
  by (simp add: successors_def)

lemma rotated_revoked_keeps: "rotated_revoked db l \<Longrightarrow> keeps db db' \<Longrightarrow> rotated_revoked db' l"
  unfolding rotated_revoked_def using keepsD(1) [of db db'] by (fastforce simp: session_kept_def)

lemma rotated_revoked_other:
  "rotated_revoked db l \<Longrightarrow> keeps db db' \<Longrightarrow> (\<And>sid. \<not> (t = T_refresh sid \<and> session_grant r)) \<Longrightarrow> rotated_revoked db' ((t, r) # l)"
  using rotated_revoked_keeps [of db l db'] unfolding rotated_revoked_def by auto

lemma rotated_revoked_grant:
  assumes "rotated_revoked db l" "rotateSession hash now ttl token newid sid db = Some (Some db2)"
  shows "rotated_revoked db2 ((T_refresh sid, r) # l)"
proof -
  from assms(2) obtain s db1 where r: "map_of (au_sessions db) sid = Some s" "rotatable now s db"
    "db1 = db\<lparr>au_sessions := update_where (\<lambda>k _. k = sid) (\<lambda>s. s\<lparr>s_revoked_at := Some now\<rparr>) (au_sessions db)\<rparr>"
    "keeps db1 db2" by (rule rotate_effect) (auto dest: insert_session_keeps)
  have "successors sid l = 0"
    using assms(1) r(1,2) by (fastforce simp: rotated_revoked_def rotatable_def)
  moreover have "\<exists>row. map_of (au_sessions db2) sid = Some row \<and> s_revoked_at row \<noteq> None"
    using keepsD(1) [OF r(4), of sid "s\<lparr>s_revoked_at := Some now\<rparr>"] r(1,3) by (auto simp: session_kept_def)
  moreover have "rotated_revoked db2 l"
    using rotated_revoked_keeps [OF assms(1)] good_step_rotate [OF assms(2)] by (simp add: good_step_def)
  ultimately show ?thesis by (auto simp: rotated_revoked_def)
qed

lemma rotated_revoked_step:
  assumes "auth_step env (s, ts, l) (s', ts', l')" "rotated_revoked (as_db s) l"
  shows "rotated_revoked (as_db s') l'"
proof -
  have kept: "keeps (as_db s) (as_db s')" using auth_step_good [OF assms(1)] by (simp add: good_step_def)
  from assms(1) show ?thesis
  proof cases
    case (resume_reply t now rnd r)
    show ?thesis
    proof (cases "\<exists>sid. t = T_refresh sid \<and> session_grant r")
      case True
      then obtain sid db where "t = T_refresh sid" "as_db s' = db"
        "rotateSession (en_hash env) now (en_sessionTtlSeconds env) (rn_token rnd) (rn_sessionId rnd) sid (as_db s) = Some (Some db)"
        using resume_reply by (auto split: option.splits)
      with rotated_revoked_grant [OF assms(2)] resume_reply(2) show ?thesis by simp
    next
      case False
      then show ?thesis using rotated_revoked_other [OF assms(2) kept] resume_reply by auto
    qed
  qed (use rotated_revoked_keeps [OF assms(2) kept] in simp_all)
qed

lemma run_invariant:
  assumes "(auth_step env)\<^sup>*\<^sup>* auth_initial (s, ts, l)" "P auth_initial"
    and "\<And>w w'. (auth_step env)\<^sup>*\<^sup>* auth_initial w \<Longrightarrow> auth_step env w w' \<Longrightarrow> P w \<Longrightarrow> P w'"
  shows "P (s, ts, l)"
  using assms(1) by (rule rtranclp_induct) (use assms(2,3) in blast)+

text \<open>
  C37.  A session is rotated at most once: of all the refresh requests that carry it, however they
  interleave with each other and with logouts, revocations and enrolments, at most one is ever answered
  with a successor.
\<close>
theorem refresh_single_successor:
  assumes "(auth_step env)\<^sup>*\<^sup>* auth_initial (s, ts, l)"
  shows "successors sid l \<le> 1"
proof -
  have "rotated_revoked (as_db (fst (s, ts, l))) (snd (snd (s, ts, l)))"
  proof (rule run_invariant [OF assms])
    show "rotated_revoked (as_db (fst auth_initial)) (snd (snd auth_initial))"
      by (simp add: auth_initial_def rotated_revoked_def successors_def)
  next
    fix w w' assume "auth_step env w w'" "rotated_revoked (as_db (fst w)) (snd (snd w))"
    then show "rotated_revoked (as_db (fst w')) (snd (snd w'))"
      by (cases w; cases w') (auto dest: rotated_revoked_step)
  qed
  then show ?thesis by (simp add: rotated_revoked_def)
qed


theorem refresh_single_successor_witness: "successors ''s1'' (snd (snd auth_sample)) = 1"
proof -
  have "successors ''s1'' (snd (snd auth_sample)) \<le> 1" by (rule refresh_single_successor [OF sample_runs(1)])
  moreover have "successors ''s1'' (snd (snd auth_sample)) \<noteq> 0" by (simp add: auth_sample_eq successors_def)
  ultimately show ?thesis by simp
qed

end
