(* ===== verification/Backend_Auth_Invariant.thy ===== *)
theory Backend_Auth_Invariant
  imports Backend_Auth_Properties
begin

text \<open>
  The invariant of the authentication routes that connects sessions, pending logins, accounts and suspended
  requests, and its consequences.
\<close>


section \<open>The invariant\<close>

text \<open>\<open>a\<close> has completed an OPAQUE login against the credential that is stored for it.\<close>

definition login_started :: "auth_env \<Rightarrow> id \<Rightarrow> bytes \<Rightarrow> auth_db \<Rightarrow> bool" where
  "login_started env a st db \<longleftrightarrow>
     (\<exists>rec ke1 ke2. map_of (au_credentials db) a = Some rec \<and> en_loginStart env rec a ke1 = Some (st, ke2))"

definition logged_in :: "auth_env \<Rightarrow> id \<Rightarrow> auth_db \<Rightarrow> bool" where
  "logged_in env a db \<longleftrightarrow> (\<exists>st ke3. login_started env a st db \<and> en_loginFinish env st ke3)"

definition session_accounts :: "auth_db \<Rightarrow> id set" where
  "session_accounts db = s_account_id ` ran (map_of (au_sessions db))"

lemma session_accounts_iff: "a \<in> session_accounts db \<longleftrightarrow> (\<exists>sid s. map_of (au_sessions db) sid = Some s \<and> s_account_id s = a)"
  by (auto simp: session_accounts_def ran_def)

fun auth_task_ok :: "auth_env \<Rightarrow> auth_db \<Rightarrow> auth_task \<Rightarrow> bool" where
  "auth_task_ok env db (T_login_issue a) \<longleftrightarrow> logged_in env a db"
| "auth_task_ok env db (T_create_device sid a name key) \<longleftrightarrow> a \<in> session_accounts db"
| "auth_task_ok env db (T_put_bundle a b v n) \<longleftrightarrow>
     a \<in> session_accounts db \<and> 1 \<le> v \<and> (n = PUBLISH_ATTEMPTS \<or> n = PUBLISH_ATTEMPTS - 1 \<and> map_of (au_key_bundles db) a \<noteq> None)"
| "auth_task_ok env db (T_insert_bundle a b v n) \<longleftrightarrow> a \<in> session_accounts db \<and> v = 1 \<and> n = PUBLISH_ATTEMPTS"
| "auth_task_ok env db _ \<longleftrightarrow> True"

definition logins_ok :: "auth_env \<Rightarrow> auth_db \<Rightarrow> login_store \<Rightarrow> bool" where
  "logins_ok env db ls \<longleftrightarrow> (\<forall>a st t. (a, Login_real st t) \<in> set ls \<longrightarrow> login_started env a st db)"

definition accounts_ok :: "auth_env \<Rightarrow> auth_db \<Rightarrow> bool" where
  "accounts_ok env db \<longleftrightarrow> (\<forall>a \<in> session_accounts db. logged_in env a db \<and> account_exists a db)"

definition auth_inv :: "auth_env \<Rightarrow> auth_world \<Rightarrow> bool" where
  "auth_inv env w \<longleftrightarrow>
     (case w of (s, ts, l) \<Rightarrow>
        tables_ok (as_db s) \<and> accounts_ok env (as_db s) \<and> logins_ok env (as_db s) (as_logins s) \<and>
        (\<forall>t \<in> set ts. auth_task_ok env (as_db s) t))"


section \<open>What later tables keep of it\<close>

lemma login_started_keeps: "keeps db db' \<Longrightarrow> login_started env a st db \<Longrightarrow> login_started env a st db'"
  unfolding login_started_def using keepsD(3) by blast

lemma logged_in_keeps: "keeps db db' \<Longrightarrow> logged_in env a db \<Longrightarrow> logged_in env a db'"
  unfolding logged_in_def using login_started_keeps by blast

lemma session_accounts_keeps: "keeps db db' \<Longrightarrow> a \<in> session_accounts db \<Longrightarrow> a \<in> session_accounts db'"
  unfolding session_accounts_iff by (elim exE conjE, drule (1) keepsD(1)) (auto simp: session_kept_def)

lemma bundle_keeps: "keeps db db' \<Longrightarrow> map_of (au_key_bundles db) a \<noteq> None \<Longrightarrow> map_of (au_key_bundles db') a \<noteq> None"
  using keepsD(4) [of db db' a] by auto

lemma auth_task_ok_keeps: "keeps db db' \<Longrightarrow> auth_task_ok env db t \<Longrightarrow> auth_task_ok env db' t"
  by (cases t) (auto intro: logged_in_keeps session_accounts_keeps bundle_keeps dest: bundle_keeps)

lemma logins_ok_keeps: "keeps db db' \<Longrightarrow> logins_ok env db ls \<Longrightarrow> logins_ok env db' ls"
  unfolding logins_ok_def using login_started_keeps by blast

lemma logins_ok_subset: "logins_ok env db ls \<Longrightarrow> set ls' \<subseteq> set ls \<Longrightarrow> logins_ok env db ls'"
  unfolding logins_ok_def by blast

lemma evict_subset: "set (login_evictExpired now ls) \<subseteq> set ls"
  by (auto simp: login_evictExpired_def)

lemma alist_update_subset: "set (AList.update k v m) \<subseteq> insert (k, v) (set m)"
  by (induction m) auto

lemma alist_delete_subset: "set (AList.delete k m) \<subseteq> set m"
  by (auto simp: AList.delete_eq)


section \<open>Sessions and their accounts\<close>

lemma session_accounts_update_where:
  assumes "\<And>s. s_account_id (f s) = s_account_id s"
  shows "session_accounts (db\<lparr>au_sessions := update_where P f (au_sessions db)\<rparr>) = session_accounts db"
proof -
  have acc: "s_account_id (if P k v then f v else v) = s_account_id v" for k v by (simp add: assms)
  show ?thesis
  proof (rule set_eqI, unfold session_accounts_iff, rule iffI)
    fix a assume "\<exists>sid s. map_of (au_sessions (db\<lparr>au_sessions := update_where P f (au_sessions db)\<rparr>)) sid = Some s \<and> s_account_id s = a"
    then obtain sid s where s: "map_option (\<lambda>v. if P sid v then f v else v) (map_of (au_sessions db) sid) = Some s"
      "s_account_id s = a" by auto
    then obtain v where "map_of (au_sessions db) sid = Some v" "s = (if P sid v then f v else v)"
      by (cases "map_of (au_sessions db) sid") auto
    with s(2) acc [of sid v] show "\<exists>sid s. map_of (au_sessions db) sid = Some s \<and> s_account_id s = a" by metis
  next
    fix a assume "\<exists>sid s. map_of (au_sessions db) sid = Some s \<and> s_account_id s = a"
    then obtain sid s where "map_of (au_sessions db) sid = Some s" "s_account_id s = a" by blast
    with acc [of sid s] show "\<exists>sid s. map_of (au_sessions (db\<lparr>au_sessions := update_where P f (au_sessions db)\<rparr>)) sid = Some s \<and>
        s_account_id s = a" by (intro exI [of _ sid] exI [of _ "if P sid s then f s else s"]) simp
  qed
qed

lemma session_accounts_insert:
  assumes "insert_session sid row db = Some db1"
  shows "session_accounts db1 = insert (s_account_id row) (session_accounts db)"
  using insert_session_effect(1,5) [OF assms]
  by (auto simp: set_eq_iff session_accounts_iff update_conv' split: if_splits) (metis option.distinct(1))

lemma session_accounts_same: "au_sessions db1 = au_sessions db \<Longrightarrow> session_accounts db1 = session_accounts db"
  by (simp add: session_accounts_def)

lemma bind_accounts: "bindSessionToDevice sid d db = Some db1 \<Longrightarrow> session_accounts db1 = session_accounts db"
  using bind_effect session_accounts_update_where by fastforce

lemma rotate_accounts:
  "rotateSession hash now ttl token newid sid db = Some (Some db2) \<Longrightarrow> session_accounts db2 = session_accounts db"
proof (erule rotate_effect)
  fix s db1
  assume a: "map_of (au_sessions db) sid = Some s"
    "db1 = db\<lparr>au_sessions := update_where (\<lambda>k _. k = sid) (s_revoked_at_update (\<lambda>_. Some now)) (au_sessions db)\<rparr>"
    and ins: "insert_session newid \<lparr>s_account_id = s_account_id s, s_token_hash = hash token, s_expires_at = session_expiry now ttl,
       s_revoked_at = None, s_device_id = s_device_id s, s_issued_via = Refresh\<rparr> db1 = Some db2"
  have "s_account_id s \<in> session_accounts db" using a(1) by (auto simp: session_accounts_iff)
  moreover have "session_accounts db1 = session_accounts db" unfolding a(2) by (rule session_accounts_update_where) simp
  ultimately show ?thesis using session_accounts_insert [OF ins] by auto
qed

lemma enroll_accounts:
  "enrollBearerSessionDevice now d sid name db = Some (Inr (db2, row)) \<Longrightarrow> session_accounts db2 = session_accounts db"
  by (auto simp: enrollBearerSessionDevice_def Let_def split: option.splits if_splits
      dest!: bind_accounts insert_device_effect(2) session_accounts_same)

lemma revoke_device_accounts: "session_accounts (fst (store_revokeDevice now a d db)) = session_accounts db"
  using session_accounts_update_where
      [of "\<lambda>s. s\<lparr>s_revoked_at := Some now\<rparr>" "\<lambda>_ s. s_device_id s = Some d \<and> s_revoked_at s = None" db]
  by (auto simp: store_revokeDevice_def session_accounts_def split: option.splits)

lemma other_accounts:
  "session_accounts (ensureAccount now a db) = session_accounts db"
  "session_accounts (cleanup_windows now db) = session_accounts db"
  "session_accounts (cleanup_accounts now referenced db) = session_accounts db"
  "session_accounts (revokeSession now sid db) = session_accounts db"
  "checkAndIncrement now mx w a scope db = Some (db1, ok) \<Longrightarrow> session_accounts db1 = session_accounts db"
  "saveCredentialRecordIfAbsent a rec db = Some db1 \<Longrightarrow> session_accounts db1 = session_accounts db"
  "createDevice now d a name key db = Some db1 \<Longrightarrow> session_accounts db1 = session_accounts db"
  "publish_select a bytes version db = (db1, out) \<Longrightarrow> session_accounts db1 = session_accounts db"
  "publish_insert a bytes version db = Some (Some db1) \<Longrightarrow> session_accounts db1 = session_accounts db"
          apply (simp add: ensureAccount_def session_accounts_def)
         apply (simp add: cleanup_windows_def session_accounts_def)
        apply (simp add: cleanup_accounts_def session_accounts_def)
       apply (simp add: revokeSession_def session_accounts_update_where)
      apply (auto simp: checkAndIncrement_def Let_def session_accounts_def split: if_splits)[1]
     apply (auto simp: saveCredentialRecordIfAbsent_def session_accounts_def split: if_splits)[1]
    apply (auto simp: createDevice_def session_accounts_def dest!: insert_device_effect(2))[1]
   apply (auto simp: publish_select_def session_accounts_def split: option.splits if_splits)[1]
  apply (auto simp: publish_insert_def session_accounts_def split: if_splits)[1]
  done

lemma limit_accounts: "resume_limit env now a scope r n s = (s', m) \<Longrightarrow> session_accounts (as_db s') = session_accounts (as_db s)"
  by (auto simp: resume_limit_def split: option.splits dest: other_accounts(5))

lemma resume_accounts:
  assumes "auth_resume env now rnd t s = (s', n)" "\<And>a. t \<noteq> T_login_issue a"
  shows "session_accounts (as_db s') = session_accounts (as_db s)"
proof (cases t)
  case (T_revoke_device a d)
  have "as_db s' = fst (store_revokeDevice now a d (as_db s))"
    using assms(1) unfolding T_revoke_device by (cases "store_revokeDevice now a d (as_db s)") auto
  then show ?thesis by (simp add: revoke_device_accounts)
next
  case (T_put_bundle a b v k)
  then show ?thesis using assms(1)
    by (cases "publish_select a b v (as_db s)") (auto split: publish_next.splits if_splits dest: other_accounts(8))
next
  case (T_register_limit a step)
  show ?thesis by (rule limit_accounts [OF assms(1) [unfolded T_register_limit auth_resume.simps]])
next
  case (T_login_limit a msg p)
  show ?thesis by (rule limit_accounts [OF assms(1) [unfolded T_login_limit auth_resume.simps]])
next
  case (T_register_save a rec)
  then show ?thesis using assms(1) by (auto split: option.splits dest: other_accounts(6))
next
  case (T_login_record a msg)
  then show ?thesis using assms(1) by (auto simp: resume_record_def split: option.splits)
next
  case (T_login_finish a msg)
  then show ?thesis using assms(1) by (auto simp: resume_finish_def split: prod.splits)
next
  case (T_refresh sid)
  then show ?thesis using assms(1) by (auto split: option.splits dest: rotate_accounts)
next
  case (T_create_device sid a name key)
  then show ?thesis using assms(1) by (auto split: option.splits dest: other_accounts(7))
next
  case (T_bind_device sid d row)
  then show ?thesis using assms(1) by (auto split: option.splits dest: bind_accounts)
next
  case (T_enroll_device sid name)
  then show ?thesis using assms(1) by (auto split: option.splits sum.splits dest: enroll_accounts)
next
  case (T_insert_bundle a b v k)
  then show ?thesis using assms(1) by (auto split: option.splits dest: other_accounts(9))
qed (use assms in \<open>auto simp: other_accounts(1-4)\<close>)

lemma issue_accounts:
  "issueSession hash now ttl via token sid a db = Some db1 \<Longrightarrow> session_accounts db1 = insert a (session_accounts db)"
  unfolding issueSession_def by (drule session_accounts_insert) simp


section \<open>Accounts are there\<close>

lemma map_of_filter_key: "(\<And>v. P (a, v)) \<Longrightarrow> map_of (filter P m) a = map_of m a"
  by (induction m) auto

lemma cleanup_account_exists:
  "a \<in> session_accounts db \<Longrightarrow> account_exists a db \<Longrightarrow> account_exists a (cleanup_accounts now referenced db)"
proof -
  assume a: "a \<in> session_accounts db" "account_exists a db"
  then have "account_in_use referenced a db"
    by (fastforce simp: account_in_use_def session_accounts_def ran_def list_ex_iff dest: map_of_SomeD)
  then have "map_of (au_accounts (cleanup_accounts now referenced db)) a = map_of (au_accounts db) a"
    by (simp add: cleanup_accounts_def map_of_filter_key)
  with a(2) show ?thesis by simp
qed

text \<open>No query of a request removes an account.\<close>

lemma resume_account_exists:
  assumes "auth_resume env now rnd t s = (s', n)" "account_exists a (as_db s)"
  shows "account_exists a (as_db s')"
proof (cases t)
  case (T_refresh sid)
  then show ?thesis using assms
    by (auto simp: insert_session_def rotateSession_def Let_def split: option.splits if_splits)
next
  case (T_enroll_device sid name)
  then show ?thesis using assms
    by (auto simp: enrollBearerSessionDevice_def Let_def insert_device_def bindSessionToDevice_def
        split: option.splits if_splits sum.splits)
next
  case (T_put_bundle a b v k)
  then show ?thesis using assms
    by (auto simp: publish_select_def split: prod.splits publish_next.splits if_splits option.splits)
qed (use assms in \<open>auto simp: resume_limit_def resume_record_def resume_finish_def ensureAccount_def
      saveCredentialRecordIfAbsent_def checkAndIncrement_def Let_def issueSession_def insert_session_def revokeSession_def
      createDevice_def insert_device_def bindSessionToDevice_def store_revokeDevice_def publish_insert_def
      split: option.splits prod.splits if_splits\<close>)

lemma issue_account_exists:
  "issueSession hash now ttl via token sid a db = Some db1 \<Longrightarrow> account_exists a db"
  unfolding issueSession_def using insert_session_effect(6) by fastforce


section \<open>Preservation\<close>

lemma resolve_account:
  "tables_ok db \<Longrightarrow> requireSession env now header db = Some (sid, row) \<Longrightarrow> s_account_id row \<in> session_accounts db"
  using resolve_row by (fastforce simp: session_accounts_iff)

lemma checked_publish_version: "checked_publish env a body = Some (bytes, version) \<Longrightarrow> 1 \<le> version"
  by (auto simp: checked_publish_def split: bind_splits if_splits)

lemma start_create_ok:
  "start_create body sid row = Wait t \<Longrightarrow> s_account_id row \<in> session_accounts db \<Longrightarrow> auth_task_ok env db t"
  by (auto simp: start_create_def split: option.splits device_create.splits prod.splits)

lemma start_task_ok:
  assumes "tables_ok (as_db s)" "auth_start env now req s = (s', Wait t)"
  shows "auth_task_ok env (as_db s) t"
proof (cases req)
  case (Post_register ip body)
  then show ?thesis using assms(2) by (auto simp: start_register_def Let_def split: option.splits prod.splits if_splits)
next
  case (Post_login ip body)
  then show ?thesis using assms(2) by (auto simp: start_login_def Let_def split: option.splits prod.splits if_splits)
next
  case (Post_devices h body)
  then show ?thesis using assms(2) resolve_account [OF assms(1)]
    by (auto split: option.splits intro: start_create_ok)
next
  case (Put_key_bundle h body)
  then obtain sid row bytes v where r: "requireSession env now h (as_db s) = Some (sid, row)"
    "checked_publish env (s_account_id row) body = Some (bytes, v)" "t = T_put_bundle (s_account_id row) bytes v PUBLISH_ATTEMPTS"
    using assms(2) by (auto split: option.splits)
  then show ?thesis using resolve_account [OF assms(1) r(1)] checked_publish_version [OF r(2)] by simp
qed (use assms(2) in \<open>auto split: option.splits if_splits\<close>)

lemma start_logins: "auth_start env now req s = (s', n) \<Longrightarrow> set (as_logins s') \<subseteq> set (as_logins s)"
proof (cases req)
  case (Post_login ip body)
  assume "auth_start env now req s = (s', n)"
  with Post_login show ?thesis using evict_subset [THEN subsetD]
    by (auto simp: start_login_def hasPending_def Let_def split: option.splits prod.splits if_splits)
qed (auto simp: start_register_def Let_def split: option.splits prod.splits if_splits)

lemma take_login_ok:
  assumes "logins_ok env db ls" "take_login now a ls = (ls1, e)"
  shows "logins_ok env db ls1 \<and> (\<forall>st t. e = Some (Login_real st t) \<longrightarrow> login_started env a st db)"
proof -
  have "set ls1 \<subseteq> set ls" using assms(2) evict_subset [of now ls] alist_delete_subset [of a "login_evictExpired now ls"]
    by (auto simp: take_login_def Let_def split: option.splits)
  moreover have "(a, Login_real st t) \<in> set ls" if "e = Some (Login_real st t)" for st t
    using that assms(2) evict_subset [of now ls] by (auto simp: take_login_def Let_def split: option.splits dest!: map_of_SomeD)
  ultimately show ?thesis using assms(1) unfolding logins_ok_def by blast
qed

lemma set_logins_ok:
  assumes "logins_ok env db ls"
  shows "logins_ok env db (setFake now a ls)" "login_started env a st db \<Longrightarrow> logins_ok env db (setReal now a st ls)"
proof -
  have "set (AList.update a e (login_evictExpired now ls)) \<subseteq> insert (a, e) (set ls)" for e
    using alist_update_subset [of a e "login_evictExpired now ls"] evict_subset [of now ls] by blast
  then show "logins_ok env db (setFake now a ls)" "login_started env a st db \<Longrightarrow> logins_ok env db (setReal now a st ls)"
    using assms unfolding logins_ok_def setFake_def setReal_def by blast+
qed

lemma resume_logins_ok:
  assumes "logins_ok env (as_db s) (as_logins s)" "auth_resume env now rnd t s = (s', n)"
  shows "logins_ok env (as_db s') (as_logins s')"
proof -
  have kept: "keeps (as_db s) (as_db s')" using resume_good [OF assms(2)] by (simp add: good_step_def)
  have "logins_ok env (as_db s) (as_logins s')"
  proof (cases t)
    case (T_login_record a msg)
    have "login_started env a st (as_db s)"
      if "getCredentialRecord a (as_db s) = Some rec" "en_loginStart env rec a msg = Some (st, ke2)" for rec st ke2
      using that by (auto simp: getCredentialRecord_def login_started_def)
    then show ?thesis using assms(2) T_login_record set_logins_ok [OF assms(1)] assms(1)
      by (auto simp: resume_record_def split: option.splits)
  next
    case (T_login_finish a msg)
    then show ?thesis using assms take_login_ok [OF assms(1)] by (auto simp: resume_finish_def split: prod.splits)
  qed (use assms in \<open>auto simp: resume_limit_def split: option.splits prod.splits sum.splits if_splits publish_next.splits\<close>)
  with kept show ?thesis by (rule logins_ok_keeps)
qed

lemma resume_task_ok:
  assumes "logins_ok env (as_db s) (as_logins s)" "auth_task_ok env (as_db s) t" "auth_resume env now rnd t s = (s', Wait t')"
  shows "auth_task_ok env (as_db s') t'"
proof (cases t)
  case (T_login_finish a msg)
  then obtain ls st x where tk: "take_login now a (as_logins s) = (ls, Some (Login_real st x))" "en_loginFinish env st msg"
    "t' = T_login_issue a" "as_db s' = as_db s"
    using assms(3) by (auto simp: resume_finish_def split: prod.splits option.splits login_entry.splits if_splits)
  then show ?thesis using take_login_ok [OF assms(1) tk(1)] by (auto simp: logged_in_def)
next
  case (T_put_bundle a b v n)
  then have "v = 1" "t' = T_insert_bundle a b v n" "as_db s' = as_db s" "map_of (au_key_bundles (as_db s)) a = None"
    using assms(3) by (auto simp: publish_select_def split: option.splits if_splits)
  then show ?thesis using assms(2) T_put_bundle by auto
next
  case (T_insert_bundle a b v n)
  then show ?thesis using assms(2,3) by (auto simp: publish_insert_def split: option.splits if_splits)
next
  case (T_register_limit a step)
  then show ?thesis using assms(3)
    by (auto simp: resume_limit_def split: option.splits registration_step.splits if_splits)
next
  case (T_login_limit a msg p)
  then show ?thesis using assms(3) by (auto simp: resume_limit_def split: option.splits if_splits)
next
  case (T_login_record a msg)
  then show ?thesis using assms(3) by (auto simp: resume_record_def split: option.splits)
qed (use assms(3) in \<open>auto split: option.splits prod.splits sum.splits if_splits\<close>)

lemma resume_accounts_ok:
  assumes "accounts_ok env (as_db s)" "auth_task_ok env (as_db s) t" "auth_resume env now rnd t s = (s', n)"
  shows "accounts_ok env (as_db s')"
proof -
  have kept: "keeps (as_db s) (as_db s')" using resume_good [OF assms(3)] by (simp add: good_step_def)
  have old: "logged_in env a (as_db s') \<and> account_exists a (as_db s')" if "a \<in> session_accounts (as_db s)" for a
    using that assms(1) logged_in_keeps [OF kept] resume_account_exists [OF assms(3)] by (auto simp: accounts_ok_def)
  show ?thesis
  proof (cases "\<exists>a. t = T_login_issue a")
    case True
    then obtain a where t: "t = T_login_issue a" by blast
    show ?thesis
    proof (cases "as_db s' = as_db s")
      case True
      then show ?thesis using assms(1) by simp
    next
      case False
      then have iss: "issueSession (en_hash env) now (en_sessionTtlSeconds env) Opaque_login (rn_token rnd) (rn_sessionId rnd) a (as_db s)
          = Some (as_db s')" using assms(3) t by (auto split: option.splits)
      have "logged_in env a (as_db s')" using assms(2) t logged_in_keeps [OF kept] by simp
      moreover have "account_exists a (as_db s')"
        using issue_account_exists [OF iss] resume_account_exists [OF assms(3)] by blast
      ultimately show ?thesis using old issue_accounts [OF iss] by (auto simp: accounts_ok_def)
    qed
  next
    case False
    then have "session_accounts (as_db s') = session_accounts (as_db s)" using resume_accounts [OF assms(3)] by blast
    with old show ?thesis by (simp add: accounts_ok_def)
  qed
qed

lemma sweep_accounts_ok:
  assumes "accounts_ok env db"
  shows "accounts_ok env (cleanup_windows now db)" "accounts_ok env (cleanup_accounts now referenced db)"
proof -
  have k: "keeps db (cleanup_windows now db)" "keeps db (cleanup_accounts now referenced db)"
    using good_step_limits(2,3) by (simp_all add: good_step_def)
  have "account_exists a db \<Longrightarrow> account_exists a (cleanup_windows now db)" for a by (simp add: cleanup_windows_def)
  then show "accounts_ok env (cleanup_windows now db)" "accounts_ok env (cleanup_accounts now referenced db)"
    using assms logged_in_keeps [OF k(1)] logged_in_keeps [OF k(2)] cleanup_account_exists
    by (auto simp: accounts_ok_def other_accounts(2,3))
qed

lemma auth_inv_step:
  assumes "auth_step env (s, ts, l) (s', ts', l')" "auth_inv env (s, ts, l)"
  shows "auth_inv env (s', ts', l')"
proof -
  have good: "keeps (as_db s) (as_db s')" "tables_ok (as_db s')"
    using auth_step_good [OF assms(1)] assms(2) by (auto simp: good_step_def auth_inv_def)
  have i: "tables_ok (as_db s)" "accounts_ok env (as_db s)" "logins_ok env (as_db s) (as_logins s)"
    "\<And>t. t \<in> set ts \<Longrightarrow> auth_task_ok env (as_db s) t" using assms(2) by (auto simp: auth_inv_def)
  have tasks: "\<And>t. t \<in> set ts \<Longrightarrow> auth_task_ok env (as_db s') t" using i(4) auth_task_ok_keeps [OF good(1)] by blast
  from assms(1) show ?thesis
  proof cases
    case (arrive_reply now req r)
    then show ?thesis using i start_db [OF arrive_reply(3)] logins_ok_subset [OF i(3) start_logins [OF arrive_reply(3)]]
      by (auto simp: auth_inv_def)
  next
    case (arrive_wait now req t)
    then show ?thesis using i start_db [OF arrive_wait(3)] logins_ok_subset [OF i(3) start_logins [OF arrive_wait(3)]]
        start_task_ok [OF i(1) arrive_wait(3)] by (auto simp: auth_inv_def)
  next
    case (resume_reply t now rnd r)
    then show ?thesis using good(2) tasks resume_logins_ok [OF i(3) resume_reply(4)]
        resume_accounts_ok [OF i(2) i(4) [OF resume_reply(3)] resume_reply(4)]
      by (auto simp: auth_inv_def dest: notin_set_remove1)
  next
    case (resume_wait t now rnd t')
    then show ?thesis using good(2) tasks resume_logins_ok [OF i(3) resume_wait(4)]
        resume_accounts_ok [OF i(2) i(4) [OF resume_wait(3)] resume_wait(4)]
        resume_task_ok [OF i(3) i(4) [OF resume_wait(3)] resume_wait(4)]
      by (auto simp: auth_inv_def dest: notin_set_remove1)
  next
    case (sweep_windows now)
    then show ?thesis using good tasks logins_ok_keeps [OF good(1) i(3)] sweep_accounts_ok(1) [OF i(2)]
      by (auto simp: auth_inv_def)
  next
    case (sweep_accounts now referenced)
    then show ?thesis using good tasks logins_ok_keeps [OF good(1) i(3)] sweep_accounts_ok(2) [OF i(2)]
      by (auto simp: auth_inv_def)
  qed
qed

lemma auth_inv_run: "(auth_step env)\<^sup>*\<^sup>* auth_initial (s, ts, l) \<Longrightarrow> auth_inv env (s, ts, l)"
proof (erule run_invariant)
  show "auth_inv env auth_initial"
    by (simp add: auth_initial_def auth_inv_def accounts_ok_def logins_ok_def session_accounts_def)
      (simp add: auth_db_empty_def)
next
  fix w w' assume "auth_step env w w'" "auth_inv env w"
  then show "auth_inv env w'" by (cases w; cases w') (auto dest: auth_inv_step)
qed


section \<open>Where sessions come from\<close>

text \<open>
  C38.  Every session goes back to an OPAQUE login of its account: in every reachable state, whoever
  holds a session, issued or rotated, the account of it has a stored credential against which a login was
  started and then finished successfully.  A pending login of another account, a decoy entry or a
  request that was overtaken by others is never enough.
\<close>
theorem session_provenance:
  assumes "(auth_step env)\<^sup>*\<^sup>* auth_initial (s, ts, l)" "map_of (au_sessions (as_db s)) sid = Some row"
  shows "\<exists>rec ke1 st ke2 ke3. map_of (au_credentials (as_db s)) (s_account_id row) = Some rec \<and>
    en_loginStart env rec (s_account_id row) ke1 = Some (st, ke2) \<and> en_loginFinish env st ke3"
proof -
  have "s_account_id row \<in> session_accounts (as_db s)" using assms(2) by (auto simp: session_accounts_iff)
  with auth_inv_run [OF assms(1)] have "logged_in env (s_account_id row) (as_db s)"
    by (simp add: auth_inv_def accounts_ok_def)
  then show ?thesis unfolding logged_in_def login_started_def by blast
qed


theorem session_provenance_witness:
  "\<exists>rec ke1 st ke2 ke3. map_of (au_credentials (as_db (fst auth_sample))) ''a'' = Some rec \<and>
    en_loginStart bundle_env rec ''a'' ke1 = Some (st, ke2) \<and> en_loginFinish bundle_env st ke3"
proof -
  have "map_of (au_sessions (as_db (fst auth_sample))) ''s2'' = Some (run_session ''t2'' 900006 None Refresh)"
    by (simp add: auth_sample_eq)
  from session_provenance [OF sample_runs(1) this] show ?thesis by (simp add: run_session_def)
qed


section \<open>Publishing a key bundle\<close>

text \<open>The bytes with which a publication of a version was answered with success.\<close>

definition published :: "(auth_task \<times> auth_response) list \<Rightarrow> id \<Rightarrow> int \<Rightarrow> bytes \<Rightarrow> bool" where
  "published l a v b \<longleftrightarrow> (\<exists>n. (T_put_bundle a b v n, No_content) \<in> set l \<or> (T_insert_bundle a b v n, No_content) \<in> set l)"

definition bundles_ok :: "auth_db \<Rightarrow> (auth_task \<times> auth_response) list \<Rightarrow> bool" where
  "bundles_ok db l \<longleftrightarrow>
     (\<forall>a v b. published l a v b \<longrightarrow> (\<exists>c w. map_of (au_key_bundles db) a = Some (c, w) \<and> v \<le> w \<and> (v = w \<longrightarrow> b = c))) \<and>
     (\<forall>a c w. map_of (au_key_bundles db) a = Some (c, w) \<longrightarrow> published l a w c \<and> 1 \<le> w \<and> (\<forall>v. 1 \<le> v \<and> v \<le> w \<longrightarrow> (\<exists>b. published l a v b))) \<and>
     (\<forall>a v b c. published l a v b \<longrightarrow> published l a v c \<longrightarrow> b = c)"

lemma bundles_okD:
  assumes "bundles_ok db l"
  shows "published l a v b \<Longrightarrow> \<exists>c w. map_of (au_key_bundles db) a = Some (c, w) \<and> v \<le> w \<and> (v = w \<longrightarrow> b = c)"
    "map_of (au_key_bundles db) a = Some (c, w) \<Longrightarrow> published l a w c"
    "map_of (au_key_bundles db) a = Some (c, w) \<Longrightarrow> 1 \<le> w"
    "map_of (au_key_bundles db) a = Some (c, w) \<Longrightarrow> 1 \<le> v \<Longrightarrow> v \<le> w \<Longrightarrow> \<exists>b. published l a v b"
    "published l a v b \<Longrightarrow> published l a v c \<Longrightarrow> b = c"
  using assms unfolding bundles_ok_def by blast+

lemma published_Cons:
  "published ((t, r) # l) a v b \<longleftrightarrow>
     published l a v b \<or> r = No_content \<and> (\<exists>n. t = T_put_bundle a b v n \<or> t = T_insert_bundle a b v n)"
  by (auto simp: published_def)

lemma bundles_ok_other:
  assumes "bundles_ok db l" "au_key_bundles db' = au_key_bundles db"
    "\<And>a b v. published ((t, r) # l) a v b \<longleftrightarrow> published l a v b"
  shows "bundles_ok db' ((t, r) # l)"
  using assms(1) unfolding bundles_ok_def assms(2,3) .

text \<open>A step that stores version \<open>v\<close> where the version before it is the current one, or none is there and \<open>v\<close> is 1.\<close>

lemma bundles_ok_store:
  assumes "bundles_ok db l"
    and "case map_of (au_key_bundles db) a of None \<Rightarrow> v = 1 | Some (c, w) \<Rightarrow> v = w + 1"
    and "map_of (au_key_bundles db') = (map_of (au_key_bundles db))(a \<mapsto> (b, v))"
    and "\<And>x y z. published l' x y z \<longleftrightarrow> published l x y z \<or> x = a \<and> y = v \<and> z = b"
  shows "bundles_ok db' l'"
proof -
  note d = bundles_okD [OF assms(1)]
  have old: "w < v" if "published l a w c" for w c
    using d(1) [OF that] assms(2) by auto
  have v: "1 \<le> v" using assms(2) d(3) by (fastforce split: option.splits)
  have all: "\<exists>c. published l' a u c" if u: "1 \<le> u" "u \<le> v" for u
  proof (cases "u = v")
    case False
    then obtain c w where w: "map_of (au_key_bundles db) a = Some (c, w)" "u \<le> w"
      using assms(2) u by (cases "map_of (au_key_bundles db) a") auto
    from d(4) [OF w(1) u(1) w(2)] show ?thesis by (auto simp: assms(4))
  qed (auto simp: assms(4))
  have "\<exists>c w. map_of (au_key_bundles db') x = Some (c, w) \<and> y \<le> w \<and> (y = w \<longrightarrow> z = c)" if "published l' x y z" for x y z
    using that d(1) [of x y z] old by (auto simp: assms(3,4) dest: less_imp_le)
  moreover have "published l' x w c \<and> 1 \<le> w \<and> (\<forall>u. 1 \<le> u \<and> u \<le> w \<longrightarrow> (\<exists>b. published l' x u b))"
    if "map_of (au_key_bundles db') x = Some (c, w)" for x c w
  proof (cases "x = a")
    case True
    then show ?thesis using that v all by (auto simp: assms(3,4))
  next
    case False
    then have "map_of (au_key_bundles db) x = Some (c, w)" using that by (simp add: assms(3))
    from d(2,3,4) [OF this] False show ?thesis by (auto simp: assms(4))
  qed
  moreover have "z = z'" if "published l' x y z" "published l' x y z'" for x y z z'
    using that d(5) [of x y z z'] old by (auto simp: assms(4))
  ultimately show ?thesis unfolding bundles_ok_def by blast
qed

lemma resume_bundles_same:
  assumes "auth_resume env now rnd t s = (s', n)" "\<And>a b v k. t \<noteq> T_put_bundle a b v k" "\<And>a b v k. t \<noteq> T_insert_bundle a b v k"
  shows "au_key_bundles (as_db s') = au_key_bundles (as_db s)"
proof (cases t)
  case (T_refresh sid)
  then show ?thesis using assms(1)
    by (auto simp: rotateSession_def Let_def split: option.splits if_splits dest!: insert_session_effect(4))
next
  case (T_enroll_device sid name)
  then show ?thesis using assms(1)
    by (auto simp: enrollBearerSessionDevice_def Let_def split: option.splits if_splits sum.splits
        dest!: insert_device_effect(4) bind_effect)
qed (use assms in \<open>auto simp: resume_limit_def resume_record_def resume_finish_def ensureAccount_def
      saveCredentialRecordIfAbsent_def checkAndIncrement_def Let_def issueSession_def insert_session_def revokeSession_def
      createDevice_def insert_device_def bindSessionToDevice_def store_revokeDevice_def
      split: option.splits prod.splits if_splits\<close>)

lemma put_bundle_reply:
  assumes "bundles_ok (as_db s) l" "auth_resume env now rnd (T_put_bundle a b v n) s = (s', Reply r)" "n \<noteq> 0"
  shows "bundles_ok (as_db s') ((T_put_bundle a b v n, r) # l)"
proof -
  obtain db out where p: "publish_select a b v (as_db s) = (db, Published out)" "as_db s' = db" "r = publish_reply v out"
    using assms(2,3) by (auto split: prod.splits publish_next.splits)
  consider (unchanged) "db = as_db s" "r \<noteq> No_content" | (same) "db = as_db s" "map_of (au_key_bundles (as_db s)) a = Some (b, v)"
    | (replaced) c where "map_of (au_key_bundles (as_db s)) a = Some (c, v - 1)"
        "db = (as_db s)\<lparr>au_key_bundles := AList.update a (b, v) (au_key_bundles (as_db s))\<rparr>" "r = No_content"
    using p by (auto simp: publish_select_def publish_reply_def split: option.splits if_splits)
  then show ?thesis
  proof cases
    case unchanged
    then show ?thesis using bundles_ok_other [OF assms(1)] p(2) by (simp add: published_Cons)
  next
    case same
    from bundles_okD(2) [OF assms(1) same(2)] have "published l a v b" .
    then have "published ((T_put_bundle a b v n, r) # l) x y z \<longleftrightarrow> published l x z' z" if "y = z'" for x y z z'
      using that by (auto simp: published_Cons)
    then show ?thesis using bundles_ok_other [OF assms(1), of "as_db s'"] p(2) same(1) by simp
  next
    case (replaced c)
    show ?thesis
      by (rule bundles_ok_store [OF assms(1), of v a _ b]) (use replaced p(2) in \<open>auto simp: published_Cons update_conv'\<close>)
  qed
qed

lemma insert_bundle_reply:
  assumes "bundles_ok (as_db s) l" "auth_resume env now rnd (T_insert_bundle a b 1 n) s = (s', Reply r)"
  shows "bundles_ok (as_db s') ((T_insert_bundle a b 1 n, r) # l)"
proof (cases "r = No_content")
  case True
  then have "map_of (au_key_bundles (as_db s)) a = None"
    "as_db s' = (as_db s)\<lparr>au_key_bundles := AList.update a (b, 1) (au_key_bundles (as_db s))\<rparr>"
    using assms(2)
    by (cases "map_of (au_key_bundles (as_db s)) a"; auto simp: publish_insert_def publish_reply_def split: if_splits)+
  then show ?thesis
    by (intro bundles_ok_store [OF assms(1), of 1 a _ b]) (use True in \<open>auto simp: published_Cons update_conv'\<close>)
next
  case False
  then have "as_db s' = as_db s" using assms(2)
    by (auto simp: publish_insert_def publish_reply_def split: option.splits if_splits)
  then show ?thesis using bundles_ok_other [OF assms(1)] False by (simp add: published_Cons)
qed

lemma bundles_ok_step:
  assumes "auth_step env (s, ts, l) (s', ts', l')" "auth_inv env (s, ts, l)" "bundles_ok (as_db s) l"
  shows "bundles_ok (as_db s') l'"
  using assms(1)
proof cases
  case (resume_reply t now rnd r)
  have ok: "auth_task_ok env (as_db s) t" using assms(2) resume_reply(3) by (simp add: auth_inv_def)
  show ?thesis
  proof (cases "(\<exists>a b v k. t = T_put_bundle a b v k) \<or> (\<exists>a b v k. t = T_insert_bundle a b v k)")
    case True
    then show ?thesis using ok resume_reply put_bundle_reply [OF assms(3)] insert_bundle_reply [OF assms(3)]
      by (auto simp: PUBLISH_ATTEMPTS_def simp del: auth_resume.simps)
  next
    case False
    then show ?thesis using resume_reply bundles_ok_other [OF assms(3) resume_bundles_same [OF resume_reply(4)]]
      by (auto simp: published_Cons)
  qed
next
  case (resume_wait t now rnd t')
  have "au_key_bundles (as_db s') = au_key_bundles (as_db s)"
  proof (cases "(\<exists>a b v k. t = T_put_bundle a b v k) \<or> (\<exists>a b v k. t = T_insert_bundle a b v k)")
    case True
    then show ?thesis using resume_wait(4)
      by (auto simp: publish_select_def publish_insert_def split: option.splits if_splits)
  next
    case False
    then show ?thesis using resume_bundles_same [OF resume_wait(4)] by blast
  qed
  then show ?thesis using assms(3) resume_wait by (simp add: bundles_ok_def)
qed (use assms(3) start_db in \<open>auto simp: bundles_ok_def cleanup_windows_def cleanup_accounts_def\<close>)

text \<open>
  C39.  Key bundles are published by compare and swap.  Over every interleaving of publications by any
  devices, each version of an account's bundle has one content: two publications of the same version that both
  succeed carried the same bytes.  The stored bundle is the latest version that was published, every version below it
  was published before, and an answer of success means that the version was, or is, the stored one.
\<close>
theorem key_bundle_compare_and_swap:
  assumes "(auth_step env)\<^sup>*\<^sup>* auth_initial (s, ts, l)"
  shows "(\<forall>a v b c. published l a v b \<longrightarrow> published l a v c \<longrightarrow> b = c) \<and>
    (\<forall>a v b. published l a v b \<longrightarrow> (\<exists>c w. map_of (au_key_bundles (as_db s)) a = Some (c, w) \<and> v \<le> w \<and> (v = w \<longrightarrow> b = c))) \<and>
    (\<forall>a c w. map_of (au_key_bundles (as_db s)) a = Some (c, w) \<longrightarrow>
       published l a w c \<and> (\<forall>v. 1 \<le> v \<and> v \<le> w \<longrightarrow> (\<exists>b. published l a v b)))"
proof -
  let ?P = "\<lambda>w. auth_inv env w \<and> bundles_ok (as_db (fst w)) (snd (snd w))"
  have "?P (s, ts, l)"
  proof (rule run_invariant [OF assms])
    show "?P auth_initial"
      using auth_inv_run [of env] by (simp add: auth_initial_def bundles_ok_def published_def auth_db_empty_def)
  next
    fix w w' assume "auth_step env w w'" "?P w"
    then show "?P w'" by (cases w; cases w') (auto dest: auth_inv_step bundles_ok_step)
  qed
  then show ?thesis unfolding bundles_ok_def by simp
qed

theorem key_bundle_compare_and_swap_witness:
  "published (snd (snd auth_published)) ''a'' 1 stored_sample \<and>
   \<not> (\<exists>c. published (snd (snd auth_published)) ''a'' 1 c \<and> c \<noteq> stored_sample)"
proof -
  have "published (snd (snd auth_published)) ''a'' 1 stored_sample"
    by (auto simp: auth_published_def published_def)
  with conjunct1 [OF key_bundle_compare_and_swap [OF sample_runs(4)]] show ?thesis by blast
qed

text \<open>
  A publication always ends.  Whatever other requests run between its queries, a publication that is
  refused by the unique key once finds the other's row at its second attempt: it never runs out of its five
  attempts, and no publication is answered with a server error.
\<close>
theorem publish_ends:
  assumes "(auth_step env)\<^sup>*\<^sup>* auth_initial (s, ts, l)" "T_put_bundle a b v n \<in> set ts \<or> T_insert_bundle a b v n \<in> set ts"
  shows "PUBLISH_ATTEMPTS - 1 \<le> n \<and>
    (\<forall>now rnd. snd (auth_resume env now rnd (T_put_bundle a b v n) s) \<noteq> Reply Server_error) \<and>
    (\<forall>now rnd. snd (auth_resume env now rnd (T_insert_bundle a b v n) s) \<noteq> Reply Server_error) \<and>
    (n = PUBLISH_ATTEMPTS - 1 \<longrightarrow> (\<forall>now rnd. \<exists>r. snd (auth_resume env now rnd (T_put_bundle a b v n) s) = Reply r))"
proof -
  have inv: "auth_inv env (s, ts, l)" by (rule auth_inv_run [OF assms(1)])
  then have ok: "auth_task_ok env (as_db s) (T_put_bundle a b v n) \<or> auth_task_ok env (as_db s) (T_insert_bundle a b v n)"
    using assms(2) by (auto simp: auth_inv_def)
  then have ex: "account_exists a (as_db s)" and n: "PUBLISH_ATTEMPTS - 1 \<le> n"
    using inv by (auto simp: auth_inv_def accounts_ok_def)
  have row: "map_of (au_key_bundles (as_db s)) a \<noteq> None" if "n = PUBLISH_ATTEMPTS - 1"
    using that ok by (auto simp: PUBLISH_ATTEMPTS_def)
  have "snd (auth_resume env now rnd (T_put_bundle a b v n) s) \<noteq> Reply Server_error" for now rnd
    using n by (auto simp: PUBLISH_ATTEMPTS_def publish_reply_def split: prod.splits publish_next.splits publish_outcome.splits)
  moreover have "snd (auth_resume env now rnd (T_insert_bundle a b v n) s) \<noteq> Reply Server_error" for now rnd
    using ex by (auto simp: publish_insert_def publish_reply_def)
  moreover have "\<exists>r. snd (auth_resume env now rnd (T_put_bundle a b v n) s) = Reply r" if "n = PUBLISH_ATTEMPTS - 1" for now rnd
    using row [OF that] by (auto simp: publish_select_def)
  ultimately show ?thesis using n by blast
qed


theorem publish_ends_witness:
  "snd (auth_resume bundle_env 8 (sample_random 0) (T_insert_bundle ''a'' stored_sample 1 PUBLISH_ATTEMPTS) (fst auth_publishing)) \<noteq>
     Reply Server_error"
proof -
  have "T_insert_bundle ''a'' stored_sample 1 PUBLISH_ATTEMPTS \<in> set (fst (snd auth_publishing))"
    by (simp add: auth_publishing_def)
  from publish_ends [OF sample_runs(3) disjI2 [OF this]] show ?thesis by blast
qed

end
