(* ===== verification/Backend_Concurrency.thy ===== *)
theory Backend_Concurrency
  imports Backend_Sync
begin

text \<open>
  Overlapping requests of the sync service.  \<open>applyMutation\<close> of \<open>apps/backend/src/sync/routes.mjs\<close> runs in a
  transaction (\<open>withTransaction\<close>) and is cut at its statements; any open transaction may take the next step, and any may
  fail and be rolled back.  Statements run at PostgreSQL's default isolation level: each sees what is committed when it runs and the
  writes of its own transaction.  A statement that needs a lock another transaction holds does not run until that
  transaction has ended:

  \<^item> \<open>pg_advisory_xact_lock\<close>: the lock of an account and a mutation (its key is a hash; two mutations with the same
    hash would also wait for each other, which is left out);
  \<^item> \<open>INSERT ... ON CONFLICT\<close>: an insertion of the same key that is not committed yet, and for \<open>DO UPDATE\<close> the lock of the row;
  \<^item> \<open>SELECT ... FOR UPDATE\<close>: the lock of the row if there is a committed one; a row that is not there, or not committed,
    is not locked.

  \<open>nextval\<close> is not undone by a rollback, and the values of an \<open>INSERT\<close> are computed before it waits.
\<close>


section \<open>Transactions\<close>

datatype tx_phase =
    Ph_lock
  | Ph_find
  | Ph_vault
  | Ph_owner
  | Ph_select
  | Ph_draw
  | Ph_upsert nat
  | Ph_record int mutation_body
  | Ph_commit apply_outcome

text \<open>
  \<open>tx_newVault\<close>, \<open>tx_row\<close> and \<open>tx_outcome\<close> are the writes that are not committed yet; \<open>tx_locked\<close> is the row that
  \<open>getItemForUpdate\<close> returned.
\<close>

record txn =
  tx_account :: id
  tx_vault :: id
  tx_mutation :: mutation
  tx_blob :: bytes
  tx_now :: epoch_ms
  tx_phase :: tx_phase
  tx_newVault :: bool
  tx_locked :: "item_row option"
  tx_row :: "item_row option"
  tx_outcome :: "outcome_row option"

definition tx_begin :: "epoch_ms \<Rightarrow> id \<Rightarrow> id \<Rightarrow> mutation \<Rightarrow> bytes \<Rightarrow> txn" where
  "tx_begin now account vault m blob =
     \<lparr>tx_account = account, tx_vault = vault, tx_mutation = m, tx_blob = blob, tx_now = now, tx_phase = Ph_lock,
      tx_newVault = False, tx_locked = None, tx_row = None, tx_outcome = None\<rparr>"

definition tx_key :: "txn \<Rightarrow> id \<times> id" where
  "tx_key t = (tx_vault t, mut_itemId (tx_mutation t))"

definition tx_mid :: "txn \<Rightarrow> id \<times> id" where
  "tx_mid t = (tx_account t, mut_mutationId (tx_mutation t))"

text \<open>The advisory lock and the lock of the row, both held to the end of the transaction.\<close>

definition holds_mid :: "txn \<Rightarrow> bool" where
  "holds_mid t \<longleftrightarrow> tx_phase t \<noteq> Ph_lock"

definition holds_row :: "txn \<Rightarrow> bool" where
  "holds_row t \<longleftrightarrow> tx_locked t \<noteq> None \<or> tx_row t \<noteq> None"

definition tx_finish :: "apply_outcome \<Rightarrow> txn \<Rightarrow> txn" where
  "tx_finish out t = t\<lparr>tx_phase := Ph_commit out\<rparr>"

definition tx_revision :: "txn \<Rightarrow> int" where
  "tx_revision t = (case tx_locked t of None \<Rightarrow> 0 | Some row \<Rightarrow> ir_revision row)"

text \<open>\<open>getItemForUpdate\<close> and the comparison of revisions.\<close>

definition tx_select :: "(epoch_ms \<Rightarrow> string) \<Rightarrow> sync_db \<Rightarrow> txn \<Rightarrow> txn" where
  "tx_select iso_date db t =
     (let t1 = t\<lparr>tx_locked := map_of (db_items db) (tx_key t)\<rparr>; m = tx_mutation t
      in if mut_baseRevision m = tx_revision t1 then t1\<lparr>tx_phase := Ph_draw\<rparr>
         else (case tx_locked t1 of
                 None \<Rightarrow> tx_finish Apply_bad_request t1
               | Some row \<Rightarrow>
                   t1\<lparr>tx_phase := Ph_record 409 (Body_conflict \<lparr>cf_mutationId = mut_mutationId m,
                     cf_current = toItemRecord iso_date row, cf_attempted = m\<rparr>)\<rparr>))"

text \<open>
  The second half of \<open>upsertItem\<close>, with the number drawn before: an insertion has that number, an update draws another.
\<close>

definition tx_upsert :: "(epoch_ms \<Rightarrow> string) \<Rightarrow> nat \<Rightarrow> sync_db \<Rightarrow> txn \<Rightarrow> nat \<times> txn" where
  "tx_upsert iso_date n db t =
     (let m = tx_mutation t;
          fresh = \<lparr>ir_vault_id = tx_vault t, ir_item_id = mut_itemId m, ir_ciphertext = tx_blob t,
            ir_envelope_version = mut_envelopeVersion m, ir_revision = tx_revision t + 1, ir_deleted = mut_deleted m,
            ir_created_at = tx_now t, ir_updated_at = tx_now t, ir_sequence = n\<rparr>;
          (row, s) = (case map_of (db_items db) (tx_key t) of
                        None \<Rightarrow> (fresh, db_sequence db)
                      | Some old \<Rightarrow> (fresh\<lparr>ir_created_at := ir_created_at old, ir_sequence := db_sequence db + 1\<rparr>, db_sequence db + 1))
      in (s, t\<lparr>tx_row := Some row, tx_phase := Ph_record 201 (Body_item (toItemRecord iso_date row))\<rparr>))"

text \<open>
  The next statement of a transaction before its commit, with the sequence after it; \<open>None\<close>: it waits.  \<open>others\<close> are the other open
  transactions.
\<close>

definition tx_advance :: "(epoch_ms \<Rightarrow> string) \<Rightarrow> txn list \<Rightarrow> sync_db \<Rightarrow> txn \<Rightarrow> (nat \<times> txn) option" where
  "tx_advance iso_date others db t =
     (let goes = (\<lambda>t'. Some (db_sequence db, t'))
      in case tx_phase t of
           Ph_lock \<Rightarrow>
             if list_ex (\<lambda>o1. holds_mid o1 \<and> tx_mid o1 = tx_mid t) others then None else goes (t\<lparr>tx_phase := Ph_find\<rparr>)
         | Ph_find \<Rightarrow>
             goes (case map_of (db_outcomes db) (tx_mid t) of
                     Some r \<Rightarrow> tx_finish (Definite (or_status_code r) (or_response_body r)) t
                   | None \<Rightarrow> t\<lparr>tx_phase := Ph_vault\<rparr>)
         | Ph_vault \<Rightarrow>
             if list_ex (\<lambda>o1. tx_newVault o1 \<and> tx_vault o1 = tx_vault t) others then None
             else goes (t\<lparr>tx_newVault := (map_of (db_vaults db) (tx_vault t) = None), tx_phase := Ph_owner\<rparr>)
         | Ph_owner \<Rightarrow>
             goes (if tx_newVault t \<or> map_of (db_vaults db) (tx_vault t) = Some (tx_account t)
                   then t\<lparr>tx_phase := Ph_select\<rparr> else tx_finish Apply_not_found t)
         | Ph_select \<Rightarrow>
             if map_of (db_items db) (tx_key t) \<noteq> None \<and> list_ex (\<lambda>o1. holds_row o1 \<and> tx_key o1 = tx_key t) others then None
             else goes (tx_select iso_date db t)
         | Ph_draw \<Rightarrow> Some (db_sequence db + 1, t\<lparr>tx_phase := Ph_upsert (db_sequence db + 1)\<rparr>)
         | Ph_upsert n \<Rightarrow>
             if list_ex (\<lambda>o1. holds_row o1 \<and> tx_key o1 = tx_key t) others then None else Some (tx_upsert iso_date n db t)
         | Ph_record status body \<Rightarrow>
             goes (tx_finish (Definite status body)
               (t\<lparr>tx_outcome := Some \<lparr>or_vault_id = tx_vault t, or_status_code = status, or_response_body = body\<rparr>\<rparr>))
         | Ph_commit out \<Rightarrow> None)"

text \<open>\<open>COMMIT\<close>.\<close>

definition tx_commit :: "txn \<Rightarrow> sync_db \<Rightarrow> sync_db" where
  "tx_commit t db =
     db\<lparr>db_vaults := (if tx_newVault t then AList.update (tx_vault t) (tx_account t) (db_vaults db) else db_vaults db),
        db_items := (case tx_row t of None \<Rightarrow> db_items db | Some row \<Rightarrow> AList.update (tx_key t) row (db_items db)),
        db_outcomes := (case tx_outcome t of None \<Rightarrow> db_outcomes db | Some r \<Rightarrow> AList.update (tx_mid t) r (db_outcomes db))\<rparr>"


section \<open>The service\<close>

record service =
  sv_db :: sync_db
  sv_open :: "txn list"
  sv_answers :: "(txn \<times> apply_outcome) list"

datatype sv_event =
    Sv_request epoch_ms id id mutation bytes
  | Sv_step nat
  | Sv_rollback nat

definition without :: "nat \<Rightarrow> 'a list \<Rightarrow> 'a list" where
  "without i xs = take i xs @ drop (Suc i) xs"

text \<open>A request that passed validation: the fast path, or a transaction.\<close>

definition sv_request :: "epoch_ms \<Rightarrow> id \<Rightarrow> id \<Rightarrow> mutation \<Rightarrow> bytes \<Rightarrow> service \<Rightarrow> service" where
  "sv_request now account vault m blob sv =
     (let t = tx_begin now account vault m blob
      in case findMutationOutcome account (mut_mutationId m) (sv_db sv) of
           Some r \<Rightarrow> sv\<lparr>sv_answers := (t, Definite (or_status_code r) (or_response_body r)) # sv_answers sv\<rparr>
         | None \<Rightarrow> sv\<lparr>sv_open := sv_open sv @ [t]\<rparr>)"

definition sv_step :: "(epoch_ms \<Rightarrow> string) \<Rightarrow> nat \<Rightarrow> service \<Rightarrow> service" where
  "sv_step iso_date i sv =
     (if i < length (sv_open sv)
      then (let t = sv_open sv ! i; others = without i (sv_open sv)
            in case tx_phase t of
                 Ph_commit out \<Rightarrow> sv\<lparr>sv_db := tx_commit t (sv_db sv), sv_open := others, sv_answers := (t, out) # sv_answers sv\<rparr>
               | _ \<Rightarrow>
                   (case tx_advance iso_date others (sv_db sv) t of
                      None \<Rightarrow> sv
                    | Some (n, t') \<Rightarrow> sv\<lparr>sv_db := (sv_db sv)\<lparr>db_sequence := n\<rparr>, sv_open := (sv_open sv)[i := t']\<rparr>))
      else sv)"

fun sv_handle :: "(epoch_ms \<Rightarrow> string) \<Rightarrow> sv_event \<Rightarrow> service \<Rightarrow> service" where
  "sv_handle iso_date (Sv_request now account vault m blob) sv = sv_request now account vault m blob sv"
| "sv_handle iso_date (Sv_step i) sv = sv_step iso_date i sv"
| "sv_handle iso_date (Sv_rollback i) sv = sv\<lparr>sv_open := without i (sv_open sv)\<rparr>"

inductive sv_reachable :: "(epoch_ms \<Rightarrow> string) \<Rightarrow> service \<Rightarrow> bool" for iso_date where
  start: "sv_reachable iso_date \<lparr>sv_db = sync_db_empty, sv_open = [], sv_answers = []\<rparr>"
| event: "sv_reachable iso_date sv \<Longrightarrow> sv_reachable iso_date (sv_handle iso_date e sv)"

definition sv_run :: "(epoch_ms \<Rightarrow> string) \<Rightarrow> sv_event list \<Rightarrow> service \<Rightarrow> service" where
  "sv_run iso_date es sv = fold (sv_handle iso_date) es sv"

lemma sv_run_reachable: "sv_reachable iso_date sv \<Longrightarrow> sv_reachable iso_date (sv_run iso_date es sv)"
  by (induction es arbitrary: sv) (auto simp: sv_run_def intro: sv_reachable.event)


section \<open>Exclusive locks\<close>

definition exclusive :: "(txn \<Rightarrow> bool) \<Rightarrow> (txn \<Rightarrow> 'k) \<Rightarrow> txn list \<Rightarrow> bool" where
  "exclusive held key ts \<longleftrightarrow> distinct (map key (filter held ts))"

definition free_of :: "(txn \<Rightarrow> bool) \<Rightarrow> (txn \<Rightarrow> 'k) \<Rightarrow> txn \<Rightarrow> txn list \<Rightarrow> bool" where
  "free_of held key t ts \<longleftrightarrow> (\<forall>x\<in>set ts. held x \<longrightarrow> key x \<noteq> key t)"

lemma free_of_list_ex: "\<not> list_ex (\<lambda>x. held x \<and> key x = key t) ts \<longleftrightarrow> free_of held key t ts"
  by (auto simp: list_ex_iff free_of_def)

lemma exclusive_split:
  "exclusive held key (xs @ t # ys) \<longleftrightarrow> exclusive held key (xs @ ys) \<and> (held t \<longrightarrow> free_of held key t (xs @ ys))"
  by (auto simp: exclusive_def free_of_def image_iff)

lemma exclusive_at:
  assumes "i < length ts"
  shows "exclusive held key ts \<longleftrightarrow>
    exclusive held key (without i ts) \<and> (held (ts ! i) \<longrightarrow> free_of held key (ts ! i) (without i ts))"
  using exclusive_split [of held key "take i ts" "ts ! i" "drop (Suc i) ts"] id_take_nth_drop [OF assms]
  by (simp add: without_def)

lemma exclusive_update:
  assumes "i < length ts"
  shows "exclusive held key (ts[i := t]) \<longleftrightarrow>
    exclusive held key (without i ts) \<and> (held t \<longrightarrow> free_of held key t (without i ts))"
  using exclusive_split [of held key "take i ts" t "drop (Suc i) ts"] upd_conv_take_nth_drop [OF assms]
  by (simp add: without_def)

lemma set_without: "set (without i ts) \<subseteq> set ts"
  by (auto simp: without_def dest: in_set_takeD in_set_dropD)

lemma set_update_without: "i < length ts \<Longrightarrow> set (ts[i := t]) = insert t (set (without i ts))"
  by (simp add: without_def upd_conv_take_nth_drop)


section \<open>The invariant\<close>

text \<open>Before and after the item has been read.\<close>

fun early :: "tx_phase \<Rightarrow> bool" where
  "early Ph_lock = True"
| "early Ph_find = True"
| "early Ph_vault = True"
| "early Ph_owner = True"
| "early Ph_select = True"
| "early _ = False"

fun writing :: "tx_phase \<Rightarrow> bool" where
  "writing Ph_draw = True"
| "writing (Ph_upsert n) = True"
| "writing _ = False"

fun undecided :: "tx_phase \<Rightarrow> bool" where
  "undecided Ph_lock = False"
| "undecided Ph_find = False"
| "undecided (Ph_commit out) = False"
| "undecided _ = True"

definition tx_row_ok :: "sync_db \<Rightarrow> txn \<Rightarrow> bool" where
  "tx_row_ok db t \<longleftrightarrow>
     (\<forall>row. tx_locked t = Some row \<longrightarrow> map_of (db_items db) (tx_key t) = Some row) \<and>
     (\<forall>row. tx_row t = Some row \<longrightarrow> tx_revision t = mut_baseRevision (tx_mutation t) \<and> ir_revision row = tx_revision t + 1) \<and>
     (writing (tx_phase t) \<longrightarrow> tx_revision t = mut_baseRevision (tx_mutation t)) \<and>
     (early (tx_phase t) \<longrightarrow> \<not> holds_row t)"

definition recorded :: "sync_db \<Rightarrow> id \<times> id \<Rightarrow> apply_outcome \<Rightarrow> bool" where
  "recorded db k out \<longleftrightarrow>
     (\<forall>s b. out = Definite s b \<longrightarrow> (\<exists>r. map_of (db_outcomes db) k = Some r \<and> or_status_code r = s \<and> or_response_body r = b))"

text \<open>A transaction that is about to commit an outcome answers with it; one that records none repeats a recorded one.\<close>

definition tx_outcome_ok :: "sync_db \<Rightarrow> txn \<Rightarrow> bool" where
  "tx_outcome_ok db t \<longleftrightarrow>
     (undecided (tx_phase t) \<longrightarrow> map_of (db_outcomes db) (tx_mid t) = None) \<and>
     (case tx_phase t of
        Ph_commit out \<Rightarrow>
          (case tx_outcome t of
             None \<Rightarrow> recorded db (tx_mid t) out
           | Some r \<Rightarrow> map_of (db_outcomes db) (tx_mid t) = None \<and> out = Definite (or_status_code r) (or_response_body r))
      | _ \<Rightarrow> tx_outcome t = None)"

definition sv_inv :: "service \<Rightarrow> bool" where
  "sv_inv sv \<longleftrightarrow>
     exclusive holds_mid tx_mid (sv_open sv) \<and> exclusive holds_row tx_key (sv_open sv) \<and>
     (\<forall>t\<in>set (sv_open sv). tx_row_ok (sv_db sv) t \<and> tx_outcome_ok (sv_db sv) t) \<and>
     (\<forall>(t, out)\<in>set (sv_answers sv). recorded (sv_db sv) (tx_mid t) out)"

lemma ok_sequence [simp]:
  "tx_row_ok (db\<lparr>db_sequence := n\<rparr>) t = tx_row_ok db t" "recorded (db\<lparr>db_sequence := n\<rparr>) k out = recorded db k out"
  "tx_outcome_ok (db\<lparr>db_sequence := n\<rparr>) t = tx_outcome_ok db t"
proof -
  show r: "recorded (db\<lparr>db_sequence := n\<rparr>) k out = recorded db k out" for k out by (simp add: recorded_def)
  show "tx_row_ok (db\<lparr>db_sequence := n\<rparr>) t = tx_row_ok db t" by (simp add: tx_row_ok_def)
  show "tx_outcome_ok (db\<lparr>db_sequence := n\<rparr>) t = tx_outcome_ok db t" unfolding tx_outcome_ok_def r by (simp split: tx_phase.split option.split)
qed

lemmas key_defs = tx_key_def tx_mid_def holds_row_def holds_mid_def tx_revision_def

lemma select_ok:
  assumes "tx_row_ok db t" "tx_outcome_ok db t" "tx_phase t = Ph_select"
  shows "tx_row_ok db (tx_select iso_date db t)" "tx_outcome_ok db (tx_select iso_date db t)"
    "tx_key (tx_select iso_date db t) = tx_key t" "tx_mid (tx_select iso_date db t) = tx_mid t"
    "holds_row (tx_select iso_date db t) \<Longrightarrow> map_of (db_items db) (tx_key t) \<noteq> None"
  using assms
  by (auto simp: tx_row_ok_def tx_outcome_ok_def recorded_def tx_select_def tx_finish_def Let_def key_defs
      split: option.splits if_splits)

lemma upsert_ok:
  assumes "tx_row_ok db t" "tx_outcome_ok db t" "tx_phase t = Ph_upsert k" "tx_upsert iso_date k db t = (n, t')"
  shows "tx_row_ok db t'" "tx_outcome_ok db t'" "tx_key t' = tx_key t" "tx_mid t' = tx_mid t"
  using assms
  by (auto simp: tx_row_ok_def tx_outcome_ok_def tx_upsert_def Let_def key_defs split: option.splits)

text \<open>One statement keeps the transaction in order, and takes a lock only if no other transaction holds it.\<close>

lemma advance_ok:
  assumes "tx_row_ok db t" "tx_outcome_ok db t" "tx_advance iso_date others db t = Some (n, t')"
  shows "tx_row_ok db t' \<and> tx_outcome_ok db t' \<and> tx_key t' = tx_key t \<and> tx_mid t' = tx_mid t \<and>
    (holds_mid t' \<longrightarrow> holds_mid t \<or> free_of holds_mid tx_mid t others) \<and>
    (holds_row t' \<longrightarrow> holds_row t \<or> free_of holds_row tx_key t others)"
proof (cases "tx_phase t")
  case Ph_select
  with assms have "t' = tx_select iso_date db t"
    "map_of (db_items db) (tx_key t) = None \<or> free_of holds_row tx_key t others"
    by (auto simp: tx_advance_def Let_def free_of_list_ex split: if_splits)
  with select_ok [OF assms(1,2) Ph_select, of iso_date] Ph_select show ?thesis by (auto simp: holds_mid_def)
next
  case (Ph_upsert k)
  with assms have "tx_upsert iso_date k db t = (n, t')" "free_of holds_row tx_key t others"
    by (auto simp: tx_advance_def Let_def free_of_list_ex split: if_splits)
  with upsert_ok [OF assms(1,2) Ph_upsert] Ph_upsert show ?thesis by (auto simp: holds_mid_def)
next
  case Ph_lock
  with assms have "t' = t\<lparr>tx_phase := Ph_find\<rparr>" "free_of holds_mid tx_mid t others"
    by (auto simp: tx_advance_def Let_def free_of_list_ex split: if_splits)
  with Ph_lock assms(1,2) show ?thesis by (auto simp: tx_row_ok_def tx_outcome_ok_def key_defs)
next
  case Ph_find
  show ?thesis
  proof (cases "map_of (db_outcomes db) (tx_mid t)")
    case None
    with Ph_find assms(3) have "t' = t\<lparr>tx_phase := Ph_vault\<rparr>" by (simp add: tx_advance_def)
    with Ph_find None assms(1,2) show ?thesis by (simp add: tx_row_ok_def tx_outcome_ok_def key_defs)
  next
    case (Some r)
    with Ph_find assms(3) have "t' = t\<lparr>tx_phase := Ph_commit (Definite (or_status_code r) (or_response_body r))\<rparr>"
      by (simp add: tx_advance_def tx_finish_def)
    with Ph_find Some assms(1,2) show ?thesis by (simp add: tx_row_ok_def tx_outcome_ok_def recorded_def key_defs)
  qed
next
  case Ph_owner
  with assms show ?thesis
    by (auto simp: tx_advance_def Let_def tx_row_ok_def tx_outcome_ok_def recorded_def tx_finish_def key_defs split: if_splits)
qed (use assms in \<open>auto simp: tx_advance_def Let_def tx_row_ok_def tx_outcome_ok_def tx_finish_def key_defs split: if_splits\<close>)


section \<open>All interleavings\<close>

lemma free_of_cong: "key t' = key t \<Longrightarrow> free_of held key t' ts = free_of held key t ts"
  by (simp add: free_of_def)

lemma inv_advance:
  assumes inv: "sv_inv sv" and i: "i < length (sv_open sv)"
    and adv: "tx_advance iso_date (without i (sv_open sv)) (sv_db sv) (sv_open sv ! i) = Some (n, t')"
  shows "sv_inv (sv\<lparr>sv_db := (sv_db sv)\<lparr>db_sequence := n\<rparr>, sv_open := (sv_open sv)[i := t']\<rparr>)"
proof -
  let ?t = "sv_open sv ! i" and ?o = "without i (sv_open sv)"
  have t: "tx_row_ok (sv_db sv) ?t" "tx_outcome_ok (sv_db sv) ?t" using inv i by (auto simp: sv_inv_def)
  note a = advance_ok [OF t adv]
  have "exclusive holds_mid tx_mid ((sv_open sv)[i := t'])"
    using inv a exclusive_at [OF i, of holds_mid tx_mid] exclusive_update [OF i, of holds_mid tx_mid t']
      free_of_cong [of tx_mid t' ?t holds_mid ?o] by (auto simp: sv_inv_def)
  moreover have "exclusive holds_row tx_key ((sv_open sv)[i := t'])"
    using inv a exclusive_at [OF i, of holds_row tx_key] exclusive_update [OF i, of holds_row tx_key t']
      free_of_cong [of tx_key t' ?t holds_row ?o] by (auto simp: sv_inv_def)
  moreover have "tx_row_ok (sv_db sv) x \<and> tx_outcome_ok (sv_db sv) x" if "x \<in> set ((sv_open sv)[i := t'])" for x
    using that a inv set_without [of i "sv_open sv"] by (auto simp: set_update_without [OF i] sv_inv_def)
  ultimately show ?thesis using inv by (simp add: sv_inv_def)
qed

text \<open>A commit changes the item and the outcome that its transaction holds the locks of, and nothing another one relies on.\<close>

lemma commit_row_ok:
  assumes "tx_row_ok db x" "holds_row t \<Longrightarrow> holds_row x \<Longrightarrow> tx_key x \<noteq> tx_key t"
  shows "tx_row_ok (tx_commit t db) x"
proof -
  have "map_of (db_items (tx_commit t db)) (tx_key x) = map_of (db_items db) (tx_key x)" if "holds_row x"
  proof (cases "tx_row t")
    case (Some row)
    then have "tx_key x \<noteq> tx_key t" using assms(2) that by (simp add: holds_row_def)
    with Some show ?thesis by (simp add: tx_commit_def update_conv')
  qed (simp add: tx_commit_def)
  then have "map_of (db_items (tx_commit t db)) (tx_key x) = Some row" if "tx_locked x = Some row" for row
    using that assms(1) by (simp add: tx_row_ok_def holds_row_def)
  then show ?thesis using assms(1) unfolding tx_row_ok_def by blast
qed

lemma commit_recorded:
  assumes "recorded db k out" "tx_outcome t \<noteq> None \<Longrightarrow> map_of (db_outcomes db) (tx_mid t) = None"
  shows "recorded (tx_commit t db) k out"
  using assms by (fastforce simp: recorded_def tx_commit_def update_conv' split: option.splits)

lemma commit_outcomes:
  "k \<noteq> tx_mid t \<Longrightarrow> map_of (db_outcomes (tx_commit t db)) k = map_of (db_outcomes db) k"
  by (simp add: tx_commit_def update_conv' split: option.split)

lemma commit_outcome_ok:
  assumes "tx_outcome_ok db x" "tx_outcome t \<noteq> None \<Longrightarrow> map_of (db_outcomes db) (tx_mid t) = None"
    "holds_mid x \<Longrightarrow> tx_mid x \<noteq> tx_mid t"
  shows "tx_outcome_ok (tx_commit t db) x"
proof -
  have "map_of (db_outcomes (tx_commit t db)) (tx_mid x) = map_of (db_outcomes db) (tx_mid x)" if "holds_mid x"
    using commit_outcomes assms(3) [OF that] by blast
  moreover have "undecided (tx_phase x) \<Longrightarrow> holds_mid x" "tx_phase x = Ph_commit out \<Longrightarrow> holds_mid x" for out
    by (cases "tx_phase x"; simp add: holds_mid_def)+
  moreover have "recorded db (tx_mid x) out \<Longrightarrow> recorded (tx_commit t db) (tx_mid x) out" for out
    using commit_recorded assms(2) by blast
  ultimately show ?thesis
    using assms(1) unfolding tx_outcome_ok_def by (auto split: tx_phase.splits option.splits)
qed

lemma committed_recorded:
  assumes "tx_outcome_ok db t" "tx_phase t = Ph_commit out"
  shows "recorded (tx_commit t db) (tx_mid t) out"
  using assms by (auto simp: tx_outcome_ok_def recorded_def tx_commit_def split: option.splits)

lemma inv_commit:
  assumes inv: "sv_inv sv" and i: "i < length (sv_open sv)" and c: "tx_phase (sv_open sv ! i) = Ph_commit out"
  shows "sv_inv (sv\<lparr>sv_db := tx_commit (sv_open sv ! i) (sv_db sv), sv_open := without i (sv_open sv),
    sv_answers := (sv_open sv ! i, out) # sv_answers sv\<rparr>)"
proof -
  let ?t = "sv_open sv ! i" and ?o = "without i (sv_open sv)"
  have t: "tx_outcome_ok (sv_db sv) ?t" using inv i by (simp add: sv_inv_def)
  then have none: "tx_outcome ?t \<noteq> None \<Longrightarrow> map_of (db_outcomes (sv_db sv)) (tx_mid ?t) = None"
    using c by (auto simp: tx_outcome_ok_def)
  have "holds_mid ?t" using c by (simp add: holds_mid_def)
  then have ex: "exclusive holds_mid tx_mid ?o" "exclusive holds_row tx_key ?o" "free_of holds_mid tx_mid ?t ?o"
    "holds_row ?t \<Longrightarrow> free_of holds_row tx_key ?t ?o"
    using inv exclusive_at [OF i, of holds_mid tx_mid] exclusive_at [OF i, of holds_row tx_key] by (simp_all add: sv_inv_def)
  have "tx_row_ok (tx_commit ?t (sv_db sv)) x \<and> tx_outcome_ok (tx_commit ?t (sv_db sv)) x" if "x \<in> set ?o" for x
  proof -
    have "tx_row_ok (sv_db sv) x" "tx_outcome_ok (sv_db sv) x"
      using that inv set_without [of i "sv_open sv"] by (auto simp: sv_inv_def)
    moreover have "holds_row ?t \<Longrightarrow> holds_row x \<Longrightarrow> tx_key x \<noteq> tx_key ?t" "holds_mid x \<Longrightarrow> tx_mid x \<noteq> tx_mid ?t"
      using ex(3,4) that by (auto simp: free_of_def)
    ultimately show ?thesis using commit_row_ok commit_outcome_ok none by blast
  qed
  moreover have "recorded (tx_commit ?t (sv_db sv)) (tx_mid x) y" if "(x, y) \<in> set (sv_answers sv)" for x y
    using that inv commit_recorded none by (fastforce simp: sv_inv_def)
  ultimately show ?thesis using ex(1,2) committed_recorded [OF t c] by (auto simp: sv_inv_def)
qed

lemma inv_rollback: "sv_inv sv \<Longrightarrow> sv_inv (sv\<lparr>sv_open := without i (sv_open sv)\<rparr>)"
proof (cases "i < length (sv_open sv)")
  case True
  assume "sv_inv sv"
  with exclusive_at [OF True, of holds_mid tx_mid] exclusive_at [OF True, of holds_row tx_key] set_without [of i "sv_open sv"]
  show ?thesis by (auto simp: sv_inv_def)
qed (simp add: without_def)

lemma inv_request: "sv_inv sv \<Longrightarrow> sv_inv (sv_request now account vault m blob sv)"
proof -
  let ?t = "tx_begin now account vault m blob"
  assume inv: "sv_inv sv"
  have "tx_row_ok db ?t \<and> tx_outcome_ok db ?t \<and> \<not> holds_mid ?t \<and> \<not> holds_row ?t \<and> tx_mid ?t = (account, mut_mutationId m)" for db
    by (simp add: tx_begin_def tx_row_ok_def tx_outcome_ok_def key_defs)
  with inv show ?thesis
    by (auto simp: sv_request_def Let_def sv_inv_def exclusive_def findMutationOutcome_def recorded_def split: option.split)
qed

lemma inv_step:
  assumes inv: "sv_inv sv"
  shows "sv_inv (sv_step iso_date i sv)"
proof (cases "i < length (sv_open sv)")
  case True
  note adv = inv_advance [OF inv True, of iso_date] and com = inv_commit [OF inv True]
  show ?thesis
  proof (cases "\<exists>out. tx_phase (sv_open sv ! i) = Ph_commit out")
    case c: True
    then show ?thesis using com True by (auto simp: sv_step_def Let_def)
  next
    case False
    then have "sv_step iso_date i sv =
        (case tx_advance iso_date (without i (sv_open sv)) (sv_db sv) (sv_open sv ! i) of
           None \<Rightarrow> sv
         | Some (n, t') \<Rightarrow> sv\<lparr>sv_db := (sv_db sv)\<lparr>db_sequence := n\<rparr>, sv_open := (sv_open sv)[i := t']\<rparr>)"
      using True by (cases "tx_phase (sv_open sv ! i)") (simp_all add: sv_step_def Let_def)
    then show ?thesis using inv adv by (auto split: option.split)
  qed
qed (simp add: sv_step_def inv)

lemma reachable_sv_inv: "sv_reachable iso_date sv \<Longrightarrow> sv_inv sv"
proof (induction rule: sv_reachable.induct)
  case start
  show ?case by (simp add: sv_inv_def exclusive_def)
next
  case (event sv e)
  then show ?case by (cases e) (simp_all add: inv_request inv_step inv_rollback)
qed


section \<open>A transaction alone\<close>

definition sv_alone :: "(epoch_ms \<Rightarrow> string) \<Rightarrow> epoch_ms \<Rightarrow> id \<Rightarrow> id \<Rightarrow> mutation \<Rightarrow> bytes \<Rightarrow> service \<Rightarrow> service" where
  "sv_alone iso_date now account vault m blob sv =
     sv_run iso_date (Sv_request now account vault m blob # replicate 9 (Sv_step 0)) sv"

lemma step_idle [simp]: "sv_step iso_date 0 \<lparr>sv_db = db, sv_open = [], sv_answers = as\<rparr> = \<lparr>sv_db = db, sv_open = [], sv_answers = as\<rparr>"
  by (simp add: sv_step_def)

lemma step_alone [simp]:
  "sv_step iso_date 0 \<lparr>sv_db = db, sv_open = [t], sv_answers = as\<rparr> =
     (case tx_phase t of
        Ph_commit out \<Rightarrow> \<lparr>sv_db = tx_commit t db, sv_open = [], sv_answers = (t, out) # as\<rparr>
      | _ \<Rightarrow> (case tx_advance iso_date [] db t of
                None \<Rightarrow> \<lparr>sv_db = db, sv_open = [t], sv_answers = as\<rparr>
              | Some (n, t') \<Rightarrow> \<lparr>sv_db = db\<lparr>db_sequence := n\<rparr>, sv_open = [t'], sv_answers = as\<rparr>))"
  by (simp add: sv_step_def Let_def without_def split: tx_phase.split option.split)

lemmas tx_defs = tx_advance_def tx_begin_def tx_finish_def tx_select_def tx_upsert_def tx_commit_def tx_revision_def tx_key_def
  tx_mid_def Let_def

text \<open>Run without others, the statements of a transaction are \<open>applyMutation\<close> of \<^theory_text>\<open>Backend_Sync\<close>.\<close>

theorem alone_is_applyMutation:
  assumes "applyMutation iso_date now account vault m blob db = Some (db', out)"
  shows "\<exists>t. sv_alone iso_date now account vault m blob \<lparr>sv_db = db, sv_open = [], sv_answers = as\<rparr> =
     \<lparr>sv_db = db', sv_open = [], sv_answers = (t, out) # as\<rparr>"
proof (cases "map_of (db_outcomes db) (account, mut_mutationId m)")
  case (Some r)
  then show ?thesis
    using assms
    by (auto simp: sv_alone_def sv_run_def sv_request_def applyMutation_def findMutationOutcome_def Let_def numeral_eq_Suc)
next
  case None
  show ?thesis
    using assms None
    by (cases "map_of (db_vaults db) vault"; cases "map_of (db_items db) (vault, mut_itemId m)")
      (auto simp: sv_alone_def sv_run_def sv_request_def applyMutation_def findMutationOutcome_def ensureVaultOwnership_def
        getItemForUpdate_def upsertItem_def recordMutationOutcome_def numeral_eq_Suc tx_defs split: if_splits)
qed


section \<open>What holds over every interleaving\<close>

definition sv_start :: service where
  "sv_start = \<lparr>sv_db = sync_db_empty, sv_open = [], sv_answers = []\<rparr>"

abbreviation stored_row :: "service \<Rightarrow> id \<times> id \<Rightarrow> item_row option" where
  "stored_row sv k \<equiv> map_of (db_items (sv_db sv)) k"

lemma sv_run_start: "sv_reachable iso_date (sv_run iso_date es sv_start)"
  using sv_run_reachable [OF sv_reachable.start] by (simp add: sv_start_def)

text \<open>A step that is not a commit leaves the items as they are; a commit puts the row of its transaction.\<close>

lemma step_items:
  "db_items (sv_db (sv_step iso_date i sv)) = db_items (sv_db sv) \<or>
   (\<exists>t row. t \<in> set (sv_open sv) \<and> tx_row t = Some row \<and>
      db_items (sv_db (sv_step iso_date i sv)) = AList.update (tx_key t) row (db_items (sv_db sv)))"
proof (cases "i < length (sv_open sv)")
  case True
  let ?t = "sv_open sv ! i"
  have t: "?t \<in> set (sv_open sv)" using True by simp
  have "db_items (sv_db (sv_step iso_date i sv)) \<in> {db_items (sv_db sv), db_items (tx_commit ?t (sv_db sv))}"
    using True by (cases "tx_phase ?t") (simp_all add: sv_step_def Let_def split: option.split)
  moreover have "db_items (tx_commit ?t (sv_db sv)) =
      (case tx_row ?t of None \<Rightarrow> db_items (sv_db sv) | Some row \<Rightarrow> AList.update (tx_key ?t) row (db_items (sv_db sv)))"
    by (simp add: tx_commit_def)
  ultimately show ?thesis using t by (cases "tx_row ?t") auto
qed (simp add: sv_step_def)

lemma handle_items:
  "db_items (sv_db (sv_handle iso_date e sv)) = db_items (sv_db sv) \<or>
   (\<exists>t row. t \<in> set (sv_open sv) \<and> tx_row t = Some row \<and>
      db_items (sv_db (sv_handle iso_date e sv)) = AList.update (tx_key t) row (db_items (sv_db sv)))"
proof (cases e)
  case (Sv_step i)
  then show ?thesis using step_items [of iso_date i sv] by simp
qed (simp_all add: sv_request_def Let_def split: option.split)

lemma stored_row_event:
  assumes "sv_inv sv" "stored_row sv k = Some row" "stored_row (sv_handle iso_date e sv) k \<noteq> Some row"
  shows "\<exists>t row'. t \<in> set (sv_open sv) \<and> tx_key t = k \<and> stored_row (sv_handle iso_date e sv) k = Some row' \<and>
    ir_revision row' = mut_baseRevision (tx_mutation t) + 1 \<and>
    (mut_baseRevision (tx_mutation t) = ir_revision row \<or> mut_baseRevision (tx_mutation t) = 0 \<and> tx_locked t = None)"
proof -
  obtain t row' where t: "t \<in> set (sv_open sv)" "tx_row t = Some row'"
    "db_items (sv_db (sv_handle iso_date e sv)) = AList.update (tx_key t) row' (db_items (sv_db sv))"
    using handle_items [of iso_date e sv] assms(2,3) by auto
  with assms(2,3) have k: "tx_key t = k" "stored_row (sv_handle iso_date e sv) k = Some row'"
    by (auto simp: update_conv' split: if_splits)
  have "tx_row_ok (sv_db sv) t" using assms(1) t(1) by (simp add: sv_inv_def)
  with t(2) k(1) assms(2) show ?thesis
    by (intro exI [of _ t] exI [of _ row']) (use t(1) k in \<open>auto simp: tx_row_ok_def tx_revision_def split: option.splits\<close>)
qed

lemma answers_agree:
  assumes "sv_inv sv" "(t1, Definite s1 b1) \<in> set (sv_answers sv)" "(t2, Definite s2 b2) \<in> set (sv_answers sv)"
    "tx_mid t1 = tx_mid t2"
  shows "s1 = s2 \<and> b1 = b2"
proof -
  have "recorded (sv_db sv) (tx_mid t1) (Definite s1 b1)" "recorded (sv_db sv) (tx_mid t1) (Definite s2 b2)"
    using assms unfolding sv_inv_def by fastforce+
  then show ?thesis by (auto simp: recorded_def)
qed

text \<open>
  C29. However requests overlap and whichever are rolled back: all definite answers to one mutation of an account are the
  same, so a double submission is applied once; no two open transactions hold the lock of the same item or of the same
  mutation; and an item is never lost, and is replaced only by a mutation whose base revision is the revision it has,
  with the next one, or by a mutation with base revision 0 that saw no item when it read.
\<close>
theorem concurrent_mutations_consistent:
  assumes "sv_reachable iso_date sv"
  shows "(\<forall>t1 s1 b1 t2 s2 b2. (t1, Definite s1 b1) \<in> set (sv_answers sv) \<longrightarrow> (t2, Definite s2 b2) \<in> set (sv_answers sv) \<longrightarrow>
       tx_mid t1 = tx_mid t2 \<longrightarrow> s1 = s2 \<and> b1 = b2) \<and>
    exclusive holds_mid tx_mid (sv_open sv) \<and> exclusive holds_row tx_key (sv_open sv) \<and>
    (\<forall>e k row. stored_row sv k = Some row \<longrightarrow> stored_row (sv_handle iso_date e sv) k = Some row \<or>
       (\<exists>t row'. t \<in> set (sv_open sv) \<and> tx_key t = k \<and> stored_row (sv_handle iso_date e sv) k = Some row' \<and>
          ir_revision row' = mut_baseRevision (tx_mutation t) + 1 \<and>
          (mut_baseRevision (tx_mutation t) = ir_revision row \<or>
           mut_baseRevision (tx_mutation t) = 0 \<and> tx_locked t = None)))"
proof -
  have inv: "sv_inv sv" by (rule reachable_sv_inv [OF assms])
  then have "exclusive holds_mid tx_mid (sv_open sv)" "exclusive holds_row tx_key (sv_open sv)" by (simp_all add: sv_inv_def)
  moreover note answers_agree [OF inv] stored_row_event [OF inv, of _ _ iso_date]
  ultimately show ?thesis by (intro conjI allI impI) (assumption | metis)+
qed


text \<open>Concrete requests on the vault of one account.\<close>

definition clash_request :: "epoch_ms \<Rightarrow> id \<Rightarrow> id \<Rightarrow> int \<Rightarrow> bytes \<Rightarrow> sv_event" where
  "clash_request now mid i base blob = Sv_request now ''a'' ''v'' \<lparr>mut_mutationId = mid, mut_itemId = i, mut_vaultId = ''v'',
     mut_baseRevision = base, mut_ciphertext = backend_encodeB64 blob, mut_envelopeVersion = ''crypto-envelope/v1'', mut_deleted = False\<rparr> blob"

definition clash_setup :: "sv_event list" where
  "clash_setup = clash_request 1 ''m0'' ''j'' 0 [7] # replicate 9 (Sv_step 0)"

text \<open>A mutation submitted twice: the second transaction takes the lock, the first waits for it and is answered from its outcome.\<close>

definition twice_events :: "sv_event list" where
  "twice_events = clash_setup @ [clash_request 2 ''m1'' ''i'' 0 [7], clash_request 3 ''m1'' ''i'' 0 [7]] @
     replicate 3 (Sv_step 1) @ Sv_step 0 # replicate 6 (Sv_step 1) @ replicate 3 (Sv_step 0)"

definition is_definite :: "apply_outcome \<Rightarrow> bool" where
  "is_definite out = (case out of Definite s b \<Rightarrow> True | _ \<Rightarrow> False)"

lemma is_definiteD: "is_definite out \<Longrightarrow> \<exists>s b. out = Definite s b"
  by (cases out) (simp_all add: is_definite_def)

lemma twice_run:
  "map (\<lambda>(t, out). (tx_now t, tx_mid t, is_definite out)) (sv_answers (sv_run (\<lambda>_. []) twice_events sv_start)) =
     [(2, (''a'', ''m1''), True), (3, (''a'', ''m1''), True), (1, (''a'', ''m0''), True)]"
  by code_simp

theorem concurrent_mutations_consistent_witness:
  "\<exists>t1 t2 out rest. sv_answers (sv_run (\<lambda>_. []) twice_events sv_start) = (t1, out) # (t2, out) # rest \<and>
     tx_now t1 = 2 \<and> tx_now t2 = 3 \<and> is_definite out"
proof -
  let ?sv = "sv_run (\<lambda>_. []) twice_events sv_start"
  obtain t1 s1 b1 t2 s2 b2 rest where
    as: "sv_answers ?sv = (t1, Definite s1 b1) # (t2, Definite s2 b2) # rest" "tx_now t1 = 2" "tx_now t2 = 3" "tx_mid t1 = tx_mid t2"
    using twice_run by (auto simp: map_eq_Cons_conv dest!: is_definiteD)
  from conjunct1 [OF concurrent_mutations_consistent [OF sv_run_start [of _ twice_events]], of "\<lambda>_. []"] as(4)
  have "s1 = s2 \<and> b1 = b2" by (metis as(1) list.set_intros(1) list.set_intros(2))
  with as show ?thesis by (simp add: is_definite_def)
qed


section \<open>Rows that are not there yet\<close>









end
