(* ===== verification/Association_Storage.thy ===== *)
theory Association_Storage
  imports Message_Schema
begin

text \<open>
  The only persistence of the extension, \<open>apps/extension/src/storage.ts\<close>: the account
  identifier and API origin of the last unlock.  The browser's storage area is a map from keys to
  values; nothing keeps other code of the profile from writing there, so what is read back is
  validated again.

  The interface \<open>AssociationStorage\<close> is the locale \<open>association_store\<close>; both implementations of the
  source interpret it.
\<close>


section \<open>The source's definitions\<close>

definition ASSOCIATION_KEY :: string where
  "ASSOCIATION_KEY = ''zkpm.extension.account-association.v1''"

definition isSavedAccount :: "jsval \<Rightarrow> bool" where
  "isSavedAccount value =
     (case value of
        JObj r \<Rightarrow> boundedString (jget r ''accountId'') 256 \<and> boundedString (jget r ''apiOrigin'') 512
      | _ \<Rightarrow> False)"

type_synonym storage_area = "(string, jsval) js_map"

datatype storage_error = Invalid_association

definition area_get :: "storage_area \<Rightarrow> jsval option" where
  "area_get area =
     (let v = jget area ASSOCIATION_KEY in if isSavedAccount v then Some v else None)"

definition area_set :: "jsval \<Rightarrow> storage_area \<Rightarrow> storage_error + storage_area" where
  "area_set value area =
     (if \<not> isSavedAccount value then Inl Invalid_association else Inr (AList.update ASSOCIATION_KEY value area))"

definition area_clear :: "storage_area \<Rightarrow> storage_area" where
  "area_clear area = AList.delete ASSOCIATION_KEY area"

type_synonym memory_store = "jsval option"

definition memory_new :: memory_store where
  "memory_new = None"

definition memory_get :: "memory_store \<Rightarrow> jsval option" where
  "memory_get value = value"

definition memory_set :: "jsval \<Rightarrow> memory_store \<Rightarrow> storage_error + memory_store" where
  "memory_set next value = (if \<not> isSavedAccount next then Inl Invalid_association else Inr (Some next))"

definition memory_clear :: "memory_store \<Rightarrow> memory_store" where
  "memory_clear value = None"


section \<open>The interface\<close>

datatype store_op = Op_get | Op_set jsval | Op_clear

datatype store_result = Got "jsval option" | Stored_ok | Refused_invalid | Cleared

text \<open>One call, and a sequence of calls with the answers they give.\<close>

fun store_call ::
  "('s \<Rightarrow> jsval option) \<Rightarrow> (jsval \<Rightarrow> 's \<Rightarrow> storage_error + 's) \<Rightarrow> ('s \<Rightarrow> 's) \<Rightarrow> store_op \<Rightarrow> 's \<Rightarrow> 's \<times> store_result" where
  "store_call g w c Op_get s = (s, Got (g s))"
| "store_call g w c (Op_set v) s = (case w v s of Inl _ \<Rightarrow> (s, Refused_invalid) | Inr s' \<Rightarrow> (s', Stored_ok))"
| "store_call g w c Op_clear s = (c s, Cleared)"

fun store_run ::
  "('s \<Rightarrow> jsval option) \<Rightarrow> (jsval \<Rightarrow> 's \<Rightarrow> storage_error + 's) \<Rightarrow> ('s \<Rightarrow> 's) \<Rightarrow> store_op list \<Rightarrow> 's \<Rightarrow> 's \<times> store_result list" where
  "store_run g w c [] s = (s, [])"
| "store_run g w c (o1 # ops) s =
     (let (s1, r) = store_call g w c o1 s; (s2, rs) = store_run g w c ops s1 in (s2, r # rs))"

text \<open>What a storage with one slot should answer: the abstract state is the remembered value.\<close>

fun slot_call :: "store_op \<Rightarrow> jsval option \<Rightarrow> jsval option \<times> store_result" where
  "slot_call Op_get m = (m, Got m)"
| "slot_call (Op_set v) m = (if isSavedAccount v then (Some v, Stored_ok) else (m, Refused_invalid))"
| "slot_call Op_clear m = (None, Cleared)"

fun slot_run :: "store_op list \<Rightarrow> jsval option \<Rightarrow> jsval option \<times> store_result list" where
  "slot_run [] m = (m, [])"
| "slot_run (o1 # ops) m = (let (m1, r) = slot_call o1 m; (m2, rs) = slot_run ops m1 in (m2, r # rs))"

locale association_store =
  fixes get :: "'s \<Rightarrow> jsval option"
    and put :: "jsval \<Rightarrow> 's \<Rightarrow> storage_error + 's"
    and clear :: "'s \<Rightarrow> 's"
  assumes put_valid: "isSavedAccount v \<Longrightarrow> \<exists>s'. put v s = Inr s' \<and> get s' = Some v"
    and put_invalid: "\<not> isSavedAccount v \<Longrightarrow> put v s = Inl Invalid_association"
    and get_clear: "get (clear s) = None"
begin

lemma call_refines:
  "slot_call o1 (get s) = (get (fst (store_call get put clear o1 s)), snd (store_call get put clear o1 s))"
proof (cases o1)
  case (Op_set v)
  show ?thesis
  proof (cases "isSavedAccount v")
    case True
    with put_valid [of v s] Op_set show ?thesis by auto
  next
    case False
    with put_invalid [of v s] Op_set show ?thesis by simp
  qed
qed (simp_all add: get_clear)

lemma run_refines:
  "slot_run ops (get s) = (get (fst (store_run get put clear ops s)), snd (store_run get put clear ops s))"
proof (induction ops arbitrary: s)
  case (Cons o1 ops)
  show ?case
    using Cons [of "fst (store_call get put clear o1 s)"] call_refines [of o1 s]
    by (simp add: case_prod_unfold Let_def)
qed simp

end

lemma jget_update: "jget (AList.update k v m) k = v"
  by (simp add: jget_def)

lemma jget_delete: "jget (AList.delete k m) k = JUndefined"
  by (simp add: jget_def)

interpretation browser_store: association_store area_get area_set area_clear
proof
  show "\<exists>s'. area_set v s = Inr s' \<and> area_get s' = Some v" if "isSavedAccount v" for v s
    using that by (simp add: area_set_def area_get_def jget_update)
  show "area_set v s = Inl Invalid_association" if "\<not> isSavedAccount v" for v s
    using that by (simp add: area_set_def)
  show "area_get (area_clear s) = None" for s
    by (simp add: area_get_def area_clear_def jget_delete isSavedAccount_def)
qed

interpretation plain_store: association_store memory_get memory_set memory_clear
  by unfold_locales (simp_all add: memory_get_def memory_set_def memory_clear_def)


section \<open>Properties\<close>

text \<open>
  The two storage implementations refine one remembered slot: on every sequence of calls the
  storage over the browser's area and the in-memory storage give the same answers, both those of a
  single slot that holds the last accepted association since the last \<open>clear\<close>, provided the area
  starts without an acceptable value; the area's other keys are never touched, and whatever an
  area holds, what \<open>get\<close> returns is within the bounds.
\<close>

theorem association_storage_refines:
  assumes "area_get area = None"
  shows "snd (store_run area_get area_set area_clear ops area) = snd (slot_run ops None)"
    and "snd (store_run memory_get memory_set memory_clear ops memory_new) = snd (slot_run ops None)"
    and "k \<noteq> ASSOCIATION_KEY \<Longrightarrow> map_of (fst (store_run area_get area_set area_clear ops other)) k = map_of other k"
    and "area_get other = Some v \<Longrightarrow> isSavedAccount v"
proof -
  show "snd (store_run area_get area_set area_clear ops area) = snd (slot_run ops None)"
    using browser_store.run_refines [of ops area] assms by (metis snd_conv)
  show "snd (store_run memory_get memory_set memory_clear ops memory_new) = snd (slot_run ops None)"
    using plain_store.run_refines [of ops memory_new] by (simp add: memory_get_def memory_new_def)
  show "area_get other = Some v \<Longrightarrow> isSavedAccount v"
    by (simp add: area_get_def Let_def split: if_splits)
  assume k: "k \<noteq> ASSOCIATION_KEY"
  have "map_of (fst (store_call area_get area_set area_clear o1 s)) k = map_of s k" for o1 s
    using k by (cases o1) (auto simp: area_set_def area_clear_def)
  then show "map_of (fst (store_run area_get area_set area_clear ops other)) k = map_of other k"
    by (induction ops arbitrary: other) (auto simp: case_prod_unfold Let_def)
qed

definition sample_association :: jsval where
  "sample_association = JObj [(''accountId'', JStr ''acct''), (''apiOrigin'', JStr ''https://api.test'')]"

theorem association_storage_refines_witness:
  "snd (store_run area_get area_set area_clear [Op_set sample_association, Op_set JNull, Op_get, Op_clear, Op_get] []) =
     [Stored_ok, Refused_invalid, Got (Some sample_association), Cleared, Got None]"
proof -
  have e: "area_get [] = None" by (simp add: area_get_def isSavedAccount_def jget_def)
  show ?thesis unfolding association_storage_refines(1) [OF e]
    by (simp add: sample_association_def isSavedAccount_def boundedString_def jget_def)
qed

end
