(* ===== verification/Content_Script.thy ===== *)
theory Content_Script
  imports Background
begin

text \<open>
  The content script, \<open>apps/extension/src/content.ts\<close>.  The document is a record of what the
  script reads of it: its location, whether it is the top frame, and its forms with their input
  elements.  \<open>new URL\<close> is the argument \<open>url\<close>, as in \<^theory_text>\<open>Fill_Policy\<close>; it also resolves
  the form's action, which the DOM reports as an absolute address.  \<open>getComputedStyle\<close> and
  \<open>getClientRects\<close> are fields of the element.
\<close>


section \<open>The document\<close>

record input_element =
  in_typeAttr :: "string option"
  in_autocomplete :: "string option"
  in_type :: string
  in_disabled :: bool
  in_readOnly :: bool
  in_display :: string
  in_visibility :: string
  in_rects :: nat
  in_value :: string

record form_element =
  fm_action :: string
  fm_inputs :: "input_element list"

record document =
  dc_href :: string
  dc_origin :: string
  dc_protocol :: string
  dc_isTop :: bool
  dc_forms :: "form_element list"
  dc_activeForm :: "nat option"
  dc_events :: "(nat \<times> nat \<times> string) list"


section \<open>Finding the fields\<close>

definition visible :: "input_element \<Rightarrow> bool" where
  "visible input \<longleftrightarrow>
     \<not> (in_type input = ''hidden'' \<or> in_disabled input \<or> in_readOnly input) \<and>
     in_display input \<noteq> ''none'' \<and> in_visibility input \<noteq> ''hidden'' \<and> in_rects input > 0"

definition password_selector :: "input_element \<Rightarrow> bool" where
  "password_selector input \<longleftrightarrow> in_typeAttr input = Some ''password''"

definition username_selector :: "input_element \<Rightarrow> bool" where
  "username_selector input \<longleftrightarrow>
     in_autocomplete input = Some ''username'' \<or> in_typeAttr input = Some ''email'' \<or> in_typeAttr input = Some ''text''"

text \<open>The position of the first selected visible input, in document order.\<close>

definition find_input :: "(input_element \<Rightarrow> bool) \<Rightarrow> form_element \<Rightarrow> nat option" where
  "find_input sel form =
     (case filter (\<lambda>i. sel (fm_inputs form ! i) \<and> visible (fm_inputs form ! i)) [0..<length (fm_inputs form)] of
        [] \<Rightarrow> None | i # _ \<Rightarrow> Some i)"

definition passwordInput :: "form_element \<Rightarrow> nat option" where
  "passwordInput form = find_input password_selector form"

definition usernameInput :: "form_element \<Rightarrow> nat option" where
  "usernameInput form = find_input username_selector form"

definition offerMetadata :: "document \<Rightarrow> form_element \<Rightarrow> page_request" where
  "offerMetadata d form =
     \<lparr>pageUrl = dc_href d, isTopFrame = dc_isTop d,
      formAction = Some (if fm_action form \<noteq> [] then fm_action form else dc_href d),
      usernameVisible = usernameInput form \<noteq> None, passwordVisible = passwordInput form \<noteq> None\<rparr>"


section \<open>Handlers\<close>

text \<open>\<open>setValue\<close> writes the field and dispatches the events of the page.\<close>

definition setValue :: "nat \<Rightarrow> nat \<Rightarrow> string \<Rightarrow> document \<Rightarrow> document" where
  "setValue f i v d =
     (let form = dc_forms d ! f; input = fm_inputs form ! i
      in d\<lparr>dc_forms := (dc_forms d)[f := form\<lparr>fm_inputs := (fm_inputs form)[i := input\<lparr>in_value := v\<rparr>]\<rparr>],
           dc_events := (f, i, ''change'') # (f, i, ''input'') # dc_events d\<rparr>)"

text \<open>\<open>focusin\<close>: \<open>target\<close> is the form of the focused input element, if it is one and has a form.\<close>

definition on_focusin :: "nat option \<Rightarrow> document \<Rightarrow> document \<times> content_message list" where
  "on_focusin target d =
     (case target of
        None \<Rightarrow> (d, [])
      | Some f \<Rightarrow>
          if f < length (dc_forms d) \<and> passwordInput (dc_forms d ! f) \<noteq> None
          then (d\<lparr>dc_activeForm := Some f\<rparr>, [Offer (offerMetadata d (dc_forms d ! f))])
          else (d, []))"

definition on_pagehide :: "document \<Rightarrow> document \<times> content_message list" where
  "on_pagehide d = (d, [Cancel_offer])"

datatype inbound =
    In_fill string string string
  | In_other

text \<open>The last test, on the elements found, repeats what \<open>visible\<close> has just tested.\<close>

definition editable :: "input_element \<Rightarrow> bool" where
  "editable input \<longleftrightarrow> \<not> in_disabled input \<and> \<not> in_readOnly input"

definition on_message :: "url_parser \<Rightarrow> inbound \<Rightarrow> document \<Rightarrow> document" where
  "on_message url msg d =
     (case msg of
        In_other \<Rightarrow> d
      | In_fill origin username password \<Rightarrow>
          (case dc_activeForm d of
             None \<Rightarrow> d
           | Some f \<Rightarrow>
               if \<not> dc_isTop d \<or> dc_origin d \<noteq> origin \<or> dc_protocol d \<noteq> ''https:'' then d
               else
                 (let form = dc_forms d ! f
                  in if fm_action form = [] \<or> map_option url_origin (url (fm_action form)) \<noteq> Some (dc_origin d) then d
                     else (case (usernameInput form, passwordInput form) of
                             (Some u, Some p) \<Rightarrow>
                               if editable (fm_inputs form ! u) \<and> editable (fm_inputs form ! p)
                               then setValue f p password (setValue f u username d) else d
                           | _ \<Rightarrow> d))))"


section \<open>Helper facts\<close>

lemma find_input_Some:
  assumes "find_input sel form = Some i"
  shows "i < length (fm_inputs form)" "sel (fm_inputs form ! i)" "visible (fm_inputs form ! i)"
proof -
  let ?c = "filter (\<lambda>i. sel (fm_inputs form ! i) \<and> visible (fm_inputs form ! i)) [0..<length (fm_inputs form)]"
  have "\<exists>is. ?c = i # is" using assms unfolding find_input_def by (cases ?c) simp_all
  then have "i \<in> set ?c" by (metis list.set_intros(1))
  then show "i < length (fm_inputs form)" "sel (fm_inputs form ! i)" "visible (fm_inputs form ! i)" by auto
qed

lemma visible_editable: "visible input \<Longrightarrow> editable input"
  by (simp add: visible_def editable_def)

text \<open>Two inputs that differ in their value only.\<close>

definition same_but_value :: "input_element \<Rightarrow> input_element \<Rightarrow> bool" where
  "same_but_value a b \<longleftrightarrow> a\<lparr>in_value := []\<rparr> = b\<lparr>in_value := []\<rparr>"

definition same_form_shape :: "form_element \<Rightarrow> form_element \<Rightarrow> bool" where
  "same_form_shape f g \<longleftrightarrow> fm_action f = fm_action g \<and> list_all2 same_but_value (fm_inputs f) (fm_inputs g)"

lemma same_but_value_tests:
  assumes "same_but_value a b"
  shows "visible a = visible b" "password_selector a = password_selector b" "username_selector a = username_selector b"
  using assms unfolding same_but_value_def visible_def password_selector_def username_selector_def
  by (cases a; cases b; simp)+

lemma find_input_shape:
  assumes "same_form_shape f g" "\<And>a b. same_but_value a b \<Longrightarrow> sel a = sel b"
  shows "find_input sel f = find_input sel g"
proof -
  have l: "length (fm_inputs f) = length (fm_inputs g)"
    using assms(1) by (auto simp: same_form_shape_def list_all2_lengthD)
  have "sel (fm_inputs f ! i) \<and> visible (fm_inputs f ! i) \<longleftrightarrow> sel (fm_inputs g ! i) \<and> visible (fm_inputs g ! i)"
    if "i \<in> set [0..<length (fm_inputs g)]" for i
  proof -
    have "same_but_value (fm_inputs f ! i) (fm_inputs g ! i)"
      using assms(1) that by (auto simp: same_form_shape_def list_all2_conv_all_nth)
    then show ?thesis using assms(2) same_but_value_tests(1) by blast
  qed
  then show ?thesis unfolding find_input_def l by (metis (mono_tags, lifting) filter_cong)
qed

lemma offer_shape:
  assumes "same_form_shape f g" "dc_href d = dc_href d'" "dc_isTop d = dc_isTop d'"
  shows "offerMetadata d f = offerMetadata d' g"
  using assms find_input_shape [OF assms(1)] same_but_value_tests(2,3)
  by (simp add: offerMetadata_def passwordInput_def usernameInput_def same_form_shape_def)


section \<open>Properties\<close>

text \<open>
  C11. The content script fills nothing outside its bounds.  A message of the background changes
  the page only if it is a fill for this document's origin, in the top frame, over https, with the
  last focused form's action on the same origin; then exactly two elements of that form change, both
  visible and editable, the one selected as password field getting the password, and every other
  element, form and attribute of the page stays as it was.
\<close>

theorem content_fill_confined:
  assumes "on_message url msg d \<noteq> d" "dc_activeForm d = Some f" "f < length (dc_forms d)"
  shows "\<exists>origin username password u p.
     msg = In_fill origin username password \<and> dc_isTop d \<and> dc_origin d = origin \<and> dc_protocol d = ''https:'' \<and>
     map_option url_origin (url (fm_action (dc_forms d ! f))) = Some origin \<and>
     u < length (fm_inputs (dc_forms d ! f)) \<and> p < length (fm_inputs (dc_forms d ! f)) \<and>
     visible (fm_inputs (dc_forms d ! f) ! u) \<and> visible (fm_inputs (dc_forms d ! f) ! p) \<and>
     username_selector (fm_inputs (dc_forms d ! f) ! u) \<and> password_selector (fm_inputs (dc_forms d ! f) ! p) \<and>
     on_message url msg d = setValue f p password (setValue f u username d) \<and>
     in_value (fm_inputs (dc_forms (on_message url msg d) ! f) ! p) = password \<and>
     (\<forall>g j. (g, j) \<noteq> (f, u) \<and> (g, j) \<noteq> (f, p) \<longrightarrow>
        fm_inputs (dc_forms (on_message url msg d) ! g) ! j = fm_inputs (dc_forms d ! g) ! j)"
proof -
  obtain origin username password where m: "msg = In_fill origin username password"
    using assms(1) by (cases msg) (simp_all add: on_message_def)
  let ?form = "dc_forms d ! f"
  have g: "dc_isTop d" "dc_origin d = origin" "dc_protocol d = ''https:''"
    "fm_action ?form \<noteq> []" "map_option url_origin (url (fm_action ?form)) = Some (dc_origin d)"
    using assms(1,2) m by (auto simp: on_message_def Let_def split: if_splits)
  obtain u p where up: "usernameInput ?form = Some u" "passwordInput ?form = Some p"
    using assms(1,2) m by (auto simp: on_message_def Let_def split: if_splits option.splits)
  note U = find_input_Some [OF up(1) [unfolded usernameInput_def]]
    and P = find_input_Some [OF up(2) [unfolded passwordInput_def]]
  have r: "on_message url msg d = setValue f p password (setValue f u username d)"
    using assms(2) m g up U P visible_editable by (auto simp: on_message_def Let_def)
  have v: "in_value (fm_inputs (dc_forms (setValue f p password (setValue f u username d)) ! f) ! p) = password"
    using assms(3) U P by (simp add: setValue_def Let_def)
  have k: "fm_inputs (dc_forms (setValue f p password (setValue f u username d)) ! h) ! j = fm_inputs (dc_forms d ! h) ! j"
    if "(h, j) \<noteq> (f, u) \<and> (h, j) \<noteq> (f, p)" for h j
    using that assms(3) by (cases "h = f") (auto simp: setValue_def Let_def nth_list_update)
  show ?thesis using m g U P r v k by (intro exI [of _ origin] exI [of _ username] exI [of _ password] exI [of _ u] exI [of _ p]) auto
qed

definition text_input :: "string \<Rightarrow> string \<Rightarrow> input_element" where
  "text_input ty v = \<lparr>in_typeAttr = Some ty, in_autocomplete = None, in_type = ty, in_disabled = False, in_readOnly = False,
     in_display = ''block'', in_visibility = ''visible'', in_rects = 1, in_value = v\<rparr>"

definition login_page :: "string \<Rightarrow> document" where
  "login_page typed =
     \<lparr>dc_href = ''https://a.test/login'', dc_origin = ''https://a.test'', dc_protocol = ''https:'', dc_isTop = True,
      dc_forms = [\<lparr>fm_action = ''https://a.test/session'', fm_inputs = [text_input ''email'' typed, text_input ''password'' typed]\<rparr>],
      dc_activeForm = Some 0, dc_events = []\<rparr>"

definition login_url :: url_parser where
  "login_url s = Some \<lparr>url_protocol = ''https:'', url_hostname = ''a.test'', url_port = [], url_origin = ''https://a.test''\<rparr>"

lemma login_page_fields:
  "usernameInput (dc_forms (login_page t) ! 0) = Some 0" "passwordInput (dc_forms (login_page t) ! 0) = Some 1"
  by (simp_all add: usernameInput_def passwordInput_def find_input_def login_page_def text_input_def visible_def
      username_selector_def password_selector_def upt_rec)

theorem content_fill_confined_witness:
  "\<exists>u p. on_message login_url (In_fill ''https://a.test'' ''me'' ''secret'') (login_page []) =
     setValue 0 p ''secret'' (setValue 0 u ''me'' (login_page [])) \<and>
     visible (fm_inputs (dc_forms (login_page []) ! 0) ! p)"
proof -
  let ?m = "In_fill ''https://a.test'' ''me'' ''secret''"
  have "on_message login_url ?m (login_page []) = setValue 0 1 ''secret'' (setValue 0 0 ''me'' (login_page []))"
    using login_page_fields [of "[]"]
    by (simp add: on_message_def login_page_def login_url_def text_input_def editable_def)
  moreover have "\<dots> \<noteq> login_page []" by (simp add: setValue_def login_page_def text_input_def)
  ultimately have n: "on_message login_url ?m (login_page []) \<noteq> login_page []" by simp
  have f: "dc_activeForm (login_page []) = Some 0" "0 < length (dc_forms (login_page []))"
    by (simp_all add: login_page_def)
  from content_fill_confined [OF n f] show ?thesis by auto
qed

text \<open>
  No field value leaves the page: the messages of the content script are the same for two
  documents that differ only in what the user typed into the forms, and none is sent unless an input
  of a form with a visible password field gets the focus or the page is left.
\<close>

theorem content_messages_carry_no_values:
  assumes "list_all2 same_form_shape (dc_forms d) (dc_forms d')" "dc_href d = dc_href d'" "dc_isTop d = dc_isTop d'"
  shows "snd (on_focusin target d) = snd (on_focusin target d')"
    and "snd (on_pagehide d) = snd (on_pagehide d')"
    and "snd (on_focusin target d) \<noteq> [] \<Longrightarrow> \<exists>f. target = Some f \<and> passwordInput (dc_forms d ! f) \<noteq> None"
proof -
  show "snd (on_pagehide d) = snd (on_pagehide d')" by (simp add: on_pagehide_def)
  show "snd (on_focusin target d) \<noteq> [] \<Longrightarrow> \<exists>f. target = Some f \<and> passwordInput (dc_forms d ! f) \<noteq> None"
    by (auto simp: on_focusin_def split: option.splits if_splits)
  have l: "length (dc_forms d) = length (dc_forms d')" using assms(1) by (rule list_all2_lengthD)
  show "snd (on_focusin target d) = snd (on_focusin target d')"
  proof (cases target)
    case (Some f)
    show ?thesis
    proof (cases "f < length (dc_forms d)")
      case True
      then have s: "same_form_shape (dc_forms d ! f) (dc_forms d' ! f)" by (rule list_all2_nthD [OF assms(1)])
      then have "passwordInput (dc_forms d ! f) = passwordInput (dc_forms d' ! f)"
        using find_input_shape same_but_value_tests(2) by (simp add: passwordInput_def)
      with s True Some l offer_shape [OF s assms(2,3)] show ?thesis by (simp add: on_focusin_def)
    qed (use Some l in \<open>simp add: on_focusin_def\<close>)
  qed (simp add: on_focusin_def)
qed


theorem content_messages_carry_no_values_witness:
  "snd (on_focusin (Some 0) (login_page ''hunter2'')) = snd (on_focusin (Some 0) (login_page []))"
  by (rule content_messages_carry_no_values(1))
    (simp_all add: login_page_def same_form_shape_def same_but_value_def text_input_def)

end
