(* ===== verification/Popup.thy ===== *)
theory Popup
  imports Background Association_Storage
begin

text \<open>
  The popup, \<open>apps/extension/src/popup.ts\<close>: its elements are the fields of a record, a handler
  returns the changed popup and the messages it sends, each with the continuation that runs when the
  answer arrives.  \<open>None\<close> as an answer is a rejected \<open>sendMessage\<close> (or no answer at all, on
  which reading \<open>response.type\<close> throws).

  A message reaches the background through the browser's messaging, which is JSON in Chrome and
  structured clone in Firefox: the first drops members whose value is \<open>undefined\<close>, the second
  keeps them.
\<close>


section \<open>Elements and requests\<close>

record save_form =
  sf_itemId :: string
  sf_title :: string
  sf_type :: string
  sf_username :: string
  sf_url :: string
  sf_password :: ustring
  sf_notes :: ustring
  sf_totp :: ustring

record popup_choice =
  pc_title :: string
  pc_requestId :: string
  pc_itemId :: string

record popup =
  pp_status :: string
  pp_unlockHidden :: bool
  pp_panelHidden :: bool
  pp_accountId :: string
  pp_apiOrigin :: string
  pp_masterPassword :: ustring
  pp_choices :: "popup_choice list"
  pp_items :: "item_summary list"
  pp_form :: save_form
  pp_totp :: string
  pp_closed :: bool

definition empty_form :: save_form where
  "empty_form = \<lparr>sf_itemId = [], sf_title = [], sf_type = ''login'', sf_username = [], sf_url = [],
     sf_password = [], sf_notes = [], sf_totp = []\<rparr>"

definition popup_new :: popup where
  "popup_new = \<lparr>pp_status = ''Checking this page.'', pp_unlockHidden = True, pp_panelHidden = True,
     pp_accountId = [], pp_apiOrigin = [], pp_masterPassword = [], pp_choices = [], pp_items = [],
     pp_form = empty_form, pp_totp = [], pp_closed = False\<rparr>"

datatype popup_task =
    PT_get_state
  | PT_candidates
  | PT_list
  | PT_totp
  | PT_fill
  | PT_lock
  | PT_logout
  | PT_unlock
  | PT_save

type_synonym popup_sends = "(popup_message \<times> popup_task) list"

definition resetSaveForm :: "popup \<Rightarrow> popup" where
  "resetSaveForm p = p\<lparr>pp_form := empty_form\<rparr>"


section \<open>Showing\<close>

definition refreshItems :: "popup \<Rightarrow> popup \<times> popup_sends" where
  "refreshItems p = (p, [(List_items, PT_list)])"

definition refresh_answer :: "to_popup \<Rightarrow> popup \<Rightarrow> popup" where
  "refresh_answer response p = (case response of P_items items \<Rightarrow> p\<lparr>pp_items := items\<rparr> | _ \<Rightarrow> p\<lparr>pp_items := []\<rparr>)"

definition edit_click :: "item_summary \<Rightarrow> popup \<Rightarrow> popup" where
  "edit_click item p =
     p\<lparr>pp_form := \<lparr>sf_itemId = is_itemId item, sf_title = is_title item, sf_type = is_type item,
        sf_username = (case is_username item of None \<Rightarrow> [] | Some u \<Rightarrow> u),
        sf_url = (case is_url item of None \<Rightarrow> [] | Some u \<Rightarrow> u),
        sf_password = [], sf_notes = [], sf_totp = []\<rparr>\<rparr>"

definition totp_click :: "item_summary \<Rightarrow> popup \<Rightarrow> popup \<times> popup_sends" where
  "totp_click item p = (if is_type item = ''totp-login'' then (p, [(Get_totp (is_itemId item), PT_totp)]) else (p, []))"

definition totp_answer :: "to_popup \<Rightarrow> popup \<Rightarrow> popup" where
  "totp_answer response p =
     p\<lparr>pp_totp := (case response of
          P_totp code seconds \<Rightarrow> code @ '' (expires in '' @ string_of_nat seconds @ ''s)''
        | _ \<Rightarrow> ''Unavailable.'')\<rparr>"

definition showLocked :: "popup \<Rightarrow> popup" where
  "showLocked p = p\<lparr>pp_unlockHidden := False, pp_panelHidden := True, pp_choices := [], pp_totp := []\<rparr>"

definition showUnlocked :: "popup \<Rightarrow> popup \<times> popup_sends" where
  "showUnlocked p = refreshItems (p\<lparr>pp_unlockHidden := True, pp_panelHidden := False\<rparr>)"

definition setStatus :: "string \<Rightarrow> popup \<Rightarrow> popup" where
  "setStatus text p = p\<lparr>pp_status := text\<rparr>"

definition showState :: "to_popup \<Rightarrow> popup \<Rightarrow> popup \<times> popup_sends" where
  "showState response p =
     (case response of
        P_state is_locked unlockAvailable savedAccount \<Rightarrow>
          if is_locked then
            (let p1 = setStatus (if unlockAvailable
                   then ''Locked. Enter your account, API origin, and master password to unlock.''
                   else ''Locked. Independent unlock is not available in this build.'') p;
                 p2 = (case savedAccount of
                         None \<Rightarrow> p1
                       | Some a \<Rightarrow> p1\<lparr>pp_accountId := sa_accountId a, pp_apiOrigin := sa_apiOrigin a\<rparr>)
             in (showLocked p2, []))
          else showUnlocked (setStatus ''Unlocked.'' p)
      | P_candidates requestId candidates \<Rightarrow>
          if candidates = [] then (setStatus ''No safe login offer on this page.'' p, [])
          else ((setStatus ''Select a login to fill.'' p)
                  \<lparr>pp_choices := map (\<lambda>c. \<lparr>pc_title = lc_title c, pc_requestId = requestId, pc_itemId = lc_id c\<rparr>) candidates\<rparr>,
                [])
      | P_locked \<Rightarrow> (showLocked (setStatus ''Locked.'' p), [])
      | P_refused _ \<Rightarrow> (setStatus ''Locked.'' p, [])
      | _ \<Rightarrow> (p, []))"


section \<open>Handlers\<close>

definition popup_boot :: "popup \<times> popup_sends" where
  "popup_boot = (popup_new, [(Get_state, PT_get_state), (Request_candidates, PT_candidates)])"

definition choice_click :: "popup_choice \<Rightarrow> popup \<Rightarrow> popup \<times> popup_sends" where
  "choice_click c p = (p, [(Fill_selected (pc_requestId c) (pc_itemId c), PT_fill)])"

definition lock_click :: "popup \<Rightarrow> popup \<times> popup_sends" where
  "lock_click p = (p, [(Lock_msg, PT_lock)])"

definition logout_click :: "popup \<Rightarrow> popup \<times> popup_sends" where
  "logout_click p = (p, [(Logout, PT_logout)])"

text \<open>The password field is emptied before the message is sent.\<close>

definition unlock_submit :: "popup \<Rightarrow> popup \<times> popup_sends" where
  "unlock_submit p =
     (let password = stringToByteArray (pp_masterPassword p)
      in (p\<lparr>pp_masterPassword := []\<rparr>, [(Unlock (pp_accountId p) (pp_apiOrigin p) password, PT_unlock)]))"

definition unlock_answer :: "to_popup \<Rightarrow> popup \<Rightarrow> popup \<times> popup_sends" where
  "unlock_answer response p =
     (case response of
        P_unlocked \<Rightarrow> showUnlocked (setStatus ''Unlocked.'' p)
      | _ \<Rightarrow> (setStatus ''Could not unlock. Check your account ID, API origin, and password.'' p, []))"

definition or_undefined :: "'a list \<Rightarrow> 'a list option" where
  "or_undefined s = (if s = [] then None else Some s)"

definition save_message_of :: "save_form \<Rightarrow> save_message" where
  "save_message_of f =
     \<lparr>sm_title = sf_title f, sm_itemType = sf_type f, sm_itemId = or_undefined (sf_itemId f),
      sm_username = or_undefined (sf_username f),
      sm_password = map_option stringToByteArray (or_undefined (sf_password f)),
      sm_url = or_undefined (sf_url f),
      sm_notes = map_option stringToByteArray (or_undefined (sf_notes f)),
      sm_totpSecret = map_option stringToByteArray (or_undefined (sf_totp f))\<rparr>"

definition save_submit :: "popup \<Rightarrow> popup \<times> popup_sends" where
  "save_submit p =
     (p\<lparr>pp_form := (pp_form p)\<lparr>sf_password := [], sf_notes := [], sf_totp := []\<rparr>\<rparr>,
      [(Save_item (save_message_of (pp_form p)), PT_save)])"

fun join_spaces :: "string list \<Rightarrow> string" where
  "join_spaces [] = []"
| "join_spaces [s] = s"
| "join_spaces (s # ss) = s @ '' '' @ join_spaces ss"

fun reason_text :: "save_result \<Rightarrow> string" where
  "reason_text (Save_ok _) = []"
| "reason_text (Save_validation _) = ''validation''"
| "reason_text Save_conflict = ''conflict''"
| "reason_text Save_locked = ''locked''"
| "reason_text Save_network = ''network''"

definition save_answer :: "to_popup \<Rightarrow> popup \<Rightarrow> popup \<times> popup_sends" where
  "save_answer response p =
     (case response of
        P_saved _ \<Rightarrow> refreshItems (resetSaveForm (setStatus ''Saved.'' p))
      | P_save_failed r \<Rightarrow>
          (setStatus (case r of Save_validation problems \<Rightarrow> join_spaces problems
                      | _ \<Rightarrow> ''Could not save ('' @ reason_text r @ '').'') p, [])
      | P_locked \<Rightarrow> (showLocked (setStatus ''Locked.'' p), [])
      | _ \<Rightarrow> (p, []))"

text \<open>The continuation of a request; a rejection reaches a handler of \<open>get-state\<close> only.\<close>

definition popup_answer :: "popup_task \<Rightarrow> to_popup option \<Rightarrow> popup \<Rightarrow> popup \<times> popup_sends" where
  "popup_answer task answer p =
     (case answer of
        None \<Rightarrow> (if task = PT_get_state then setStatus ''Extension unavailable.'' p else p, [])
      | Some response \<Rightarrow>
          (case task of
             PT_get_state \<Rightarrow> showState response p
           | PT_candidates \<Rightarrow> showState response p
           | PT_list \<Rightarrow> (refresh_answer response p, [])
           | PT_totp \<Rightarrow> (totp_answer response p, [])
           | PT_fill \<Rightarrow> (p\<lparr>pp_closed := True\<rparr>, [])
           | PT_lock \<Rightarrow> (showLocked (setStatus ''Locked'' p), [])
           | PT_logout \<Rightarrow> (showLocked (setStatus ''Locked'' p), [])
           | PT_unlock \<Rightarrow> unlock_answer response p
           | PT_save \<Rightarrow> save_answer response p))"


section \<open>Delivery\<close>

datatype messaging = Json_messaging | Structured_clone

definition or_undef :: "(string \<times> jsval option) \<Rightarrow> string \<times> jsval" where
  "or_undef kv = (fst kv, case snd kv of None \<Rightarrow> JUndefined | Some v \<Rightarrow> v)"

text \<open>The object literal of \<open>send\<close>: an optional field that has no value is the value \<open>undefined\<close>.\<close>

fun message_object :: "popup_message \<Rightarrow> jsval" where
  "message_object (Save_item m) =
     JObj (map or_undef
       [(''type'', Some (JStr ''save-item'')), (''itemId'', map_option JStr (sm_itemId m)), (''title'', Some (JStr (sm_title m))),
        (''itemType'', Some (JStr (sm_itemType m))), (''username'', map_option JStr (sm_username m)),
        (''password'', map_option jbytes (sm_password m)), (''url'', map_option JStr (sm_url m)),
        (''notes'', map_option jbytes (sm_notes m)), (''totpSecret'', map_option jbytes (sm_totpSecret m))])"
| "message_object m = popup_json m"

fun deliver :: "messaging \<Rightarrow> jsval \<Rightarrow> jsval" where
  "deliver Json_messaging (JObj ms) = JObj (filter (\<lambda>(k, v). v \<noteq> JUndefined) ms)"
| "deliver _ v = v"

end
