(* ===== verification/Popup_Properties.thy ===== *)
theory Popup_Properties
  imports Popup Background_Properties
begin

text \<open>
  The popup together with the background's message handler: what the user typed arrives over JSON
  messaging, what the popup shows of the answers, and where the two disagree.
\<close>


section \<open>Delivery\<close>

lemma jget_filter:
  "jget (filter (\<lambda>(k, v). v \<noteq> JUndefined) ((j, v) # m)) k =
     (if v \<noteq> JUndefined \<and> j = k then v else jget (filter (\<lambda>(k, v). v \<noteq> JUndefined) m) k)"
  by (simp add: jget_def)

lemma jbytes_defined [simp]: "jbytes ns \<noteq> JUndefined"
  by (simp add: jbytes_def)

lemma isByteArray_jbytes: "bytes_ok n ns \<Longrightarrow> isByteArray (jbytes ns) n"
  by (auto simp: bytes_ok_def isByteArray_def jbytes_def list_all_iff is_byte_def)

lemma or_undef_filter:
  "filter (\<lambda>(k, v). v \<noteq> JUndefined) (or_undef (k, ov) # m) =
     field k (if ov = Some JUndefined then None else ov) @ filter (\<lambda>(k, v). v \<noteq> JUndefined) m"
  by (cases ov) (auto simp: or_undef_def field_def)

lemma json_save:
  "deliver Json_messaging (message_object (Save_item m)) =
     JObj ([(''type'', JStr ''save-item'')] @ field ''itemId'' (map_option JStr (sm_itemId m)) @
       [(''title'', JStr (sm_title m)), (''itemType'', JStr (sm_itemType m))] @
       field ''username'' (map_option JStr (sm_username m)) @ field ''password'' (map_option jbytes (sm_password m)) @
       field ''url'' (map_option JStr (sm_url m)) @ field ''notes'' (map_option jbytes (sm_notes m)) @
       field ''totpSecret'' (map_option jbytes (sm_totpSecret m)))"
  by (cases "sm_itemId m"; cases "sm_username m"; cases "sm_password m"; cases "sm_url m"; cases "sm_notes m";
      cases "sm_totpSecret m") (simp_all add: or_undef_def field_def)

text \<open>The validator reads an object through its keys only, so the order of its members is irrelevant.\<close>

lemma parse_save_item_cong:
  assumes "\<And>k. jhas m k = jhas n k" "\<And>k. jget m k = jget n k"
  shows "parse_save_item m = parse_save_item n"
proof -
  have "fst ` set m = fst ` set n" using assms(1) by (auto simp: jhas_def)
  then have "hasExactKeys m r q = hasExactKeys n r q" for r q
    using assms(1) by (simp add: hasExactKeys_def list_all_iff)
  with assms show ?thesis by (simp add: parse_save_item_def optional_ok_def opt_string_def opt_bytes_def)
qed

lemma json_save_parses:
  assumes "popup_valid (Save_item m)"
  shows "parsePopupMessage (deliver Json_messaging (message_object (Save_item m))) = Some (Save_item m)"
proof -
  obtain fs where fs: "popup_json (Save_item m) = JObj fs" by simp
  obtain gs where gs: "deliver Json_messaging (message_object (Save_item m)) = JObj gs" using json_save by blast
  have has: "jhas gs k = jhas fs k" for k using fs gs unfolding json_save by auto
  moreover have get: "jget gs k = jget fs k" for k
    using fs gs unfolding json_save by (cases "k = ''itemId''") auto
  ultimately have "parse_save_item gs = parse_save_item fs" by (rule parse_save_item_cong)
  with parse_save_json [OF assms fs] have p: "parse_save_item gs = Some m" by simp
  have "jget gs ''type'' = JStr ''save-item''" using gs unfolding json_save by auto
  with gs p show ?thesis by (simp add: parsePopupMessage_def)
qed

lemma json_parses:
  assumes "popup_valid m"
  shows "parsePopupMessage (deliver Json_messaging (message_object m)) = Some m"
proof (cases m)
  case (Save_item s)
  with assms show ?thesis using json_save_parses by simp
next
qed (use assms parse_popup_json [OF assms] in simp_all)

lemma clone_new_item_refused:
  assumes "sm_itemId m = None"
  shows "parsePopupMessage (deliver Structured_clone (message_object (Save_item m))) = None"
  using assms by (simp add: parsePopupMessage_def parse_save_item_def or_undef_def optional_ok_def boundedString_def)



section \<open>What the user typed arrives\<close>

definition secret_ok :: "nat \<Rightarrow> ustring \<Rightarrow> bool" where
  "secret_ok n s \<longleftrightarrow> well_formed_utf16 s \<and> take 1 s \<noteq> [0xFEFF] \<and> length (text_encode s) \<le> n"

definition form_ok :: "save_form \<Rightarrow> bool" where
  "form_ok f \<longleftrightarrow>
     str_ok MAX_TITLE_LENGTH (sf_title f) \<and> sf_type f \<in> set ITEM_TYPES \<and> length (sf_itemId f) \<le> MAX_ID_LENGTH \<and>
     length (sf_username f) \<le> MAX_USERNAME_LENGTH \<and> length (sf_url f) \<le> MAX_URL_LENGTH \<and>
     secret_ok MAX_SECRET_BYTES (sf_password f) \<and> secret_ok MAX_NOTES_BYTES (sf_notes f) \<and>
     secret_ok MAX_SECRET_BYTES (sf_totp f)"

text \<open>The item as typed; an empty field is absent.\<close>

definition typed_item :: "save_form \<Rightarrow> save_input" where
  "typed_item f = \<lparr>si_itemId = or_undefined (sf_itemId f), si_title = sf_title f, si_type = sf_type f,
     si_username = or_undefined (sf_username f), si_password = or_undefined (sf_password f),
     si_url = or_undefined (sf_url f), si_notes = or_undefined (sf_notes f), si_totpSecret = or_undefined (sf_totp f)\<rparr>"

lemma secret_field:
  assumes "secret_ok n s"
  shows "pred_option (bytes_ok n) (map_option stringToByteArray (or_undefined s))"
    and "decode_field (map_option stringToByteArray (or_undefined s)) = Some (or_undefined s)"
proof -
  have l: "length (stringToByteArray s) = length (text_encode s)" by (simp add: stringToByteArray_def toByteArray_def)
  show "pred_option (bytes_ok n) (map_option stringToByteArray (or_undefined s))"
    using assms l by (auto simp: or_undefined_def bytes_ok_def secret_ok_def list_all_iff stringToByteArray_def
        toByteArray_def uint8_le)
  have "byteArrayToString (stringToByteArray s) = Some s"
    using assms byte_codec_roundtrip [of s n] by (simp add: secret_ok_def number_array_JInt)
  then show "decode_field (map_option stringToByteArray (or_undefined s)) = Some (or_undefined s)"
    by (simp add: or_undefined_def decode_field_def)
qed

lemma or_undefined_ok: "length s \<le> n \<Longrightarrow> pred_option (str_ok n) (or_undefined s)"
  by (simp add: or_undefined_def str_ok_def)

lemma form_message:
  assumes "form_ok f"
  shows "popup_valid (Save_item (save_message_of f))" "save_input_of (save_message_of f) = Some (typed_item f)"
  using assms secret_field [of _ "sf_password f"] secret_field [of _ "sf_notes f"] secret_field [of _ "sf_totp f"]
  by (auto simp: form_ok_def save_message_of_def save_input_of_def typed_item_def or_undefined_ok)

text \<open>A message that the validator accepts, from the popup, is dispatched.\<close>

lemma popup_message_dispatched:
  assumes "trustedPopupSender sender (cfg_ownExtensionId cfg) (cfg_popupUrl cfg) \<noteq> None"
    "parsePopupMessage v = Some m"
  shows "handlePopupMessage cfg now rnd items v sender b = popup_dispatch cfg now rnd items m (popup_entry now b)"
  using assms by (auto simp: handlePopupMessage_def popup_entry_def Let_def)

lemma save_message_dispatched:
  assumes "trustedPopupSender sender (cfg_ownExtensionId cfg) (cfg_popupUrl cfg) \<noteq> None" "has_method cfg has_saveItem"
    "\<not> locked (bg_session (popup_entry now b))" "form_ok (pp_form p)" "save_submit p = (p', [(msg, task)])"
  shows "handlePopupMessage cfg now rnd items (deliver Json_messaging (message_object msg)) sender b =
     ((popup_entry now b)\<lparr>bg_log := Vault_save (typed_item (pp_form p)) # bg_log (popup_entry now b)\<rparr>, Await T_save)"
proof -
  have "msg = Save_item (save_message_of (pp_form p))" using assms(5) by (auto simp: save_submit_def)
  then show ?thesis
    using assms form_message [OF assms(4)] json_parses popup_message_dispatched [OF assms(1)]
    by (simp add: popup_dispatch_def bg_saveItem_def del: message_object.simps)
qed

text \<open>
  C10. What the user types into the popup reaches the vault unchanged over JSON messaging.
  Submitting the unlock form with identifiers within the bounds and a non-empty password that fits makes
  the background unlock with exactly that account, origin and the UTF-8 bytes of that password, and
  submitting the save form of an unlocked session makes it save exactly the typed item, empty
  fields being absent; in both cases the secret fields of the popup are empty as soon as the
  message is sent.
\<close>

theorem popup_input_arrives:
  assumes "trustedPopupSender sender (cfg_ownExtensionId cfg) (cfg_popupUrl cfg) \<noteq> None"
  shows "(has_method cfg has_unlock \<longrightarrow> str_ok MAX_ACCOUNT_ID_LENGTH (pp_accountId p) \<longrightarrow>
      str_ok MAX_ORIGIN_LENGTH (pp_apiOrigin p) \<longrightarrow> pp_masterPassword p \<noteq> [] \<longrightarrow>
      secret_ok MAX_SECRET_BYTES (pp_masterPassword p) \<longrightarrow> unlock_submit p = (p', [(msg, task)]) \<longrightarrow>
      pp_masterPassword p' = [] \<and>
      hd (bg_log (fst (handlePopupMessage cfg now rnd items (deliver Json_messaging (message_object msg)) sender b))) =
        Vault_unlock (pp_accountId p) (pp_apiOrigin p) (map word_of_nat (text_encode (pp_masterPassword p)))) \<and>
    (has_method cfg has_saveItem \<longrightarrow> \<not> locked (bg_session (popup_entry now b)) \<longrightarrow> form_ok (pp_form p) \<longrightarrow>
      save_submit p = (p', [(msg, task)]) \<longrightarrow>
      sf_password (pp_form p') = [] \<and> sf_notes (pp_form p') = [] \<and> sf_totp (pp_form p') = [] \<and>
      handlePopupMessage cfg now rnd items (deliver Json_messaging (message_object msg)) sender b =
        ((popup_entry now b)\<lparr>bg_log := Vault_save (typed_item (pp_form p)) # bg_log (popup_entry now b)\<rparr>, Await T_save))"
proof (rule conjI; (intro impI)?)
  assume u: "has_method cfg has_unlock" "str_ok MAX_ACCOUNT_ID_LENGTH (pp_accountId p)"
    "str_ok MAX_ORIGIN_LENGTH (pp_apiOrigin p)" "pp_masterPassword p \<noteq> []"
    "secret_ok MAX_SECRET_BYTES (pp_masterPassword p)" "unlock_submit p = (p', [(msg, task)])"
  let ?pw = "stringToByteArray (pp_masterPassword p)"
  have m: "msg = Unlock (pp_accountId p) (pp_apiOrigin p) ?pw" "pp_masterPassword p' = []"
    using u(6) by (auto simp: unlock_submit_def Let_def)
  have "bytes_ok MAX_SECRET_BYTES ?pw \<and> ?pw \<noteq> []"
  proof
    show "bytes_ok MAX_SECRET_BYTES ?pw" using secret_field(1) [OF u(5)] u(4) by (simp add: or_undefined_def)
    have "byteArrayToString ?pw = Some (pp_masterPassword p)"
      using secret_field(2) [OF u(5)] u(4) by (simp add: or_undefined_def decode_field_def)
    moreover have "byteArrayToString [] = Some []" by code_simp
    ultimately show "?pw \<noteq> []" using u(4) by auto
  qed
  then have "popup_valid msg" using u m by simp
  from json_parses [OF this] popup_message_dispatched [OF assms]
  show "pp_masterPassword p' = [] \<and>
      hd (bg_log (fst (handlePopupMessage cfg now rnd items (deliver Json_messaging (message_object msg)) sender b))) =
        Vault_unlock (pp_accountId p) (pp_apiOrigin p) (map word_of_nat (text_encode (pp_masterPassword p)))"
    using m u(1) by (simp add: popup_dispatch_def bg_unlock_def Let_def stringToByteArray_def from_to_bytes)
next
  assume v: "has_method cfg has_saveItem" "\<not> locked (bg_session (popup_entry now b))" "form_ok (pp_form p)"
    "save_submit p = (p', [(msg, task)])"
  have "sf_password (pp_form p') = [] \<and> sf_notes (pp_form p') = [] \<and> sf_totp (pp_form p') = []"
    using v(4) by (auto simp: save_submit_def)
  with save_message_dispatched [OF assms v]
  show "sf_password (pp_form p') = [] \<and> sf_notes (pp_form p') = [] \<and> sf_totp (pp_form p') = [] \<and>
      handlePopupMessage cfg now rnd items (deliver Json_messaging (message_object msg)) sender b =
        ((popup_entry now b)\<lparr>bg_log := Vault_save (typed_item (pp_form p)) # bg_log (popup_entry now b)\<rparr>, Await T_save)"
    by blast
qed


definition filled_popup :: popup where
  "filled_popup = popup_new\<lparr>pp_accountId := ''acct'', pp_apiOrigin := ''https://api'', pp_masterPassword := [112, 119],
     pp_form := empty_form\<lparr>sf_title := ''Mail'', sf_username := ''me'', sf_password := [112]\<rparr>\<rparr>"

definition unlocked_background :: background where
  "unlocked_background = background_new\<lparr>bg_session := markUnlocked 0 session_new\<rparr>"

lemma popup_sender_trusted:
  "trustedPopupSender popup_sender (cfg_ownExtensionId sample_cfg) (cfg_popupUrl sample_cfg) \<noteq> None"
  by (simp add: trustedPopupSender_def popup_sender_def sample_cfg_def)

lemma unlocked_background_open: "\<not> locked (bg_session (popup_entry 0 unlocked_background))"
  by code_simp

lemma secret_ok_short: "secret_ok MAX_SECRET_BYTES [112]" "secret_ok MAX_SECRET_BYTES [112, 119]"
  "secret_ok MAX_SECRET_BYTES []" "secret_ok MAX_NOTES_BYTES []"
  by (simp_all add: secret_ok_def high_surrogate_def low_surrogate_def text_encode_def unit_scalar_def
      encode_scalar_def bound_defs)

lemma filled_form_ok: "form_ok (pp_form filled_popup)"
  using secret_ok_short
  by (simp add: form_ok_def filled_popup_def empty_form_def popup_new_def str_ok_def bound_defs ITEM_TYPES_def)

theorem popup_input_arrives_witness:
  "snd (handlePopupMessage sample_cfg 0 [] [] (deliver Json_messaging (message_object (fst (hd (snd (save_submit filled_popup))))))
     popup_sender unlocked_background) = Await T_save"
proof -
  have s: "save_submit filled_popup = (fst (save_submit filled_popup), [(fst (hd (snd (save_submit filled_popup))), PT_save)])"
    by (simp add: save_submit_def)
  have h: "has_method sample_cfg has_saveItem" by (simp add: has_method_def sample_cfg_def)
  from popup_input_arrives [OF popup_sender_trusted] h unlocked_background_open filled_form_ok s
  show ?thesis by (metis snd_conv)
qed


section \<open>Where popup and background disagree\<close>

text \<open>
  Over structured-clone messaging (Firefox) no new item can be saved.  The popup sends the
  absent fields as members with the value \<open>undefined\<close>, which structured clone keeps, and the
  validator tests presence of the key: whatever a user types into the form for a new item, the background
  refuses the message as malformed, hands nothing to the vault, and answers \<open>locked\<close>; the popup
  then shows the lock screen although the session is still unlocked.
\<close>

theorem firefox_new_item_refused:
  assumes "sf_itemId (pp_form p) = []" "save_submit p = (p', [(msg, task)])"
    "handlePopupMessage cfg now rnd items (deliver Structured_clone (message_object msg)) sender b = (b', out)"
  shows "out = Reply P_locked \<and> b' = bg_ensureActive now b \<and>
    (popup_answer task (Some P_locked) p' = (q, sends) \<longrightarrow> pp_status q = ''Locked.'' \<and> pp_panelHidden q \<and> sends = [])"
proof -
  have m: "msg = Save_item (save_message_of (pp_form p))" "task = PT_save" using assms(2) by (auto simp: save_submit_def)
  have "sm_itemId (save_message_of (pp_form p)) = None" using assms(1) by (simp add: save_message_of_def or_undefined_def)
  then have "parsePopupMessage (deliver Structured_clone (message_object msg)) = None"
    unfolding m by (rule clone_new_item_refused)
  with assms(3) have "out = Reply P_locked" "b' = bg_ensureActive now b"
    by (auto simp: handlePopupMessage_def Let_def split: if_splits)
  moreover have "popup_answer task (Some P_locked) p' = (q, sends) \<Longrightarrow> pp_status q = ''Locked.'' \<and> pp_panelHidden q \<and> sends = []"
    unfolding m by (auto simp: popup_answer_def save_answer_def showLocked_def setStatus_def)
  ultimately show ?thesis by blast
qed

theorem firefox_new_item_refused_witness:
  "snd (handlePopupMessage sample_cfg 0 [] [] (deliver Structured_clone (message_object (fst (hd (snd (save_submit filled_popup))))))
     popup_sender unlocked_background) = Reply P_locked \<and> \<not> locked (bg_session (popup_entry 0 unlocked_background))"
proof -
  have s: "save_submit filled_popup = (fst (save_submit filled_popup), [(fst (hd (snd (save_submit filled_popup))), PT_save)])"
    by (simp add: save_submit_def)
  have e: "sf_itemId (pp_form filled_popup) = []" by (simp add: filled_popup_def empty_form_def)
  from firefox_new_item_refused [OF e s prod.collapse [symmetric]] unlocked_background_open show ?thesis by blast
qed

text \<open>
  The popup misreports the session.  Opened on a page without a login offer while the vault is
  unlocked, it ends with the status \<open>Locked.\<close> above the unlocked panel, because the refusal of its
  candidate request overwrites the status; and when a save meets a session that has been locked in the
  meantime, the refusal changes nothing at all: the popup keeps its status and the unlocked panel,
  and the secrets that were typed are gone.
\<close>

theorem popup_misreports_session:
  assumes "trustedPopupSender sender (cfg_ownExtensionId cfg) (cfg_popupUrl cfg) \<noteq> None"
  shows "\<not> locked (bg_session (popup_entry now b)) \<Longrightarrow> cfg_vault cfg \<noteq> None \<Longrightarrow> bg_offer b = None \<Longrightarrow>
      handlePopupMessage cfg now rnd items (deliver mode (message_object Request_candidates)) sender b = (b', Reply r) \<Longrightarrow>
      pp_status (fst (popup_answer PT_candidates (Some r)
        (fst (popup_answer PT_get_state (Some (P_state False available account)) (fst popup_boot))))) = ''Locked.'' \<and>
      \<not> pp_panelHidden (fst (popup_answer PT_candidates (Some r)
        (fst (popup_answer PT_get_state (Some (P_state False available account)) (fst popup_boot)))))"
    and "locked (bg_session (popup_entry now b)) \<Longrightarrow> form_ok (pp_form p) \<Longrightarrow> save_submit p = (p', [(msg, task)]) \<Longrightarrow>
      handlePopupMessage cfg now rnd items (deliver Json_messaging (message_object msg)) sender b =
        (popup_entry now b, Reply (P_refused R_unlock_unavailable)) \<and>
      popup_answer task (Some (P_refused R_unlock_unavailable)) p' = (p', []) \<and>
      p' = p\<lparr>pp_form := (pp_form p)\<lparr>sf_password := [], sf_notes := [], sf_totp := []\<rparr>\<rparr>"
proof -
  assume a: "\<not> locked (bg_session (popup_entry now b))" "cfg_vault cfg \<noteq> None" "bg_offer b = None"
    "handlePopupMessage cfg now rnd items (deliver mode (message_object Request_candidates)) sender b = (b', Reply r)"
  have d: "deliver mode (message_object Request_candidates) = popup_json Request_candidates" by (cases mode) simp_all
  have "popup_valid Request_candidates" by simp
  note p = parse_popup_json [OF this]
  have "bg_offer (popup_entry now b) = None" using a(3) by (simp add: popup_entry_def bg_ensureActive_def Let_def)
  with a have "r = P_refused R_no_exact_origin_match"
    unfolding d popup_message_dispatched [OF assms p] by (auto simp: popup_dispatch_def requestCandidates_def)
  then show "pp_status (fst (popup_answer PT_candidates (Some r)
        (fst (popup_answer PT_get_state (Some (P_state False available account)) (fst popup_boot))))) = ''Locked.'' \<and>
      \<not> pp_panelHidden (fst (popup_answer PT_candidates (Some r)
        (fst (popup_answer PT_get_state (Some (P_state False available account)) (fst popup_boot)))))"
    by (simp add: popup_answer_def showState_def showUnlocked_def refreshItems_def setStatus_def)
next
  assume a: "locked (bg_session (popup_entry now b))" "form_ok (pp_form p)" "save_submit p = (p', [(msg, task)])"
  have m: "msg = Save_item (save_message_of (pp_form p))" "task = PT_save"
    "p' = p\<lparr>pp_form := (pp_form p)\<lparr>sf_password := [], sf_notes := [], sf_totp := []\<rparr>\<rparr>"
    using a(3) by (auto simp: save_submit_def)
  show "handlePopupMessage cfg now rnd items (deliver Json_messaging (message_object msg)) sender b =
        (popup_entry now b, Reply (P_refused R_unlock_unavailable)) \<and>
      popup_answer task (Some (P_refused R_unlock_unavailable)) p' = (p', []) \<and>
      p' = p\<lparr>pp_form := (pp_form p)\<lparr>sf_password := [], sf_notes := [], sf_totp := []\<rparr>\<rparr>"
    using a m form_message(1) [OF a(2)] json_parses popup_message_dispatched [OF assms]
    by (simp add: popup_dispatch_def bg_saveItem_def popup_answer_def save_answer_def del: message_object.simps)
qed

theorem popup_misreports_session_witness:
  "handlePopupMessage sample_cfg 0 [] [] (deliver Json_messaging (message_object (fst (hd (snd (save_submit filled_popup))))))
     popup_sender background_new = (popup_entry 0 background_new, Reply (P_refused R_unlock_unavailable))"
proof -
  have s: "save_submit filled_popup = (fst (save_submit filled_popup), [(fst (hd (snd (save_submit filled_popup))), PT_save)])"
    by (simp add: save_submit_def)
  have l: "locked (bg_session (popup_entry 0 background_new))" by code_simp
  from popup_misreports_session(2) [OF popup_sender_trusted l filled_form_ok s] show ?thesis by blast
qed

end
