(* ===== verification/Popup_Edit.thy ===== *)
theory Popup_Edit
  imports Popup_Properties Extension_Vault_Properties
begin

text \<open>
  Editing an item from the popup, through all three parts of the extension: the popup's form, the
  background's message handler and the vault manager.
\<close>

text \<open>
  The argument of the manager's \<open>saveItem\<close>; \<open>text\<close> is the representation of the UTF-16 strings of the messages as the
  strings of the manager.
\<close>

definition manager_input :: "(ustring \<Rightarrow> string) \<Rightarrow> save_input \<Rightarrow> ext_save_input" where
  "manager_input text s =
     \<lparr>in_itemId = si_itemId s,
      in_data = \<lparr>d_type = si_type s, d_title = si_title s, d_username = si_username s, d_password = map_option text (si_password s),
        d_url = si_url s, d_notes = map_option text (si_notes s), d_totpSecret = map_option text (si_totpSecret s)\<rparr>\<rparr>"

text \<open>What the list of the popup shows of an item, within the bounds of the messages.\<close>

definition summary_ok :: "item_summary \<Rightarrow> bool" where
  "summary_ok item \<longleftrightarrow>
     str_ok MAX_TITLE_LENGTH (is_title item) \<and> is_type item \<in> set ITEM_TYPES \<and> str_ok MAX_ID_LENGTH (is_itemId item) \<and>
     pred_option (\<lambda>s. length s \<le> MAX_USERNAME_LENGTH) (is_username item) \<and>
     pred_option (\<lambda>s. length s \<le> MAX_URL_LENGTH) (is_url item)"

text \<open>The user opens an item in the form and gives it another title.\<close>

definition rename_item :: "item_summary \<Rightarrow> string \<Rightarrow> popup \<Rightarrow> popup" where
  "rename_item item title p = (edit_click item p)\<lparr>pp_form := (pp_form (edit_click item p))\<lparr>sf_title := title\<rparr>\<rparr>"

lemma renamed_form_ok:
  "summary_ok item \<Longrightarrow> str_ok MAX_TITLE_LENGTH title \<Longrightarrow> form_ok (pp_form (rename_item item title p))"
  using secret_ok_short
  by (auto simp: summary_ok_def form_ok_def rename_item_def edit_click_def str_ok_def split: option.splits)

lemma typed_after_rename:
  "is_itemId item \<noteq> [] \<Longrightarrow>
   typed_item (pp_form (rename_item item title p)) =
     \<lparr>si_itemId = Some (is_itemId item), si_title = title, si_type = is_type item,
      si_username = (if is_username item = Some [] then None else is_username item), si_password = None,
      si_url = (if is_url item = Some [] then None else is_url item), si_notes = None, si_totpSecret = None\<rparr>"
  by (auto simp: typed_item_def rename_item_def edit_click_def or_undefined_def split: option.splits)

lemma save_cont_awaits:
  assumes "save_cont env inp u1 u2 r fresh v = (v', E_await task)"
  shows "\<exists>st envelope. ev_state v = Some st \<and> us_ref st = r \<and>
     task = T_mutate r (case in_itemId inp of None \<Rightarrow> u1 | Some i \<Rightarrow> i) (in_data inp)
       \<lparr>mut_mutationId = u2, mut_itemId = (case in_itemId inp of None \<Rightarrow> u1 | Some i \<Rightarrow> i), mut_vaultId = us_vaultId st,
        mut_baseRevision = save_base_revision inp st, mut_ciphertext = encodeB64 envelope,
        mut_envelopeVersion = EXTENSION_ENVELOPE_VERSION, mut_deleted = False\<rparr>"
  using assms
  by (auto simp: save_cont_def Let_def split: option.splits if_splits prod.splits crypto_response.splits
      response_body.splits)

lemma saved_entry:
  assumes "mutate_resume env r i d (Some (t, Inr (Mutated rec))) v = (v', E_save (Save_ok j))"
  shows "entry_of v' i = Some \<lparr>ie_itemId = i, ie_revision = revision rec, ie_data = d\<rparr>"
  using assms
  by (auto simp: mutate_resume_def withDeadline_def put_entry_def entry_of_def is_current_def update_conv'
      split: if_splits option.splits)

text \<open>
  C12. An edit in the popup that does not repeat the secrets erases them.  The popup says that editing an item
  requires entering its password, notes and TOTP secret again, but no part enforces it: when the user only
  gives a login with a user name another title, the background hands the manager an item without
  password, notes and secret, the manager finds nothing wrong with it, writes it over the stored version at its
  current revision, and once the server has taken it the item has no password, notes or secret any
  more.
\<close>

theorem popup_edit_erases_secrets:
  assumes "summary_ok item" "is_type item = ''login''" "\<exists>n ns. is_username item = Some (n # ns)"
    "str_ok MAX_TITLE_LENGTH title" "trim title \<noteq> []"
  shows "(trustedPopupSender sender (cfg_ownExtensionId cfg) (cfg_popupUrl cfg) \<noteq> None \<longrightarrow> has_method cfg has_saveItem \<longrightarrow>
      \<not> locked (bg_session (popup_entry now b)) \<longrightarrow> save_submit (rename_item item title p) = (p', [(msg, task)]) \<longrightarrow>
      handlePopupMessage cfg now rnd items (deliver Json_messaging (message_object msg)) sender b =
        ((popup_entry now b)\<lparr>bg_log := Vault_save (typed_item (pp_form (rename_item item title p))) # bg_log (popup_entry now b)\<rparr>,
         Await T_save)) \<and>
    ext_validateItemData (in_data (manager_input text (typed_item (pp_form (rename_item item title p))))) = [] \<and>
    (entry_of v (is_itemId item) = Some e \<longrightarrow>
      save_cont env (manager_input text (typed_item (pp_form (rename_item item title p)))) u1 u2 r True v =
        (v1, E_await (T_mutate r i d m)) \<longrightarrow>
      mutate_resume env r i d (Some (t, Inr (Mutated rec))) v2 = (v3, E_save (Save_ok j)) \<longrightarrow>
      mut_itemId m = is_itemId item \<and> mut_baseRevision m = ie_revision e \<and>
      (\<exists>e'. entry_of v3 (is_itemId item) = Some e' \<and> d_title (ie_data e') = title \<and>
        d_password (ie_data e') = None \<and> d_notes (ie_data e') = None \<and> d_totpSecret (ie_data e') = None))"
proof -
  let ?q = "rename_item item title p"
  have i: "is_itemId item \<noteq> []" using assms(1) by (simp add: summary_ok_def str_ok_def)
  note typed = typed_after_rename [OF i, of title p]
  have "handlePopupMessage cfg now rnd items (deliver Json_messaging (message_object msg)) sender b =
        ((popup_entry now b)\<lparr>bg_log := Vault_save (typed_item (pp_form ?q)) # bg_log (popup_entry now b)\<rparr>, Await T_save)"
    if "trustedPopupSender sender (cfg_ownExtensionId cfg) (cfg_popupUrl cfg) \<noteq> None" "has_method cfg has_saveItem"
      "\<not> locked (bg_session (popup_entry now b))" "save_submit ?q = (p', [(msg, task)])"
    using save_message_dispatched [OF that(1-3) renamed_form_ok [OF assms(1,4)] that(4)] .
  moreover have "ext_validateItemData (in_data (manager_input text (typed_item (pp_form ?q)))) = []"
    using assms by (auto simp: ext_validation_agrees validateItemData_def typed manager_input_def truthy_def str_ok_def
        bound_defs)
  moreover have "mut_itemId m = is_itemId item \<and> mut_baseRevision m = ie_revision e \<and>
      (\<exists>e'. entry_of v3 (is_itemId item) = Some e' \<and> d_title (ie_data e') = title \<and>
        d_password (ie_data e') = None \<and> d_notes (ie_data e') = None \<and> d_totpSecret (ie_data e') = None)"
    if a: "entry_of v (is_itemId item) = Some e"
      "save_cont env (manager_input text (typed_item (pp_form ?q))) u1 u2 r True v = (v1, E_await (T_mutate r i d m))"
      "mutate_resume env r i d (Some (t, Inr (Mutated rec))) v2 = (v3, E_save (Save_ok j))"
    using save_cont_awaits [OF a(2)] saved_entry [OF a(3)] a(1) i
    by (auto simp: typed manager_input_def save_base_revision_def entry_of_def truthy_def split: option.splits)
  ultimately show ?thesis by blast
qed

definition sample_summary :: item_summary where
  "sample_summary = \<lparr>is_itemId = ''i'', is_title = ''x'', is_type = ''login'', is_username = Some ''u'', is_url = Some ''https://x''\<rparr>"

definition renamed_input :: ext_save_input where
  "renamed_input = manager_input (\<lambda>_. []) (typed_item (pp_form (rename_item sample_summary ''y'' popup_new)))"

lemma renamed_input_eq:
  "renamed_input = \<lparr>in_itemId = Some ''i'', in_data = \<lparr>d_type = ''login'', d_title = ''y'', d_username = Some ''u'',
     d_password = None, d_url = Some ''https://x'', d_notes = None, d_totpSecret = None\<rparr>\<rparr>"
  by (simp add: renamed_input_def typed_after_rename sample_summary_def manager_input_def)

definition renamed_sent :: "unit ext_vault" where
  "renamed_sent = sample_open\<lparr>ev_idCounter := 3\<rparr>"

definition renamed_mutation :: mutation where
  "renamed_mutation = \<lparr>mut_mutationId = ''w'', mut_itemId = ''i'', mut_vaultId = ''v'', mut_baseRevision = 1,
     mut_ciphertext = encodeB64 [9], mut_envelopeVersion = EXTENSION_ENVELOPE_VERSION, mut_deleted = False\<rparr>"

lemma renamed_awaits:
  "save_cont sample_env renamed_input ''u'' ''w'' 0 True sample_open =
     (renamed_sent, E_await (T_mutate 0 ''i'' (in_data renamed_input) renamed_mutation))"
  by (simp add: save_cont_def Let_def renamed_input_eq sample_open_def sample_loading_def ext_vault_new_def nextId_def host_call_def
      host_of_def handle_valid bytes_within_def MAX_ITEM_BYTES_def KEY_VERSION_def sample_env_def ev_sample_backend_def
      set_host_def renamed_sent_def renamed_mutation_def save_base_revision_def truthy_def)

definition renamed_stored :: "unit ext_vault" where
  "renamed_stored = fst (mutate_resume sample_env 0 ''i'' (in_data renamed_input) (in_time (Mutated sample_record)) renamed_sent)"

lemma renamed_acknowledged:
  "mutate_resume sample_env 0 ''i'' (in_data renamed_input) (in_time (Mutated sample_record)) renamed_sent =
     (renamed_stored, E_save (Save_ok ''i''))"
  by (simp add: renamed_stored_def mutate_resume_def is_current_def renamed_sent_def sample_open_def)

theorem popup_edit_erases_secrets_witness:
  "map_option (d_password \<circ> ie_data) (entry_of sample_open ''i'') = Some (Some ''p'') \<and>
   map_option (d_password \<circ> ie_data) (entry_of renamed_stored ''i'') = Some None"
proof -
  have s: "summary_ok sample_summary" "is_type sample_summary = ''login''" "\<exists>n ns. is_username sample_summary = Some (n # ns)"
    "str_ok MAX_TITLE_LENGTH ''y''" "trim ''y'' \<noteq> []"
    by (simp_all add: summary_ok_def sample_summary_def str_ok_def bound_defs ITEM_TYPES_def) code_simp
  have e: "entry_of sample_open (is_itemId sample_summary) =
      Some \<lparr>ie_itemId = ''i'', ie_revision = 1, ie_data = sample_login\<rparr>"
    by (simp add: entry_of_def sample_open_def sample_summary_def)
  have "\<exists>x. entry_of renamed_stored (is_itemId sample_summary) = Some x \<and> d_password (ie_data x) = None"
    using popup_edit_erases_secrets [OF s, THEN conjunct2, THEN conjunct2, rule_format, OF e
      renamed_awaits [unfolded renamed_input_def] renamed_acknowledged [unfolded renamed_input_def]] by blast
  then show ?thesis using e by (auto simp: sample_summary_def sample_login_def)
qed

end
