(* ===== verification/Web_Crypto.thy ===== *)
theory Web_Crypto
  imports Session_Capability Totp Backend_Routes "HOL-Library.Multiset"
begin

text \<open>
  The small modules of \<open>apps/web/src/crypto\<close>: the password generator (\<open>generator.ts\<close>), the
  locally generated account identifier (\<open>account-id.ts\<close>), the hexadecimal display of the recovery
  key (\<open>recovery-display.ts\<close>) and the defaults of \<open>totp.ts\<close>, whose algorithm is the one of
  \<^theory_text>\<open>Totp\<close>.

  \<open>crypto.getRandomValues\<close> is the head of a list of bytes, the random source, which every draw
  shortens.  \<open>None\<close> is a source that ran dry; the theorems say how many accepted bytes are
  enough, so \<open>None\<close> only stands for the rejection loop still running.
\<close>


section \<open>Random indices\<close>

type_synonym source = "bytes"

definition sample_range :: "nat \<Rightarrow> nat" where
  "sample_range limit = 256 - 256 mod limit"

text \<open>The rejection loop: bytes at or above the last multiple of \<open>limit\<close> are dropped.\<close>

fun sample_loop :: "nat \<Rightarrow> source \<Rightarrow> (nat \<times> source) option" where
  "sample_loop limit [] = None"
| "sample_loop limit (value # src) =
     (if unat value \<ge> sample_range limit then sample_loop limit src else Some (unat value mod limit, src))"

datatype generator_error =
    Max_not_positive
  | Length_too_small
  | No_class_enabled
  | Length_below_classes

type_synonym 'a drawn = "(generator_error + 'a \<times> source) option"

definition randomIndex :: "nat \<Rightarrow> source \<Rightarrow> nat drawn" where
  "randomIndex limit src =
     (if limit = 0 then Some (Inl Max_not_positive) else map_option Inr (sample_loop limit src))"


section \<open>Passwords\<close>

record generator_options =
  go_length :: int
  go_upper :: bool
  go_lower :: bool
  go_digits :: bool
  go_symbols :: bool

definition DEFAULT_GENERATOR_OPTIONS :: generator_options where
  "DEFAULT_GENERATOR_OPTIONS =
     \<lparr>go_length = 20, go_upper = True, go_lower = True, go_digits = True, go_symbols = True\<rparr>"

datatype char_class = Upper | Lower | Digits | Symbols

fun CHARSETS :: "char_class \<Rightarrow> string" where
  "CHARSETS Upper = ''ABCDEFGHJKLMNPQRSTUVWXYZ''"
| "CHARSETS Lower = ''abcdefghijkmnopqrstuvwxyz''"
| "CHARSETS Digits = ''23456789''"
| "CHARSETS Symbols = ''!@#$%^&*()-_=+[]{}''"

fun class_enabled :: "generator_options \<Rightarrow> char_class \<Rightarrow> bool" where
  "class_enabled opts Upper = go_upper opts"
| "class_enabled opts Lower = go_lower opts"
| "class_enabled opts Digits = go_digits opts"
| "class_enabled opts Symbols = go_symbols opts"

definition enabled_classes :: "generator_options \<Rightarrow> char_class list" where
  "enabled_classes opts = filter (class_enabled opts) [Upper, Lower, Digits, Symbols]"

definition drawn_bind :: "'a drawn \<Rightarrow> ('a \<Rightarrow> source \<Rightarrow> 'b drawn) \<Rightarrow> 'b drawn" where
  "drawn_bind m f =
     (case m of None \<Rightarrow> None | Some (Inl e) \<Rightarrow> Some (Inl e) | Some (Inr (x, src)) \<Rightarrow> f x src)"

definition pick_char :: "string \<Rightarrow> source \<Rightarrow> char drawn" where
  "pick_char chset src =
     drawn_bind (randomIndex (length chset) src) (\<lambda>i src'. Some (Inr (chset ! i, src')))"

text \<open>One guaranteed character per enabled class.\<close>

fun class_loop :: "char_class list \<Rightarrow> string \<Rightarrow> source \<Rightarrow> string drawn" where
  "class_loop [] chars src = Some (Inr (chars, src))"
| "class_loop (c # cs) chars src =
     drawn_bind (pick_char (CHARSETS c) src) (\<lambda>x src'. class_loop cs (chars @ [x]) src')"

text \<open>\<open>n\<close> is the number of characters still missing.\<close>

fun fill_loop :: "nat \<Rightarrow> string \<Rightarrow> string \<Rightarrow> source \<Rightarrow> string drawn" where
  "fill_loop 0 alphabet chars src = Some (Inr (chars, src))"
| "fill_loop (Suc n) alphabet chars src =
     drawn_bind (pick_char alphabet src) (\<lambda>x src'. fill_loop n alphabet (chars @ [x]) src')"

definition swap_chars :: "nat \<Rightarrow> nat \<Rightarrow> string \<Rightarrow> string" where
  "swap_chars i j chars = chars[i := chars ! j, j := chars ! i]"

text \<open>The Fisher--Yates loop runs \<open>i\<close> down to 1.\<close>

fun shuffle_loop :: "nat \<Rightarrow> string \<Rightarrow> source \<Rightarrow> string drawn" where
  "shuffle_loop 0 chars src = Some (Inr (chars, src))"
| "shuffle_loop (Suc i) chars src =
     drawn_bind (randomIndex (Suc i + 1) src) (\<lambda>j src'. shuffle_loop i (swap_chars (Suc i) j chars) src')"

definition generatePassword :: "generator_options \<Rightarrow> source \<Rightarrow> string drawn" where
  "generatePassword opts src =
     (if go_length opts < 1 then Some (Inl Length_too_small)
      else
        (let classes = enabled_classes opts
         in if length classes = 0 then Some (Inl No_class_enabled)
            else if go_length opts < int (length classes) then Some (Inl Length_below_classes)
            else
              (let alphabet = concat (map CHARSETS classes)
               in drawn_bind (class_loop classes [] src) (\<lambda>chars src1.
                    drawn_bind (fill_loop (nat (go_length opts) - length chars) alphabet chars src1) (\<lambda>chars2 src2.
                      shuffle_loop (length chars2 - 1) chars2 src2)))))"


section \<open>Account identifier and recovery key\<close>

definition ACCOUNT_ID_KEY :: string where
  "ACCOUNT_ID_KEY = ''zkpm.accountId.v1''"

definition EMAIL_KEY :: string where
  "EMAIL_KEY = ''zkpm.accountEmail.v1''"

definition randomAccountId :: "bytes \<Rightarrow> string" where
  "randomAccountId rnd = concat (map byte_hex rnd)"

text \<open>An empty stored value is falsy and replaced.  \<open>rnd\<close> are the 16 random bytes.\<close>

definition getOrCreateAccountId :: "local_storage \<Rightarrow> bytes \<Rightarrow> local_storage \<times> string" where
  "getOrCreateAccountId storage rnd =
     (case map_of storage ACCOUNT_ID_KEY of
        Some existing \<Rightarrow>
          if existing \<noteq> [] then (storage, existing)
          else (AList.update ACCOUNT_ID_KEY (randomAccountId rnd) storage, randomAccountId rnd)
      | None \<Rightarrow> (AList.update ACCOUNT_ID_KEY (randomAccountId rnd) storage, randomAccountId rnd))"

definition setDisplayEmail :: "string \<Rightarrow> local_storage \<Rightarrow> local_storage" where
  "setDisplayEmail email storage = AList.update EMAIL_KEY email storage"

definition getDisplayEmail :: "local_storage \<Rightarrow> string option" where
  "getDisplayEmail storage = map_of storage EMAIL_KEY"

definition toProvisionalHex :: "bytes \<Rightarrow> string" where
  "toProvisionalHex bs = concat (map byte_hex bs)"

definition hex_value :: "char \<Rightarrow> nat option" where
  "hex_value c = index_of ''0123456789abcdef'' c"

definition hex_clean :: "string \<Rightarrow> string" where
  "hex_clean input = filter (\<lambda>c. \<not> is_space c) (toLowerCase (trim input))"

fun hex_pairs :: "string \<Rightarrow> bytes" where
  "hex_pairs (a # b # cs) = word_of_nat (16 * the (hex_value a) + the (hex_value b)) # hex_pairs cs"
| "hex_pairs _ = []"

text \<open>\<open>None\<close> is the exception.\<close>

definition fromProvisionalHex :: "string \<Rightarrow> bytes option" where
  "fromProvisionalHex input =
     (let cleaned = hex_clean input
      in if cleaned = [] \<or> \<not> list_all (\<lambda>c. hex_value c \<noteq> None) cleaned \<or> length cleaned mod 2 \<noteq> 0 then None
         else Some (hex_pairs cleaned))"



section \<open>Laws of the sampler\<close>

lemma sample_range_le: "sample_range limit \<le> 256"
  by (simp add: sample_range_def)

lemma sample_range_eq: "0 < limit \<Longrightarrow> sample_range limit = limit * (256 div limit)"
  unfolding sample_range_def by (simp add: minus_mod_eq_mult_div)

lemma sample_range_large: "256 < limit \<Longrightarrow> sample_range limit = 0"
  by (simp add: sample_range_def)

lemma sample_range_small:
  assumes "0 < limit" "limit \<le> 256"
  shows "128 < sample_range limit"
proof -
  have "256 mod limit < 128"
  proof (cases "limit \<le> 128")
    case True
    then show ?thesis using mod_less_divisor [OF assms(1), of 256] by linarith
  next
    case False
    then have "256 mod limit = (256 - limit) mod limit" using assms(2) by (simp add: le_mod_geq)
    also have "\<dots> = 256 - limit" using False by simp
    finally show ?thesis using False by simp
  qed
  then show ?thesis by (simp add: sample_range_def)
qed

lemma sample_loop_bound: "0 < limit \<Longrightarrow> sample_loop limit src = Some (i, rest) \<Longrightarrow> i < limit"
  by (induction src) (auto split: if_splits)

text \<open>Bytes that every sampler with at most 256 outcomes accepts.\<close>

definition good_bytes :: "source \<Rightarrow> nat" where
  "good_bytes src = length (filter (\<lambda>b. unat b < 128) src)"

lemma good_bytes_simps [simp]:
  "good_bytes [] = 0"
  "good_bytes (b # src) = (if unat b < 128 then Suc (good_bytes src) else good_bytes src)"
  by (simp_all add: good_bytes_def)

lemma sample_loop_returns:
  assumes "0 < limit" "limit \<le> 256" "0 < good_bytes src"
  shows "\<exists>i rest. sample_loop limit src = Some (i, rest) \<and> i < limit \<and> good_bytes src \<le> Suc (good_bytes rest)"
  using assms(3)
proof (induction src)
  case (Cons b src)
  note r = sample_range_small [OF assms(1,2)]
  show ?case
  proof (cases "unat b \<ge> sample_range limit")
    case True
    with r Cons show ?thesis by auto
  next
    case False
    then show ?thesis using assms(1) by auto
  qed
qed simp

lemma sample_loop_large: "256 < limit \<Longrightarrow> sample_loop limit src = None"
  by (induction src) (simp_all add: sample_range_large)

lemma drawn_bind_simps [simp]:
  "drawn_bind None f = None"
  "drawn_bind (Some (Inl e)) f = Some (Inl e)"
  "drawn_bind (Some (Inr (x, src))) f = f x src"
  by (simp_all add: drawn_bind_def)

lemma drawn_bind_Inr:
  "drawn_bind m f = Some (Inr r) \<longleftrightarrow> (\<exists>x src. m = Some (Inr (x, src)) \<and> f x src = Some (Inr r))"
  by (auto simp: drawn_bind_def split: option.splits sum.splits)

text \<open>
  What a draw does on success and that it succeeds: the shape shared by all the loops.  \<open>draws m n P src\<close>:
  every result of \<open>m\<close> has \<open>P\<close>, and \<open>n\<close> good bytes are enough for a result, which uses at
  most \<open>n\<close> of them.
\<close>

definition draws :: "(source \<Rightarrow> 'a drawn) \<Rightarrow> nat \<Rightarrow> ('a \<Rightarrow> bool) \<Rightarrow> bool" where
  "draws m n P \<longleftrightarrow>
     (\<forall>src. (\<forall>e. m src \<noteq> Some (Inl e)) \<and> (\<forall>x rest. m src = Some (Inr (x, rest)) \<longrightarrow> P x) \<and>
       (n \<le> good_bytes src \<longrightarrow> (\<exists>x rest. m src = Some (Inr (x, rest)) \<and> good_bytes src \<le> n + good_bytes rest)))"

lemma drawsD:
  assumes "draws m n P"
  shows "m src \<noteq> Some (Inl e)" and "m src = Some (Inr (x, rest)) \<Longrightarrow> P x"
    and "n \<le> good_bytes src \<Longrightarrow> \<exists>x rest. m src = Some (Inr (x, rest)) \<and> good_bytes src \<le> n + good_bytes rest"
  using assms unfolding draws_def by blast+

lemma draws_return: "P x \<Longrightarrow> draws (\<lambda>src. Some (Inr (x, src))) 0 P"
  by (simp add: draws_def)

lemma draws_bind:
  assumes "draws m n P" "\<And>x. P x \<Longrightarrow> draws (f x) k Q"
  shows "draws (\<lambda>src. drawn_bind (m src) f) (n + k) Q"
  unfolding draws_def
proof (intro allI conjI impI)
  fix src e
  show "drawn_bind (m src) f \<noteq> Some (Inl e)"
    using drawsD [OF assms(1)] drawsD(1) [OF assms(2)]
    by (auto simp: drawn_bind_def split: option.splits sum.splits)
next
  fix src x rest
  assume "drawn_bind (m src) f = Some (Inr (x, rest))"
  with drawsD(2) [OF assms(1)] drawsD(2) [OF assms(2)] show "Q x" unfolding drawn_bind_Inr by blast
next
  fix src
  assume g: "n + k \<le> good_bytes src"
  then obtain x r where x: "m src = Some (Inr (x, r))" "good_bytes src \<le> n + good_bytes r"
    using drawsD(3) [OF assms(1), of src] by auto
  from x g have "k \<le> good_bytes r" by linarith
  with drawsD(3) [OF assms(2)] drawsD(2) [OF assms(1) x(1)]
  obtain y r' where "f x r = Some (Inr (y, r'))" "good_bytes r \<le> k + good_bytes r'" by blast
  with x show "\<exists>y rest. drawn_bind (m src) f = Some (Inr (y, rest)) \<and> good_bytes src \<le> n + k + good_bytes rest"
    by auto
qed

lemma draws_mono: "draws m n P \<Longrightarrow> (\<And>x. P x \<Longrightarrow> Q x) \<Longrightarrow> draws m n Q"
  unfolding draws_def by blast

lemma randomIndex_draws: "0 < limit \<Longrightarrow> limit \<le> 256 \<Longrightarrow> draws (randomIndex limit) 1 (\<lambda>i. i < limit)"
  unfolding draws_def
proof (intro allI conjI impI)
  fix src
  assume m: "0 < limit" "limit \<le> 256"
  then show "randomIndex limit src \<noteq> Some (Inl e)" for e by (auto simp: randomIndex_def)
  show "i < limit" if "randomIndex limit src = Some (Inr (i, rest))" for i rest
    using that m sample_loop_bound by (auto simp: randomIndex_def)
  show "\<exists>i rest. randomIndex limit src = Some (Inr (i, rest)) \<and> good_bytes src \<le> 1 + good_bytes rest"
    if "1 \<le> good_bytes src"
    using sample_loop_returns [OF m, of src] that m by (fastforce simp: randomIndex_def)
qed

lemma pick_char_draws:
  assumes "chset \<noteq> []" "length chset \<le> 256"
  shows "draws (pick_char chset) 1 (\<lambda>c. c \<in> set chset)"
proof -
  have "draws (\<lambda>src. drawn_bind (randomIndex (length chset) src) (\<lambda>i src'. Some (Inr (chset ! i, src')))) (1 + 0)
      (\<lambda>c. c \<in> set chset)"
    by (rule draws_bind [OF randomIndex_draws]) (use assms in \<open>auto intro!: draws_return\<close>)
  then show ?thesis by (simp add: pick_char_def [abs_def])
qed


section \<open>The loops\<close>

lemma charset_size: "CHARSETS c \<noteq> [] \<and> length (CHARSETS c) \<le> 25"
  by (cases c) simp_all

lemma enabled_classes_size: "length (enabled_classes opts) \<le> 4"
  unfolding enabled_classes_def by (rule order_trans [OF length_filter_le]) simp

lemma alphabet_size: "length (concat (map CHARSETS cs)) \<le> 25 * length cs"
  using charset_size by (induction cs) (auto, smt (verit) add_le_mono)

lemma class_loop_draws:
  "draws (class_loop cs chars) (length cs)
     (\<lambda>out. \<exists>new. out = chars @ new \<and> length new = length cs \<and> list_all2 (\<lambda>c x. x \<in> set (CHARSETS c)) cs new)"
proof (induction cs arbitrary: chars)
  case Nil
  have "draws (\<lambda>src. Some (Inr (chars, src))) 0
     (\<lambda>out. \<exists>new. out = chars @ new \<and> length new = length [] \<and> list_all2 (\<lambda>c x. x \<in> set (CHARSETS c)) [] new)"
    by (rule draws_return) simp
  then show ?case by (simp add: class_loop.simps(1) [abs_def])
next
  case (Cons c cs)
  have "draws (\<lambda>src. drawn_bind (pick_char (CHARSETS c) src) (\<lambda>x src'. class_loop cs (chars @ [x]) src'))
      (1 + length cs)
      (\<lambda>out. \<exists>new. out = chars @ new \<and> length new = Suc (length cs) \<and>
         list_all2 (\<lambda>c x. x \<in> set (CHARSETS c)) (c # cs) new)"
  proof (rule draws_bind [OF pick_char_draws])
    show "CHARSETS c \<noteq> []" "length (CHARSETS c) \<le> 256" using charset_size [of c] by simp_all
    fix x
    assume "x \<in> set (CHARSETS c)"
    then show "draws (class_loop cs (chars @ [x])) (length cs)
      (\<lambda>out. \<exists>new. out = chars @ new \<and> length new = Suc (length cs) \<and>
         list_all2 (\<lambda>c x. x \<in> set (CHARSETS c)) (c # cs) new)"
      by (intro draws_mono [OF Cons]) fastforce
  qed
  then show ?case by (simp add: class_loop.simps(2) [abs_def])
qed

lemma fill_loop_draws:
  assumes "alphabet \<noteq> []" "length alphabet \<le> 256"
  shows "draws (fill_loop n alphabet chars) n (\<lambda>out. \<exists>new. out = chars @ new \<and> length new = n \<and> set new \<subseteq> set alphabet)"
proof (induction n arbitrary: chars)
  case 0
  have "draws (\<lambda>src. Some (Inr (chars, src))) 0
     (\<lambda>out. \<exists>new. out = chars @ new \<and> length new = 0 \<and> set new \<subseteq> set alphabet)"
    by (rule draws_return) simp
  then show ?case by (simp add: fill_loop.simps(1) [abs_def])
next
  case (Suc n)
  have "draws (\<lambda>src. drawn_bind (pick_char alphabet src) (\<lambda>x src'. fill_loop n alphabet (chars @ [x]) src')) (1 + n)
     (\<lambda>out. \<exists>new. out = chars @ new \<and> length new = Suc n \<and> set new \<subseteq> set alphabet)"
  proof (rule draws_bind [OF pick_char_draws [OF assms]])
    fix x
    assume "x \<in> set alphabet"
    then show "draws (fill_loop n alphabet (chars @ [x])) n
        (\<lambda>out. \<exists>new. out = chars @ new \<and> length new = Suc n \<and> set new \<subseteq> set alphabet)"
      by (intro draws_mono [OF Suc]) fastforce
  qed
  then show ?case by (simp add: fill_loop.simps(2) [abs_def])
qed

lemma mset_swap_chars: "i < length cs \<Longrightarrow> j < length cs \<Longrightarrow> mset (swap_chars i j cs) = mset cs"
  by (simp add: swap_chars_def mset_swap)

lemma length_swap_chars [simp]: "length (swap_chars i j cs) = length cs"
  by (simp add: swap_chars_def)

lemma shuffle_loop_draws:
  "i < length chars \<Longrightarrow> i < 256 \<Longrightarrow> draws (shuffle_loop i chars) i (\<lambda>out. mset out = mset chars)"
proof (induction i arbitrary: chars)
  case 0
  have "draws (\<lambda>src. Some (Inr (chars, src))) 0 (\<lambda>out. mset out = mset chars)"
    by (rule draws_return) simp
  then show ?case by (simp add: shuffle_loop.simps(1) [abs_def])
next
  case (Suc i)
  have "draws (\<lambda>src. drawn_bind (randomIndex (Suc i + 1) src) (\<lambda>j src'. shuffle_loop i (swap_chars (Suc i) j chars) src'))
     (1 + i) (\<lambda>out. mset out = mset chars)"
  proof (rule draws_bind [OF randomIndex_draws])
    show "0 < Suc i + 1" "Suc i + 1 \<le> 256" using Suc.prems by simp_all
    fix j
    assume "j < Suc i + 1"
    then have "mset (swap_chars (Suc i) j chars) = mset chars"
      using Suc.prems by (intro mset_swap_chars) simp_all
    with Suc.IH [of "swap_chars (Suc i) j chars"] Suc.prems
    show "draws (shuffle_loop i (swap_chars (Suc i) j chars)) i (\<lambda>out. mset out = mset chars)" by simp
  qed
  then show ?case by (simp add: shuffle_loop.simps(2) [abs_def])
qed

end
