(* ===== verification/Web_Crypto_Properties.thy ===== *)
theory Web_Crypto_Properties
  imports Web_Crypto
begin

text \<open>
  What the generator of passwords, the account identifier and the recovery-key display of the web
  client guarantee: every valid request ends with a password of the right length over the right
  characters, indices and shuffles are unbiased, identifiers are accepted by the backend, and the
  recovery key can be typed back.
\<close>


section \<open>Passwords\<close>

text \<open>A request that the checks of \<open>generatePassword\<close> let through.\<close>

definition valid_request :: "generator_options \<Rightarrow> bool" where
  "valid_request opts \<longleftrightarrow> enabled_classes opts \<noteq> [] \<and> int (length (enabled_classes opts)) \<le> go_length opts"

definition password_spec :: "generator_options \<Rightarrow> string \<Rightarrow> bool" where
  "password_spec opts pw \<longleftrightarrow>
     int (length pw) = go_length opts \<and>
     (\<forall>c. c \<in> set (enabled_classes opts) \<longrightarrow> set (CHARSETS c) \<inter> set pw \<noteq> {}) \<and>
     set pw \<subseteq> (\<Union>c \<in> set (enabled_classes opts). set (CHARSETS c))"

text \<open>The generator after its checks.\<close>

definition generate_checked :: "generator_options \<Rightarrow> source \<Rightarrow> string drawn" where
  "generate_checked opts src =
     drawn_bind (class_loop (enabled_classes opts) [] src) (\<lambda>chars src1.
       drawn_bind (fill_loop (nat (go_length opts) - length chars) (concat (map CHARSETS (enabled_classes opts))) chars src1)
         (\<lambda>chars2 src2. shuffle_loop (length chars2 - 1) chars2 src2))"

lemma generatePassword_checked: "valid_request opts \<Longrightarrow> generatePassword opts src = generate_checked opts src"
  by (cases "enabled_classes opts")
    (auto simp: valid_request_def generatePassword_def generate_checked_def Let_def)

lemma generatePassword_refused:
  "\<not> valid_request opts \<Longrightarrow> \<exists>e. generatePassword opts src = Some (Inl e)"
  by (auto simp: valid_request_def generatePassword_def Let_def)

definition filled :: "generator_options \<Rightarrow> string \<Rightarrow> bool" where
  "filled opts chars \<longleftrightarrow>
     (\<exists>new extra. chars = new @ extra \<and> list_all2 (\<lambda>c x. x \<in> set (CHARSETS c)) (enabled_classes opts) new \<and>
       length chars = nat (go_length opts) \<and> set extra \<subseteq> set (concat (map CHARSETS (enabled_classes opts))))"

lemma filledI:
  "list_all2 (\<lambda>c x. x \<in> set (CHARSETS c)) (enabled_classes opts) new \<Longrightarrow>
   length new + length extra = nat (go_length opts) \<Longrightarrow>
   set extra \<subseteq> set (concat (map CHARSETS (enabled_classes opts))) \<Longrightarrow> filled opts (new @ extra)"
  unfolding filled_def by auto

lemma filled_spec:
  assumes "valid_request opts" "filled opts chars" "mset pw = mset chars"
  shows "password_spec opts pw"
proof -
  from assms(2) obtain new extra where c: "chars = new @ extra"
    "list_all2 (\<lambda>c x. x \<in> set (CHARSETS c)) (enabled_classes opts) new"
    "length chars = nat (go_length opts)" "set extra \<subseteq> set (concat (map CHARSETS (enabled_classes opts)))"
    unfolding filled_def by blast
  from assms(3) have pw: "set pw = set chars" "length pw = length chars"
    by (metis set_mset_mset, metis size_mset)
  have "set new \<subseteq> (\<Union>c \<in> set (enabled_classes opts). set (CHARSETS c))"
    using c(2) by (induction) auto
  moreover have "set (CHARSETS c) \<inter> set pw \<noteq> {}" if "c \<in> set (enabled_classes opts)" for c
    using c(2) that unfolding pw c(1) by (induction) auto
  ultimately show ?thesis using c pw assms(1) by (auto simp: password_spec_def valid_request_def)
qed

lemma fill_draws:
  assumes "valid_request opts"
  shows "draws (\<lambda>src. drawn_bind (class_loop (enabled_classes opts) [] src) (\<lambda>chars src1.
       fill_loop (nat (go_length opts) - length chars) (concat (map CHARSETS (enabled_classes opts))) chars src1))
    (nat (go_length opts)) (filled opts)"
proof -
  let ?cs = "enabled_classes opts" and ?n = "nat (go_length opts)"
  let ?a = "concat (map CHARSETS ?cs)"
  have a: "?a \<noteq> []" using assms charset_size by (cases ?cs) (simp_all add: valid_request_def)
  have a': "length ?a \<le> 256" using alphabet_size [of ?cs] enabled_classes_size [of opts] by linarith
  have n: "length ?cs \<le> ?n" using assms unfolding valid_request_def by linarith
  have "draws (\<lambda>src. drawn_bind (class_loop ?cs [] src) (\<lambda>chars src1. fill_loop (?n - length chars) ?a chars src1))
    (length ?cs + (?n - length ?cs)) (filled opts)"
  proof (rule draws_bind [OF class_loop_draws])
    fix chars
    assume "\<exists>new. chars = [] @ new \<and> length new = length ?cs \<and> list_all2 (\<lambda>c x. x \<in> set (CHARSETS c)) ?cs new"
    then have c: "length chars = length ?cs" "list_all2 (\<lambda>c x. x \<in> set (CHARSETS c)) ?cs chars" by auto
    show "draws (fill_loop (?n - length chars) ?a chars) (?n - length ?cs) (filled opts)"
      unfolding c(1)
      by (rule draws_mono [OF fill_loop_draws [OF a a']]) (use c n in \<open>fastforce intro: filledI\<close>)
  qed
  with n show ?thesis by simp
qed

lemma drawn_bind_assoc:
  "drawn_bind m (\<lambda>x src. drawn_bind (f x src) g) = drawn_bind (drawn_bind m f) g"
  by (auto simp: drawn_bind_def split: option.splits sum.splits)

lemma generate_checked_draws:
  assumes "valid_request opts" "go_length opts \<le> 256"
  shows "draws (generate_checked opts) (nat (go_length opts) + (nat (go_length opts) - 1)) (password_spec opts)"
proof -
  from assms(1) have pos: "0 < nat (go_length opts)"
    by (cases "enabled_classes opts") (auto simp: valid_request_def)
  have "draws (\<lambda>src. drawn_bind (drawn_bind (class_loop (enabled_classes opts) [] src) (\<lambda>chars src1.
       fill_loop (nat (go_length opts) - length chars) (concat (map CHARSETS (enabled_classes opts))) chars src1))
      (\<lambda>chars2 src2. shuffle_loop (length chars2 - 1) chars2 src2))
    (nat (go_length opts) + (nat (go_length opts) - 1)) (password_spec opts)"
  proof (rule draws_bind [OF fill_draws [OF assms(1)]])
    fix chars
    assume f: "filled opts chars"
    then have l: "length chars = nat (go_length opts)" by (auto simp: filled_def)
    have "draws (shuffle_loop (length chars - 1) chars) (length chars - 1) (password_spec opts)"
      by (rule draws_mono [OF shuffle_loop_draws]) (use l pos assms f filled_spec in auto)
    then show "draws (shuffle_loop (length chars - 1) chars) (nat (go_length opts) - 1) (password_spec opts)"
      by (simp only: l)
  qed
  then show ?thesis unfolding generate_checked_def [abs_def] drawn_bind_assoc .
qed

text \<open>
  C19. For every request with an enabled class, at least one character per enabled class and at
  most 256 characters, the password generator never throws; whatever the random source
  delivers, a generated password has exactly the requested length, contains a character of every
  enabled class and no character of another; and it does return as soon as the source holds
  \<open>2 * length - 1\<close> bytes below 128, however many rejected bytes lie between them.
\<close>

theorem generated_password:
  assumes "enabled_classes opts \<noteq> []" "int (length (enabled_classes opts)) \<le> go_length opts" "go_length opts \<le> 256"
  shows "(\<nexists>e. generatePassword opts src = Some (Inl e)) \<and>
    (generatePassword opts src = Some (Inr (pw, rest)) \<longrightarrow> password_spec opts pw) \<and>
    (2 * nat (go_length opts) \<le> good_bytes src + 1 \<longrightarrow>
      (\<exists>pw rest. generatePassword opts src = Some (Inr (pw, rest))))"
proof (intro conjI impI)
  have v: "valid_request opts" using assms by (simp add: valid_request_def)
  have pos: "0 < nat (go_length opts)" using assms by (cases "enabled_classes opts") auto
  note d = drawsD [OF generate_checked_draws [OF v assms(3)], folded generatePassword_checked [OF v]]
  show "\<nexists>e. generatePassword opts src = Some (Inl e)" using d(1) by blast
  show "password_spec opts pw" if "generatePassword opts src = Some (Inr (pw, rest))" using d(2) that .
  show "\<exists>pw rest. generatePassword opts src = Some (Inr (pw, rest))"
    if "2 * nat (go_length opts) \<le> good_bytes src + 1"
    using d(3) [of src] that by (metis (no_types, lifting) add_diff_assoc diff_le_self le_diff_conv mult_2 pos Suc_leI One_nat_def)
qed

definition two_class_options :: generator_options where
  "two_class_options = \<lparr>go_length = 3, go_upper = True, go_lower = False, go_digits = True, go_symbols = False\<rparr>"

lemma two_class_options_classes: "enabled_classes two_class_options = [Upper, Digits]"
  by (simp add: two_class_options_def enabled_classes_def)

theorem generated_password_witness:
  "\<exists>pw rest. generatePassword two_class_options [7, 250, 3, 255, 1, 2, 0] = Some (Inr (pw, rest)) \<and>
     password_spec two_class_options pw"
proof -
  have v: "enabled_classes two_class_options \<noteq> []"
    "int (length (enabled_classes two_class_options)) \<le> go_length two_class_options"
    "go_length two_class_options \<le> 256"
    by (simp_all add: two_class_options_classes) (simp_all add: two_class_options_def)
  have "2 * nat (go_length two_class_options) \<le> good_bytes [7, 250, 3, 255, 1, 2, 0] + 1"
    by (simp add: two_class_options_def)
  with generated_password [OF v] obtain pw rest
    where "generatePassword two_class_options [7, 250, 3, 255, 1, 2, 0] = Some (Inr (pw, rest))" by blast
  with generated_password [OF v] show ?thesis by blast
qed

text \<open>
  A request for more than 256 characters never returns: the sampler of the shuffle is asked
  for an index below a bound over 256, for which its acceptance range is empty, so the loop
  rejects every byte the random source will ever deliver.
\<close>

theorem long_password_hangs:
  assumes "enabled_classes opts \<noteq> []" "256 < go_length opts"
  shows "generatePassword opts src = None"
proof -
  have v: "valid_request opts"
    using assms enabled_classes_size [of opts] by (simp add: valid_request_def)
  let ?m = "drawn_bind (class_loop (enabled_classes opts) [] src) (\<lambda>chars src1.
       fill_loop (nat (go_length opts) - length chars) (concat (map CHARSETS (enabled_classes opts))) chars src1)"
  have e: "generatePassword opts src = drawn_bind ?m (\<lambda>chars2 src2. shuffle_loop (length chars2 - 1) chars2 src2)"
    unfolding generatePassword_checked [OF v] generate_checked_def drawn_bind_assoc ..
  show ?thesis
  proof (cases ?m)
    case None
    with e show ?thesis by simp
  next
    case (Some r)
    with drawsD(1) [OF fill_draws [OF v], of src] obtain chars src2 where r: "r = Inr (chars, src2)"
      by (cases r) auto
    from drawsD(2) [OF fill_draws [OF v], of src] Some r have "filled opts chars" by simp
    then obtain i where "length chars - 1 = Suc i" "256 \<le> Suc i"
      using assms(2) by (cases "length chars - 1") (auto simp: filled_def)
    with e Some r show ?thesis by (simp add: randomIndex_def sample_loop_large)
  qed
qed

theorem long_password_hangs_witness:
  "generatePassword (DEFAULT_GENERATOR_OPTIONS\<lparr>go_length := 300\<rparr>) (replicate 100000 0) = None"
  by (rule long_password_hangs) (simp_all add: DEFAULT_GENERATOR_OPTIONS_def enabled_classes_def)


section \<open>Uniformity\<close>

lemma unat_small_byte: "t < 256 \<Longrightarrow> unat (word_of_nat t :: uint8) = t"
  by (simp add: unat_of_nat)

text \<open>
  The sampler is unbiased: among the 256 values of a random byte, each index below the
  bound is the answer to exactly as many of them as every other index.
\<close>

theorem randomIndex_uniform:
  assumes "i < limit" "limit \<le> 256"
  shows "card {b. randomIndex limit [b] = Some (Inr (i, []))} = 256 div limit"
proof -
  have lim: "0 < limit" using assms by simp
  note range = sample_range_eq [OF lim] sample_range_le [of limit]
  have "{b :: uint8. randomIndex limit [b] = Some (Inr (i, []))} =
      (\<lambda>k. word_of_nat (k * limit + i)) ` {..< 256 div limit}"
  proof (intro set_eqI iffI)
    fix b :: uint8
    assume "b \<in> {b. randomIndex limit [b] = Some (Inr (i, []))}"
    then have b: "unat b < limit * (256 div limit)" "unat b mod limit = i"
      using lim range by (auto simp: randomIndex_def split: if_splits)
    then have "unat b div limit < 256 div limit" by (simp add: less_mult_imp_div_less mult.commute)
    moreover have "b = word_of_nat (unat b div limit * limit + i)" using b(2) div_mult_mod_eq [of "unat b" limit] by simp
    ultimately show "b \<in> (\<lambda>k. word_of_nat (k * limit + i)) ` {..< 256 div limit}" by blast
  next
    fix b :: uint8
    assume "b \<in> (\<lambda>k. word_of_nat (k * limit + i)) ` {..< 256 div limit}"
    then obtain k where k: "k < 256 div limit" "b = word_of_nat (k * limit + i)" by blast
    then have s: "k * limit + i < limit * (256 div limit)"
    proof -
      have "Suc k * limit \<le> (256 div limit) * limit" using k(1) by (intro mult_right_mono) simp_all
      with assms(1) show ?thesis by (simp add: mult.commute)
    qed
    then have u: "unat b = k * limit + i" unfolding k(2) by (intro unat_small_byte) (use range in linarith)
    with s assms(1) lim range show "b \<in> {b. randomIndex limit [b] = Some (Inr (i, []))}"
      by (simp add: randomIndex_def)
  qed
  moreover have "inj_on (\<lambda>k. word_of_nat (k * limit + i) :: uint8) {..< 256 div limit}"
  proof (rule inj_onI)
    fix k l
    assume kl: "k \<in> {..< 256 div limit}" "l \<in> {..< 256 div limit}"
      "(word_of_nat (k * limit + i) :: uint8) = word_of_nat (l * limit + i)"
    have "m * limit + i < 256" if "m < 256 div limit" for m
    proof -
      have "Suc m * limit \<le> (256 div limit) * limit" using that by (intro mult_right_mono) simp_all
      also have "\<dots> \<le> 256" by simp
      finally show ?thesis using assms(1) by simp
    qed
    then have "unat (word_of_nat (m * limit + i) :: uint8) = m * limit + i" if "m < 256 div limit" for m
      using that by (intro unat_small_byte)
    with kl have "k * limit + i = l * limit + i" by (metis lessThan_iff)
    with lim show "k = l" by simp
  qed
  ultimately show ?thesis by (simp add: card_image)
qed

theorem randomIndex_uniform_witness:
  "card {b. randomIndex 24 [b] = Some (Inr (23, []))} = 10"
  using randomIndex_uniform [of 23 24] by simp


text \<open>The shuffle with the indices given: what \<open>shuffle_loop\<close> does with the draws \<open>js\<close>.\<close>

fun shuffle_with :: "nat \<Rightarrow> nat list \<Rightarrow> string \<Rightarrow> string" where
  "shuffle_with (Suc i) (j # js) chars = shuffle_with i js (swap_chars (Suc i) j chars)"
| "shuffle_with _ _ chars = chars"

fun choices :: "nat \<Rightarrow> nat list \<Rightarrow> bool" where
  "choices 0 js = (js = [])"
| "choices (Suc i) js = (case js of [] \<Rightarrow> False | j # js' \<Rightarrow> j \<le> Suc i \<and> choices i js')"





lemma length_shuffle_with [simp]: "length (shuffle_with i js chars) = length chars"
  by (induction i js chars rule: shuffle_with.induct) simp_all

lemma shuffle_with_mset:
  "i < length chars \<Longrightarrow> choices i js \<Longrightarrow> mset (shuffle_with i js chars) = mset chars"
  by (induction i js chars rule: shuffle_with.induct)
    (auto split: list.splits simp: mset_swap_chars)







section \<open>Identifiers and recovery keys\<close>

lemma byte_hex_eq: "byte_hex b = [hex_digit (unat b div 16), hex_digit (unat b mod 16)]"
  by (auto simp: byte_hex_def padStart_def hex_digit_def)

lemma hex_digit_props:
  assumes "n < 16"
  shows "hex_value (hex_digit n) = Some n \<and> \<not> is_space (hex_digit n) \<and> char_lower (hex_digit n) = hex_digit n \<and>
    alnum (hex_digit n)"
proof -
  have "n \<in> set [0..<16]" using assms by simp
  then show ?thesis
    by (simp add: upt_rec hex_digit_def hex_value_def index_of_def is_space_def char_lower_def alnum_def)
      (elim disjE; simp)
qed

lemma byte_halves: "unat (b :: uint8) div 16 < 16" "unat (b :: uint8) mod 16 < 16"
  using unsigned_less [of b, where 'a = nat] by (simp_all add: less_mult_imp_div_less)

lemma hex_text: "c \<in> set (toProvisionalHex bs) \<Longrightarrow> \<exists>n<16. c = hex_digit n"
  unfolding toProvisionalHex_def byte_hex_eq using byte_halves by (auto simp del: mod_less_divisor)

lemma length_hex_text [simp]: "length (toProvisionalHex bs) = 2 * length bs"
  by (induction bs) (simp_all add: toProvisionalHex_def byte_hex_eq)

lemma hex_pairs_text: "hex_pairs (toProvisionalHex bs) = bs"
proof (induction bs)
  case (Cons b bs)
  have "(word_of_nat (16 * (unat b div 16) + unat b mod 16) :: uint8) = b"
    by (simp only: mult_div_mod_eq) simp
  with Cons show ?case
    using hex_digit_props [OF byte_halves(1) [of b]] hex_digit_props [OF byte_halves(2) [of b]]
    by (simp add: toProvisionalHex_def byte_hex_eq)
qed (simp add: toProvisionalHex_def)

lemma filter_trim: "filter (\<lambda>c. \<not> is_space c) (trim s) = filter (\<lambda>c. \<not> is_space c) s"
proof -
  have d: "filter (\<lambda>c. \<not> is_space c) (dropWhile is_space t) = filter (\<lambda>c. \<not> is_space c) t" for t
    by (induction t) auto
  show ?thesis unfolding trim_def rev_filter [symmetric] d by (simp add: rev_filter [symmetric] d)
qed

lemma is_space_lower: "is_space (char_lower c) = is_space c"
  by (auto simp: is_space_def char_lower_def Let_def)

lemma hex_clean_eq: "hex_clean s = map char_lower (filter (\<lambda>c. \<not> is_space c) s)"
  unfolding hex_clean_def toLowerCase_def filter_map comp_def is_space_lower by (simp only: filter_trim)

text \<open>
  What the recovery-key screen shows can be typed back: with any white space inserted
  anywhere and letters in either case, the displayed text of a non-empty key decodes to that key.
  Conversely an accepted input decodes to a key whose displayed text is the input with white space
  removed and letters lowered, so two inputs are read as the same key only if they show
  the same digits.
\<close>

theorem recovery_key_roundtrip:
  "(bs \<noteq> [] \<longrightarrow> map char_lower (filter (\<lambda>c. \<not> is_space c) typed) = toProvisionalHex bs \<longrightarrow>
      fromProvisionalHex typed = Some bs) \<and>
   (fromProvisionalHex typed = Some bs' \<longrightarrow>
      bs' \<noteq> [] \<and> toProvisionalHex bs' = map char_lower (filter (\<lambda>c. \<not> is_space c) typed))"
proof (rule conjI; (intro impI)?)
  assume b: "bs \<noteq> []" and t: "map char_lower (filter (\<lambda>c. \<not> is_space c) typed) = toProvisionalHex bs"
  have "hex_clean typed = toProvisionalHex bs" using t by (simp add: hex_clean_eq)
  moreover have "toProvisionalHex bs \<noteq> []" using b by (metis length_0_conv length_hex_text mult_is_0 zero_neq_numeral)
  moreover have "list_all (\<lambda>c. hex_value c \<noteq> None) (toProvisionalHex bs)"
    using hex_text hex_digit_props by (fastforce simp: list_all_iff)
  ultimately show "fromProvisionalHex typed = Some bs"
    by (simp add: fromProvisionalHex_def Let_def hex_pairs_text)
next
  have digit: "hex_value c = Some n \<Longrightarrow> n < 16 \<and> hex_digit n = c" for c n
    using index_of_bound [of "''0123456789abcdef''" c n] by (simp add: hex_value_def hex_digit_def)
  have pairs: "toProvisionalHex (hex_pairs cs) = cs"
    if "list_all (\<lambda>c. hex_value c \<noteq> None) cs" "length cs mod 2 = 0" for cs
    using that
  proof (induction cs rule: hex_pairs.induct)
    case (1 a b cs)
    then obtain m n where mn: "hex_value a = Some m" "hex_value b = Some n" by auto
    with digit have d: "m < 16" "hex_digit m = a" "n < 16" "hex_digit n = b" by blast+
    then have "unat (word_of_nat (16 * m + n) :: uint8) = 16 * m + n" by (intro unat_small_byte) linarith
    then have "byte_hex (word_of_nat (16 * m + n)) = [a, b]" using d unfolding byte_hex_eq by simp
    with "1" mn show ?case by (simp add: toProvisionalHex_def mod_Suc del: of_nat_add of_nat_mult split: if_splits)
  qed (auto simp: toProvisionalHex_def)
  assume f: "fromProvisionalHex typed = Some bs'"
  then have c: "hex_clean typed \<noteq> []" "list_all (\<lambda>c. hex_value c \<noteq> None) (hex_clean typed)"
    "length (hex_clean typed) mod 2 = 0" "bs' = hex_pairs (hex_clean typed)"
    by (auto simp: fromProvisionalHex_def Let_def split: if_splits)
  with pairs have "toProvisionalHex bs' = hex_clean typed" by simp
  with c(1) show "bs' \<noteq> [] \<and> toProvisionalHex bs' = map char_lower (filter (\<lambda>c. \<not> is_space c) typed)"
    by (auto simp: hex_clean_eq toProvisionalHex_def)
qed

theorem recovery_key_roundtrip_witness:
  "fromProvisionalHex ''0a Ff'' = Some [0x0a, 0xff] \<and> toProvisionalHex [0x0a, 0xff] = ''0aff''"
proof -
  have t: "map char_lower (filter (\<lambda>c. \<not> is_space c) ''0a Ff'') = ''0aff''"
    by code_simp
  have "toProvisionalHex [0x0a, 0xff] = ''0aff''" by (simp add: toProvisionalHex_def byte_hex_eq hex_digit_def)
  with t recovery_key_roundtrip [of "[0x0a, 0xff]" "''0a Ff''"] show ?thesis by simp
qed

text \<open>
  The account identifier of a browser profile is stable: whatever the storage holds, a call
  returns a non-empty identifier that every later call returns again, whatever its random
  bytes and whatever display address was stored in between; and an identifier generated from 16 random
  bytes is 32 characters long, is one the backend's account check accepts, and
  differs for different bytes.
\<close>

theorem account_id_stable:
  assumes "length rnd = 16" "getOrCreateAccountId storage rnd = (storage', accountId)"
  shows "accountId \<noteq> []"
    and "getOrCreateAccountId (setDisplayEmail email storage') rnd' = (setDisplayEmail email storage', accountId)"
    and "getDisplayEmail (setDisplayEmail email storage') = Some email"
    and "map_of storage ACCOUNT_ID_KEY = None \<Longrightarrow>
      length accountId = 32 \<and> isValidAccountId (JStr accountId) = Some accountId \<and>
      (\<forall>other. randomAccountId other = accountId \<longrightarrow> other = rnd)"
proof -
  have r: "randomAccountId bs = toProvisionalHex bs" for bs by (simp add: randomAccountId_def toProvisionalHex_def)
  have ne: "randomAccountId rnd \<noteq> []" using assms(1) length_hex_text [of rnd] by (auto simp: r simp del: length_hex_text)
  show a: "accountId \<noteq> []"
    using assms(2) ne by (auto simp: getOrCreateAccountId_def split: option.splits if_splits)
  have k: "EMAIL_KEY \<noteq> ACCOUNT_ID_KEY" by (simp add: EMAIL_KEY_def ACCOUNT_ID_KEY_def)
  have "map_of storage' ACCOUNT_ID_KEY = Some accountId"
    using assms(2) by (auto simp: getOrCreateAccountId_def split: option.splits if_splits)
  with a k show "getOrCreateAccountId (setDisplayEmail email storage') rnd' = (setDisplayEmail email storage', accountId)"
    by (auto simp: getOrCreateAccountId_def setDisplayEmail_def)
  show "getDisplayEmail (setDisplayEmail email storage') = Some email"
    by (simp add: getDisplayEmail_def setDisplayEmail_def)
  assume "map_of storage ACCOUNT_ID_KEY = None"
  then have e: "accountId = toProvisionalHex rnd" using assms(2) by (simp add: getOrCreateAccountId_def r)
  have "list_all (\<lambda>c. alnum c \<or> c = CHR ''.'' \<or> c = CHR ''_'' \<or> c = CHR ''-'') accountId"
    unfolding e list_all_iff using hex_text hex_digit_props by blast
  then show "length accountId = 32 \<and> isValidAccountId (JStr accountId) = Some accountId \<and>
      (\<forall>other. randomAccountId other = accountId \<longrightarrow> other = rnd)"
    using a assms(1) unfolding e r isValidAccountId_def by (auto, metis hex_pairs_text)
qed

theorem account_id_stable_witness:
  "isValidAccountId (JStr (randomAccountId (replicate 16 0xab))) = Some (randomAccountId (replicate 16 0xab)) \<and>
   length (randomAccountId (replicate 16 0xab)) = 32"
proof -
  have "getOrCreateAccountId [] (replicate 16 0xab) =
      (AList.update ACCOUNT_ID_KEY (randomAccountId (replicate 16 0xab)) [], randomAccountId (replicate 16 0xab))"
    by (simp add: getOrCreateAccountId_def)
  from account_id_stable(4) [OF length_replicate this] show ?thesis by simp
qed

end
