(* ===== verification/Web_Ui.thy ===== *)
theory Web_Ui
  imports Vault_Session Web_Crypto Importers
begin

text \<open>
  The state of the web client's user interface: \<open>App.tsx\<close>, the views under \<open>apps/web/src/views\<close>
  and the context they share (\<open>lib/context.ts\<close>).  React renders one component at a time; its
  state is the constructor of \<open>screen\<close> that is mounted, and \<open>ui_mount\<close> numbers the mounted instances,
  because an \<open>async\<close> handler of an instance that has been unmounted can no longer set its state.

  A handler is cut at its awaits.  A method of the vault session is started by \<open>call_session\<close>,
  which leaves a task with the continuation of the handler; other awaits (the OPAQUE login, the API,
  the repository, files, timers) are tasks of their own.  The state lists the tasks under way; which of them
  is settled next, and with what, is an input of the run.

  Password bytes live in buffers that are shared by reference (\<open>Uint8Array\<close>s), so that wiping one
  is seen by whoever still holds it.
\<close>


section \<open>Views and screens\<close>

datatype view =
    View_onboarding
  | View_unlock
  | View_vault "id option"
  | View_import
  | View_export
  | View_devices
  | View_conflicts
  | View_extension_setup

datatype onboarding_step = Step_form | Step_reveal | Step_confirm

record onboarding_screen =
  ob_step :: onboarding_step
  ob_email :: string
  ob_recoveryHex :: string
  ob_error :: string
  ob_password :: "nat option"
  ob_bundle :: "account_bundle option"

record unlock_screen =
  un_bundle :: "account_bundle option"
  un_error :: string

datatype vault_mode = Mode_view | Mode_edit | Mode_new | Mode_delete

record undo_offer =
  uo_mutationId :: id
  uo_itemId :: id
  uo_title :: string

record vault_screen =
  vv_query :: string
  vv_selected :: "id option"
  vv_mode :: vault_mode
  vv_undo :: "undo_offer option"

datatype import_format = Format_csv | Format_bitwarden | Format_1password | Format_enpass

record import_screen =
  im_format :: import_format
  im_result :: "normalize_result option"
  im_fileError :: string

datatype export_stage = Stage_menu | Stage_confirm | Stage_reauth

record export_screen =
  ex_stage :: export_stage
  ex_reauthError :: string

record ui_device =
  ud_deviceId :: id
  ud_name :: string
  ud_lastSeenAt :: "string option"
  ud_revokedAt :: "string option"

record devices_screen =
  dv_devices :: "ui_device list"
  dv_error :: string
  dv_revokeTarget :: "id option"

text \<open>\<open>cv_effect\<close> is the run of the decryption effect that has not been cancelled.\<close>

record conflicts_screen =
  cv_index :: nat
  cv_decrypted :: "decrypted_conflict option"
  cv_error :: string
  cv_effect :: nat

datatype publish_status =
    Pub_idle
  | Pub_publishing
  | Pub_published
  | Pub_conflict "nat option"
  | Pub_error string

record setup_screen =
  es_status :: publish_status
  es_copied :: bool

text \<open>\<open>Scr_crashed\<close>: a component threw while rendering, and React removed the tree.\<close>

datatype screen =
    Scr_onboarding onboarding_screen
  | Scr_unlock unlock_screen
  | Scr_vault vault_screen
  | Scr_import import_screen
  | Scr_export export_screen
  | Scr_devices devices_screen
  | Scr_conflicts conflicts_screen
  | Scr_setup setup_screen
  | Scr_crashed

datatype component =
    Comp_onboarding | Comp_unlock | Comp_vault | Comp_import | Comp_export | Comp_devices | Comp_conflicts
  | Comp_setup

fun screen_component :: "screen \<Rightarrow> component option" where
  "screen_component (Scr_onboarding _) = Some Comp_onboarding"
| "screen_component (Scr_unlock _) = Some Comp_unlock"
| "screen_component (Scr_vault _) = Some Comp_vault"
| "screen_component (Scr_import _) = Some Comp_import"
| "screen_component (Scr_export _) = Some Comp_export"
| "screen_component (Scr_devices _) = Some Comp_devices"
| "screen_component (Scr_conflicts _) = Some Comp_conflicts"
| "screen_component (Scr_setup _) = Some Comp_setup"
| "screen_component Scr_crashed = None"

text \<open>The \<open>switch\<close> of \<open>App\<close>: a view of the vault shows the unlock form while the session is locked.\<close>

definition app_component :: "view \<Rightarrow> bool \<Rightarrow> component" where
  "app_component v unlocked =
     (case v of
        View_onboarding \<Rightarrow> Comp_onboarding
      | View_unlock \<Rightarrow> Comp_unlock
      | View_vault _ \<Rightarrow> if \<not> unlocked then Comp_unlock else Comp_vault
      | View_import \<Rightarrow> if \<not> unlocked then Comp_unlock else Comp_import
      | View_export \<Rightarrow> if \<not> unlocked then Comp_unlock else Comp_export
      | View_devices \<Rightarrow> if \<not> unlocked then Comp_unlock else Comp_devices
      | View_conflicts \<Rightarrow> if \<not> unlocked then Comp_unlock else Comp_conflicts
      | View_extension_setup \<Rightarrow> if \<not> unlocked then Comp_unlock else Comp_setup)"


section \<open>Tasks and the log\<close>

datatype ui_cont =
    UK_timer_lock
  | UK_lock_click
  | UK_unlock nat nat
  | UK_ob_recovery nat account_bundle nat string
  | UK_ob_lock nat account_bundle nat
  | UK_ob_password nat nat
  | UK_form_save nat
  | UK_delete nat id string
  | UK_undo nat
  | UK_copy string
  | UK_decrypt nat nat
  | UK_resolve nat
  | UK_import nat "normalized_item list" nat nat
  | UK_refresh

datatype login_cont =
    L_background
  | L_export nat
  | L_revoke nat id

datatype ui_task =
    UT_session vs_task ui_cont
  | UT_ready ui_cont "vs_result option"
  | UT_login1 nat login_cont
  | UT_login2 nat login_cont
  | UT_ob_register nat string nat
  | UT_ob_setup nat string nat
  | UT_ob_lock nat string string
  | UT_devices nat
  | UT_revoke nat nat
  | UT_encrypted id
  | UT_file nat import_format
  | UT_undo_expiry nat id
  | UT_copy_account nat
  | UT_pull
  | UT_push
  | UT_publish_get nat account_bundle
  | UT_publish_put nat account_bundle nat
  | UT_publish_verify nat account_bundle nat

text \<open>
  What the interface does to the outside, the latest first: announcements, downloads, what the legs
  of an OPAQUE login read from the password buffer, requests to the server; and, so that the theorems can
  speak of them, the confirmations the user typed.
\<close>

datatype ui_event =
    Ev_status string
  | Ev_error string
  | Ev_encrypted_download id "item_record list"
  | Ev_plaintext_confirmed nat
  | Ev_plaintext_download nat "item_data list"
  | Ev_login_start nat login_cont bytes
  | Ev_login_finish nat login_cont bytes
  | Ev_login_ok nat login_cont
  | Ev_bundle_saved account_bundle
  | Ev_delete_requested id string
  | Ev_revoke id
  | Ev_import_save "item_data"
  | Ev_put_bundle account_bundle nat
  | Ev_pull

record ui =
  ui_view :: view
  ui_screen :: screen
  ui_mount :: nat
  ui_session :: vault_session
  ui_storage :: local_storage
  ui_buffers :: "bytes list"
  ui_timer :: "epoch_ms option"
  ui_conflicts :: "conflict list"
  ui_token :: bool
  ui_effects :: nat
  ui_tasks :: "ui_task list"
  ui_log :: "ui_event list"

definition ui_emit :: "ui_event \<Rightarrow> ui \<Rightarrow> ui" where
  "ui_emit e u = u\<lparr>ui_log := e # ui_log u\<rparr>"

definition ui_await :: "ui_task \<Rightarrow> ui \<Rightarrow> ui" where
  "ui_await t u = u\<lparr>ui_tasks := t # ui_tasks u\<rparr>"

text \<open>A handler of instance \<open>m\<close> sets state: nothing happens when the instance is gone.\<close>

definition ui_set :: "nat \<Rightarrow> (screen \<Rightarrow> screen) \<Rightarrow> ui \<Rightarrow> ui" where
  "ui_set m f u = (if ui_mount u = m then u\<lparr>ui_screen := f (ui_screen u)\<rparr> else u)"

fun on_onboarding :: "(onboarding_screen \<Rightarrow> onboarding_screen) \<Rightarrow> screen \<Rightarrow> screen" where
  "on_onboarding f (Scr_onboarding o1) = Scr_onboarding (f o1)"
| "on_onboarding f s = s"

fun on_unlock :: "(unlock_screen \<Rightarrow> unlock_screen) \<Rightarrow> screen \<Rightarrow> screen" where
  "on_unlock f (Scr_unlock x) = Scr_unlock (f x)"
| "on_unlock f s = s"

fun on_vault :: "(vault_screen \<Rightarrow> vault_screen) \<Rightarrow> screen \<Rightarrow> screen" where
  "on_vault f (Scr_vault x) = Scr_vault (f x)"
| "on_vault f s = s"

fun on_import :: "(import_screen \<Rightarrow> import_screen) \<Rightarrow> screen \<Rightarrow> screen" where
  "on_import f (Scr_import x) = Scr_import (f x)"
| "on_import f s = s"

fun on_export :: "(export_screen \<Rightarrow> export_screen) \<Rightarrow> screen \<Rightarrow> screen" where
  "on_export f (Scr_export x) = Scr_export (f x)"
| "on_export f s = s"

fun on_devices :: "(devices_screen \<Rightarrow> devices_screen) \<Rightarrow> screen \<Rightarrow> screen" where
  "on_devices f (Scr_devices x) = Scr_devices (f x)"
| "on_devices f s = s"

fun on_conflicts :: "(conflicts_screen \<Rightarrow> conflicts_screen) \<Rightarrow> screen \<Rightarrow> screen" where
  "on_conflicts f (Scr_conflicts x) = Scr_conflicts (f x)"
| "on_conflicts f s = s"

fun on_setup :: "(setup_screen \<Rightarrow> setup_screen) \<Rightarrow> screen \<Rightarrow> screen" where
  "on_setup f (Scr_setup x) = Scr_setup (f x)"
| "on_setup f s = s"


section \<open>Buffers, session calls and logins\<close>

definition new_buffer :: "bytes \<Rightarrow> ui \<Rightarrow> nat \<times> ui" where
  "new_buffer bs u = (length (ui_buffers u), u\<lparr>ui_buffers := ui_buffers u @ [bs]\<rparr>)"

definition buffer :: "ui \<Rightarrow> nat \<Rightarrow> bytes" where
  "buffer u r = (if r < length (ui_buffers u) then ui_buffers u ! r else [])"

definition fill_zero :: "nat \<Rightarrow> ui \<Rightarrow> ui" where
  "fill_zero r u = u\<lparr>ui_buffers := (ui_buffers u)[r := replicate (length (buffer u r)) 0]\<rparr>"

text \<open>An \<open>await\<close> of a settled promise still lets other work run: its continuation is a task, too.\<close>

definition settle :: "vs_outcome \<Rightarrow> ui_cont \<Rightarrow> ui_task" where
  "settle out k =
     (case out of
        V_await t \<Rightarrow> UT_session t k
      | V_done r \<Rightarrow> UT_ready k (Some r)
      | V_throws \<Rightarrow> UT_ready k None)"

definition call_session :: "vs_call \<Rightarrow> ui_cont \<Rightarrow> ui \<Rightarrow> ui" where
  "call_session c k u =
     (case vs_start c (ui_session u) of (s, out) \<Rightarrow> ui_await (settle out k) (u\<lparr>ui_session := s\<rparr>))"

text \<open>\<open>AuthClient.login\<close> reads the password twice: for its first message, and when the answer is there.\<close>

definition begin_login :: "nat \<Rightarrow> login_cont \<Rightarrow> ui \<Rightarrow> ui" where
  "begin_login r k u = ui_await (UT_login1 r k) (ui_emit (Ev_login_start r k (buffer u r)) u)"

definition current_account :: "ui \<Rightarrow> id" where
  "current_account u = snd (getOrCreateAccountId (ui_storage u) [])"

definition ui_unlocked :: "ui \<Rightarrow> bool" where
  "ui_unlocked u \<longleftrightarrow> isUnlocked (ui_session u)"


section \<open>Mounting and navigation\<close>

definition onboarding_new :: onboarding_screen where
  "onboarding_new = \<lparr>ob_step = Step_form, ob_email = [], ob_recoveryHex = [], ob_error = [], ob_password = None,
     ob_bundle = None\<rparr>"

definition vault_screen_new :: "id option \<Rightarrow> vault_screen" where
  "vault_screen_new initialItemId =
     \<lparr>vv_query = [], vv_selected = initialItemId,
      vv_mode = (if initialItemId \<noteq> None \<and> initialItemId \<noteq> Some [] then Mode_view else Mode_new), vv_undo = None\<rparr>"

definition import_screen_new :: import_screen where
  "import_screen_new = \<lparr>im_format = Format_csv, im_result = None, im_fileError = []\<rparr>"

definition export_screen_new :: export_screen where
  "export_screen_new = \<lparr>ex_stage = Stage_menu, ex_reauthError = []\<rparr>"

definition devices_screen_new :: devices_screen where
  "devices_screen_new = \<lparr>dv_devices = [], dv_error = [], dv_revokeTarget = None\<rparr>"

definition conflicts_screen_new :: conflicts_screen where
  "conflicts_screen_new = \<lparr>cv_index = 0, cv_decrypted = None, cv_error = [], cv_effect = 0\<rparr>"

definition setup_screen_new :: setup_screen where
  "setup_screen_new = \<lparr>es_status = Pub_idle, es_copied = False\<rparr>"

definition view_item :: "view \<Rightarrow> id option" where
  "view_item v = (case v of View_vault i \<Rightarrow> i | _ \<Rightarrow> None)"

definition ui_mounted :: "screen \<Rightarrow> ui \<Rightarrow> ui" where
  "ui_mounted s u = u\<lparr>ui_mount := Suc (ui_mount u), ui_screen := s\<rparr>"

text \<open>The effect of \<open>Conflicts\<close>, run on mount and when \<open>index\<close> or \<open>conflicts\<close> changes; it cancels the one before.\<close>

definition conflict_effect :: "ui \<Rightarrow> ui" where
  "conflict_effect u =
     (case ui_screen u of
        Scr_conflicts c \<Rightarrow>
          (let e = Suc (ui_effects u);
               u1 = u\<lparr>ui_effects := e, ui_screen := Scr_conflicts (c\<lparr>cv_effect := e\<rparr>)\<rparr>
           in if length (ui_conflicts u) \<le> cv_index c
              then u1\<lparr>ui_screen := Scr_conflicts (c\<lparr>cv_effect := e, cv_decrypted := None\<rparr>)\<rparr>
              else call_session (Call_decrypt (ui_conflicts u ! cv_index c)) (UK_decrypt (ui_mount u) e) u1)
      | _ \<Rightarrow> u)"

text \<open>\<open>json_parse\<close> is the platform's; \<open>Unlock\<close> without a stored bundle navigates to \<open>Onboarding\<close> on mount.\<close>

definition mount_unlock :: "(ustring \<Rightarrow> jsval option) \<Rightarrow> ui \<Rightarrow> ui" where
  "mount_unlock json_parse u =
     (case loadAccountBundle json_parse (current_account u) (ui_storage u) of
        None \<Rightarrow> ui_mounted Scr_crashed u
      | Some None \<Rightarrow>
          ui_mounted (Scr_onboarding onboarding_new)
            ((ui_mounted (Scr_unlock \<lparr>un_bundle = None, un_error = []\<rparr>) u)\<lparr>ui_view := View_onboarding\<rparr>)
      | Some (Some b) \<Rightarrow> ui_mounted (Scr_unlock \<lparr>un_bundle = Some b, un_error = []\<rparr>) u)"

definition mount_component :: "(ustring \<Rightarrow> jsval option) \<Rightarrow> component \<Rightarrow> ui \<Rightarrow> ui" where
  "mount_component json_parse c u =
     (case c of
        Comp_onboarding \<Rightarrow> ui_mounted (Scr_onboarding onboarding_new) u
      | Comp_unlock \<Rightarrow> mount_unlock json_parse u
      | Comp_vault \<Rightarrow> ui_mounted (Scr_vault (vault_screen_new (view_item (ui_view u)))) u
      | Comp_import \<Rightarrow> ui_mounted (Scr_import import_screen_new) u
      | Comp_export \<Rightarrow> ui_mounted (Scr_export export_screen_new) u
      | Comp_devices \<Rightarrow> (let u1 = ui_mounted (Scr_devices devices_screen_new) u in ui_await (UT_devices (ui_mount u1)) u1)
      | Comp_conflicts \<Rightarrow> conflict_effect (ui_mounted (Scr_conflicts conflicts_screen_new) u)
      | Comp_setup \<Rightarrow> ui_mounted (Scr_setup setup_screen_new) u)"

text \<open>A component of the same type keeps its state; a crashed tree stays empty.\<close>

definition app_render :: "(ustring \<Rightarrow> jsval option) \<Rightarrow> ui \<Rightarrow> ui" where
  "app_render json_parse u =
     (let c = app_component (ui_view u) (ui_unlocked u)
      in if ui_screen u = Scr_crashed \<or> screen_component (ui_screen u) = Some c then u
         else mount_component json_parse c u)"

definition navigate :: "(ustring \<Rightarrow> jsval option) \<Rightarrow> view \<Rightarrow> ui \<Rightarrow> ui" where
  "navigate json_parse v u = app_render json_parse (u\<lparr>ui_view := v\<rparr>)"

definition setPendingConflicts :: "(ustring \<Rightarrow> jsval option) \<Rightarrow> conflict list \<Rightarrow> ui \<Rightarrow> ui" where
  "setPendingConflicts json_parse cs u =
     (let u1 = u\<lparr>ui_conflicts := cs\<rparr>; u2 = app_render json_parse u1
      in if ui_mount u2 = ui_mount u1 then conflict_effect u2 else u2)"

text \<open>The first render of \<open>App\<close>; \<open>createAppDeps\<close> has created the account identifier before.\<close>

definition ui_boot :: "(ustring \<Rightarrow> jsval option) \<Rightarrow> local_storage \<Rightarrow> bytes \<Rightarrow> ui" where
  "ui_boot json_parse storage rnd =
     (case getOrCreateAccountId storage rnd of
        (storage', accountId) \<Rightarrow>
          (let v = (if hasAccountBundle accountId storage' then View_unlock else View_onboarding)
           in mount_component json_parse (app_component v False)
                \<lparr>ui_view = v, ui_screen = Scr_onboarding onboarding_new, ui_mount = 0, ui_session = vault_session_new,
                 ui_storage = storage', ui_buffers = [], ui_timer = None, ui_conflicts = [], ui_token = False,
                 ui_effects = 0, ui_tasks = [], ui_log = []\<rparr>))"

end
