(* ===== verification/Web_Views.thy ===== *)
theory Web_Views
  imports Web_Ui
begin

text \<open>
  The handlers of \<open>App.tsx\<close> and of the views, and the runs of the interface: \<open>ui_handle\<close> applies one
  input, an event of the user or the platform or the settlement of a task under way.  A handler runs
  only if the element it belongs to is on the screen.
\<close>

type_synonym json_reader = "ustring \<Rightarrow> jsval option"


section \<open>App: inactivity and synchronisation\<close>

definition INACTIVITY_LOCK_MS :: int where
  "INACTIVITY_LOCK_MS = 5 * 60000"

definition resetInactivityTimer :: "epoch_ms \<Rightarrow> ui \<Rightarrow> ui" where
  "resetInactivityTimer now u = u\<lparr>ui_timer := Some (now + INACTIVITY_LOCK_MS)\<rparr>"

definition handleActivity :: "epoch_ms \<Rightarrow> ui \<Rightarrow> ui" where
  "handleActivity now u = (if ui_unlocked u then resetInactivityTimer now u else u)"

definition timer_fires :: "epoch_ms \<Rightarrow> ui \<Rightarrow> ui" where
  "timer_fires now u =
     (case ui_timer u of
        None \<Rightarrow> u
      | Some d \<Rightarrow>
          if now < d then u
          else (let u1 = u\<lparr>ui_timer := None\<rparr> in if ui_unlocked u1 then call_session Call_lock UK_timer_lock u1 else u1))"

definition syncNow :: "ui \<Rightarrow> ui" where
  "syncNow u = (if \<not> ui_unlocked u then u else ui_await UT_pull (ui_emit Ev_pull u))"

definition sync_pulled :: "bool \<Rightarrow> ui \<Rightarrow> ui" where
  "sync_pulled ok u = (if ok then ui_await UT_push u else u)"

text \<open>The outcomes of \<open>pushAll\<close>: the conflicts among them, in order.\<close>

definition sync_pushed :: "json_reader \<Rightarrow> conflict option list option \<Rightarrow> ui \<Rightarrow> ui" where
  "sync_pushed jp outcomes u =
     (case outcomes of
        None \<Rightarrow> u
      | Some os \<Rightarrow>
          (let conflicts = map the (filter (\<lambda>c. c \<noteq> None) os);
               u1 = (if length conflicts > 0
                     then ui_emit (Ev_error (string_of_nat (length conflicts) @ '' sync conflict(s) need your attention.''))
                            (setPendingConflicts jp conflicts u)
                     else u)
           in call_session Call_refresh UK_refresh u1))"


section \<open>Onboarding\<close>

definition encode_bytes :: "ustring \<Rightarrow> bytes" where
  "encode_bytes s = map word_of_nat (text_encode s)"

definition ob_fail :: "nat \<Rightarrow> string \<Rightarrow> ui \<Rightarrow> ui" where
  "ob_fail m message u = ui_emit (Ev_error message) (ui_set m (on_onboarding (\<lambda>o1. o1\<lparr>ob_error := message\<rparr>)) u)"

definition onboarding_submit :: "string \<Rightarrow> ustring \<Rightarrow> ustring \<Rightarrow> ui \<Rightarrow> ui" where
  "onboarding_submit email password confirm u =
     (case ui_screen u of
        Scr_onboarding o1 \<Rightarrow>
          if ob_step o1 \<noteq> Step_form then u
          else if length password < 12
          then ui_set (ui_mount u) (on_onboarding (\<lambda>o1. o1\<lparr>ob_error := ''Master password must be at least 12 characters.''\<rparr>)) u
          else if password \<noteq> confirm
          then ui_set (ui_mount u) (on_onboarding (\<lambda>o1. o1\<lparr>ob_error := ''Passwords do not match.''\<rparr>)) u
          else (case new_buffer (encode_bytes password) u of
                  (r, u1) \<Rightarrow> ui_await (UT_ob_register (ui_mount u) email r) (ui_emit (Ev_status ''Creating your account...'') u1))
      | _ \<Rightarrow> u)"

definition ob_registered :: "nat \<Rightarrow> string \<Rightarrow> nat \<Rightarrow> string option \<Rightarrow> ui \<Rightarrow> ui" where
  "ob_registered m email r err u =
     (case err of None \<Rightarrow> ui_await (UT_ob_setup m email r) u | Some message \<Rightarrow> ob_fail m message u)"

text \<open>The bundle of the worker's answer; the references of the component are lost with it.\<close>

definition ob_setup_done :: "nat \<Rightarrow> string \<Rightarrow> nat \<Rightarrow> string + account_bundle \<times> bytes \<Rightarrow> ui \<Rightarrow> ui" where
  "ob_setup_done m email r answer u =
     (case answer of
        Inl message \<Rightarrow> ob_fail m message u
      | Inr (bundle, recoveryKey) \<Rightarrow>
          ui_await (UT_ob_lock m email (toProvisionalHex recoveryKey))
            (ui_set m (on_onboarding (\<lambda>o1. o1\<lparr>ob_bundle := Some bundle, ob_password := Some r\<rparr>)) u))"

definition ob_revealed :: "nat \<Rightarrow> string \<Rightarrow> string \<Rightarrow> string option \<Rightarrow> ui \<Rightarrow> ui" where
  "ob_revealed m email hex err u =
     (case err of
        None \<Rightarrow> ui_set m (on_onboarding (\<lambda>o1. o1\<lparr>ob_email := email, ob_recoveryHex := hex, ob_error := [], ob_step := Step_reveal\<rparr>)) u
      | Some message \<Rightarrow> ob_fail m message u)"

definition reveal_continue :: "ui \<Rightarrow> ui" where
  "reveal_continue u =
     (case ui_screen u of
        Scr_onboarding o1 \<Rightarrow>
          if ob_step o1 = Step_reveal then u\<lparr>ui_screen := Scr_onboarding (o1\<lparr>ob_step := Step_confirm, ob_error := []\<rparr>)\<rparr> else u
      | _ \<Rightarrow> u)"

definition reveal_again :: "ui \<Rightarrow> ui" where
  "reveal_again u =
     (case ui_screen u of
        Scr_onboarding o1 \<Rightarrow>
          if ob_step o1 = Step_confirm then u\<lparr>ui_screen := Scr_onboarding (o1\<lparr>ob_step := Step_reveal\<rparr>)\<rparr> else u
      | _ \<Rightarrow> u)"

definition MISMATCH_MESSAGE :: string where
  "MISMATCH_MESSAGE = ''That doesn't match the recovery key shown. Please re-check and try again.''"

definition confirm_submit :: "string \<Rightarrow> ui \<Rightarrow> ui" where
  "confirm_submit typed u =
     (case ui_screen u of
        Scr_onboarding o1 \<Rightarrow>
          if ob_step o1 \<noteq> Step_confirm then u
          else (case (ob_bundle o1, ob_password o1) of
                  (Some bundle, Some r) \<Rightarrow>
                    (case fromProvisionalHex typed of
                       None \<Rightarrow> ob_fail (ui_mount u) MISMATCH_MESSAGE u
                     | Some entered \<Rightarrow>
                         call_session (Call_unlock (bundle\<lparr>ab_wrappedAccountKey := ab_wrappedRecoveryKey bundle\<rparr>))
                           (UK_ob_recovery (ui_mount u) bundle r (ob_email o1)) u)
                | _ \<Rightarrow> u)
      | _ \<Rightarrow> u)"


section \<open>Unlock\<close>

definition unlock_form_submit :: "ustring \<Rightarrow> ui \<Rightarrow> ui" where
  "unlock_form_submit password u =
     (case ui_screen u of
        Scr_unlock x \<Rightarrow>
          (case un_bundle x of
             None \<Rightarrow> u
           | Some bundle \<Rightarrow>
               (case new_buffer (encode_bytes password) u of
                  (r, u1) \<Rightarrow> call_session (Call_unlock bundle) (UK_unlock (ui_mount u) r) u1))
      | _ \<Rightarrow> u)"

text \<open>
  After \<open>unlockWithPassword\<close>: the login is started but not awaited, so the \<open>finally\<close> block wipes the
  buffer before its second leg.
\<close>

definition unlock_done :: "json_reader \<Rightarrow> epoch_ms \<Rightarrow> nat \<Rightarrow> nat \<Rightarrow> vs_result option \<Rightarrow> ui \<Rightarrow> ui" where
  "unlock_done jp now m r result u =
     fill_zero r
       (case result of
          Some _ \<Rightarrow>
            navigate jp (View_vault None)
              (begin_login r L_background (syncNow (resetInactivityTimer now (ui_emit (Ev_status ''Vault unlocked.'') u))))
        | None \<Rightarrow>
            ui_emit (Ev_error ''Incorrect password.'') (ui_set m (on_unlock (\<lambda>x. x\<lparr>un_error := ''Incorrect password.''\<rparr>)) u))"


section \<open>Vault\<close>

datatype vault_panel =
    Panel_new
  | Panel_hint
  | Panel_missing
  | Panel_edit id
  | Panel_delete id item_data
  | Panel_item id item_data

definition detail_view :: "vault_session \<Rightarrow> vault_screen \<Rightarrow> vault_panel" where
  "detail_view s v =
     (if vv_mode v = Mode_new then Panel_new
      else case vv_selected v of
             None \<Rightarrow> Panel_hint
           | Some i \<Rightarrow>
               if i = [] then Panel_hint
               else (case getItemData s i of
                       None \<Rightarrow> Panel_missing
                     | Some d \<Rightarrow>
                         (case vv_mode v of
                            Mode_edit \<Rightarrow> Panel_edit i
                          | Mode_delete \<Rightarrow> Panel_delete i d
                          | _ \<Rightarrow> Panel_item i d)))"

definition vault_list :: "vault_session \<Rightarrow> vault_screen \<Rightarrow> search_entry list" where
  "vault_list s v = vs_search s (vv_query v)"

definition with_vault :: "(vault_screen \<Rightarrow> ui) \<Rightarrow> ui \<Rightarrow> ui" where
  "with_vault f u = (case ui_screen u of Scr_vault v \<Rightarrow> f v | _ \<Rightarrow> u)"

definition set_vault :: "vault_screen \<Rightarrow> ui \<Rightarrow> ui" where
  "set_vault v u = u\<lparr>ui_screen := Scr_vault v\<rparr>"

definition new_item_click :: "ui \<Rightarrow> ui" where
  "new_item_click u = with_vault (\<lambda>v. set_vault (v\<lparr>vv_mode := Mode_new, vv_selected := None\<rparr>) u) u"

definition lock_button_click :: "ui \<Rightarrow> ui" where
  "lock_button_click u = with_vault (\<lambda>v. call_session Call_lock UK_lock_click u) u"

definition search_change :: "string \<Rightarrow> ui \<Rightarrow> ui" where
  "search_change q u = with_vault (\<lambda>v. set_vault (v\<lparr>vv_query := q\<rparr>) u) u"

definition row_click :: "id \<Rightarrow> ui \<Rightarrow> ui" where
  "row_click i u =
     with_vault (\<lambda>v. if i \<in> set (map se_itemId (vault_list (ui_session u) v))
                     then set_vault (v\<lparr>vv_selected := Some i, vv_mode := Mode_view\<rparr>) u else u) u"

definition item_edit_click :: "ui \<Rightarrow> ui" where
  "item_edit_click u =
     with_vault (\<lambda>v. case detail_view (ui_session u) v of Panel_item _ _ \<Rightarrow> set_vault (v\<lparr>vv_mode := Mode_edit\<rparr>) u | _ \<Rightarrow> u) u"

definition item_delete_click :: "ui \<Rightarrow> ui" where
  "item_delete_click u =
     with_vault (\<lambda>v. case detail_view (ui_session u) v of Panel_item _ _ \<Rightarrow> set_vault (v\<lparr>vv_mode := Mode_delete\<rparr>) u | _ \<Rightarrow> u) u"

definition delete_cancel :: "ui \<Rightarrow> ui" where
  "delete_cancel u =
     with_vault (\<lambda>v. case detail_view (ui_session u) v of Panel_delete _ _ \<Rightarrow> set_vault (v\<lparr>vv_mode := Mode_view\<rparr>) u | _ \<Rightarrow> u) u"

definition delete_submit :: "string \<Rightarrow> ui \<Rightarrow> ui" where
  "delete_submit typed u =
     with_vault (\<lambda>v. case detail_view (ui_session u) v of
          Panel_delete i d \<Rightarrow>
            if typed \<noteq> d_title d then u
            else call_session (Call_delete i) (UK_delete (ui_mount u) i (d_title d)) (ui_emit (Ev_delete_requested i typed) u)
        | _ \<Rightarrow> u) u"

text \<open>Form fields: an empty one is \<open>undefined\<close>.\<close>

record item_form =
  fo_type :: string
  fo_title :: string
  fo_username :: string
  fo_password :: string
  fo_url :: string
  fo_notes :: string
  fo_totpSecret :: string

definition non_empty :: "string \<Rightarrow> string option" where
  "non_empty s = (if s = [] then None else Some s)"

definition form_item :: "item_form \<Rightarrow> item_data" where
  "form_item f = \<lparr>d_type = (if fo_type f = [] then ''login'' else fo_type f), d_title = fo_title f,
     d_username = non_empty (fo_username f), d_password = non_empty (fo_password f), d_url = non_empty (fo_url f),
     d_notes = non_empty (fo_notes f), d_totpSecret = non_empty (fo_totpSecret f)\<rparr>"

definition form_target :: "vault_panel \<Rightarrow> id option option" where
  "form_target p = (case p of Panel_new \<Rightarrow> Some None | Panel_edit i \<Rightarrow> Some (Some i) | _ \<Rightarrow> None)"

definition item_form_submit :: "item_form \<Rightarrow> id \<Rightarrow> ui \<Rightarrow> ui" where
  "item_form_submit f uuid u =
     with_vault (\<lambda>v. case form_target (detail_view (ui_session u) v) of
          None \<Rightarrow> u
        | Some target \<Rightarrow> call_session (Call_save (form_item f) target uuid) (UK_form_save (ui_mount u)) u) u"

definition item_form_cancel :: "ui \<Rightarrow> ui" where
  "item_form_cancel u =
     with_vault (\<lambda>v. case form_target (detail_view (ui_session u) v) of
          None \<Rightarrow> u
        | Some None \<Rightarrow> set_vault (v\<lparr>vv_mode := Mode_new, vv_selected := None\<rparr>) u
        | Some (Some i) \<Rightarrow> set_vault (v\<lparr>vv_mode := Mode_view\<rparr>) u) u"

text \<open>The form's own error line goes with the form and is not kept; the announcement is.\<close>

definition item_saved :: "string \<Rightarrow> nat \<Rightarrow> vs_result option \<Rightarrow> ui \<Rightarrow> ui" where
  "item_saved err m result u =
     (case result of
        Some (R_id i) \<Rightarrow>
          ui_emit (Ev_status ''Item saved.'') (ui_set m (on_vault (\<lambda>v. v\<lparr>vv_selected := Some i, vv_mode := Mode_view\<rparr>)) u)
      | _ \<Rightarrow> ui_emit (Ev_error err) u)"

definition offerUndo :: "nat \<Rightarrow> id \<Rightarrow> id \<Rightarrow> string \<Rightarrow> ui \<Rightarrow> ui" where
  "offerUndo m mutationId item title u =
     ui_await (UT_undo_expiry m mutationId)
       (ui_set m (on_vault (\<lambda>v. v\<lparr>vv_undo := Some \<lparr>uo_mutationId = mutationId, uo_itemId = item, uo_title = title\<rparr>\<rparr>))
         (ui_emit (Ev_status ([CHR 0x22] @ title @ [CHR 0x22] @ '' deleted. Undo available while still unsynced.'')) u))"

definition item_deleted :: "nat \<Rightarrow> id \<Rightarrow> string \<Rightarrow> vs_result option \<Rightarrow> ui \<Rightarrow> ui" where
  "item_deleted m i title result u =
     (case result of
        Some (R_id mutationId) \<Rightarrow>
          offerUndo m mutationId i title
            (ui_emit (Ev_status ''Item deleted.'') (ui_set m (on_vault (\<lambda>v. v\<lparr>vv_selected := None, vv_mode := Mode_view\<rparr>)) u))
      | _ \<Rightarrow> u)"

definition undo_click :: "ui \<Rightarrow> ui" where
  "undo_click u =
     with_vault (\<lambda>v. case vv_undo v of
          None \<Rightarrow> u
        | Some o1 \<Rightarrow> call_session (Call_undo (uo_mutationId o1) (uo_itemId o1)) (UK_undo (ui_mount u)) u) u"

text \<open>In the second announcement the source has a dash where the model has a comma.\<close>

definition undo_done :: "nat \<Rightarrow> vs_result option \<Rightarrow> ui \<Rightarrow> ui" where
  "undo_done m result u =
     (case result of
        Some (R_bool undone) \<Rightarrow>
          (let u1 = ui_set m (on_vault (\<lambda>v. v\<lparr>vv_undo := None\<rparr>)) u
           in if undone then ui_emit (Ev_status ''Delete undone.'') u1
              else ui_emit (Ev_error ''Too late to undo, it already synced.'') u1)
      | _ \<Rightarrow> u)"

definition undo_expires :: "nat \<Rightarrow> id \<Rightarrow> ui \<Rightarrow> ui" where
  "undo_expires m mutationId u =
     ui_set m (on_vault (\<lambda>v. v\<lparr>vv_undo := (case vv_undo v of
          Some o1 \<Rightarrow> if uo_mutationId o1 = mutationId then None else Some o1 | None \<Rightarrow> None)\<rparr>)) u"

text \<open>The copyable fields of \<open>ItemView\<close>.\<close>

definition copyable :: "item_data \<Rightarrow> (string \<times> string) list" where
  "copyable d =
     (if truthy (d_username d) then [(''Username'', the (d_username d))] else []) @
     (if truthy (d_password d) then [(''Password'', the (d_password d))] else [])"

definition copy_click :: "string \<Rightarrow> ui \<Rightarrow> ui" where
  "copy_click label u =
     with_vault (\<lambda>v. case detail_view (ui_session u) v of
          Panel_item i d \<Rightarrow>
            (case map_of (copyable d) label of None \<Rightarrow> u | Some x \<Rightarrow> call_session (Call_copy x) (UK_copy label) u)
        | _ \<Rightarrow> u) u"

text \<open>The button of \<open>TotpDisplay\<close>, which copies the code that is shown.\<close>

definition totp_copy_click :: "string \<Rightarrow> ui \<Rightarrow> ui" where
  "totp_copy_click code u =
     with_vault (\<lambda>v. case detail_view (ui_session u) v of
          Panel_item i d \<Rightarrow>
            if d_type d = ''totp-login'' \<and> truthy (d_totpSecret d) then call_session (Call_copy code) (UK_copy ''TOTP code'') u
            else u
        | _ \<Rightarrow> u) u"

text \<open>The generator panel: a length that is not a number, or zero, becomes 12.\<close>

definition generator_length_change :: "int option \<Rightarrow> generator_options \<Rightarrow> generator_options" where
  "generator_length_change typed opts =
     opts\<lparr>go_length := (case typed of None \<Rightarrow> 12 | Some n \<Rightarrow> if n = 0 then 12 else n)\<rparr>"

fun generator_class_change :: "char_class \<Rightarrow> bool \<Rightarrow> generator_options \<Rightarrow> generator_options" where
  "generator_class_change Upper on opts = opts\<lparr>go_upper := on\<rparr>"
| "generator_class_change Lower on opts = opts\<lparr>go_lower := on\<rparr>"
| "generator_class_change Digits on opts = opts\<lparr>go_digits := on\<rparr>"
| "generator_class_change Symbols on opts = opts\<lparr>go_symbols := on\<rparr>"

definition generate_click :: "generator_options \<Rightarrow> source \<Rightarrow> item_form \<Rightarrow> item_form drawn" where
  "generate_click opts src f =
     drawn_bind (generatePassword opts src) (\<lambda>pw src'. Some (Inr (f\<lparr>fo_password := pw\<rparr>, src')))"

text \<open>One round of \<open>TotpDisplay\<close>: the code and the seconds shown.\<close>

definition totp_update ::
  "(totp_algorithm \<Rightarrow> bytes \<Rightarrow> bytes \<Rightarrow> bytes) \<Rightarrow> string \<Rightarrow> epoch_ms \<Rightarrow> bool \<Rightarrow> string \<times> string \<Rightarrow> string \<times> string" where
  "totp_update hmac secret now cancelled shown =
     (if cancelled then shown
      else case computeTotp hmac secret TOTP_DEFAULTS now of
             Inr code \<Rightarrow>
               (code, '' ('' @ string_of_int (secondsRemaining (opt_periodSeconds TOTP_DEFAULTS) now) @ ''s)'')
           | Inl _ \<Rightarrow> (''invalid secret'', snd shown))"


section \<open>Import\<close>

definition import_normalize :: "(string \<Rightarrow> string + jsval) \<Rightarrow> import_format \<Rightarrow> string \<Rightarrow> import_error + normalize_result" where
  "import_normalize json_parse fmt text =
     (case fmt of
        Format_csv \<Rightarrow> normalizeCsv text
      | Format_bitwarden \<Rightarrow> normalizeBitwardenJson json_parse text
      | Format_1password \<Rightarrow> normalizeOnePasswordCsv text
      | Format_enpass \<Rightarrow> normalizeEnpassJson json_parse text)"

definition toVaultData :: "normalized_item \<Rightarrow> item_data" where
  "toVaultData item =
     \<lparr>d_type = (if n_totp item \<noteq> None then ''totp-login''
                else if truthy (n_username item) \<or> truthy (n_password item) then ''login'' else ''note''),
      d_title = n_title item, d_username = n_username item, d_password = n_password item, d_url = n_url item,
      d_notes = n_notes item, d_totpSecret = map_option nt_secret (n_totp item)\<rparr>"

definition format_change :: "import_format \<Rightarrow> ui \<Rightarrow> ui" where
  "format_change fmt u =
     (case ui_screen u of
        Scr_import x \<Rightarrow> u\<lparr>ui_screen := Scr_import (x\<lparr>im_format := fmt, im_result := None\<rparr>)\<rparr>
      | _ \<Rightarrow> u)"

definition file_change :: "ui \<Rightarrow> ui" where
  "file_change u =
     (case ui_screen u of Scr_import x \<Rightarrow> ui_await (UT_file (ui_mount u) (im_format x)) u | _ \<Rightarrow> u)"

definition file_read :: "(string \<Rightarrow> string + jsval) \<Rightarrow> nat \<Rightarrow> import_format \<Rightarrow> string option \<Rightarrow> ui \<Rightarrow> ui" where
  "file_read json_parse m fmt text u =
     (case text of
        None \<Rightarrow> ui_set m (on_import (\<lambda>x. x\<lparr>im_result := None, im_fileError := ''Could not parse this file.''\<rparr>)) u
      | Some t \<Rightarrow>
          (case import_normalize json_parse fmt t of
             Inr res \<Rightarrow> ui_set m (on_import (\<lambda>x. x\<lparr>im_result := Some res, im_fileError := []\<rparr>)) u
           | Inl (ImportSizeError message) \<Rightarrow>
               ui_set m (on_import (\<lambda>x. x\<lparr>im_result := None, im_fileError := message\<rparr>)) u))"

definition import_status :: "nat \<Rightarrow> nat \<Rightarrow> string" where
  "import_status imported failed =
     ''Imported '' @ string_of_nat imported @
     (if failed > 0 then '' item(s); '' @ string_of_nat failed @ '' could not be saved.'' else '' item(s).'')"

text \<open>The loop of \<open>handleImport\<close>: the next save, or the announcement.\<close>

definition import_next :: "json_reader \<Rightarrow> id \<Rightarrow> nat \<Rightarrow> normalized_item list \<Rightarrow> nat \<Rightarrow> nat \<Rightarrow> ui \<Rightarrow> ui" where
  "import_next jp uuid m items imported failed u =
     (case items of
        [] \<Rightarrow> navigate jp (View_vault None) (ui_emit (Ev_status (import_status imported failed)) u)
      | i # is \<Rightarrow>
          call_session (Call_save (toVaultData i) None uuid) (UK_import m is imported failed)
            (ui_emit (Ev_import_save (toVaultData i)) u))"

definition import_click :: "json_reader \<Rightarrow> id \<Rightarrow> ui \<Rightarrow> ui" where
  "import_click jp uuid u =
     (case ui_screen u of
        Scr_import x \<Rightarrow> (case im_result x of None \<Rightarrow> u | Some res \<Rightarrow> import_next jp uuid (ui_mount u) (r_items res) 0 0 u)
      | _ \<Rightarrow> u)"

definition import_saved ::
  "json_reader \<Rightarrow> id \<Rightarrow> nat \<Rightarrow> normalized_item list \<Rightarrow> nat \<Rightarrow> nat \<Rightarrow> vs_result option \<Rightarrow> ui \<Rightarrow> ui" where
  "import_saved jp uuid m items imported failed result u =
     (case result of
        Some _ \<Rightarrow> import_next jp uuid m items (imported + 1) failed u
      | None \<Rightarrow> import_next jp uuid m items imported (failed + 1) u)"


section \<open>Export\<close>

definition plaintext_rows :: "vault_session \<Rightarrow> item_data list" where
  "plaintext_rows s = List.map_filter (\<lambda>e. getItemData s (se_itemId e)) (listVisible s)"

definition encrypted_click :: "ui \<Rightarrow> ui" where
  "encrypted_click u =
     (case ui_screen u of
        Scr_export x \<Rightarrow>
          if ex_stage x \<noteq> Stage_menu then u
          else (case vs_bundle (ui_session u) of None \<Rightarrow> u | Some b \<Rightarrow> ui_await (UT_encrypted (ab_vaultId b)) u)
      | _ \<Rightarrow> u)"

definition encrypted_listed :: "id \<Rightarrow> item_record list option \<Rightarrow> ui \<Rightarrow> ui" where
  "encrypted_listed vault items u =
     (case items of
        None \<Rightarrow> u
      | Some is \<Rightarrow> ui_emit (Ev_status ''Encrypted export downloaded.'') (ui_emit (Ev_encrypted_download vault is) u))"

definition set_export :: "export_screen \<Rightarrow> ui \<Rightarrow> ui" where
  "set_export x u = u\<lparr>ui_screen := Scr_export x\<rparr>"

definition plaintext_click :: "ui \<Rightarrow> ui" where
  "plaintext_click u =
     (case ui_screen u of
        Scr_export x \<Rightarrow> if ex_stage x = Stage_menu then set_export (x\<lparr>ex_stage := Stage_confirm\<rparr>) u else u
      | _ \<Rightarrow> u)"

definition export_confirm_submit :: "string \<Rightarrow> ui \<Rightarrow> ui" where
  "export_confirm_submit typed u =
     (case ui_screen u of
        Scr_export x \<Rightarrow>
          if ex_stage x \<noteq> Stage_confirm then u
          else if typed \<noteq> ''EXPORT PLAINTEXT'' then u
          else ui_emit (Ev_plaintext_confirmed (ui_mount u)) (set_export (x\<lparr>ex_stage := Stage_reauth\<rparr>) u)
      | _ \<Rightarrow> u)"

definition export_cancel :: "ui \<Rightarrow> ui" where
  "export_cancel u =
     (case ui_screen u of
        Scr_export x \<Rightarrow> if ex_stage x = Stage_menu then u else set_export (x\<lparr>ex_stage := Stage_menu\<rparr>) u
      | _ \<Rightarrow> u)"

definition reauth_submit :: "ustring \<Rightarrow> ui \<Rightarrow> ui" where
  "reauth_submit password u =
     (case ui_screen u of
        Scr_export x \<Rightarrow>
          if ex_stage x \<noteq> Stage_reauth then u
          else (case new_buffer (encode_bytes password) u of (r, u1) \<Rightarrow> begin_login r (L_export (ui_mount u)) u1)
      | _ \<Rightarrow> u)"

definition reauth_done :: "nat \<Rightarrow> nat \<Rightarrow> bool \<Rightarrow> ui \<Rightarrow> ui" where
  "reauth_done m r ok u =
     fill_zero r
       (if ok
        then ui_set m (on_export (\<lambda>x. x\<lparr>ex_stage := Stage_menu\<rparr>))
               (ui_emit (Ev_status ''Plaintext export downloaded.'')
                 (ui_emit (Ev_plaintext_download m (plaintext_rows (ui_session u))) u))
        else ui_emit (Ev_error ''Re-authentication failed.'')
               (ui_set m (on_export (\<lambda>x. x\<lparr>ex_reauthError := ''Re-authentication failed.''\<rparr>)) u))"


section \<open>Devices\<close>

definition devices_loaded :: "nat \<Rightarrow> ui_device list option \<Rightarrow> ui \<Rightarrow> ui" where
  "devices_loaded m answer u =
     (case answer of
        Some ds \<Rightarrow> ui_set m (on_devices (\<lambda>x. x\<lparr>dv_devices := ds, dv_error := []\<rparr>)) u
      | None \<Rightarrow>
          ui_set m (on_devices (\<lambda>x. x\<lparr>dv_error := ''Could not load devices (are you online and logged in?).''\<rparr>)) u)"

definition revoke_click :: "id \<Rightarrow> ui \<Rightarrow> ui" where
  "revoke_click i u =
     (case ui_screen u of
        Scr_devices x \<Rightarrow>
          if list_ex (\<lambda>d. ud_deviceId d = i \<and> \<not> truthy (ud_revokedAt d)) (dv_devices x)
          then u\<lparr>ui_screen := Scr_devices (x\<lparr>dv_revokeTarget := Some i\<rparr>)\<rparr> else u
      | _ \<Rightarrow> u)"

definition revoke_cancel :: "ui \<Rightarrow> ui" where
  "revoke_cancel u =
     (case ui_screen u of Scr_devices x \<Rightarrow> u\<lparr>ui_screen := Scr_devices (x\<lparr>dv_revokeTarget := None\<rparr>)\<rparr> | _ \<Rightarrow> u)"

definition revoke_submit :: "ustring \<Rightarrow> ui \<Rightarrow> ui" where
  "revoke_submit password u =
     (case ui_screen u of
        Scr_devices x \<Rightarrow>
          (case dv_revokeTarget x of
             None \<Rightarrow> u
           | Some i \<Rightarrow>
               (case new_buffer (encode_bytes password) u of (r, u1) \<Rightarrow> begin_login r (L_revoke (ui_mount u) i) u1))
      | _ \<Rightarrow> u)"

definition revoke_fail :: "nat \<Rightarrow> nat \<Rightarrow> ui \<Rightarrow> ui" where
  "revoke_fail m r u =
     (let message = ''Could not revoke device (re-authentication failed).''
      in fill_zero r (ui_emit (Ev_error message) (ui_set m (on_devices (\<lambda>x. x\<lparr>dv_error := message\<rparr>)) u)))"

definition revoke_login_done :: "nat \<Rightarrow> nat \<Rightarrow> id \<Rightarrow> bool \<Rightarrow> ui \<Rightarrow> ui" where
  "revoke_login_done m r i ok u = (if ok then ui_await (UT_revoke m r) (ui_emit (Ev_revoke i) u) else revoke_fail m r u)"

definition revoke_done :: "nat \<Rightarrow> nat \<Rightarrow> bool \<Rightarrow> ui \<Rightarrow> ui" where
  "revoke_done m r ok u =
     (if ok
      then fill_zero r (ui_await (UT_devices m)
             (ui_emit (Ev_status ''Device revoked.'') (ui_set m (on_devices (\<lambda>x. x\<lparr>dv_revokeTarget := None\<rparr>)) u)))
      else revoke_fail m r u)"


section \<open>Logins\<close>

definition login_settled :: "nat \<Rightarrow> login_cont \<Rightarrow> bool \<Rightarrow> ui \<Rightarrow> ui" where
  "login_settled r k ok u =
     (case k of
        L_background \<Rightarrow>
          if ok then u
          else ui_emit (Ev_status ''Unlocked offline. Sync will resume when a connection is available.'') u
      | L_export m \<Rightarrow> reauth_done m r ok u
      | L_revoke m i \<Rightarrow> revoke_login_done m r i ok u)"

text \<open>The first answer: the second leg reads the buffer again.\<close>

definition login_leg1 :: "nat \<Rightarrow> login_cont \<Rightarrow> bool \<Rightarrow> ui \<Rightarrow> ui" where
  "login_leg1 r k ok u =
     (if ok then ui_await (UT_login2 r k) (ui_emit (Ev_login_finish r k (buffer u r)) u) else login_settled r k False u)"

definition login_leg2 :: "nat \<Rightarrow> login_cont \<Rightarrow> bool \<Rightarrow> ui \<Rightarrow> ui" where
  "login_leg2 r k ok u =
     (if ok then login_settled r k True ((ui_emit (Ev_login_ok r k) u)\<lparr>ui_token := True\<rparr>) else login_settled r k False u)"


section \<open>Conflicts\<close>

text \<open>The rows of the comparison: label, the two values shown and whether the row is marked as changed.\<close>

definition field_row :: "string \<Rightarrow> string option \<Rightarrow> string option \<Rightarrow> string \<times> string option \<times> string option \<times> bool" where
  "field_row label a b = (label, a, b, a \<noteq> b)"

definition masked :: "string option \<Rightarrow> string option" where
  "masked password = (if truthy password then Some ''********'' else None)"

definition conflict_rows :: "item_data \<Rightarrow> item_data \<Rightarrow> (string \<times> string option \<times> string option \<times> bool) list" where
  "conflict_rows current attempted =
     [field_row ''Title'' (Some (d_title current)) (Some (d_title attempted)),
      field_row ''Username'' (d_username current) (d_username attempted),
      field_row ''Password'' (masked (d_password current)) (masked (d_password attempted)),
      field_row ''URL'' (d_url current) (d_url attempted),
      field_row ''Notes'' (d_notes current) (d_notes attempted)]"

definition resolve_click :: "bool \<Rightarrow> ui \<Rightarrow> ui" where
  "resolve_click keep_server u =
     (case ui_screen u of
        Scr_conflicts c \<Rightarrow>
          (case cv_decrypted c of
             None \<Rightarrow> u
           | Some d \<Rightarrow>
               if cv_index c < length (ui_conflicts u)
               then call_session (Call_resolve (ui_conflicts u ! cv_index c)
                      (if keep_server then dc_currentData d else dc_attemptedData d)) (UK_resolve (ui_mount u)) u
               else u)
      | _ \<Rightarrow> u)"

definition conflict_decrypted :: "nat \<Rightarrow> nat \<Rightarrow> vs_result option \<Rightarrow> ui \<Rightarrow> ui" where
  "conflict_decrypted m e result u =
     ui_set m (on_conflicts (\<lambda>c. if cv_effect c \<noteq> e then c
        else (case result of
                Some (R_conflict d) \<Rightarrow> c\<lparr>cv_decrypted := Some d, cv_error := []\<rparr>
              | _ \<Rightarrow> c\<lparr>cv_error := ''Could not decrypt this conflict.'', cv_decrypted := None\<rparr>))) u"

definition conflict_resolved :: "nat \<Rightarrow> vs_result option \<Rightarrow> ui \<Rightarrow> ui" where
  "conflict_resolved m result u =
     (if result = None \<or> ui_mount u \<noteq> m then u
      else conflict_effect (ui_set m (on_conflicts (\<lambda>c. c\<lparr>cv_index := cv_index c + 1\<rparr>)) u))"


section \<open>Extension setup\<close>

definition publish_click :: "ui \<Rightarrow> ui" where
  "publish_click u =
     (case ui_screen u of
        Scr_setup x \<Rightarrow>
          if es_status x = Pub_publishing then u
          else (case vs_bundle (ui_session u) of
                  None \<Rightarrow> u\<lparr>ui_screen := Scr_setup (x\<lparr>es_status := Pub_error ''Unlock your vault before publishing.''\<rparr>)\<rparr>
                | Some b \<Rightarrow>
                    ui_await (UT_publish_get (ui_mount u) b) (u\<lparr>ui_screen := Scr_setup (x\<lparr>es_status := Pub_publishing\<rparr>)\<rparr>))
      | _ \<Rightarrow> u)"

definition set_publish :: "nat \<Rightarrow> publish_status \<Rightarrow> ui \<Rightarrow> ui" where
  "set_publish m st u = ui_set m (on_setup (\<lambda>x. x\<lparr>es_status := st\<rparr>)) u"

definition publish_fail :: "nat \<Rightarrow> string \<Rightarrow> ui \<Rightarrow> ui" where
  "publish_fail m message u = ui_emit (Ev_error message) (set_publish m (Pub_error message) u)"

text \<open>The answer of \<open>getKeyBundle\<close>: the stored bundle's text and version, or none (404).\<close>

definition attempted_version :: "(string \<times> nat) option \<Rightarrow> nat" where
  "attempted_version existing = (case existing of Some (_, version) \<Rightarrow> version + 1 | None \<Rightarrow> 1)"

definition publish_got :: "nat \<Rightarrow> account_bundle \<Rightarrow> string + (string \<times> nat) option \<Rightarrow> ui \<Rightarrow> ui" where
  "publish_got m b answer u =
     (case answer of
        Inl message \<Rightarrow> publish_fail m message u
      | Inr existing \<Rightarrow>
          ui_await (UT_publish_put m b (attempted_version existing)) (ui_emit (Ev_put_bundle b (attempted_version existing)) u))"

datatype put_answer = Put_stored | Put_conflict "nat option" | Put_failed string

definition publish_put :: "nat \<Rightarrow> account_bundle \<Rightarrow> nat \<Rightarrow> put_answer \<Rightarrow> ui \<Rightarrow> ui" where
  "publish_put m b version answer u =
     (case answer of
        Put_conflict current \<Rightarrow>
          ui_emit (Ev_error ''A different bundle is already published for this account.'') (set_publish m (Pub_conflict current) u)
      | Put_failed message \<Rightarrow> publish_fail m message u
      | Put_stored \<Rightarrow> ui_await (UT_publish_verify m b version) u)"

definition publish_verified :: "nat \<Rightarrow> account_bundle \<Rightarrow> nat \<Rightarrow> string + (string \<times> nat) option \<Rightarrow> ui \<Rightarrow> ui" where
  "publish_verified m b version answer u =
     (case answer of
        Inl message \<Rightarrow> publish_fail m message u
      | Inr stored \<Rightarrow>
          if stored \<noteq> Some (buildAccountBundle b, version)
          then set_publish m (Pub_error ''Publish could not be verified. Please try again.'') u
          else ui_emit (Ev_status ''Account bundle published for extension use.'') (set_publish m Pub_published u))"

definition copy_account_click :: "ui \<Rightarrow> ui" where
  "copy_account_click u = (case ui_screen u of Scr_setup x \<Rightarrow> ui_await (UT_copy_account (ui_mount u)) u | _ \<Rightarrow> u)"

definition account_copied :: "nat \<Rightarrow> bool \<Rightarrow> ui \<Rightarrow> ui" where
  "account_copied m ok u =
     (let u1 = ui_set m (on_setup (\<lambda>x. x\<lparr>es_copied := ok\<rparr>)) u
      in if ok then ui_emit (Ev_status ''Account ID copied.'') u1 else u1)"

end
