(* ===== verification/Web_Run.thy ===== *)
theory Web_Run
  imports Web_Views
begin

text \<open>
  Runs of the web client's interface: what continues a handler after a method of the vault session,
  how a task is settled, and one input after the other.  \<open>json_parse\<close> and \<open>import_parse\<close> are the
  platform's \<open>JSON.parse\<close> (with and without its error message), \<open>decode\<close> is \<open>decodeItemData\<close>, as in
  \<^theory_text>\<open>Vault_Session\<close>.
\<close>

record platform =
  pf_json :: json_reader
  pf_import :: "string \<Rightarrow> string + jsval"
  pf_decode :: "bytes \<Rightarrow> item_data option"

text \<open>What a settlement brings along: the time, fresh identifiers, the text of an exception.\<close>

record moment =
  mo_now :: epoch_ms
  mo_uuid :: id
  mo_error :: string


section \<open>Continuations\<close>

definition ob_recovered :: "nat \<Rightarrow> account_bundle \<Rightarrow> nat \<Rightarrow> string \<Rightarrow> vs_result option \<Rightarrow> ui \<Rightarrow> ui" where
  "ob_recovered m bundle r email result u =
     (case result of
        None \<Rightarrow> ob_fail m MISMATCH_MESSAGE u
      | Some _ \<Rightarrow>
          call_session Call_lock (UK_ob_lock m bundle r)
            (ui_emit (Ev_bundle_saved bundle)
              (u\<lparr>ui_storage := setDisplayEmail email (saveAccountBundle bundle (ui_storage u))\<rparr>)))"

definition ob_locked :: "nat \<Rightarrow> account_bundle \<Rightarrow> nat \<Rightarrow> vs_result option \<Rightarrow> ui \<Rightarrow> ui" where
  "ob_locked m bundle r result u =
     (case result of
        None \<Rightarrow> ob_fail m MISMATCH_MESSAGE u
      | Some _ \<Rightarrow> call_session (Call_unlock bundle) (UK_ob_password m r) u)"

definition ob_opened :: "json_reader \<Rightarrow> nat \<Rightarrow> nat \<Rightarrow> vs_result option \<Rightarrow> ui \<Rightarrow> ui" where
  "ob_opened jp m r result u =
     (case result of
        None \<Rightarrow> ob_fail m MISMATCH_MESSAGE u
      | Some _ \<Rightarrow>
          navigate jp (View_vault None)
            (syncNow (ui_emit (Ev_status ''Vault created and unlocked.'')
              (ui_set m (on_onboarding (\<lambda>o1. o1\<lparr>ob_password := None\<rparr>)) (fill_zero r u)))))"

definition ui_continue :: "platform \<Rightarrow> moment \<Rightarrow> ui_cont \<Rightarrow> vs_result option \<Rightarrow> ui \<Rightarrow> ui" where
  "ui_continue pf mo k result u =
     (case k of
        UK_timer_lock \<Rightarrow>
          if result = None then u
          else navigate (pf_json pf) View_unlock (ui_emit (Ev_status ''Locked due to inactivity.'') u)
      | UK_lock_click \<Rightarrow> if result = None then u else navigate (pf_json pf) View_unlock u
      | UK_unlock m r \<Rightarrow> unlock_done (pf_json pf) (mo_now mo) m r result u
      | UK_ob_recovery m bundle r email \<Rightarrow> ob_recovered m bundle r email result u
      | UK_ob_lock m bundle r \<Rightarrow> ob_locked m bundle r result u
      | UK_ob_password m r \<Rightarrow> ob_opened (pf_json pf) m r result u
      | UK_form_save m \<Rightarrow> item_saved (mo_error mo) m result u
      | UK_delete m i title \<Rightarrow> item_deleted m i title result u
      | UK_undo m \<Rightarrow> undo_done m result u
      | UK_copy label \<Rightarrow>
          if result = None then u
          else ui_emit (Ev_status (label @ '' copied. It will be cleared from the clipboard automatically.'')) u
      | UK_decrypt m e \<Rightarrow> conflict_decrypted m e result u
      | UK_resolve m \<Rightarrow> conflict_resolved m result u
      | UK_import m items imported failed \<Rightarrow> import_saved (pf_json pf) (mo_uuid mo) m items imported failed result u
      | UK_refresh \<Rightarrow> u)"


section \<open>Settling a task\<close>

datatype ui_settlement =
    S_run
  | S_session vs_answer
  | S_ok bool
  | S_error "string option"
  | S_setup "string + account_bundle \<times> bytes"
  | S_devices "ui_device list option"
  | S_items "item_record list option"
  | S_text "string option"
  | S_outcomes "conflict option list option"
  | S_bundle "string + (string \<times> nat) option"
  | S_put put_answer

text \<open>The state after the task, which is no longer listed, has been settled; \<open>None\<close>: the answer is not one it can get.\<close>

definition ui_settle :: "platform \<Rightarrow> moment \<Rightarrow> ui_task \<Rightarrow> ui_settlement \<Rightarrow> ui \<Rightarrow> ui option" where
  "ui_settle pf mo task a u =
     (case task of
        UT_session t k \<Rightarrow>
          (case a of
             S_session ans \<Rightarrow>
               (case vs_resume (pf_decode pf) (mo_uuid mo) ans t (ui_session u) of
                  None \<Rightarrow> None
                | Some (s, out) \<Rightarrow> Some (ui_await (settle out k) (u\<lparr>ui_session := s\<rparr>)))
           | _ \<Rightarrow> None)
      | UT_ready k result \<Rightarrow> (case a of S_run \<Rightarrow> Some (ui_continue pf mo k result u) | _ \<Rightarrow> None)
      | UT_login1 r k \<Rightarrow> (case a of S_ok ok \<Rightarrow> Some (login_leg1 r k ok u) | _ \<Rightarrow> None)
      | UT_login2 r k \<Rightarrow> (case a of S_ok ok \<Rightarrow> Some (login_leg2 r k ok u) | _ \<Rightarrow> None)
      | UT_ob_register m email r \<Rightarrow> (case a of S_error e \<Rightarrow> Some (ob_registered m email r e u) | _ \<Rightarrow> None)
      | UT_ob_setup m email r \<Rightarrow> (case a of S_setup x \<Rightarrow> Some (ob_setup_done m email r x u) | _ \<Rightarrow> None)
      | UT_ob_lock m email hex \<Rightarrow> (case a of S_error e \<Rightarrow> Some (ob_revealed m email hex e u) | _ \<Rightarrow> None)
      | UT_devices m \<Rightarrow> (case a of S_devices ds \<Rightarrow> Some (devices_loaded m ds u) | _ \<Rightarrow> None)
      | UT_revoke m r \<Rightarrow> (case a of S_ok ok \<Rightarrow> Some (revoke_done m r ok u) | _ \<Rightarrow> None)
      | UT_encrypted vault \<Rightarrow> (case a of S_items is \<Rightarrow> Some (encrypted_listed vault is u) | _ \<Rightarrow> None)
      | UT_file m fmt \<Rightarrow> (case a of S_text t \<Rightarrow> Some (file_read (pf_import pf) m fmt t u) | _ \<Rightarrow> None)
      | UT_undo_expiry m i \<Rightarrow> (case a of S_run \<Rightarrow> Some (undo_expires m i u) | _ \<Rightarrow> None)
      | UT_copy_account m \<Rightarrow> (case a of S_ok ok \<Rightarrow> Some (account_copied m ok u) | _ \<Rightarrow> None)
      | UT_pull \<Rightarrow> (case a of S_ok ok \<Rightarrow> Some (sync_pulled ok u) | _ \<Rightarrow> None)
      | UT_push \<Rightarrow> (case a of S_outcomes os \<Rightarrow> Some (sync_pushed (pf_json pf) os u) | _ \<Rightarrow> None)
      | UT_publish_get m b \<Rightarrow> (case a of S_bundle x \<Rightarrow> Some (publish_got m b x u) | _ \<Rightarrow> None)
      | UT_publish_put m b v \<Rightarrow> (case a of S_put x \<Rightarrow> Some (publish_put m b v x u) | _ \<Rightarrow> None)
      | UT_publish_verify m b v \<Rightarrow> (case a of S_bundle x \<Rightarrow> Some (publish_verified m b v x u) | _ \<Rightarrow> None))"

definition drop_task :: "nat \<Rightarrow> ui \<Rightarrow> ui" where
  "drop_task n u = u\<lparr>ui_tasks := take n (ui_tasks u) @ drop (Suc n) (ui_tasks u)\<rparr>"


section \<open>Inputs\<close>

text \<open>Where the buttons of a screen lead.\<close>

definition nav_targets :: "screen \<Rightarrow> view list" where
  "nav_targets s =
     (case s of
        Scr_vault _ \<Rightarrow> [View_import, View_export, View_devices]
      | Scr_import _ \<Rightarrow> [View_vault None]
      | Scr_export x \<Rightarrow> if ex_stage x = Stage_menu then [View_vault None] else []
      | Scr_devices _ \<Rightarrow> [View_vault None, View_extension_setup]
      | Scr_conflicts _ \<Rightarrow> [View_vault None]
      | Scr_setup _ \<Rightarrow> [View_vault None]
      | _ \<Rightarrow> [])"

datatype ui_input =
    I_activity epoch_ms
  | I_time epoch_ms
  | I_online
  | I_clipboard_timer nat
  | I_nav view
  | I_onboarding string ustring ustring
  | I_reveal_continue
  | I_reveal_again
  | I_confirm string
  | I_unlock ustring
  | I_new_item
  | I_lock
  | I_search string
  | I_row id
  | I_edit
  | I_delete
  | I_delete_cancel
  | I_delete_confirm string
  | I_form item_form id
  | I_form_cancel
  | I_undo
  | I_copy string
  | I_copy_totp string
  | I_format import_format
  | I_file
  | I_import id
  | I_encrypted
  | I_plaintext
  | I_export_confirm string
  | I_export_cancel
  | I_reauth ustring
  | I_revoke id
  | I_revoke_cancel
  | I_revoke_confirm ustring
  | I_resolve bool
  | I_publish
  | I_copy_account
  | I_settle nat moment ui_settlement

fun ui_handle :: "platform \<Rightarrow> ui_input \<Rightarrow> ui \<Rightarrow> ui" where
  "ui_handle pf (I_activity now) u = handleActivity now u"
| "ui_handle pf (I_time now) u = timer_fires now u"
| "ui_handle pf I_online u = syncNow u"
| "ui_handle pf (I_clipboard_timer h) u = u\<lparr>ui_session := clipboard_timer_fires h (ui_session u)\<rparr>"
| "ui_handle pf (I_nav v) u = (if v \<in> set (nav_targets (ui_screen u)) then navigate (pf_json pf) v u else u)"
| "ui_handle pf (I_onboarding email password confirm) u = onboarding_submit email password confirm u"
| "ui_handle pf I_reveal_continue u = reveal_continue u"
| "ui_handle pf I_reveal_again u = reveal_again u"
| "ui_handle pf (I_confirm typed) u = confirm_submit typed u"
| "ui_handle pf (I_unlock password) u = unlock_form_submit password u"
| "ui_handle pf I_new_item u = new_item_click u"
| "ui_handle pf I_lock u = lock_button_click u"
| "ui_handle pf (I_search q) u = search_change q u"
| "ui_handle pf (I_row i) u = row_click i u"
| "ui_handle pf I_edit u = item_edit_click u"
| "ui_handle pf I_delete u = item_delete_click u"
| "ui_handle pf I_delete_cancel u = delete_cancel u"
| "ui_handle pf (I_delete_confirm typed) u = delete_submit typed u"
| "ui_handle pf (I_form f uuid) u = item_form_submit f uuid u"
| "ui_handle pf I_form_cancel u = item_form_cancel u"
| "ui_handle pf I_undo u = undo_click u"
| "ui_handle pf (I_copy label) u = copy_click label u"
| "ui_handle pf (I_copy_totp code) u = totp_copy_click code u"
| "ui_handle pf (I_format fmt) u = format_change fmt u"
| "ui_handle pf I_file u = file_change u"
| "ui_handle pf (I_import uuid) u = import_click (pf_json pf) uuid u"
| "ui_handle pf I_encrypted u = encrypted_click u"
| "ui_handle pf I_plaintext u = plaintext_click u"
| "ui_handle pf (I_export_confirm typed) u = export_confirm_submit typed u"
| "ui_handle pf I_export_cancel u = export_cancel u"
| "ui_handle pf (I_reauth password) u = reauth_submit password u"
| "ui_handle pf (I_revoke i) u = revoke_click i u"
| "ui_handle pf I_revoke_cancel u = revoke_cancel u"
| "ui_handle pf (I_revoke_confirm password) u = revoke_submit password u"
| "ui_handle pf (I_resolve keep_server) u = resolve_click keep_server u"
| "ui_handle pf I_publish u = publish_click u"
| "ui_handle pf I_copy_account u = copy_account_click u"
| "ui_handle pf (I_settle n mo a) u =
     (if n < length (ui_tasks u)
      then (case ui_settle pf mo (ui_tasks u ! n) a (drop_task n u) of None \<Rightarrow> u | Some u' \<Rightarrow> u')
      else u)"

definition ui_run :: "platform \<Rightarrow> ui_input list \<Rightarrow> ui \<Rightarrow> ui" where
  "ui_run pf is u = fold (ui_handle pf) is u"

inductive ui_reachable :: "platform \<Rightarrow> ui \<Rightarrow> bool" for pf where
  boot: "ui_reachable pf (ui_boot (pf_json pf) storage rnd)"
| input: "ui_reachable pf u \<Longrightarrow> ui_reachable pf (ui_handle pf i u)"

lemma ui_run_reachable: "ui_reachable pf u \<Longrightarrow> ui_reachable pf (ui_run pf is u)"
  by (induction "is" arbitrary: u) (auto simp: ui_run_def intro: ui_reachable.input)

end
