(* ===== verification/Web_Frame.thy ===== *)
theory Web_Frame
  imports Web_Run
begin

text \<open>
  A frame rule for the handlers of the interface.  The handlers are put together from a few blocks: an
  announcement, a task that is awaited, a call of the vault session, a change of the screen, and so on.  A
  reflexive and transitive relation on states that holds across each block holds across every handler
  built from them; the locale \<open>ui_frame\<close> states the blocks as its laws and proves the handlers once.  Not built
  from these blocks alone are the handlers that start or continue a login, and the one that takes the export
  view to its last stage.
\<close>


section \<open>Blocks\<close>

fun plain_event :: "ui_event \<Rightarrow> bool" where
  "plain_event (Ev_plaintext_confirmed _) = False"
| "plain_event (Ev_plaintext_download _ _) = False"
| "plain_event (Ev_login_start _ _ _) = False"
| "plain_event (Ev_login_finish _ _ _) = False"
| "plain_event (Ev_login_ok _ _) = False"
| "plain_event _ = True"

fun login_free :: "ui_task \<Rightarrow> bool" where
  "login_free (UT_login1 _ _) = False"
| "login_free (UT_login2 _ _) = False"
| "login_free _ = True"

text \<open>The buffer that the continuation of the unlock form will log in with and wipe.\<close>

fun cont_ref :: "ui_cont \<Rightarrow> nat option" where
  "cont_ref (UK_unlock m r) = Some r"
| "cont_ref _ = None"

fun task_ref :: "ui_task \<Rightarrow> nat option" where
  "task_ref (UT_session _ k) = cont_ref k"
| "task_ref (UT_ready k _) = cont_ref k"
| "task_ref _ = None"

text \<open>Tasks that are neither logins nor calls of the session.\<close>

fun side_task :: "ui_task \<Rightarrow> bool" where
  "side_task (UT_session _ _) = False"
| "side_task (UT_ready _ _) = False"
| "side_task t = login_free t"

text \<open>A screen change inside one component that does not lead to the last export stage.\<close>

definition calm :: "screen \<Rightarrow> screen \<Rightarrow> bool" where
  "calm s s' \<longleftrightarrow> screen_component s' = screen_component s \<and>
     (\<forall>x'. s' = Scr_export x' \<and> ex_stage x' = Stage_reauth \<longrightarrow> (\<exists>x. s = Scr_export x \<and> ex_stage x = Stage_reauth))"

lemma calm_on [simp]:
  "calm s (on_onboarding f1 s)" "calm s (on_unlock f2 s)" "calm s (on_vault f3 s)" "calm s (on_import f4 s)"
  "calm s (on_devices f5 s)" "calm s (on_conflicts f6 s)" "calm s (on_setup f7 s)"
  by (cases s; simp add: calm_def)+

lemma calm_same [simp]:
  "calm (Scr_onboarding a1) (Scr_onboarding b1)" "calm (Scr_unlock a2) (Scr_unlock b2)" "calm (Scr_vault a3) (Scr_vault b3)"
  "calm (Scr_import a4) (Scr_import b4)" "calm (Scr_devices a5) (Scr_devices b5)" "calm (Scr_conflicts a6) (Scr_conflicts b6)"
  "calm (Scr_setup a7) (Scr_setup b7)"
  "ex_stage b8 \<noteq> Stage_reauth \<Longrightarrow> calm (Scr_export a8) (Scr_export b8)"
  by (simp_all add: calm_def)

lemma calm_export: "(\<And>x. ex_stage (f x) = Stage_reauth \<Longrightarrow> ex_stage x = Stage_reauth) \<Longrightarrow> calm s (on_export f s)"
  by (cases s) (auto simp: calm_def)


lemmas vault_handler_defs =
  new_item_click_def lock_button_click_def search_change_def row_click_def item_edit_click_def item_delete_click_def
  delete_cancel_def delete_submit_def item_form_submit_def item_form_cancel_def undo_click_def copy_click_def totp_copy_click_def


section \<open>The locale\<close>

named_theorems frame_intros

locale ui_frame =
  fixes R :: "ui \<Rightarrow> ui \<Rightarrow> bool"
  assumes frame_same: "R u u"
    and frame_trans: "R u v \<Longrightarrow> R v x \<Longrightarrow> R u x"
    and emit_block: "plain_event e \<Longrightarrow> R u (ui_emit e u)"
    and await_block: "side_task t \<Longrightarrow> R u (ui_await t u)"
    and call_block: "cont_ref k = None \<Longrightarrow> R u (call_session c k u)"
    and storage_block: "R u (u\<lparr>ui_storage := st\<rparr>)"
    and timer_block: "R u (u\<lparr>ui_timer := tm\<rparr>)"
    and pending_block: "R u (u\<lparr>ui_conflicts := cs\<rparr>)"
    and view_block: "w \<noteq> View_conflicts \<Longrightarrow> R u (u\<lparr>ui_view := w\<rparr>)"
    and screen_block: "calm (ui_screen u) s \<Longrightarrow> R u (u\<lparr>ui_screen := s\<rparr>)"
    and buffer_block: "R u (snd (new_buffer bs u))"
    and wipe_block: "R u (fill_zero r u)"
    and effect_block: "R u (conflict_effect u)"
    and render_block: "R u (app_render jp u)"
begin

lemmas frame_blocks = emit_block await_block call_block storage_block timer_block pending_block view_block screen_block
  buffer_block wipe_block effect_block render_block

lemma frame_steps [frame_intros]:
  "plain_event e \<Longrightarrow> R u v \<Longrightarrow> R u (ui_emit e v)" "side_task t \<Longrightarrow> R u v \<Longrightarrow> R u (ui_await t v)"
  "cont_ref k = None \<Longrightarrow> R u v \<Longrightarrow> R u (call_session c k v)" "R u v \<Longrightarrow> R u (v\<lparr>ui_storage := st\<rparr>)"
  "R u v \<Longrightarrow> R u (v\<lparr>ui_timer := tm\<rparr>)" "R u v \<Longrightarrow> R u (v\<lparr>ui_conflicts := cs\<rparr>)"
  "w \<noteq> View_conflicts \<Longrightarrow> R u v \<Longrightarrow> R u (v\<lparr>ui_view := w\<rparr>)" "calm (ui_screen v) s \<Longrightarrow> R u v \<Longrightarrow> R u (v\<lparr>ui_screen := s\<rparr>)"
  "R u v \<Longrightarrow> R u (snd (new_buffer bs v))" "R u v \<Longrightarrow> R u (fill_zero r v)" "R u v \<Longrightarrow> R u (conflict_effect v)"
  "R u v \<Longrightarrow> R u (app_render jp v)"
  by (blast intro: frame_trans frame_blocks)+

lemma frame_start [simp, frame_intros]: "R u u"
  by (rule frame_same)

lemma frame_set_screen [frame_intros]: "(\<And>s. calm s (f s)) \<Longrightarrow> R u v \<Longrightarrow> R u (ui_set m f v)"
  by (auto simp: ui_set_def intro: frame_intros)

lemma frame_go [frame_intros]: "w \<noteq> View_conflicts \<Longrightarrow> R u v \<Longrightarrow> R u (navigate jp w v)"
  unfolding navigate_def by (intro frame_intros)

lemma frame_set_pending [frame_intros]: "R u v \<Longrightarrow> R u (setPendingConflicts jp cs v)"
  unfolding setPendingConflicts_def Let_def by (auto intro!: frame_intros)


lemma frame_buffer_case [frame_intros]:
  "(\<And>r v. R u v \<Longrightarrow> R u (f r v)) \<Longrightarrow> R u w \<Longrightarrow> R u (case new_buffer bs w of (r, v) \<Rightarrow> f r v)"
  using frame_steps(9) [of u w bs] by (cases "new_buffer bs w") simp

lemma frame_sync [frame_intros]: "R u v \<Longrightarrow> R u (syncNow v)"
  by (auto simp: syncNow_def intro!: frame_intros)

lemma frame_fail [frame_intros]: "R u v \<Longrightarrow> R u (ob_fail m msg v)"
  by (auto simp: ob_fail_def intro!: frame_intros)

lemma frame_set_vault [frame_intros]: "ui_screen v = Scr_vault x \<Longrightarrow> R u v \<Longrightarrow> R u (set_vault y v)"
  by (auto simp: set_vault_def intro!: frame_intros)

lemma frame_with_vault: "(\<And>x. ui_screen u = Scr_vault x \<Longrightarrow> R u (f x)) \<Longrightarrow> R u (with_vault f u)"
  by (cases "ui_screen u") (simp_all add: with_vault_def)

lemma frame_vault_handlers:
  "R u (new_item_click u)" "R u (lock_button_click u)" "R u (search_change q u)" "R u (row_click i u)"
  "R u (item_edit_click u)" "R u (item_delete_click u)" "R u (delete_cancel u)" "R u (delete_submit typed u)"
  "R u (item_form_submit f uuid u)" "R u (item_form_cancel u)" "R u (undo_click u)" "R u (copy_click label u)"
  "R u (totp_copy_click code u)"
  unfolding vault_handler_defs
  by (rule frame_with_vault, auto split: vault_panel.splits option.splits intro!: frame_intros)+

lemma frame_onboarding_handlers:
  "R u (onboarding_submit email pw cf u)" "R u (reveal_continue u)" "R u (reveal_again u)"
  "R u (confirm_submit typed u)"
  unfolding onboarding_submit_def reveal_continue_def reveal_again_def confirm_submit_def
  by (cases "ui_screen u"; auto split: option.splits intro!: frame_intros)+

lemma frame_app_handlers:
  "R u (handleActivity now u)" "R u (timer_fires now u)" "R u (syncNow u)"
proof -
  show "R u (handleActivity now u)" by (auto simp: handleActivity_def resetInactivityTimer_def intro!: frame_intros)
  show "R u (timer_fires now u)" by (cases "ui_timer u") (auto simp: timer_fires_def Let_def intro!: frame_intros)
  show "R u (syncNow u)" by (auto simp: syncNow_def intro!: frame_intros)
qed

lemma frame_import_next [frame_intros]: "R u v \<Longrightarrow> R u (import_next jp uuid m items n k v)"
  by (cases items) (auto simp: import_next_def intro!: frame_intros)

lemma frame_other_handlers:
  "R u (format_change fmt u)" "R u (file_change u)" "R u (import_click jp uuid u)" "R u (encrypted_click u)"
  "R u (plaintext_click u)" "R u (export_cancel u)" "R u (revoke_click i u)" "R u (revoke_cancel u)"
  "R u (resolve_click b u)" "R u (publish_click u)" "R u (copy_account_click u)"
  unfolding format_change_def file_change_def import_click_def encrypted_click_def plaintext_click_def export_cancel_def
    revoke_click_def revoke_cancel_def resolve_click_def publish_click_def copy_account_click_def set_export_def
  by (cases "ui_screen u"; auto split: option.splits intro!: frame_intros)+

lemma frame_answers [frame_intros]:
  "R u v \<Longrightarrow> R u (ob_registered m e r er v)" "R u v \<Longrightarrow> R u (ob_setup_done m e r x v)"
  "R u v \<Longrightarrow> R u (ob_revealed m e h er v)" "R u v \<Longrightarrow> R u (devices_loaded m ds v)"
  "R u v \<Longrightarrow> R u (revoke_fail m r v)" "R u v \<Longrightarrow> R u (encrypted_listed vault is v)"
  "R u v \<Longrightarrow> R u (undo_expires m i v)"
  "R u v \<Longrightarrow> R u (account_copied m ok v)" "R u v \<Longrightarrow> R u (sync_pulled ok v)"
  "R u v \<Longrightarrow> R u (sync_pushed jp os v)" "R u v \<Longrightarrow> R u (publish_fail m msg v)"
  "R u v \<Longrightarrow> R u (set_publish m st v)"
  by (auto simp: ob_registered_def ob_setup_done_def ob_revealed_def devices_loaded_def revoke_fail_def encrypted_listed_def
      undo_expires_def account_copied_def sync_pulled_def sync_pushed_def publish_fail_def set_publish_def
      Let_def split: option.splits sum.splits prod.splits intro!: frame_intros)

lemma frame_answers2 [frame_intros]:
  "R u v \<Longrightarrow> R u (revoke_done m r ok v)" "R u v \<Longrightarrow> R u (revoke_login_done m r i ok v)"
  "R u v \<Longrightarrow> R u (file_read ip m fmt t v)" "R u v \<Longrightarrow> R u (publish_got m b x v)"
  "R u v \<Longrightarrow> R u (publish_put m b n y v)" "R u v \<Longrightarrow> R u (publish_verified m b n x v)"
  by (auto simp: revoke_done_def revoke_login_done_def file_read_def publish_got_def publish_put_def publish_verified_def
      Let_def split: option.splits sum.splits prod.splits put_answer.splits import_error.splits intro!: frame_intros)

lemma frame_continuations [frame_intros]:
  "R u v \<Longrightarrow> R u (item_saved err m res v)" "R u v \<Longrightarrow> R u (item_deleted m i t res v)"
  "R u v \<Longrightarrow> R u (undo_done m res v)" "R u v \<Longrightarrow> R u (conflict_decrypted m e res v)"
  "R u v \<Longrightarrow> R u (conflict_resolved m res v)" "R u v \<Longrightarrow> R u (import_saved jp uuid m items n k res v)"
  "R u v \<Longrightarrow> R u (ob_recovered m b r em res v)" "R u v \<Longrightarrow> R u (ob_locked m b r res v)"
  "R u v \<Longrightarrow> R u (ob_opened jp m r res v)"
  by (auto simp: item_saved_def item_deleted_def offerUndo_def undo_done_def conflict_decrypted_def conflict_resolved_def
      import_saved_def ob_recovered_def ob_locked_def ob_opened_def Let_def
      split: option.splits vs_result.splits intro!: frame_intros)

text \<open>Every continuation but the one of the unlock form.\<close>

lemma frame_continue: "(\<And>m r. k \<noteq> UK_unlock m r) \<Longrightarrow> R u v \<Longrightarrow> R u (ui_continue pf mo k res v)"
  by (cases k) (auto simp: ui_continue_def intro!: frame_intros)

end

end
