(* ===== verification/Web_Safety.thy ===== *)
theory Web_Safety
  imports Web_Frame
begin

text \<open>
  What the handlers of the interface leave alone.  \<open>ui_quiet u u'\<close> collects it in one relation: no login is
  started or continued, no plaintext is downloaded or confirmed, the export view does not get closer to its
  last stage, wiped buffers stay wiped, and the conflicts view is not entered.  The
  relation is reflexive and transitive and every building block of the handlers is quiet, so it
  interprets \<open>ui_frame\<close>, and all handlers are quiet but the few that the invariant \<open>gated\<close> is about.
\<close>


section \<open>The frame\<close>

definition ui_task_ok :: "ui \<Rightarrow> ui_task \<Rightarrow> bool" where
  "ui_task_ok u t \<longleftrightarrow> login_free t \<and> (\<forall>r. task_ref t = Some r \<longrightarrow> r < length (ui_buffers u))"

definition all_zero :: "ui \<Rightarrow> nat \<Rightarrow> bool" where
  "all_zero u r \<longleftrightarrow> r < length (ui_buffers u) \<and> set (ui_buffers u ! r) \<subseteq> {0}"

definition reauth_stage :: "ui \<Rightarrow> bool" where
  "reauth_stage u \<longleftrightarrow> (\<exists>x. ui_screen u = Scr_export x \<and> ex_stage x = Stage_reauth)"

definition no_conflicts_view :: "ui \<Rightarrow> bool" where
  "no_conflicts_view u \<longleftrightarrow> ui_view u \<noteq> View_conflicts \<and> screen_component (ui_screen u) \<noteq> Some Comp_conflicts"

definition ui_quiet :: "ui \<Rightarrow> ui \<Rightarrow> bool" where
  "ui_quiet u u' \<longleftrightarrow>
     (\<exists>es. ui_log u' = es @ ui_log u \<and> list_all plain_event es) \<and>
     (\<forall>t. t \<in> set (ui_tasks u') \<longrightarrow> t \<in> set (ui_tasks u) \<or> ui_task_ok u' t) \<and>
     length (ui_buffers u) \<le> length (ui_buffers u') \<and>
     (reauth_stage u' \<longrightarrow> reauth_stage u \<and> ui_mount u' = ui_mount u) \<and>
     (\<forall>r. all_zero u r \<longrightarrow> all_zero u' r) \<and>
     (no_conflicts_view u \<longrightarrow> no_conflicts_view u')"

lemma quiet_refl [simp, intro]: "ui_quiet u u"
  by (auto simp: ui_quiet_def)

lemma quiet_trans:
  assumes "ui_quiet u v" "ui_quiet v w"
  shows "ui_quiet u w"
proof -
  obtain es fs where e: "ui_log v = es @ ui_log u" "list_all plain_event es"
    and f: "ui_log w = fs @ ui_log v" "list_all plain_event fs"
    using assms by (auto simp: ui_quiet_def)
  then have "ui_log w = (fs @ es) @ ui_log u" "list_all plain_event (fs @ es)" by simp_all
  moreover have "ui_task_ok v t \<Longrightarrow> ui_task_ok w t" for t
    using assms(2) by (auto simp: ui_quiet_def ui_task_ok_def)
  ultimately show ?thesis using assms unfolding ui_quiet_def by (smt (verit) order_trans)
qed

text \<open>The blocks are quiet.\<close>

named_theorems quiet_intros

lemma quiet_emit [quiet_intros]: "plain_event e \<Longrightarrow> ui_quiet u v \<Longrightarrow> ui_quiet u (ui_emit e v)"
  by (erule quiet_trans) (auto simp: ui_quiet_def ui_emit_def reauth_stage_def all_zero_def no_conflicts_view_def)

lemma quiet_await_ref: "ui_task_ok v t \<Longrightarrow> ui_quiet u v \<Longrightarrow> ui_quiet u (ui_await t v)"
  by (erule quiet_trans)
    (auto simp: ui_quiet_def ui_await_def reauth_stage_def all_zero_def no_conflicts_view_def ui_task_ok_def)

lemma quiet_await_task [quiet_intros]: "login_free t \<Longrightarrow> task_ref t = None \<Longrightarrow> ui_quiet u v \<Longrightarrow> ui_quiet u (ui_await t v)"
  by (rule quiet_await_ref) (simp_all add: ui_task_ok_def)

lemma quiet_settled [simp]: "login_free (settle out k)" "task_ref (settle out k) = cont_ref k"
  by (cases out; simp add: settle_def)+

text \<open>Updates of the other fields.\<close>

lemma quiet_fields:
  assumes "ui_quiet u v" "ui_log v' = ui_log v" "set (ui_tasks v') \<subseteq> set (ui_tasks v)" "ui_buffers v' = ui_buffers v"
    "reauth_stage v' \<longrightarrow> reauth_stage v \<and> ui_mount v' = ui_mount v"
    "no_conflicts_view v \<longrightarrow> no_conflicts_view v'"
  shows "ui_quiet u v'"
proof (rule quiet_trans [OF assms(1)])
  have "all_zero v r \<Longrightarrow> all_zero v' r" for r using assms(4) by (simp add: all_zero_def)
  then show "ui_quiet v v'" using assms unfolding ui_quiet_def by auto
qed

lemma quiet_session [quiet_intros]: "ui_quiet u v \<Longrightarrow> ui_quiet u (v\<lparr>ui_session := s\<rparr>)"
  by (erule quiet_fields) (simp_all add: reauth_stage_def no_conflicts_view_def)

lemma quiet_storage [quiet_intros]: "ui_quiet u v \<Longrightarrow> ui_quiet u (v\<lparr>ui_storage := s\<rparr>)"
  by (erule quiet_fields) (simp_all add: reauth_stage_def no_conflicts_view_def)

lemma quiet_timer [quiet_intros]: "ui_quiet u v \<Longrightarrow> ui_quiet u (v\<lparr>ui_timer := s\<rparr>)"
  by (erule quiet_fields) (simp_all add: reauth_stage_def no_conflicts_view_def)

lemma quiet_pending [quiet_intros]: "ui_quiet u v \<Longrightarrow> ui_quiet u (v\<lparr>ui_conflicts := s\<rparr>)"
  by (erule quiet_fields) (simp_all add: reauth_stage_def no_conflicts_view_def)

lemma quiet_view [quiet_intros]: "w \<noteq> View_conflicts \<Longrightarrow> ui_quiet u v \<Longrightarrow> ui_quiet u (v\<lparr>ui_view := w\<rparr>)"
  by (erule quiet_fields) (simp_all add: reauth_stage_def no_conflicts_view_def)

lemma quiet_screen [quiet_intros]: "calm (ui_screen v) s \<Longrightarrow> ui_quiet u v \<Longrightarrow> ui_quiet u (v\<lparr>ui_screen := s\<rparr>)"
  by (erule quiet_fields) (auto simp: reauth_stage_def no_conflicts_view_def calm_def)

lemma quiet_buffer [quiet_intros]: "ui_quiet u v \<Longrightarrow> ui_quiet u (snd (new_buffer bs v))"
  by (erule quiet_trans)
    (auto simp: ui_quiet_def new_buffer_def reauth_stage_def all_zero_def no_conflicts_view_def nth_append)

lemma quiet_wipe [quiet_intros]: "ui_quiet u v \<Longrightarrow> ui_quiet u (fill_zero r v)"
proof (erule quiet_trans)
  have "all_zero v k \<Longrightarrow> all_zero (fill_zero r v) k" for k
    by (cases "k = r") (auto simp: all_zero_def fill_zero_def)
  then show "ui_quiet v (fill_zero r v)"
    by (auto simp: ui_quiet_def fill_zero_def reauth_stage_def no_conflicts_view_def)
qed

lemma quiet_call_ref: "ui_task_ok v (UT_ready k None) \<Longrightarrow> ui_quiet u v \<Longrightarrow> ui_quiet u (call_session c k v)"
  unfolding call_session_def
  by (cases "vs_start c (ui_session v)") (simp add: quiet_await_ref quiet_session ui_task_ok_def)

lemma quiet_call [quiet_intros]: "cont_ref k = None \<Longrightarrow> ui_quiet u v \<Longrightarrow> ui_quiet u (call_session c k v)"
  by (rule quiet_call_ref) (simp_all add: ui_task_ok_def)

lemma quiet_effects [quiet_intros]: "ui_quiet u v \<Longrightarrow> ui_quiet u (v\<lparr>ui_effects := s\<rparr>)"
  by (erule quiet_fields) (simp_all add: reauth_stage_def no_conflicts_view_def)


section \<open>Mounting\<close>

lemma quiet_mounted:
  assumes "\<And>x. s = Scr_export x \<Longrightarrow> ex_stage x \<noteq> Stage_reauth" "screen_component s \<noteq> Some Comp_conflicts" "ui_quiet u v"
  shows "ui_quiet u (ui_mounted s v)"
  by (rule quiet_fields [OF assms(3)]) (use assms(1,2) in \<open>auto simp: ui_mounted_def reauth_stage_def no_conflicts_view_def\<close>)

lemma quiet_conflict_effect [quiet_intros]: "ui_quiet u v \<Longrightarrow> ui_quiet u (conflict_effect v)"
  unfolding conflict_effect_def
  by (cases "ui_screen v") (auto simp: Let_def intro!: quiet_intros)

lemma quiet_unlock_mount: "ui_quiet u v \<Longrightarrow> ui_quiet u (mount_unlock jp v)"
  unfolding mount_unlock_def
  by (auto split: option.splits intro!: quiet_mounted quiet_view)

lemma quiet_mount: "c \<noteq> Comp_conflicts \<Longrightarrow> ui_quiet u v \<Longrightarrow> ui_quiet u (mount_component jp c v)"
  unfolding mount_component_def
  by (cases c) (auto simp: Let_def export_screen_new_def intro!: quiet_mounted quiet_unlock_mount quiet_await_task)

lemma component_conflicts: "app_component v b = Comp_conflicts \<longleftrightarrow> v = View_conflicts \<and> b"
  by (cases v) (simp_all add: app_component_def)

lemma conflicts_mount_log:
  "ui_log (mount_component jp Comp_conflicts v) = ui_log v" "ui_buffers (mount_component jp Comp_conflicts v) = ui_buffers v"
  "\<not> reauth_stage (mount_component jp Comp_conflicts v)"
  "t \<in> set (ui_tasks (mount_component jp Comp_conflicts v)) \<Longrightarrow> t \<in> set (ui_tasks v) \<or> ui_task_ok w t"
  by (auto simp: ui_task_ok_def mount_component_def conflict_effect_def ui_mounted_def Let_def call_session_def ui_await_def
      reauth_stage_def conflicts_screen_new_def split: prod.splits if_splits)

lemma quiet_render [quiet_intros]: "ui_quiet u v \<Longrightarrow> ui_quiet u (app_render jp v)"
proof (erule quiet_trans)
  show "ui_quiet v (app_render jp v)"
  proof (cases "app_component (ui_view v) (ui_unlocked v) = Comp_conflicts")
    case True
    then have "\<not> no_conflicts_view v" by (simp add: component_conflicts no_conflicts_view_def)
    then have "ui_quiet v (mount_component jp Comp_conflicts v)"
      using conflicts_mount_log unfolding ui_quiet_def all_zero_def by auto
    with True show ?thesis by (simp add: app_render_def Let_def)
  next
    case False
    then show ?thesis by (simp add: app_render_def Let_def quiet_mount)
  qed
qed


section \<open>Quiet handlers\<close>

lemma side_task_quiet: "side_task t \<Longrightarrow> login_free t \<and> task_ref t = None"
  by (cases t) simp_all

interpretation quiet: ui_frame ui_quiet
proof
  show "ui_quiet u v \<Longrightarrow> ui_quiet v x \<Longrightarrow> ui_quiet u x" for u v x by (rule quiet_trans)
  show "side_task t \<Longrightarrow> ui_quiet u (ui_await t u)" for t u using side_task_quiet by (intro quiet_await_task) auto
qed (auto intro: quiet_intros)

text \<open>The unlock form leaves a continuation that will log in with the buffer and wipe it.\<close>

lemma quiet_unlock_submit: "ui_quiet u (unlock_form_submit pw u)"
proof -
  have "ui_quiet u (call_session c (UK_unlock m (length (ui_buffers u))) (u\<lparr>ui_buffers := ui_buffers u @ [bs]\<rparr>))" for c m bs
    using quiet_buffer [OF quiet_refl, of u bs] by (intro quiet_call_ref) (simp_all add: ui_task_ok_def new_buffer_def)
  then show ?thesis
    unfolding unlock_form_submit_def
    by (cases "ui_screen u") (auto simp: new_buffer_def split: option.splits)
qed

end
