(* ===== verification/Web_Properties.thy ===== *)
theory Web_Properties
  imports Web_Safety
begin

text \<open>
  Safety of the web interface over all runs: the gate in front of the plaintext export, what the logins of
  the views read from the password buffers, and which views can be reached.
\<close>


section \<open>The invariant\<close>

fun gate_ok :: "ui_event list \<Rightarrow> bool" where
  "gate_ok [] \<longleftrightarrow> True"
| "gate_ok (e # es) \<longleftrightarrow> gate_ok es \<and>
     (case e of
        Ev_plaintext_download m rows \<Rightarrow>
          Ev_plaintext_confirmed m \<in> set es \<and>
          (\<exists>r bs. Ev_login_start r (L_export m) bs \<in> set es \<and> Ev_login_ok r (L_export m) \<in> set es)
      | Ev_login_finish r k bs \<Rightarrow> k = L_background \<longrightarrow> set bs \<subseteq> {0}
      | _ \<Rightarrow> True)"

lemma gate_ok_plain: "list_all plain_event es \<Longrightarrow> gate_ok (es @ fs) = gate_ok fs"
proof (induction es)
  case (Cons e es)
  then show ?case by (cases e) auto
qed simp

lemma gate_ok_split: "gate_ok (xs @ e # ys) \<Longrightarrow> gate_ok (e # ys)"
  by (induction xs) auto

text \<open>\<open>R\<close>: buffers of background logins that are still to be wiped by the handler that is running.\<close>

definition gated_upto :: "nat set \<Rightarrow> ui \<Rightarrow> bool" where
  "gated_upto R u \<longleftrightarrow>
     gate_ok (ui_log u) \<and>
     (reauth_stage u \<longrightarrow> Ev_plaintext_confirmed (ui_mount u) \<in> set (ui_log u)) \<and>
     (\<forall>r m. UT_login1 r (L_export m) \<in> set (ui_tasks u) \<or> UT_login2 r (L_export m) \<in> set (ui_tasks u) \<longrightarrow>
        Ev_plaintext_confirmed m \<in> set (ui_log u) \<and> (\<exists>bs. Ev_login_start r (L_export m) bs \<in> set (ui_log u))) \<and>
     (\<forall>r. UT_login1 r L_background \<in> set (ui_tasks u) \<longrightarrow> r \<in> R \<or> all_zero u r) \<and>
     (\<forall>t r. t \<in> set (ui_tasks u) \<longrightarrow> task_ref t = Some r \<longrightarrow> r < length (ui_buffers u)) \<and>
     no_conflicts_view u"

abbreviation gated :: "ui \<Rightarrow> bool" where
  "gated \<equiv> gated_upto {}"

lemma quiet_gated:
  assumes "ui_quiet u v" "gated_upto R u"
  shows "gated_upto R v"
proof -
  obtain es where es: "ui_log v = es @ ui_log u" "list_all plain_event es" using assms(1) by (auto simp: ui_quiet_def)
  have t: "t \<in> set (ui_tasks u) \<or> ui_task_ok v t" if "t \<in> set (ui_tasks v)" for t
    using assms(1) that by (auto simp: ui_quiet_def)
  have login: "t \<in> set (ui_tasks u)" if "t \<in> set (ui_tasks v)" "\<not> login_free t" for t
    using t [OF that(1)] that(2) by (auto simp: ui_task_ok_def)
  have "length (ui_buffers u) \<le> length (ui_buffers v)" using assms(1) by (simp add: ui_quiet_def)
  then have ref: "r < length (ui_buffers v)" if "t \<in> set (ui_tasks v)" "task_ref t = Some r" for t r
    using t [OF that(1)] that(2) assms(2) by (fastforce simp: gated_upto_def ui_task_ok_def)
  have zero: "all_zero u r \<Longrightarrow> all_zero v r" for r using assms(1) by (simp add: ui_quiet_def)
  have export: "Ev_plaintext_confirmed m \<in> set (ui_log u) \<and> (\<exists>bs. Ev_login_start r (L_export m) bs \<in> set (ui_log u))"
    if "UT_login1 r (L_export m) \<in> set (ui_tasks v) \<or> UT_login2 r (L_export m) \<in> set (ui_tasks v)" for r m
  proof -
    have "UT_login1 r (L_export m) \<in> set (ui_tasks u) \<or> UT_login2 r (L_export m) \<in> set (ui_tasks u)"
      using that login [of "UT_login1 r (L_export m)"] login [of "UT_login2 r (L_export m)"] by auto
    then show ?thesis using assms(2) unfolding gated_upto_def by blast
  qed
  show ?thesis
    unfolding gated_upto_def
  proof (intro conjI allI impI)
    show "gate_ok (ui_log v)" using assms(2) es by (simp add: gated_upto_def gate_ok_plain)
    show "Ev_plaintext_confirmed (ui_mount v) \<in> set (ui_log v)" if "reauth_stage v"
      using that assms es by (auto simp: ui_quiet_def gated_upto_def)
    show "Ev_plaintext_confirmed m \<in> set (ui_log v)" "\<exists>bs. Ev_login_start r (L_export m) bs \<in> set (ui_log v)"
      if "UT_login1 r (L_export m) \<in> set (ui_tasks v) \<or> UT_login2 r (L_export m) \<in> set (ui_tasks v)" for r m
      using export [OF that] es by auto
    show "r \<in> R \<or> all_zero v r" if "UT_login1 r L_background \<in> set (ui_tasks v)" for r
      using login [OF that] assms(2) zero by (auto simp: gated_upto_def)
    show "r < length (ui_buffers v)" if "t \<in> set (ui_tasks v)" "task_ref t = Some r" for t r using ref that .
    show "no_conflicts_view v" using assms by (auto simp: ui_quiet_def gated_upto_def)
  qed
qed

lemma gated_drop: "gated u \<Longrightarrow> gated (drop_task n u)"
proof (rule quiet_gated)
  have "set (take n ts @ drop (Suc n) ts) \<subseteq> set ts" for ts :: "ui_task list"
    by (auto dest: in_set_takeD in_set_dropD)
  then show "ui_quiet u (drop_task n u)"
    by (intro quiet_fields [OF quiet_refl]) (auto simp: drop_task_def reauth_stage_def no_conflicts_view_def)
qed

lemma begin_login_fields:
  "ui_log (begin_login r k u) = Ev_login_start r k (buffer u r) # ui_log u"
  "ui_tasks (begin_login r k u) = UT_login1 r k # ui_tasks u"
  "ui_buffers (begin_login r k u) = ui_buffers u" "ui_screen (begin_login r k u) = ui_screen u"
  "ui_view (begin_login r k u) = ui_view u" "ui_mount (begin_login r k u) = ui_mount u"
  by (simp_all add: begin_login_def ui_await_def ui_emit_def)

text \<open>The part of the invariant that speaks of the logins of the export view.\<close>

definition export_login_ok :: "ui \<Rightarrow> nat \<Rightarrow> nat \<Rightarrow> bool" where
  "export_login_ok u r m \<longleftrightarrow>
     Ev_plaintext_confirmed m \<in> set (ui_log u) \<and> (\<exists>bs. Ev_login_start r (L_export m) bs \<in> set (ui_log u))"

lemma gated_export: "gated_upto R u \<Longrightarrow> UT_login1 r (L_export m) \<in> set (ui_tasks u) \<Longrightarrow> export_login_ok u r m"
  "gated_upto R u \<Longrightarrow> UT_login2 r (L_export m) \<in> set (ui_tasks u) \<Longrightarrow> export_login_ok u r m"
  unfolding gated_upto_def export_login_ok_def by blast+

lemma gated_uptoI:
  assumes "gate_ok (ui_log u)" "reauth_stage u \<Longrightarrow> Ev_plaintext_confirmed (ui_mount u) \<in> set (ui_log u)"
    "\<And>r m. UT_login1 r (L_export m) \<in> set (ui_tasks u) \<Longrightarrow> export_login_ok u r m"
    "\<And>r m. UT_login2 r (L_export m) \<in> set (ui_tasks u) \<Longrightarrow> export_login_ok u r m"
    "\<And>r. UT_login1 r L_background \<in> set (ui_tasks u) \<Longrightarrow> r \<in> R \<or> all_zero u r"
    "\<And>t r. t \<in> set (ui_tasks u) \<Longrightarrow> task_ref t = Some r \<Longrightarrow> r < length (ui_buffers u)"
    "no_conflicts_view u"
  shows "gated_upto R u"
  using assms unfolding gated_upto_def export_login_ok_def by blast

lemma gated_start:
  assumes "gated_upto R u" "\<And>m. k = L_export m \<Longrightarrow> Ev_plaintext_confirmed m \<in> set (ui_log u)"
    "k = L_background \<Longrightarrow> r \<in> R"
  shows "gated_upto R (begin_login r k u)"
proof (rule gated_uptoI)
  have e: "export_login_ok u q m \<Longrightarrow> export_login_ok (begin_login r k u) q m" for q m
    by (auto simp: export_login_ok_def begin_login_fields)
  show "export_login_ok (begin_login r k u) q m" if "UT_login1 q (L_export m) \<in> set (ui_tasks (begin_login r k u))" for q m
    using that assms(2) e gated_export(1) [OF assms(1)] by (auto simp: begin_login_fields export_login_ok_def)
  show "export_login_ok (begin_login r k u) q m" if "UT_login2 q (L_export m) \<in> set (ui_tasks (begin_login r k u))" for q m
    using that e gated_export(2) [OF assms(1)] by (simp add: begin_login_fields)
qed (use assms in \<open>auto simp: gated_upto_def begin_login_fields reauth_stage_def no_conflicts_view_def all_zero_def\<close>)

lemma gated_wipe: "gated_upto {r} u \<Longrightarrow> r < length (ui_buffers u) \<Longrightarrow> gated (fill_zero r u)"
proof -
  assume g: "gated_upto {r} u" and r: "r < length (ui_buffers u)"
  from quiet_gated [OF quiet_wipe [OF quiet_refl] g] have "gated_upto {r} (fill_zero r u)" .
  moreover have "all_zero (fill_zero r u) r" using r by (auto simp: all_zero_def fill_zero_def)
  ultimately show ?thesis by (auto simp: gated_upto_def)
qed

lemma gated_mono: "gated u \<Longrightarrow> gated_upto R u"
  by (auto simp: gated_upto_def)

lemma gated_unlock_done:
  assumes "gated u" "r < length (ui_buffers u)"
  shows "gated (unlock_done jp now m r res u)"
proof (cases res)
  case None
  have "ui_quiet u (unlock_done jp now m r None u)" by (auto simp: unlock_done_def intro!: frame_intros)
  with None quiet_gated [OF _ assms(1)] show ?thesis by simp
next
  case (Some x)
  let ?v = "syncNow (resetInactivityTimer now (ui_emit (Ev_status ''Vault unlocked.'') u))"
  have q: "ui_quiet u ?v" by (auto simp: resetInactivityTimer_def intro!: frame_intros)
  have "gated_upto {r} (begin_login r L_background ?v)"
    by (rule gated_start [OF gated_mono [OF quiet_gated [OF q assms(1)]]]) simp_all
  moreover have n: "ui_quiet (begin_login r L_background ?v) (navigate jp (View_vault None) (begin_login r L_background ?v))"
    by (rule quiet.frame_go) simp_all
  ultimately have g: "gated_upto {r} (navigate jp (View_vault None) (begin_login r L_background ?v))"
    by (rule quiet_gated [rotated])
  have "r < length (ui_buffers ?v)" using q assms(2) by (auto simp: ui_quiet_def)
  then have "r < length (ui_buffers (navigate jp (View_vault None) (begin_login r L_background ?v)))"
    using n by (auto simp: ui_quiet_def begin_login_fields)
  from gated_wipe [OF g this] Some show ?thesis by (simp add: unlock_done_def)
qed

lemma gated_continue:
  assumes "gated u" "\<And>r. cont_ref k = Some r \<Longrightarrow> r < length (ui_buffers u)"
  shows "gated (ui_continue pf mo k res u)"
proof (cases "cont_ref k")
  case None
  then have "k \<noteq> UK_unlock m r" for m r by auto
  from quiet.frame_continue [OF this quiet_refl] assms(1) show ?thesis by (rule quiet_gated)
next
  case (Some r)
  then obtain m where "k = UK_unlock m r" by (cases k) auto
  with gated_unlock_done [OF assms(1)] assms(2) Some show ?thesis by (simp add: ui_continue_def)
qed

lemma quiet_login_settled:
  assumes "\<And>m. k = L_export m \<Longrightarrow> \<not> ok"
  shows "ui_quiet u (login_settled r k ok u)"
proof (cases k)
  case (L_export m)
  then have "\<not> ok" using assms by blast
  with L_export show ?thesis by (auto simp: login_settled_def reauth_done_def intro!: frame_intros calm_export)
qed (auto simp: login_settled_def intro!: frame_intros)

lemma gated_leg1:
  assumes "gated (u\<lparr>ui_tasks := UT_login1 r k # ui_tasks u\<rparr>)"
  shows "gated (login_leg1 r k ok u)"
proof (cases ok)
  case True
  have "k = L_background \<Longrightarrow> set (buffer u r) \<subseteq> {0}"
    using assms by (auto simp: gated_upto_def all_zero_def buffer_def)
  with True assms show ?thesis
    by (auto simp: login_leg1_def gated_upto_def ui_await_def ui_emit_def reauth_stage_def no_conflicts_view_def all_zero_def)
next
  case False
  have "gated u" using assms by (auto simp: gated_upto_def reauth_stage_def no_conflicts_view_def all_zero_def)
  moreover have "ui_quiet u (login_settled r k False u)" by (rule quiet_login_settled) simp
  ultimately show ?thesis using False by (simp add: login_leg1_def quiet_gated)
qed

lemma gated_leg2:
  assumes "gated (u\<lparr>ui_tasks := UT_login2 r k # ui_tasks u\<rparr>)"
  shows "gated (login_leg2 r k ok u)"
proof -
  let ?v = "(ui_emit (Ev_login_ok r k) u)\<lparr>ui_token := True\<rparr>"
  have u: "gated u" using assms by (auto simp: gated_upto_def reauth_stage_def no_conflicts_view_def all_zero_def)
  then have v: "gated ?v"
    by (auto simp: gated_upto_def ui_emit_def reauth_stage_def no_conflicts_view_def all_zero_def)
  show ?thesis
  proof (cases "ok \<and> (\<exists>m. k = L_export m)")
    case True
    then obtain m where k: "ok" "k = L_export m" by blast
    from assms k have "Ev_plaintext_confirmed m \<in> set (ui_log u)" "\<exists>bs. Ev_login_start r (L_export m) bs \<in> set (ui_log u)"
      by (auto simp: gated_upto_def)
    with v k have g: "gated (ui_emit (Ev_plaintext_download m rows) ?v)" for rows
      by (auto simp: gated_upto_def ui_emit_def reauth_stage_def no_conflicts_view_def all_zero_def)
    have "ui_quiet (ui_emit (Ev_plaintext_download m rows) ?v)
       (fill_zero r (ui_set m (on_export (\<lambda>x. x\<lparr>ex_stage := Stage_menu\<rparr>))
         (ui_emit (Ev_status ''Plaintext export downloaded.'') (ui_emit (Ev_plaintext_download m rows) ?v))))" for rows
      by (rule quiet_wipe, rule quiet.frame_set_screen, rule calm_export, simp, rule quiet_emit, simp, rule quiet_refl)
    from quiet_gated [OF this g] show ?thesis
      using k by (simp add: login_leg2_def login_settled_def reauth_done_def)
  next
    case False
    then show ?thesis
      using quiet_gated [OF quiet_login_settled [of k False] u] quiet_gated [OF quiet_login_settled [of k ok] v]
      by (cases ok) (simp_all add: login_leg2_def)
  qed
qed



section \<open>All runs\<close>

lemma task_split: "n < length ts \<Longrightarrow> set ts = insert (ts ! n) (set (take n ts @ drop (Suc n) ts))"
  by (subst id_take_nth_drop [of n ts]) simp_all

lemma gated_restore:
  assumes "gated u" "n < length (ui_tasks u)"
  shows "gated ((drop_task n u)\<lparr>ui_tasks := ui_tasks u ! n # ui_tasks (drop_task n u)\<rparr>)"
  by (rule quiet_gated [OF quiet_fields [OF quiet_refl] assms(1)])
    (use task_split [OF assms(2)] in \<open>auto simp: drop_task_def reauth_stage_def no_conflicts_view_def\<close>)

lemma gated_settle:
  assumes "gated u" "n < length (ui_tasks u)" "ui_settle pf mo (ui_tasks u ! n) a (drop_task n u) = Some v"
  shows "gated v"
proof -
  let ?w = "drop_task n u"
  have w: "gated ?w" by (rule gated_drop [OF assms(1)])
  note restored = gated_restore [OF assms(1,2)]
  have ref: "r < length (ui_buffers ?w)" if "task_ref (ui_tasks u ! n) = Some r" for r
    using assms(1) nth_mem [OF assms(2)] that unfolding gated_upto_def drop_task_def by simp
  have q: "gated x" if "ui_quiet ?w x" for x using quiet_gated [OF that w] .
  show ?thesis
  proof (cases "ui_tasks u ! n")
    case (UT_session t k)
    then obtain s out where v: "v = ui_await (settle out k) (?w\<lparr>ui_session := s\<rparr>)"
      using assms(3) by (auto simp: ui_settle_def split: ui_settlement.splits option.splits)
    have "ui_quiet ?w v"
      unfolding v using ref UT_session by (intro quiet_await_ref quiet_session) (auto simp: ui_task_ok_def)
    then show ?thesis by (rule q)
  next
    case (UT_ready k res)
    then have "v = ui_continue pf mo k res ?w" using assms(3) by (auto simp: ui_settle_def split: ui_settlement.splits)
    with gated_continue [OF w] ref UT_ready show ?thesis by simp
  next
    case (UT_login1 r k)
    then obtain ok where "v = login_leg1 r k ok ?w" using assms(3) by (auto simp: ui_settle_def split: ui_settlement.splits)
    with gated_leg1 restored UT_login1 show ?thesis by simp
  next
    case (UT_login2 r k)
    then obtain ok where "v = login_leg2 r k ok ?w" using assms(3) by (auto simp: ui_settle_def split: ui_settlement.splits)
    with gated_leg2 restored UT_login2 show ?thesis by simp
  qed (use assms(3) in \<open>auto simp: ui_settle_def split: ui_settlement.splits intro!: q frame_intros\<close>)
qed

lemma gated_confirm: "gated u \<Longrightarrow> gated (export_confirm_submit typed u)"
  by (cases "ui_screen u")
    (auto simp: export_confirm_submit_def set_export_def ui_emit_def gated_upto_def reauth_stage_def no_conflicts_view_def
      all_zero_def)

lemma gated_submits:
  assumes "gated u"
  shows "gated (reauth_submit pw u)" "gated (revoke_submit pw u)"
proof -
  let ?v = "\<lambda>bs. u\<lparr>ui_buffers := ui_buffers u @ [bs]\<rparr>"
  have q: "gated (?v bs)" for bs
    using quiet_gated [OF quiet_buffer [OF quiet_refl] assms, of bs] by (simp add: new_buffer_def)
  have c: "Ev_plaintext_confirmed (ui_mount u) \<in> set (ui_log u)" if "ui_screen u = Scr_export x" "ex_stage x = Stage_reauth" for x
    using assms that by (auto simp: gated_upto_def reauth_stage_def)
  show "gated (reauth_submit pw u)"
    using assms gated_start [OF q, of "L_export (ui_mount u)"] c
    by (cases "ui_screen u") (auto simp: reauth_submit_def new_buffer_def)
  show "gated (revoke_submit pw u)"
    using assms gated_start [OF q] by (cases "ui_screen u") (auto simp: revoke_submit_def new_buffer_def split: option.splits)
qed

lemma nav_targets_no_conflicts: "View_conflicts \<notin> set (nav_targets s)"
  by (cases s) (simp_all add: nav_targets_def)

lemma gated_handle:
  assumes "gated u"
  shows "gated (ui_handle pf i u)"
proof -
  note q = quiet_gated [OF _ assms]
  show ?thesis
  proof (cases i)
    case (I_settle n mo a)
    then show ?thesis using assms gated_settle [OF assms] by (auto split: option.splits)
  next
    case (I_nav v)
    have "v \<in> set (nav_targets (ui_screen u)) \<Longrightarrow> v \<noteq> View_conflicts" using nav_targets_no_conflicts by metis
    with I_nav assms q [OF quiet.frame_go] show ?thesis by auto
  qed (use assms in \<open>simp_all add: q quiet.frame_app_handlers quiet_session quiet.frame_onboarding_handlers quiet_unlock_submit
      quiet.frame_vault_handlers quiet.frame_other_handlers gated_confirm gated_submits\<close>)
qed

lemma gated_boot: "gated (ui_boot jp storage rnd)"
proof -
  obtain st a where g: "getOrCreateAccountId storage rnd = (st, a)" by (cases "getOrCreateAccountId storage rnd")
  let ?v = "if hasAccountBundle a st then View_unlock else View_onboarding"
  let ?u = "\<lparr>ui_view = ?v, ui_screen = Scr_onboarding onboarding_new, ui_mount = 0, ui_session = vault_session_new,
     ui_storage = st, ui_buffers = [], ui_timer = None, ui_conflicts = [], ui_token = False,
     ui_effects = 0, ui_tasks = [], ui_log = []\<rparr>"
  have "gated ?u" by (simp add: gated_upto_def reauth_stage_def no_conflicts_view_def)
  moreover have "app_component ?v False \<noteq> Comp_conflicts" by (simp add: component_conflicts)
  ultimately show ?thesis
    unfolding ui_boot_def g using quiet_gated [OF quiet_mount [OF _ quiet_refl]] by (simp add: Let_def)
qed

lemma gated_reachable: "ui_reachable pf u \<Longrightarrow> gated u"
  by (induction rule: ui_reachable.induct) (simp_all add: gated_boot gated_handle)


section \<open>A sample run\<close>

text \<open>A profile with a stored bundle whose byte fields are empty, opened, and a plaintext export.\<close>

definition stored_bundle :: account_bundle where
  "stored_bundle = \<lparr>ab_accountId = ''a'', ab_vaultId = ''v'', ab_itemId = ''k'', ab_kdfParametersCbor = [], ab_wrappedAccountKey = [],
     ab_wrappedVaultKey = [], ab_wrappedItemKey = [], ab_wrappedRecoveryKey = []\<rparr>"

definition sample_platform :: platform where
  "sample_platform = \<lparr>pf_json = (\<lambda>_. Some (JObj (map (\<lambda>(k, v). (k, JStr v)) (stored_fields stored_bundle)))),
     pf_import = (\<lambda>_. Inl []), pf_decode = (\<lambda>_. None)\<rparr>"

definition sample_profile :: local_storage where
  "sample_profile = [(ACCOUNT_ID_KEY, ''a''), (bundle_key ''a'', ''{}'')]"

definition sample_moment :: moment where
  "sample_moment = \<lparr>mo_now = 0, mo_uuid = ''u'', mo_error = []\<rparr>"

definition unlock_inputs :: "ui_input list" where
  "unlock_inputs =
     [I_unlock [112, 119], I_settle 0 sample_moment (S_session (W_session (Some 1))),
      I_settle 0 sample_moment (S_session (W_items (Some []))), I_settle 0 sample_moment (S_session (W_queue (Some []))),
      I_settle 0 sample_moment S_run]"

definition export_inputs :: "ui_input list" where
  "export_inputs =
     [I_nav View_export, I_plaintext, I_export_confirm ''EXPORT PLAINTEXT'', I_reauth [112, 119],
      I_settle 0 sample_moment (S_ok True), I_settle 0 sample_moment (S_ok True)]"

definition sample_boot :: ui where
  "sample_boot = ui_boot (pf_json sample_platform) sample_profile []"

definition sample_opened :: ui where
  "sample_opened = ui_run sample_platform unlock_inputs sample_boot"

definition sample_exported :: ui where
  "sample_exported = ui_run sample_platform export_inputs sample_opened"

lemma sample_run_reachable:
  "ui_reachable sample_platform sample_boot" "ui_reachable sample_platform sample_opened"
  "ui_reachable sample_platform sample_exported"
  unfolding sample_exported_def sample_opened_def sample_boot_def by (intro ui_run_reachable ui_reachable.boot)+

lemma profile_load: "loadAccountBundle (pf_json sample_platform) ''a'' sample_profile = Some (Some stored_bundle)"
  by code_simp

lemma profile_account: "getOrCreateAccountId sample_profile rnd = (sample_profile, ''a'')"
  by (simp add: getOrCreateAccountId_def sample_profile_def ACCOUNT_ID_KEY_def)

lemma sample_has: "hasAccountBundle ''a'' sample_profile"
  by (simp add: hasAccountBundle_def sample_profile_def bundle_key_def ACCOUNT_ID_KEY_def)

lemma sample_boot_eq:
  "sample_boot = \<lparr>ui_view = View_unlock, ui_screen = Scr_unlock \<lparr>un_bundle = Some stored_bundle, un_error = []\<rparr>, ui_mount = 1,
     ui_session = vault_session_new, ui_storage = sample_profile, ui_buffers = [], ui_timer = None, ui_conflicts = [],
     ui_token = False, ui_effects = 0, ui_tasks = [], ui_log = []\<rparr>"
  by (simp add: sample_boot_def ui_boot_def profile_account sample_has Let_def app_component_def mount_component_def
      mount_unlock_def current_account_def profile_load ui_mounted_def)

lemmas run_defs = ui_run_def ui_settle_def drop_task_def call_session_def settle_def ui_await_def ui_emit_def ui_set_def
  new_buffer_def buffer_def fill_zero_def begin_login_def navigate_def app_render_def app_component_def mount_component_def
  ui_mounted_def ui_unlocked_def isUnlocked_def ui_continue_def sample_moment_def Let_def

lemmas session_run_defs = vs_unlock_start_def vs_unlock_resume_def loadAllItemsIntoMemory_def vs_resume_def list_resume_def
  queue_resume_def isGenerationCurrent_def vault_session_new_def

lemma sample_opened_eq:
  "sample_opened = \<lparr>ui_view = View_vault None, ui_screen = Scr_vault (vault_screen_new None), ui_mount = 2,
     ui_session = vault_session_new\<lparr>vs_session := Some 1, vs_bundle := Some stored_bundle, vs_generation := 1\<rparr>,
     ui_storage = sample_profile, ui_buffers = [[0, 0]], ui_timer = Some 300000, ui_conflicts = [],
     ui_token = False, ui_effects = 0, ui_tasks = [UT_login1 0 L_background, UT_pull],
     ui_log = [Ev_login_start 0 L_background [112, 119], Ev_pull, Ev_status ''Vault unlocked.'']\<rparr>"
  by (simp add: sample_opened_def sample_boot_eq unlock_inputs_def run_defs session_run_defs unlock_form_submit_def
      unlock_done_def syncNow_def resetInactivityTimer_def INACTIVITY_LOCK_MS_def encode_bytes_def text_encode_def
      unit_scalar_def high_surrogate_def low_surrogate_def encode_scalar_def view_item_def)



section \<open>Properties\<close>



text \<open>
  C18. The login that the unlock form starts in the background never authenticates with the user's
  password: its second leg reads the shared buffer after the form's \<open>finally\<close> block has wiped it, so in
  every run every completion of such a login is computed from zero bytes only, whatever was
  typed.
\<close>

theorem background_login_reads_zeroes:
  assumes "ui_reachable pf u" "Ev_login_finish r L_background bs \<in> set (ui_log u)"
  shows "set bs \<subseteq> {0}"
proof -
  obtain xs ys where l: "ui_log u = xs @ Ev_login_finish r L_background bs # ys"
    using assms(2) by (meson split_list)
  have "gate_ok (xs @ Ev_login_finish r L_background bs # ys)"
    using gated_reachable [OF assms(1)] by (simp add: gated_upto_def l)
  from gate_ok_split [OF this] show ?thesis by simp
qed

definition sample_login_answered :: ui where
  "sample_login_answered = ui_run sample_platform [I_settle 0 sample_moment (S_ok True)] sample_opened"

theorem background_login_reads_zeroes_witness:
  "Ev_login_start 0 L_background [112, 119] \<in> set (ui_log sample_login_answered) \<and>
   Ev_login_finish 0 L_background [0, 0] \<in> set (ui_log sample_login_answered) \<and> set [0, 0 :: uint8] \<subseteq> {0}"
proof -
  have r: "ui_reachable sample_platform sample_login_answered"
    unfolding sample_login_answered_def by (rule ui_run_reachable [OF sample_run_reachable(2)])
  have l: "ui_log sample_login_answered = Ev_login_finish 0 L_background [0, 0] # ui_log sample_opened"
    by (simp add: sample_login_answered_def sample_opened_eq run_defs login_leg1_def)
  then have "Ev_login_finish 0 L_background [0, 0] \<in> set (ui_log sample_login_answered)" by simp
  with background_login_reads_zeroes [OF r this] show ?thesis by (simp add: l sample_opened_eq)
qed

text \<open>
  The view that resolves sync conflicts is never shown: no button and no handler of the interface
  leads there, so in every run the conflicts that a synchronisation announces as needing the user's
  attention cannot be looked at or resolved.
\<close>

theorem conflicts_view_unreachable:
  assumes "ui_reachable pf u"
  shows "ui_view u \<noteq> View_conflicts" and "\<nexists>c. ui_screen u = Scr_conflicts c"
  using gated_reachable [OF assms] by (auto simp: gated_upto_def no_conflicts_view_def)

theorem conflicts_view_unreachable_witness:
  "ui_reachable sample_platform sample_opened \<and> ui_view sample_opened \<noteq> View_conflicts"
  using conflicts_view_unreachable(1) [OF sample_run_reachable(2)] sample_run_reachable(2) by blast

end
