(* ===== verification/Web_Session_Link.thy ===== *)
theory Web_Session_Link
  imports Web_Properties Vault_Session_Properties
begin

text \<open>
  The interface drives the vault session: every run of the interface, seen from the session alone,
  is a run of calls, answers and timers of the session.  What holds in all reachable states of the session
  therefore holds below the views, too.
\<close>


section \<open>The simulation\<close>

text \<open>The tasks of the session among those of the interface.\<close>

fun session_task :: "ui_task \<Rightarrow> vs_task list" where
  "session_task (UT_session t k) = [t]"
| "session_task _ = []"

definition session_tasks :: "ui_task list \<Rightarrow> vs_task list" where
  "session_tasks ts = concat (map session_task ts)"

lemma session_tasks_simps [simp]:
  "session_tasks [] = []" "session_tasks (t # ts) = session_task t @ session_tasks ts"
  "session_tasks (ts @ us) = session_tasks ts @ session_tasks us"
  by (simp_all add: session_tasks_def)

definition session_follows :: "(bytes \<Rightarrow> item_data option) \<Rightarrow> ui \<Rightarrow> ui \<Rightarrow> bool" where
  "session_follows decode u v \<longleftrightarrow>
     (\<forall>ts. mset ts = mset (session_tasks (ui_tasks u)) \<longrightarrow>
        (\<exists>us. (vs_step decode)\<^sup>*\<^sup>* (ui_session u, ts) (ui_session v, us) \<and> mset us = mset (session_tasks (ui_tasks v))))"

lemma follows_refl: "session_follows decode u u"
  by (auto simp: session_follows_def)

lemma follows_trans: "session_follows decode u v \<Longrightarrow> session_follows decode v w \<Longrightarrow> session_follows decode u w"
  unfolding session_follows_def by (meson rtranclp_trans)

lemma follows_fields:
  "ui_session v = ui_session u \<Longrightarrow> session_tasks (ui_tasks v) = session_tasks (ui_tasks u) \<Longrightarrow> session_follows decode u v"
  by (auto simp: session_follows_def)

lemma session_task_settle [simp]: "session_task (settle out k) = vs_add_task out []"
  by (cases out) (simp_all add: settle_def vs_add_task_def)

lemma mset_add_task: "mset (vs_add_task out ts) = mset (vs_add_task out []) + mset ts"
  by (simp add: vs_add_task_def split: vs_outcome.splits)

lemma follows_call: "session_follows decode u (call_session c k u)"
proof -
  obtain s out where st: "vs_start c (ui_session u) = (s, out)" by (cases "vs_start c (ui_session u)")
  have "(vs_step decode)\<^sup>*\<^sup>* (ui_session u, ts) (s, vs_add_task out ts)" for ts
    by (rule r_into_rtranclp, rule vs_step.call, rule st)
  moreover have "mset (vs_add_task out ts) = mset (vs_add_task out []) + mset ts" for ts by (rule mset_add_task)
  moreover have "ui_session (call_session c k u) = s"
    "session_tasks (ui_tasks (call_session c k u)) = vs_add_task out [] @ session_tasks (ui_tasks u)"
    by (simp_all add: call_session_def st ui_await_def)
  ultimately show ?thesis unfolding session_follows_def by (metis mset_append)
qed

lemma side_task_session: "side_task t \<Longrightarrow> session_task t = []"
  by (cases t) simp_all

lemma follows_effect: "session_follows decode u (conflict_effect u)"
proof (cases "ui_screen u")
  case (Scr_conflicts c)
  let ?e = "Suc (ui_effects u)"
  let ?v = "u\<lparr>ui_effects := ?e, ui_screen := Scr_conflicts (c\<lparr>cv_effect := ?e\<rparr>)\<rparr>"
  have "session_follows decode u ?v" by (rule follows_fields) simp_all
  moreover have "session_follows decode ?v (call_session x y ?v)" for x y by (rule follows_call)
  ultimately have "session_follows decode u (call_session x y ?v)" for x y by (rule follows_trans)
  moreover have "session_follows decode u (?v\<lparr>ui_screen := z\<rparr>)" for z by (rule follows_fields) simp_all
  ultimately show ?thesis using Scr_conflicts by (simp add: conflict_effect_def Let_def)
qed (simp_all add: conflict_effect_def follows_refl)

lemma follows_mount: "session_follows decode u (mount_component jp c u)"
proof (cases c)
  case Comp_conflicts
  have "session_follows decode u (ui_mounted s u)" for s by (rule follows_fields) (simp_all add: ui_mounted_def)
  from follows_trans [OF this follows_effect] Comp_conflicts show ?thesis by (simp add: mount_component_def)
qed (auto simp: mount_component_def mount_unlock_def ui_mounted_def ui_await_def Let_def split: option.splits
    intro!: follows_fields)

lemma follows_render: "session_follows decode u (app_render jp u)"
  by (simp add: app_render_def Let_def follows_refl follows_mount)

interpretation follows: ui_frame "session_follows decode"
proof
  show "session_follows decode u u" for u by (rule follows_refl)
  show "session_follows decode u v \<Longrightarrow> session_follows decode v x \<Longrightarrow> session_follows decode u x" for u v x by (rule follows_trans)
  show "side_task t \<Longrightarrow> session_follows decode u (ui_await t u)" for t u
    by (rule follows_fields) (simp_all add: ui_await_def side_task_session)
  show "session_follows decode u (call_session c k u)" for c k u by (rule follows_call)
  show "session_follows decode u (conflict_effect u)" for u by (rule follows_effect)
  show "session_follows decode u (app_render jp u)" for jp u by (rule follows_render)
qed (auto simp: ui_emit_def new_buffer_def fill_zero_def intro!: follows_fields)


section \<open>The remaining handlers\<close>

lemma follows_login:
  "session_follows decode u v \<Longrightarrow> session_follows decode u (begin_login r k v)"
  by (erule follows_trans, rule follows_fields) (simp_all add: begin_login_def ui_await_def ui_emit_def)

lemma follows_any_emit: "session_follows decode u v \<Longrightarrow> session_follows decode u (ui_emit e v)"
  by (erule follows_trans, rule follows_fields) (simp_all add: ui_emit_def)

lemma follows_screen: "session_follows decode u v \<Longrightarrow> session_follows decode u (v\<lparr>ui_screen := s\<rparr>)"
  by (erule follows_trans, rule follows_fields) simp_all

lemma follows_any_call: "session_follows decode u v \<Longrightarrow> session_follows decode u (call_session c k v)"
  by (erule follows_trans) (rule follows_call)

lemma follows_submits:
  "session_follows decode u (unlock_form_submit pw u)" "session_follows decode u (reauth_submit pw u)" "session_follows decode u (revoke_submit pw u)"
  "session_follows decode u (export_confirm_submit typed u)"
  unfolding unlock_form_submit_def reauth_submit_def revoke_submit_def export_confirm_submit_def set_export_def
  by (cases "ui_screen u"; auto split: option.splits
      intro!: follows_any_call follows_login follows_any_emit follows_screen frame_intros)+

lemma follows_unlock_done: "session_follows decode u (unlock_done jp now m r res u)"
  unfolding unlock_done_def resetInactivityTimer_def
  by (cases res) (auto intro!: follows_login frame_intros)

lemma follows_continue: "session_follows decode u (ui_continue pf mo k res u)"
proof (cases "\<exists>m r. k = UK_unlock m r")
  case True
  then show ?thesis using follows_unlock_done by (auto simp: ui_continue_def)
next
  case False
  then show ?thesis by (intro follows.frame_continue) auto
qed

lemma follows_legs:
  "session_follows decode u (login_leg1 r k ok u)" "session_follows decode u (login_leg2 r k ok u)"
proof -
  have s: "session_follows decode u (login_settled r k ok u)" for u ok
    unfolding login_settled_def reauth_done_def ui_set_def
    by (cases k) (auto intro!: follows_any_emit follows_screen frame_intros)
  have t: "session_follows decode u (u\<lparr>ui_token := b\<rparr>)" for u b by (rule follows_fields) simp_all
  have a: "session_follows decode u (ui_await (UT_login2 r k) v)" if "session_follows decode u v" for v
    by (rule follows_trans [OF that], rule follows_fields) (simp_all add: ui_await_def)
  show "session_follows decode u (login_leg1 r k ok u)"
    unfolding login_leg1_def using s by (auto intro!: a follows_any_emit follows_refl)
  show "session_follows decode u (login_leg2 r k ok u)"
    unfolding login_leg2_def
    using s follows_trans [OF follows_trans [OF follows_any_emit [OF follows_refl] t] s] by auto
qed


section \<open>All runs\<close>

lemma session_tasks_drop:
  assumes "n < length (ui_tasks u)"
  shows "mset (session_tasks (ui_tasks u)) = mset (session_task (ui_tasks u ! n)) + mset (session_tasks (ui_tasks (drop_task n u)))"
  by (subst id_take_nth_drop [OF assms]) (simp add: drop_task_def)

lemma follows_drop:
  "n < length (ui_tasks u) \<Longrightarrow> session_task (ui_tasks u ! n) = [] \<Longrightarrow> session_follows decode u (drop_task n u)"
  using session_tasks_drop [of n u] by (auto simp: session_follows_def drop_task_def)

lemma follows_resume:
  assumes "n < length (ui_tasks u)" "ui_tasks u ! n = UT_session t k"
    "vs_resume decode uuid ans t (ui_session u) = Some (s, out)"
  shows "session_follows decode u (ui_await (settle out k) ((drop_task n u)\<lparr>ui_session := s\<rparr>))"
  unfolding session_follows_def
proof (intro allI impI)
  fix ts assume ts: "mset ts = mset (session_tasks (ui_tasks u))"
  let ?w = "drop_task n u"
  have m: "mset ts = add_mset t (mset (session_tasks (ui_tasks ?w)))"
    using session_tasks_drop [OF assms(1)] assms(2) ts by simp
  then have t: "t \<in> set ts" by (metis set_mset_mset union_single_eq_member)
  have "(vs_step decode)\<^sup>*\<^sup>* (ui_session u, ts) (s, vs_add_task out (remove1 t ts))"
    by (rule r_into_rtranclp, rule vs_step.resume [OF t assms(3)])
  moreover have "mset (vs_add_task out (remove1 t ts)) = mset (session_tasks (ui_tasks (ui_await (settle out k) (?w\<lparr>ui_session := s\<rparr>))))"
    using m mset_add_task [of out "remove1 t ts"] by (simp add: ui_await_def)
  ultimately show "\<exists>us. (vs_step decode)\<^sup>*\<^sup>* (ui_session u, ts) (ui_session (ui_await (settle out k) (?w\<lparr>ui_session := s\<rparr>)), us) \<and>
      mset us = mset (session_tasks (ui_tasks (ui_await (settle out k) (?w\<lparr>ui_session := s\<rparr>))))"
    by (auto simp: ui_await_def)
qed

lemma follows_settle:
  assumes "n < length (ui_tasks u)" "ui_settle pf mo (ui_tasks u ! n) a (drop_task n u) = Some v"
  shows "session_follows (pf_decode pf) u v"
proof (cases "ui_tasks u ! n")
  case (UT_session t k)
  have "ui_session (drop_task n u) = ui_session u" by (simp add: drop_task_def)
  with UT_session obtain ans s out where "vs_resume (pf_decode pf) (mo_uuid mo) ans t (ui_session u) = Some (s, out)"
    "v = ui_await (settle out k) ((drop_task n u)\<lparr>ui_session := s\<rparr>)"
    using assms(2) by (auto simp: ui_settle_def split: ui_settlement.splits option.splits)
  with follows_resume [OF assms(1) UT_session] show ?thesis by simp
next
  case (UT_ready k res)
  then have "session_follows (pf_decode pf) u (drop_task n u)" by (intro follows_drop [OF assms(1)]) simp
  moreover have "v = ui_continue pf mo k res (drop_task n u)"
    using UT_ready assms(2) by (auto simp: ui_settle_def split: ui_settlement.splits)
  ultimately show ?thesis using follows_trans follows_continue by blast
next
  case (UT_login1 r k)
  then have "session_follows (pf_decode pf) u (drop_task n u)" by (intro follows_drop [OF assms(1)]) simp
  with UT_login1 assms(2) follows_trans follows_legs(1) show ?thesis
    by (auto simp: ui_settle_def split: ui_settlement.splits)
next
  case (UT_login2 r k)
  then have "session_follows (pf_decode pf) u (drop_task n u)" by (intro follows_drop [OF assms(1)]) simp
  with UT_login2 assms(2) follows_trans follows_legs(2) show ?thesis
    by (auto simp: ui_settle_def split: ui_settlement.splits)
qed (use assms follows_drop [OF assms(1)] in
    \<open>auto simp: ui_settle_def split: ui_settlement.splits intro!: frame_intros\<close>)

lemma follows_handle: "session_follows (pf_decode pf) u (ui_handle pf i u)"
proof (cases i)
  case (I_settle n mo a)
  then show ?thesis using follows_settle follows_refl by (auto split: option.splits)
next
  case (I_nav v)
  have "v \<in> set (nav_targets (ui_screen u)) \<Longrightarrow> v \<noteq> View_conflicts" using nav_targets_no_conflicts by metis
  with I_nav show ?thesis by (auto intro!: frame_intros)
next
  case (I_clipboard_timer h)
  have "(vs_step (pf_decode pf))\<^sup>*\<^sup>* (ui_session u, ts) (clipboard_timer_fires h (ui_session u), ts)" for ts
    by (rule r_into_rtranclp, rule vs_step.timer)
  then show ?thesis using I_clipboard_timer by (auto simp: session_follows_def)
qed (simp_all add: follows.frame_app_handlers follows.frame_onboarding_handlers follows.frame_vault_handlers
    follows.frame_other_handlers follows_submits)

lemma boot_session: "ui_session (ui_boot jp storage rnd) = vault_session_new \<and> session_tasks (ui_tasks (ui_boot jp storage rnd)) = []"
  by (auto simp: ui_boot_def app_component_def mount_component_def mount_unlock_def ui_mounted_def Let_def
      split: prod.splits option.splits)

lemma ui_session_reachable:
  "ui_reachable pf u \<Longrightarrow>
   \<exists>ts. vs_reachable (pf_decode pf) (ui_session u) ts \<and> mset ts = mset (session_tasks (ui_tasks u))"
proof (induction rule: ui_reachable.induct)
  case (boot storage rnd)
  then show ?case using boot_session by (auto simp: vs_reachable_def)
next
  case (input u i)
  then obtain ts where ts: "(vs_step (pf_decode pf))\<^sup>*\<^sup>* (vault_session_new, []) (ui_session u, ts)"
    "mset ts = mset (session_tasks (ui_tasks u))" by (auto simp: vs_reachable_def)
  with follows_handle [of pf u i] show ?case unfolding session_follows_def vs_reachable_def by (meson rtranclp_trans)
qed

end
