(* ===== verification/Web_View_Properties.thy ===== *)
theory Web_View_Properties
  imports Web_Session_Link Import_Properties
begin

text \<open>
  The views over the session, the importers and the key-bundle service: what the vault view and the export
  show in every run, the inactivity lock, which imported items are saved, and the conflict view.
\<close>


section \<open>What the views show\<close>









text \<open>The sample run goes on: the user saves an item.\<close>

definition sample_form :: item_form where
  "sample_form = \<lparr>fo_type = ''login'', fo_title = ''Bank'', fo_username = ''me'', fo_password = ''pw'', fo_url = [], fo_notes = [],
     fo_totpSecret = []\<rparr>"




lemma sample_form_valid: "validateItemData (form_item sample_form) = []"
  by code_simp














section \<open>The inactivity lock\<close>




section \<open>Import\<close>

text \<open>
  Which imported items are saved.  The items that the normalizers produce are bounded, and the vault
  accepts such an item exactly if its title is not blank and has at most 500 characters and, when it has
  a TOTP secret, it also has a user name or a password.  The import hands an accepted item to the worker
  for sealing, under the new identifier and with the rest of the items still to come, and counts any other item as failed
  without touching the session.
\<close>

theorem imported_items_accepted:
  assumes "item_bounded i"
  shows "validateItemData (toVaultData i) = [] \<longleftrightarrow>
      trim (n_title i) \<noteq> [] \<and> length (n_title i) \<le> 500 \<and> (n_totp i \<noteq> None \<longrightarrow> n_username i \<noteq> None \<or> n_password i \<noteq> None)"
    and "requireUnlocked (ui_session u) = Some (h, b) \<Longrightarrow>
      ui_session (import_next jp uuid m (i # is) imported failed u) = ui_session u \<and>
      ui_tasks (import_next jp uuid m (i # is) imported failed u) =
        (if validateItemData (toVaultData i) = []
         then UT_session (V_save_seal (vs_generation (ui_session u)) b uuid (toVaultData i)) (UK_import m is imported failed)
         else UT_ready (UK_import m is imported failed) None) # ui_tasks u"
    and "ui_continue pf mo (UK_import m is imported failed) None u = import_next (pf_json pf) (mo_uuid mo) m is imported (failed + 1) u"
proof -
  have t: "truthy v \<longleftrightarrow> v \<noteq> None" if "opt_bounded v" for v
    using that by (cases v) (auto simp: truthy_def opt_bounded_def)
  have "n_title i \<noteq> []" "opt_bounded (n_username i)" "opt_bounded (n_password i)" "opt_bounded (n_notes i)"
    "opt_bounded (map_option nt_secret (n_totp i))"
    using assms by (auto simp: item_bounded_def opt_bounded_def)
  moreover have "\<not> (case n_notes i of None \<Rightarrow> False | Some n \<Rightarrow> length n > 100000)"
    using assms by (auto simp: item_bounded_def opt_bounded_def MAX_FIELD_CHARS_def split: option.splits)
  ultimately show "validateItemData (toVaultData i) = [] \<longleftrightarrow>
      trim (n_title i) \<noteq> [] \<and> length (n_title i) \<le> 500 \<and> (n_totp i \<noteq> None \<longrightarrow> n_username i \<noteq> None \<or> n_password i \<noteq> None)"
    by (auto simp: validateItemData_def toVaultData_def is_login_def t)
qed (auto simp: import_next_def call_session_def saveItem_def ui_emit_def ui_await_def settle_def ui_continue_def import_saved_def)

definition sample_import :: normalized_item where
  "sample_import = \<lparr>n_title = ''Bank'', n_username = None, n_password = None, n_url = None, n_otherUrls = None, n_notes = None,
     n_totp = Some \<lparr>nt_secret = ''ABCD'', nt_algorithm = None, nt_digits = None, nt_periodSeconds = None\<rparr>,
     n_folder = None, n_source = Src_csv\<rparr>"

theorem imported_items_accepted_witness:
  "item_bounded sample_import \<and> validateItemData (toVaultData sample_import) \<noteq> [] \<and>
   validateItemData (toVaultData (sample_import\<lparr>n_username := Some ''me''\<rparr>)) = []"
proof -
  have b: "item_bounded sample_import" "item_bounded (sample_import\<lparr>n_username := Some ''me''\<rparr>)"
    by (simp_all add: item_bounded_def opt_bounded_def sample_import_def MAX_FIELD_CHARS_def)
  have t: "trim ''Bank'' = ''Bank''" by code_simp
  from imported_items_accepted(1) [OF b(1)] imported_items_accepted(1) [OF b(2)] b(1) show ?thesis
    by (simp add: sample_import_def t)
qed


section \<open>Conflicts\<close>

text \<open>
  The conflict view resolves the next conflict with the data of the one before.  When a resolution
  has succeeded and another conflict session_follows, the view moves on but keeps showing the decrypted data of the
  resolved one until the next has been decrypted; a click in the meantime seals these data
  for the item of the next conflict.
\<close>

theorem stale_conflict_resolution:
  assumes "ui_screen u = Scr_conflicts c" "cv_decrypted c = Some d" "Suc (cv_index c) < length (ui_conflicts u)"
    "requireUnlocked (ui_session u) = Some (h, b)" "validateItemData (dc_currentData d) = []"
  shows "\<exists>c'. ui_screen (conflict_resolved (ui_mount u) (Some R_unit) u) = Scr_conflicts c' \<and>
      cv_index c' = Suc (cv_index c) \<and> cv_decrypted c' = Some d"
    and "hd (ui_tasks (resolve_click True (conflict_resolved (ui_mount u) (Some R_unit) u))) =
      UT_session (V_resolve_seal (vs_generation (ui_session u)) b (ui_conflicts u ! Suc (cv_index c)) (dc_currentData d))
        (UK_resolve (ui_mount u))"
proof -
  let ?e = "Suc (ui_effects u)" and ?k = "Suc (cv_index c)"
  let ?c = "c\<lparr>cv_index := ?k, cv_effect := ?e\<rparr>"
  obtain out where out: "decryptConflict (ui_conflicts u ! ?k) (ui_session u) = (ui_session u, out)"
    using assms(4) by (cases "decodeB64 (ciphertext (cf_current (ui_conflicts u ! ?k)))") (simp_all add: decryptConflict_def)
  have v: "conflict_resolved (ui_mount u) (Some R_unit) u =
      ui_await (settle out (UK_decrypt (ui_mount u) ?e)) (u\<lparr>ui_effects := ?e, ui_screen := Scr_conflicts ?c\<rparr>)"
    using assms(1,3) out
    by (simp add: conflict_resolved_def ui_set_def conflict_effect_def Let_def call_session_def)
  then show "\<exists>c'. ui_screen (conflict_resolved (ui_mount u) (Some R_unit) u) = Scr_conflicts c' \<and>
      cv_index c' = Suc (cv_index c) \<and> cv_decrypted c' = Some d"
    using assms(2) by (simp add: ui_await_def)
  show "hd (ui_tasks (resolve_click True (conflict_resolved (ui_mount u) (Some R_unit) u))) =
      UT_session (V_resolve_seal (vs_generation (ui_session u)) b (ui_conflicts u ! ?k) (dc_currentData d)) (UK_resolve (ui_mount u))"
    using assms by (simp add: v resolve_click_def call_session_def vs_resolveConflict_def settle_def ui_await_def)
qed

definition sample_conflict :: "id \<Rightarrow> conflict" where
  "sample_conflict i =
     \<lparr>cf_mutationId = ''m'', cf_current = \<lparr>itemId = i, vaultId = ''v'', ciphertext = [], envelopeVersion = [], revision = 1,
        deleted = False, createdAt = [], updatedAt = []\<rparr>,
      cf_attempted = \<lparr>mut_mutationId = ''m'', mut_itemId = i, mut_vaultId = ''v'', mut_baseRevision = 0, mut_ciphertext = [],
        mut_envelopeVersion = [], mut_deleted = False\<rparr>\<rparr>"

definition sample_decrypted :: decrypted_conflict where
  "sample_decrypted = \<lparr>dc_mutationId = ''m'', dc_currentRevision = 1, dc_currentData = form_item sample_form, dc_updatedAt = [],
     dc_baseRevision = 0, dc_attemptedData = form_item sample_form\<rparr>"

definition sample_conflicts :: ui where
  "sample_conflicts = sample_opened\<lparr>ui_conflicts := [sample_conflict ''bank'', sample_conflict ''mail''],
     ui_screen := Scr_conflicts (conflicts_screen_new\<lparr>cv_decrypted := Some sample_decrypted\<rparr>)\<rparr>"

theorem stale_conflict_resolution_witness:
  "hd (ui_tasks (resolve_click True (conflict_resolved 2 (Some R_unit) sample_conflicts))) =
     UT_session (V_resolve_seal 1 stored_bundle (sample_conflict ''mail'') (form_item sample_form)) (UK_resolve 2)"
proof -
  let ?c = "conflicts_screen_new\<lparr>cv_decrypted := Some sample_decrypted\<rparr>"
  have c: "ui_screen sample_conflicts = Scr_conflicts ?c" "cv_decrypted ?c = Some sample_decrypted"
    "Suc (cv_index ?c) < length (ui_conflicts sample_conflicts)"
    "requireUnlocked (ui_session sample_conflicts) = Some (1, stored_bundle)"
    "validateItemData (dc_currentData sample_decrypted) = []"
    by (simp_all add: sample_conflicts_def conflicts_screen_new_def sample_opened_eq requireUnlocked_def sample_decrypted_def
        sample_form_valid)
  from stale_conflict_resolution(2) [OF c] show ?thesis
    by (simp add: sample_conflicts_def sample_opened_eq conflicts_screen_new_def sample_decrypted_def)
qed


section \<open>Publication of the key bundle\<close>

text \<open>
  Publishing overwrites whatever bundle the account has.  The view asks only for the version of the
  stored bundle and publishes under the next one, which the service accepts: if no one publishes in
  between, a different bundle that another client has published is replaced, and once the answers
  are there the view reports success.
\<close>

theorem publish_overwrites_foreign_bundle:
  assumes "map_of (au_key_bundles db) a = Some (foreign, int n)"
    "publish_got m b (Inr (Some (text, n))) u = v"
  shows "hd (ui_log v) = Ev_put_bundle b (n + 1) \<and> hd (ui_tasks v) = UT_publish_put m b (n + 1)"
    and "\<exists>db'. publish_select a bytes (int (n + 1)) db = (db', Published Replaced) \<and>
      map_of (au_key_bundles db') a = Some (bytes, int (n + 1))"
    and "hd (ui_tasks (publish_put m b (n + 1) Put_stored v)) = UT_publish_verify m b (n + 1)"
    and "ui_screen v = Scr_setup x \<Longrightarrow> ui_mount v = m \<Longrightarrow>
      ui_screen (publish_verified m b (n + 1) (Inr (Some (buildAccountBundle b, n + 1))) v) =
        Scr_setup (x\<lparr>es_status := Pub_published\<rparr>)"
  using assms
  by (auto simp: publish_got_def attempted_version_def ui_await_def ui_emit_def publish_select_def update_conv' publish_put_def
      publish_verified_def set_publish_def ui_set_def)

theorem publish_overwrites_foreign_bundle_witness:
  "\<exists>db'. publish_select ''a'' [2] 2 (auth_db_empty\<lparr>au_key_bundles := [(''a'', ([1], 1))]\<rparr>) = (db', Published Replaced) \<and>
     map_of (au_key_bundles db') ''a'' = Some ([2], 2)"
proof -
  let ?db = "auth_db_empty\<lparr>au_key_bundles := [(''a'', ([1], 1))]\<rparr>"
  have "map_of (au_key_bundles ?db) ''a'' = Some ([1], int 1)" by simp
  from publish_overwrites_foreign_bundle(2) [OF this refl, of "[2]"] show ?thesis by simp
qed

end
