(* ===== verification/Spec2Isabelle.thy ===== *)
theory Spec2Isabelle
  imports Sync_Properties Repository_Agreement Background_Properties Totp Vault_Session_Properties
    Import_Properties Worker_Properties Api_Properties Account_Bundle Extension_Vault_Properties
    Backend_Wire Backend_Auth_Invariant Backend_Concurrency Association_Storage Content_Script Popup_Edit Web_Crypto_Properties
    Web_View_Properties
begin

text \<open>
  \<^bold>\<open>A verification library for the zenpass zero-knowledge password manager.\<close>

  The program is a TypeScript monorepo: a web client and a browser extension that hold the keys, a backend
  that stores only ciphertext and authentication records, and shared packages.  The parts interact as
  follows.  A client logs in by OPAQUE (\<open>packages/sdk/src/opaque-client.ts\<close> against
  \<open>apps/backend/src/auth/routes.mjs\<close>), fetches the account's key bundle, unwraps it in a crypto worker
  (\<open>packages/crypto-worker\<close>), and keeps encrypted records in a local repository that a sync engine
  (\<open>packages/sdk/src/sync-state-machine.ts\<close>) reconciles with the change feed of the backend.  The web
  client decrypts records in one object, \<open>VaultSession\<close>; the extension in \<open>ExtensionVaultManager\<close>, from which
  \<open>BackgroundPolicy\<close> releases single logins to pages.

  \<^bold>\<open>Conventions\<close> (theory \<open>Prelude\<close>).  Strings are \<open>string\<close>, one character per code unit; bytes are 8-bit words;
  JavaScript numbers that are counters or times are \<open>int\<close> or \<open>nat\<close>, and the bit operations of TOTP are at 32
  bits; a \<open>Map\<close> or a table is an association list with unique keys.  Errors are values.  An \<open>async\<close> method
  is cut at its awaits: a start function, and a resume function for each continuation, so that a run interleaves
  them in any order.  What is not part of the repository (the WASM module, \<open>fetch\<close>, \<open>JSON.parse\<close>, the URL parser, the clock,
  random values, the time format) is an argument of the definitions.

  \<^bold>\<open>Sync client.\<close>
  \<open>Contracts\<close>: wire records and SDK errors (\<open>packages/contracts\<close>).
  \<open>Repository\<close>: the guard \<open>assertMonotonicPut\<close>, the in-memory repository and the locale \<open>repository_laws\<close> that both
  implementations interpret; \<open>Indexed_Db\<close>: the IndexedDB repository, whose transactions may fail at any point;
  \<open>Repository_Agreement\<close>: the two agree.
  \<open>Sync_Engine\<close>, \<open>Sync_Run\<close>, \<open>Sync_Converge\<close>, \<open>Sync_Properties\<close>: push, pull and conflict resolution against an arbitrary
  server, the documented state diagram, runs, and convergence on a well-behaved feed.

  \<^bold>\<open>Extension.\<close>
  \<open>Utf8\<close>, \<open>Js_Value\<close>, \<open>Message_Schema\<close>: messages and their validators; \<open>Fill_Policy\<close>: origins, senders and fill
  decisions; \<open>Session_Capability\<close>: session machine and single-use capabilities; \<open>Fill_Protocol\<close>: the abstract protocol;
  \<open>Background\<close>, \<open>Background_Safety\<close>, \<open>Background_Properties\<close>: the background policy and its refinement of the protocol;
  \<open>Totp\<close>: RFC 6238; \<open>Extension_Vault\<close>, \<open>Extension_Vault_Safety\<close>, \<open>Extension_Vault_Properties\<close>: the vault manager with its
  sessions, freshness checks and token refresh over all interleavings.
  \<open>Association_Storage\<close>: the two storages of the saved account behind the locale \<open>association_store\<close>;
  \<open>Content_Script\<close>: \<open>content.ts\<close> on a document of forms and inputs; \<open>Popup\<close>: the elements and handlers of \<open>popup.ts\<close> and
  the delivery of its messages (JSON in Chrome, structured clone in Firefox); \<open>Popup_Properties\<close>, \<open>Popup_Edit\<close>: popup,
  background and manager together.

  \<^bold>\<open>Web client.\<close>
  \<open>Vault_Item\<close>, \<open>Vault_Session\<close>, \<open>Vault_Session_Properties\<close>: decrypted items and the lock lifecycle;
  \<open>Csv\<close>, \<open>Importers\<close>, \<open>Import_Properties\<close>: CSV parser and import normalizers, with the locale
  \<open>record_normalizer\<close> for the three formats; \<open>Crypto_Worker\<close>, \<open>Worker_Client\<close>, \<open>Worker_Properties\<close>: the worker host, its
  client and the channel between them; \<open>Web_Crypto\<close>, \<open>Web_Crypto_Properties\<close>: the password generator over a source of random
  bytes, the account identifier and the recovery-key display; \<open>Base64\<close>, \<open>Account_Bundle\<close>: wire codecs; \<open>Api_Client\<close>, \<open>Api_Properties\<close>: HTTP
  client, OPAQUE choreography and origin pinning.

  \<^bold>\<open>Web interface.\<close>
  \<open>Web_Ui\<close>: the state of \<open>App.tsx\<close> and of the mounted view, the tasks under way, shared password buffers and the log of
  what leaves the interface; \<open>Web_Views\<close>: the handlers of \<open>App.tsx\<close> and of the views under \<open>apps/web/src/views\<close>, cut at
  their awaits; \<open>Web_Run\<close>: continuations, inputs and runs.  \<open>Web_Frame\<close>: the locale \<open>ui_frame\<close>, which proves once that a
  relation kept by the building blocks is kept by the handlers.  It is interpreted twice: in \<open>Web_Safety\<close>, on which
  \<open>Web_Properties\<close> rests (the gate of the plaintext export, what logins read, which views are reached), and in
  \<open>Web_Session_Link\<close>, which shows that every run of the interface is a run of \<open>Vault_Session\<close>, so that \<open>Web_View_Properties\<close>
  carries the invariants of the session over to what the views show.

  \<^bold>\<open>Backend.\<close>
  \<open>Backend_Sync\<close>: tables, queries and routes of \<open>apps/backend/src/sync\<close>; \<open>Backend_Service\<close>: runs of requests, the
  invariant of the tables and the service as the network of the sync engine; \<open>Backend_Properties\<close>: exactly-once mutations,
  catching up, isolation; \<open>Backend_Wire\<close>: the shape of the answers and the end of the feed;
  \<open>Backend_Concurrency\<close>: \<open>applyMutation\<close> cut at its queries, every interleaving of such transactions with rollbacks, what
  the locks guarantee over all of them and the two things they do not: first writes of one item, and the order of the feed.
  \<open>Backend_Auth\<close>: accounts, sessions, devices, rate limits, pending logins, key bundles; \<open>Backend_Routes\<close>: the handlers
  of \<open>auth\<close>, \<open>devices\<close> and \<open>account\<close>, cut at their awaits; \<open>Backend_Bundle\<close>: the two key-bundle codecs agree;
  \<open>Backend_Auth_Runs\<close>, \<open>Backend_Auth_Properties\<close>, \<open>Backend_Auth_Invariant\<close>: what every interleaving of requests keeps.

  \<^bold>\<open>Bounds.\<close>  The page loop of \<open>pull\<close> recurses on \<open>maxPages\<close>, as the source's loop counts; the catch-up theorem asks for
  one page per hundred changes and one more.  The feed reader of \<open>Backend_Wire\<close> has fuel, and its theorem gives
  enough.  The retry loop of the key-bundle publication recurses on its five attempts and is shown to need two.
  The loops of the parsers and codecs recurse on their input.

  The password generator runs on a list of random bytes, \<open>None\<close> when it has used them up; its theorem says how many
  bytes are enough, and that above 256 characters none are.

  \<^bold>\<open>Not modelled.\<close>  Markup, style and the live region of the views, and the fields of uncontrolled forms between two submissions;
  characters outside the code units of a \<open>string\<close> in fixed texts (dashes and bullets are replaced by ASCII); the Rust
  cryptography and its generated bindings, which are parameters; process start, configuration and logging of the backend;
  build scripts and fixture tools; the Rust backend, Android and desktop applications.  \<open>apps/web/src/crypto/totp.ts\<close> has the code of
  the extension's copy, which \<open>Totp\<close> models.  Mutations of the sync service overlap in \<open>Backend_Concurrency\<close>; the theorems of
  \<open>Backend_Properties\<close> and \<open>Backend_Wire\<close> are about requests one after the other.  The requests of \<open>Backend_Routes\<close>
  interleave at their queries.
\<close>

end
